(* ===== verification/Prelude.thy ===== *)
theory Prelude
  imports Main "HOL-Library.AList"
begin

text \<open>
  What every component shares: the error monad in which a Python exception is the left
  summand, Python's insertion-ordered dictionaries as association lists, and SQL tables as
  lists of rows in insertion order with the three statements the repositories issue
  (\<open>SELECT ... WHERE\<close>, \<open>UPDATE ... WHERE\<close>, \<open>DELETE ... WHERE\<close>).
  The collection \<open>table_simps\<close> rewrites those statements, \<open>res_simps\<close> inverts the monad.
\<close>

named_theorems table_simps
named_theorems res_simps

section \<open>Results: a value, or the exception that was raised\<close>

definition bind_res :: "'e + 'a \<Rightarrow> ('a \<Rightarrow> 'e + 'b) \<Rightarrow> 'e + 'b" where
  "bind_res m f = (case m of Inl e \<Rightarrow> Inl e | Inr x \<Rightarrow> f x)"

lemma bind_res_simps [simp]:
  "bind_res (Inl e) f = Inl e"
  "bind_res (Inr x) f = f x"
  by (simp_all add: bind_res_def)

lemma bind_res_Inr_iff [res_simps]:
  "bind_res m f = Inr y \<longleftrightarrow> (\<exists>x. m = Inr x \<and> f x = Inr y)"
  by (cases m) simp_all

lemma bind_res_Inl_iff [res_simps]:
  "bind_res m f = Inl e \<longleftrightarrow> m = Inl e \<or> (\<exists>x. m = Inr x \<and> f x = Inl e)"
  by (cases m) auto

lemma handled_Inr:
  "(case m of Inl e \<Rightarrow> Inl (g e) | Inr x \<Rightarrow> f x) = Inr y \<longleftrightarrow> (\<exists>x. m = Inr x \<and> f x = Inr y)"
  by (cases m) simp_all

lemma bind_res_cong [fundef_cong]:
  "m = m' \<Longrightarrow> (\<And>x. m' = Inr x \<Longrightarrow> f x = f' x) \<Longrightarrow> bind_res m f = bind_res m' f'"
  by (cases m) auto

text \<open>A loop over a list that stops at the first exception and collects the results.\<close>

fun map_res :: "('a \<Rightarrow> 'e + 'b) \<Rightarrow> 'a list \<Rightarrow> 'e + 'b list" where
  "map_res f [] = Inr []"
| "map_res f (x # xs) = bind_res (f x) (\<lambda>y. bind_res (map_res f xs) (\<lambda>ys. Inr (y # ys)))"

lemma map_res_Inr_iff [res_simps]:
  "map_res f xs = Inr ys \<longleftrightarrow> list_all2 (\<lambda>x y. f x = Inr y) xs ys"
  by (induction xs arbitrary: ys) (auto simp: res_simps list_all2_Cons1)

lemma map_res_cong [fundef_cong]:
  "xs = ys \<Longrightarrow> (\<And>x. x \<in> set ys \<Longrightarrow> f x = g x) \<Longrightarrow> map_res f xs = map_res g ys"
  by (induction ys arbitrary: xs) auto

lemma map_res_Inl_iff: "(\<exists>e. map_res f xs = Inl e) \<longleftrightarrow> (\<exists>x \<in> set xs. \<exists>e. f x = Inl e)"
proof (induction xs)
  case (Cons x xs)
  then show ?case by (cases "f x"; cases "map_res f xs") auto
qed simp

lemma map_res_Inl: "map_res f xs = Inl e \<Longrightarrow> \<exists>x \<in> set xs. f x = Inl e"
  by (induction xs) (auto simp: res_simps)

lemma map_res_length: "map_res f xs = Inr ys \<Longrightarrow> length ys = length xs"
  by (auto simp: res_simps dest: list_all2_lengthD)

section \<open>\<open>list(dict.fromkeys(xs))\<close>: drop duplicates, keep the first of each\<close>

definition fromkeys :: "'a list \<Rightarrow> 'a list" where
  "fromkeys xs = foldl (\<lambda>d x. if x \<in> set d then d else d @ [x]) [] xs"

lemma fromkeys_acc:
  assumes "distinct d"
  shows "set (foldl (\<lambda>d x. if x \<in> set d then d else d @ [x]) d xs) = set d \<union> set xs
    \<and> distinct (foldl (\<lambda>d x. if x \<in> set d then d else d @ [x]) d xs)"
  using assms by (induction xs arbitrary: d) auto

lemma set_fromkeys [simp]: "set (fromkeys xs) = set xs"
  using fromkeys_acc [of "[]" xs] by (simp add: fromkeys_def)

lemma distinct_fromkeys [simp]: "distinct (fromkeys xs)"
  using fromkeys_acc [of "[]" xs] by (simp add: fromkeys_def)

lemma fromkeys_Nil [simp]: "fromkeys [] = []"
  by (simp add: fromkeys_def)

lemma fromkeys_eq_Nil [simp]: "fromkeys xs = [] \<longleftrightarrow> xs = []"
  by (metis set_empty2 set_fromkeys set_empty)

lemma foldl_fresh:
  "distinct (d @ xs) \<Longrightarrow> foldl (\<lambda>d x. if x \<in> set d then d else d @ [x]) d xs = d @ xs"
  by (induction xs arbitrary: d) auto

lemma fromkeys_distinct: "distinct xs \<Longrightarrow> fromkeys xs = xs"
  using foldl_fresh [of "[]" xs] by (simp add: fromkeys_def)

lemma fromkeys_idem [simp]: "fromkeys (fromkeys xs) = fromkeys xs"
  by (simp add: fromkeys_distinct)

section \<open>Dictionaries in insertion order\<close>

text \<open>
  \<open>d.get(k)\<close> is \<open>map_of d k\<close>; \<open>d[k] = v\<close> is \<open>AList.update k v d\<close>, which overwrites in
  place and appends a new key at the end; \<open>d.pop(k, None)\<close> is \<open>AList.delete k d\<close>.
\<close>

type_synonym ('k, 'v) dict = "('k \<times> 'v) list"

lemma map_of_update [simp]: "map_of (AList.update k v d) k' = (if k' = k then Some v else map_of d k')"
  by (simp add: update_conv')

lemma map_of_delete [simp]: "map_of (AList.delete k d) k' = (if k' = k then None else map_of d k')"
  by (simp add: delete_conv')

lemma map_of_filter_keys:
  "distinct (map fst d) \<Longrightarrow>
   map_of (filter p d) k = (case map_of d k of None \<Rightarrow> None | Some v \<Rightarrow> if p (k, v) then Some v else None)"
proof (induction d)
  case Nil
  then show ?case by simp
next
  case (Cons e d)
  obtain k' v' where e: "e = (k', v')" by (cases e)
  have none: "map_of d k' = None"
    using Cons.prems e by (simp add: map_of_eq_None_iff)
  show ?case
  proof (cases "k = k'")
    case True
    then show ?thesis using Cons e none by auto
  next
    case False
    then show ?thesis using Cons e by auto
  qed
qed

text \<open>\<open>groups.setdefault(k, []).append(v)\<close>.\<close>

definition group_append :: "'k \<Rightarrow> 'v \<Rightarrow> ('k, 'v list) dict \<Rightarrow> ('k, 'v list) dict" where
  "group_append k v d = AList.update k ((case map_of d k of None \<Rightarrow> [] | Some vs \<Rightarrow> vs) @ [v]) d"

section \<open>Tables\<close>

definition first_row :: "'r list \<Rightarrow> 'r option" where
  "first_row rows = (case rows of [] \<Rightarrow> None | r # _ \<Rightarrow> Some r)"

definition update_where :: "('r \<Rightarrow> bool) \<Rightarrow> ('r \<Rightarrow> 'r) \<Rightarrow> 'r list \<Rightarrow> 'r list" where
  "update_where p f rows = map (\<lambda>r. if p r then f r else r) rows"

definition delete_where :: "('r \<Rightarrow> bool) \<Rightarrow> 'r list \<Rightarrow> 'r list" where
  "delete_where p rows = filter (\<lambda>r. \<not> p r) rows"

definition rowcount :: "('r \<Rightarrow> bool) \<Rightarrow> 'r list \<Rightarrow> nat" where
  "rowcount p rows = length (filter p rows)"

lemma first_row_simps [simp]: "first_row [] = None" "first_row (r # rs) = Some r"
  by (simp_all add: first_row_def)

lemma first_row_None [simp]: "first_row rows = None \<longleftrightarrow> rows = []"
  by (simp add: first_row_def split: list.splits)

lemma first_row_SomeD: "first_row rows = Some r \<Longrightarrow> r \<in> set rows"
  by (auto simp: first_row_def split: list.splits)

lemma first_row_filterD: "first_row (filter p rows) = Some r \<Longrightarrow> r \<in> set rows \<and> p r"
  by (auto dest!: first_row_SomeD)

lemma filter_singletonD: "filter p rows = [r] \<Longrightarrow> r \<in> set rows \<and> p r"
proof -
  assume "filter p rows = [r]"
  then have "r \<in> set (filter p rows)" by simp
  then show ?thesis by simp
qed

lemma update_where_simps [table_simps]:
  "update_where p f [] = []"
  "update_where p f (r # rs) = (if p r then f r else r) # update_where p f rs"
  by (simp_all add: update_where_def)

lemma set_update_where [table_simps]:
  "set (update_where p f rows) = (\<lambda>r. if p r then f r else r) ` set rows"
  by (simp add: update_where_def)

lemma length_update_where [simp]: "length (update_where p f rows) = length rows"
  by (simp add: update_where_def)

lemma set_delete_where [table_simps]: "set (delete_where p rows) = {r \<in> set rows. \<not> p r}"
  by (auto simp: delete_where_def)

lemma rowcount_0 [table_simps]: "rowcount p rows = 0 \<longleftrightarrow> (\<forall>r \<in> set rows. \<not> p r)"
  by (simp add: rowcount_def filter_empty_conv)

lemma rowcount_pos [table_simps]: "0 < rowcount p rows \<longleftrightarrow> (\<exists>r \<in> set rows. p r)"
  by (metis rowcount_0 neq0_conv)

lemma filter_update_where:
  "(\<And>r. r \<in> set rows \<Longrightarrow> p r \<Longrightarrow> \<not> q r \<and> \<not> q (f r)) \<Longrightarrow> filter q (update_where p f rows) = filter q rows"
  by (induction rows) (auto simp: update_where_def)

lemma filter_delete_where:
  "(\<And>r. r \<in> set rows \<Longrightarrow> p r \<Longrightarrow> \<not> q r) \<Longrightarrow> filter q (delete_where p rows) = filter q rows"
  by (induction rows) (auto simp: delete_where_def)

lemma update_where_none: "\<forall>r \<in> set rows. \<not> p r \<Longrightarrow> update_where p f rows = rows"
  by (simp add: update_where_def map_idI)

text \<open>A column with a \<open>UNIQUE\<close> constraint or a primary key.\<close>

abbreviation unique_by :: "('r \<Rightarrow> 'k) \<Rightarrow> 'r list \<Rightarrow> bool" where
  "unique_by key rows \<equiv> distinct (map key rows)"

lemma unique_by_update:
  "unique_by key rows \<Longrightarrow> (\<And>r. key (f r) = key r) \<Longrightarrow> unique_by key (update_where p f rows)"
proof -
  assume u: "unique_by key rows" and k: "\<And>r. key (f r) = key r"
  have "map key (update_where p f rows) = map key rows"
    by (simp add: update_where_def k)
  with u show ?thesis by simp
qed

lemma unique_by_filter: "unique_by key rows \<Longrightarrow> unique_by key (filter p rows)"
  by (simp add: distinct_map_filter)

lemma unique_by_delete: "unique_by key rows \<Longrightarrow> unique_by key (delete_where p rows)"
  by (simp add: delete_where_def distinct_map_filter)

lemma unique_by_insert: "unique_by key rows \<Longrightarrow> key r \<notin> key ` set rows \<Longrightarrow> unique_by key (rows @ [r])"
  by auto

lemma unique_byD:
  "unique_by key rows \<Longrightarrow> r \<in> set rows \<Longrightarrow> r' \<in> set rows \<Longrightarrow> key r = key r' \<Longrightarrow> r = r'"
  by (auto simp: distinct_map dest: inj_onD)

text \<open>Looking a row up by a unique key finds the row that has it, whatever the row order.\<close>

lemma first_row_unique:
  assumes "unique_by key rows" and "r \<in> set rows" and "p r"
    and "\<And>r'. r' \<in> set rows \<Longrightarrow> p r' \<Longrightarrow> key r' = key r"
  shows "first_row (filter p rows) = Some r"
proof (cases "first_row (filter p rows)")
  case None
  with assms(2,3) show ?thesis by (auto simp: filter_empty_conv)
next
  case (Some r')
  then have "r' \<in> set rows" "p r'" by (auto dest: first_row_filterD)
  then have "r' = r" using assms by (metis unique_byD)
  with Some show ?thesis by simp
qed

lemma first_row_by_key:
  "unique_by key rows \<Longrightarrow> r \<in> set rows \<Longrightarrow> first_row (filter (\<lambda>x. key x = key r) rows) = Some r"
  by (rule first_row_unique [where key = key]) auto

lemma filter_by_key:
  "unique_by key rows \<Longrightarrow> r \<in> set rows \<Longrightarrow> filter (\<lambda>x. key x = key r) rows = [r]"
proof (induction rows)
  case Nil
  then show ?case by simp
next
  case (Cons x rows)
  show ?case
  proof (cases "x = r")
    case True
    then have "filter (\<lambda>y. key y = key r) rows = []"
      using Cons.prems(1) by (auto simp: filter_empty_conv image_iff)
    with True show ?thesis by simp
  next
    case False
    then have "r \<in> set rows" using Cons.prems(2) by simp
    moreover then have "key x \<noteq> key r" using Cons.prems(1) by auto
    ultimately show ?thesis using Cons by simp
  qed
qed

end
