(* ===== verification/Retry.thy ===== *)
theory Retry
  imports Prelude
begin

text \<open>
  The retry back-off contract: a list of delays, the last of which repeats. The outbound
  queue and the webhook deliverer each have their own table and function; both interpret
  this locale. Instants and delays are integers, in microseconds.
\<close>

type_synonym instant = int

definition minutes :: "int \<Rightarrow> int" where "minutes n = n * 60 * 1000000"

definition hours :: "int \<Rightarrow> int" where "hours n = n * 60 * 60 * 1000000"

definition days :: "int \<Rightarrow> int" where "days n = n * 24 * 60 * 60 * 1000000"

definition seconds :: "int \<Rightarrow> int" where "seconds n = n * 1000000"

lemmas duration_defs = minutes_def hours_def days_def seconds_def

definition retry_index :: "'a list \<Rightarrow> int \<Rightarrow> nat" where
  "retry_index table attempts = nat (min (max (attempts - 1) 0) (int (length table) - 1))"

lemma retry_index_less: "table \<noteq> [] \<Longrightarrow> retry_index table attempts < length table"
  by (cases table) (simp_all add: retry_index_def min_def max_def nat_less_iff)

lemma retry_index_mono: "a \<le> b \<Longrightarrow> retry_index table a \<le> retry_index table b"
  by (auto simp: retry_index_def min_def max_def)

lemma retry_index_last: "int (length table) \<le> a \<Longrightarrow> retry_index table a = length table - 1"
proof (cases "length table")
  case (Suc n)
  moreover assume "int (length table) \<le> a"
  ultimately have "min (max (a - 1) 0) (int (length table) - 1) = int n" by simp
  with Suc show ?thesis by (simp add: retry_index_def)
qed (simp add: retry_index_def)

locale retry_schedule =
  fixes next_at :: "int \<Rightarrow> instant \<Rightarrow> instant"
    and delays :: "int list"
  assumes delays_nonempty: "delays \<noteq> []"
    and delays_sorted: "sorted delays"
    and delays_positive: "0 < hd delays"
    and next_at_eq: "next_at attempts now = now + delays ! retry_index delays attempts"
begin

lemma next_at_later: "now < next_at attempts now"
proof -
  have "hd delays \<le> delays ! retry_index delays attempts"
    using sorted_nth_mono [OF delays_sorted, of 0] retry_index_less [OF delays_nonempty] delays_nonempty
    by (simp add: hd_conv_nth)
  with delays_positive show ?thesis by (simp add: next_at_eq)
qed

lemma next_at_mono: "a \<le> b \<Longrightarrow> next_at a now \<le> next_at b now"
  using sorted_nth_mono [OF delays_sorted retry_index_mono retry_index_less [OF delays_nonempty]]
  by (simp add: next_at_eq)

lemma next_at_bounded: "next_at attempts now \<le> now + last delays"
proof -
  have "delays ! retry_index delays attempts \<le> delays ! (length delays - 1)"
    using retry_index_less [OF delays_nonempty, of attempts] delays_nonempty
    by (intro sorted_nth_mono [OF delays_sorted]) auto
  then show ?thesis using delays_nonempty by (simp add: next_at_eq last_conv_nth)
qed

lemma next_at_saturates: "int (length delays) \<le> a \<Longrightarrow> next_at a now = now + last delays"
  using delays_nonempty by (simp add: next_at_eq retry_index_last last_conv_nth)

end

end
