(* ===== verification/Py_Text.thy ===== *)
theory Py_Text
  imports Prelude "HOL-Library.Sublist"
begin

text \<open>
  The methods of Python's \<open>str\<close> the program calls. A string is a list of \<open>char\<close>, and a
  \<open>char\<close> stands for one of the code points U+0000 to U+00FF; on that range \<open>lower\<close>,
  \<open>isspace\<close>, \<open>strip\<close>, \<open>split\<close> and \<open>splitlines\<close> below compute what CPython computes.
  Code points above U+00FF are outside the model.
\<close>

section \<open>Character classes and case\<close>

definition is_space :: "char \<Rightarrow> bool" where
  "is_space c = (let n = (of_char c :: nat) in
     (9 \<le> n \<and> n \<le> 13) \<or> (28 \<le> n \<and> n \<le> 32) \<or> n = 133 \<or> n = 160)"

definition lower_char :: "char \<Rightarrow> char" where
  "lower_char c = (let n = (of_char c :: nat) in
     if (65 \<le> n \<and> n \<le> 90) \<or> (192 \<le> n \<and> n \<le> 222 \<and> n \<noteq> 215) then char_of (n + 32) else c)"

definition lower :: "string \<Rightarrow> string" where
  "lower s = map lower_char s"

definition is_digit :: "char \<Rightarrow> bool" where
  "is_digit c = (let n = (of_char c :: nat) in 48 \<le> n \<and> n \<le> 57)"

lemma of_char_lower_char:
  "of_char (lower_char c) =
    (let n = (of_char c :: nat) in
     if (65 \<le> n \<and> n \<le> 90) \<or> (192 \<le> n \<and> n \<le> 222 \<and> n \<noteq> 215) then n + 32 else n)"
  by (simp add: lower_char_def Let_def)

lemma lower_char_idem [simp]: "lower_char (lower_char c) = lower_char c"
  unfolding lower_char_def [of "lower_char c"]
  by (auto simp: of_char_lower_char Let_def)

lemma lower_idem [simp]: "lower (lower s) = lower s"
  by (simp add: lower_def comp_def)

lemma lower_Nil [simp]: "lower [] = []"
  by (simp add: lower_def)

lemma lower_eq_Nil [simp]: "lower s = [] \<longleftrightarrow> s = []"
  by (simp add: lower_def)

lemma lower_append [simp]: "lower (s @ t) = lower s @ lower t"
  by (simp add: lower_def)

lemma lower_char_at_iff [simp]: "lower_char c = CHR ''@'' \<longleftrightarrow> c = CHR ''@''"
proof -
  have "lower_char c = CHR ''@'' \<longleftrightarrow> of_char (lower_char c) = (of_char CHR ''@'' :: nat)"
    by (metis char_of_char)
  also have "\<dots> \<longleftrightarrow> of_char c = (of_char CHR ''@'' :: nat)"
    by (simp add: of_char_lower_char Let_def)
  also have "\<dots> \<longleftrightarrow> c = CHR ''@''"
    by (metis char_of_char)
  finally show ?thesis .
qed

lemma at_in_lower [simp]: "CHR ''@'' \<in> set (lower s) \<longleftrightarrow> CHR ''@'' \<in> set s"
proof -
  have "CHR ''@'' \<in> lower_char ` set s \<longleftrightarrow> CHR ''@'' \<in> set s"
    by (metis imageE image_eqI lower_char_at_iff)
  then show ?thesis by (simp add: lower_def)
qed

lemma is_space_lower_char [simp]: "is_space (lower_char c) = is_space c"
  by (auto simp: is_space_def of_char_lower_char Let_def)

section \<open>Stripping\<close>

definition lstrip :: "string \<Rightarrow> string" where
  "lstrip s = dropWhile is_space s"

definition rstrip :: "string \<Rightarrow> string" where
  "rstrip s = rev (dropWhile is_space (rev s))"

definition strip :: "string \<Rightarrow> string" where
  "strip s = rstrip (lstrip s)"

text \<open>\<open>s.strip(chars)\<close> and \<open>s.rstrip(chars)\<close>: the characters are a set.\<close>

definition rstrip_chars :: "string \<Rightarrow> string \<Rightarrow> string" where
  "rstrip_chars cs s = rev (dropWhile (\<lambda>c. c \<in> set cs) (rev s))"

definition strip_chars :: "string \<Rightarrow> string \<Rightarrow> string" where
  "strip_chars cs s = rstrip_chars cs (dropWhile (\<lambda>c. c \<in> set cs) s)"

lemma dropWhile_fixed: "xs = [] \<or> \<not> p (hd xs) \<Longrightarrow> dropWhile p xs = xs"
  by (cases xs) simp_all

lemma rev_dropWhile_rev_append:
  "\<exists>t. s = rev (dropWhile p (rev s)) @ t \<and> (\<forall>c \<in> set t. p c)"
proof -
  have "rev (takeWhile p (rev s) @ dropWhile p (rev s)) = s"
    by (simp only: takeWhile_dropWhile_id rev_rev_ident)
  then have "s = rev (dropWhile p (rev s)) @ rev (takeWhile p (rev s))"
    by (simp only: rev_append)
  moreover have "\<forall>c \<in> set (rev (takeWhile p (rev s))). p c"
    by (auto dest: set_takeWhileD)
  ultimately show ?thesis by blast
qed

lemma rev_dropWhile_rev_last:
  "rev (dropWhile p (rev s)) \<noteq> [] \<Longrightarrow> \<not> p (last (rev (dropWhile p (rev s))))"
  using hd_dropWhile [of p "rev s"] by (simp add: last_rev)

lemma rev_dropWhile_rev_hd:
  assumes "s \<noteq> []" and "\<not> p (hd s)"
  shows "rev (dropWhile p (rev s)) \<noteq> [] \<and> hd (rev (dropWhile p (rev s))) = hd s"
proof -
  obtain t where t: "s = rev (dropWhile p (rev s)) @ t" "\<forall>c \<in> set t. p c"
    using rev_dropWhile_rev_append [of s p] by (elim exE conjE) (rule that)
  have ne: "rev (dropWhile p (rev s)) \<noteq> []"
  proof
    assume "rev (dropWhile p (rev s)) = []"
    with t have "\<forall>c \<in> set s. p c" by simp
    with assms show False by (meson hd_in_set)
  qed
  with t(1) show ?thesis by (metis hd_append2)
qed

lemma strip_ends:
  assumes "strip s \<noteq> []"
  shows "\<not> is_space (hd (strip s))" and "\<not> is_space (last (strip s))"
proof -
  have ne: "lstrip s \<noteq> []"
    using assms by (auto simp: strip_def rstrip_def)
  then have "\<not> is_space (hd (lstrip s))"
    by (simp add: lstrip_def hd_dropWhile)
  with ne show "\<not> is_space (hd (strip s))"
    by (simp add: strip_def rstrip_def rev_dropWhile_rev_hd)
  show "\<not> is_space (last (strip s))"
    using assms rev_dropWhile_rev_last by (simp add: strip_def rstrip_def)
qed

lemma strip_fixed:
  assumes "s = [] \<or> \<not> is_space (hd s) \<and> \<not> is_space (last s)"
  shows "strip s = s"
proof (cases "s = []")
  case False
  with assms have "dropWhile is_space s = s" "dropWhile is_space (rev s) = rev s"
    by (simp_all add: dropWhile_fixed hd_rev)
  then show ?thesis by (simp add: strip_def rstrip_def lstrip_def)
qed (simp add: strip_def rstrip_def lstrip_def)

lemma strip_idem [simp]: "strip (strip s) = strip s"
  using strip_ends strip_fixed by blast

lemma dropWhile_lower: "dropWhile is_space (lower s) = lower (dropWhile is_space s)"
  by (simp add: lower_def dropWhile_map comp_def)

lemma rev_lower: "rev (lower s) = lower (rev s)"
  by (simp add: lower_def rev_map)

lemma strip_lower: "strip (lower s) = lower (strip s)"
  by (simp add: strip_def lstrip_def rstrip_def dropWhile_lower rev_lower)

text \<open>The address normalisation used everywhere: \<open>s.strip().lower()\<close>.\<close>

definition norm_addr :: "string \<Rightarrow> string" where
  "norm_addr s = lower (strip s)"

lemma norm_addr_idem [simp]: "norm_addr (norm_addr s) = norm_addr s"
  by (simp add: norm_addr_def strip_lower)

lemma norm_addr_lower [simp]: "lower (norm_addr s) = norm_addr s"
  by (simp add: norm_addr_def)

lemma norm_addr_strip [simp]: "strip (norm_addr s) = norm_addr s"
  by (simp add: norm_addr_def strip_lower)

section \<open>Searching, splitting, joining\<close>

definition starts_with :: "string \<Rightarrow> string \<Rightarrow> bool" where
  "starts_with p s = (take (length p) s = p)"

definition ends_with :: "string \<Rightarrow> string \<Rightarrow> bool" where
  "ends_with p s = starts_with (rev p) (rev s)"

fun contains :: "string \<Rightarrow> string \<Rightarrow> bool" where
  "contains p [] = (p = [])"
| "contains p (c # s) = (starts_with p (c # s) \<or> contains p s)"

text \<open>\<open>s.partition(c)\<close> for one character: before, whether found, after.\<close>

definition partition_char :: "char \<Rightarrow> string \<Rightarrow> string \<times> bool \<times> string" where
  "partition_char c s = (takeWhile (\<lambda>x. x \<noteq> c) s, c \<in> set s, tl (dropWhile (\<lambda>x. x \<noteq> c) s))"

text \<open>\<open>a, b = s.split(c, 1)\<close>, where the caller has checked that \<open>c\<close> occurs.\<close>

definition split_first :: "char \<Rightarrow> string \<Rightarrow> string \<times> string" where
  "split_first c s = (takeWhile (\<lambda>x. x \<noteq> c) s, tl (dropWhile (\<lambda>x. x \<noteq> c) s))"

text \<open>\<open>s.rsplit(c, 1)[-1]\<close>: everything after the last \<open>c\<close>, or all of it.\<close>

definition after_last :: "char \<Rightarrow> string \<Rightarrow> string" where
  "after_last c s = rev (takeWhile (\<lambda>x. x \<noteq> c) (rev s))"

text \<open>\<open>s.split(c)\<close>.\<close>

fun split_char :: "char \<Rightarrow> string \<Rightarrow> string list" where
  "split_char c [] = [[]]"
| "split_char c (x # s) =
    (if x = c then [] # split_char c s
     else case split_char c s of [] \<Rightarrow> [[x]] | w # ws \<Rightarrow> (x # w) # ws)"

text \<open>\<open>s.split()\<close>: runs of whitespace separate, no empty words.\<close>

fun split_ws_acc :: "string \<Rightarrow> string \<Rightarrow> string list" where
  "split_ws_acc w [] = (if w = [] then [] else [rev w])"
| "split_ws_acc w (c # s) =
    (if is_space c then (if w = [] then [] else [rev w]) @ split_ws_acc [] s
     else split_ws_acc (c # w) s)"

definition split_ws :: "string \<Rightarrow> string list" where
  "split_ws s = split_ws_acc [] s"

text \<open>\<open>sep.join(xs)\<close>.\<close>

fun join :: "string \<Rightarrow> string list \<Rightarrow> string" where
  "join sep [] = []"
| "join sep [x] = x"
| "join sep (x # y # xs) = x @ sep @ join sep (y # xs)"

text \<open>\<open>s.replace(c, r)\<close> for one character, and for a string.\<close>

definition replace_char :: "char \<Rightarrow> string \<Rightarrow> string \<Rightarrow> string" where
  "replace_char c r s = concat (map (\<lambda>x. if x = c then r else [x]) s)"

function replace :: "string \<Rightarrow> string \<Rightarrow> string \<Rightarrow> string" where
  "replace p r s =
    (if s = [] \<or> p = [] then s
     else if starts_with p s then r @ replace p r (drop (length p) s)
     else hd s # replace p r (tl s))"
  by pat_completeness auto
termination
  by (relation "measure (\<lambda>(p, r, s). length s)") auto

declare replace.simps [simp del]

text \<open>\<open>s.split(p, 1)\<close>: what comes before the first \<open>p\<close> and after it, \<open>None\<close> when there is none.\<close>

fun split_once :: "string \<Rightarrow> string \<Rightarrow> (string \<times> string) option" where
  "split_once p [] = (if p = [] then Some ([], []) else None)"
| "split_once p (c # s) =
    (if starts_with p (c # s) then Some ([], drop (length p) (c # s))
     else map_option (\<lambda>(a, b). (c # a, b)) (split_once p s))"

definition after_str :: "string \<Rightarrow> string \<Rightarrow> string" where
  "after_str p s = (case split_once p s of None \<Rightarrow> s | Some (_, b) \<Rightarrow> b)"

definition before_str :: "string \<Rightarrow> string \<Rightarrow> string" where
  "before_str p s = (case split_once p s of None \<Rightarrow> s | Some (a, _) \<Rightarrow> a)"

lemma split_first_append:
  assumes "c \<in> set s"
  shows "s = fst (split_first c s) @ c # snd (split_first c s)"
proof -
  have ne: "dropWhile (\<lambda>x. x \<noteq> c) s \<noteq> []"
    using assms by (metis (mono_tags, lifting) dropWhile_eq_Nil_conv)
  then have "hd (dropWhile (\<lambda>x. x \<noteq> c) s) = c"
    using hd_dropWhile [OF ne] by simp
  with ne have "dropWhile (\<lambda>x. x \<noteq> c) s = c # tl (dropWhile (\<lambda>x. x \<noteq> c) s)"
    by (cases "dropWhile (\<lambda>x. x \<noteq> c) s") simp_all
  then have "takeWhile (\<lambda>x. x \<noteq> c) s @ c # tl (dropWhile (\<lambda>x. x \<noteq> c) s) = s"
    using takeWhile_dropWhile_id [of "\<lambda>x. x \<noteq> c" s] by simp
  then show ?thesis by (simp add: split_first_def)
qed

lemma split_first_fst: "c \<notin> set (fst (split_first c s))"
  by (auto simp: split_first_def dest: set_takeWhileD)

lemma split_first_unique:
  "c \<notin> set l \<Longrightarrow> split_first c (l @ c # d) = (l, d)"
  by (induction l) (auto simp: split_first_def)

lemma split_char_nonempty [simp]: "split_char c s \<noteq> []"
  by (cases s) (auto split: list.splits)

lemma split_char_join: "join [c] (split_char c s) = s"
proof (induction s)
  case Nil
  then show ?case by simp
next
  case (Cons x s)
  obtain w ws where ws: "split_char c s = w # ws"
    by (metis list.exhaust split_char_nonempty)
  with Cons show ?case by (cases ws) auto
qed

lemma starts_with_append [simp]: "starts_with p (p @ s)"
  by (simp add: starts_with_def)

lemma starts_with_Nil [simp]: "starts_with [] s"
  by (simp add: starts_with_def)

lemma starts_with_iff: "starts_with p s \<longleftrightarrow> (\<exists>t. s = p @ t)"
  by (metis append_eq_conv_conj append_take_drop_id starts_with_def)

lemma ends_with_iff: "ends_with p s \<longleftrightarrow> (\<exists>t. s = t @ p)"
  by (metis ends_with_def rev_append rev_rev_ident starts_with_iff)

lemma contains_iff: "contains p s \<longleftrightarrow> (\<exists>a b. s = a @ p @ b)"
proof (induction s)
  case Nil
  then show ?case by auto
next
  case (Cons c s)
  have "(\<exists>a b. c # s = a @ p @ b) \<longleftrightarrow> starts_with p (c # s) \<or> (\<exists>a b. s = a @ p @ b)"
    by (auto simp: starts_with_iff Cons_eq_append_conv)
  with Cons show ?case by simp
qed

section \<open>\<open>splitlines(keepends=True)\<close>\<close>

definition is_linebreak :: "char \<Rightarrow> bool" where
  "is_linebreak c = (let n = (of_char c :: nat) in (10 \<le> n \<and> n \<le> 13) \<or> (28 \<le> n \<and> n \<le> 30) \<or> n = 133)"

fun splitlines_keep_acc :: "string \<Rightarrow> string \<Rightarrow> string list" where
  "splitlines_keep_acc w [] = (if w = [] then [] else [rev w])"
| "splitlines_keep_acc w (c # s) =
    (if c = CHR 0x0D \<and> s \<noteq> [] \<and> hd s = CHR 0x0A
     then rev (CHR 0x0A # c # w) # splitlines_keep_acc [] (tl s)
     else if is_linebreak c then rev (c # w) # splitlines_keep_acc [] s
     else splitlines_keep_acc (c # w) s)"

definition splitlines_keep :: "string \<Rightarrow> string list" where
  "splitlines_keep s = splitlines_keep_acc [] s"

text \<open>\<open>splitlines()\<close>: the same lines without their terminators.\<close>

definition splitlines :: "string \<Rightarrow> string list" where
  "splitlines s = map (\<lambda>l. rev (dropWhile is_linebreak (rev l))) (splitlines_keep s)"

lemma concat_splitlines_keep_acc: "concat (splitlines_keep_acc w s) = rev w @ s"
  by (induction w s rule: splitlines_keep_acc.induct) (auto simp: neq_Nil_conv)

lemma concat_splitlines_keep [simp]: "concat (splitlines_keep s) = s"
  by (simp add: splitlines_keep_def concat_splitlines_keep_acc)

section \<open>UUIDs and their text\<close>

text \<open>
  A UUID is its 128-bit integer. \<open>uuid_str\<close> is \<open>str(u)\<close>; \<open>as_uuid\<close> is \<open>UUID(s)\<close> with
  \<open>None\<close> for the \<open>ValueError\<close>. \<open>UUID\<close> drops \<open>urn:\<close> and \<open>uuid:\<close>, braces and dashes, wants
  32 characters, and reads them with \<open>int(_, 16)\<close>, which takes surrounding whitespace, a
  sign, a \<open>0x\<close> and single underscores between digits.
\<close>

type_synonym uuid = nat

definition hex_value :: "char \<Rightarrow> nat option" where
  "hex_value c = (let n = (of_char c :: nat) in
     if 48 \<le> n \<and> n \<le> 57 then Some (n - 48)
     else if 97 \<le> n \<and> n \<le> 102 then Some (n - 87)
     else if 65 \<le> n \<and> n \<le> 70 then Some (n - 55) else None)"

definition hex_char :: "nat \<Rightarrow> char" where
  "hex_char d = (if d < 10 then char_of (48 + d) else char_of (87 + d))"

text \<open>Digits with single underscores between them; the flag says a digit must come next.\<close>

fun hex_digits :: "bool \<Rightarrow> nat \<Rightarrow> string \<Rightarrow> nat option" where
  "hex_digits need n [] = (if need then None else Some n)"
| "hex_digits need n (c # s) =
    (case hex_value c of
       Some d \<Rightarrow> hex_digits False (16 * n + d) s
     | None \<Rightarrow> if c = CHR ''_'' \<and> \<not> need then hex_digits True n s else None)"

definition int_space :: "char \<Rightarrow> bool" where
  "int_space c \<longleftrightarrow> is_space c \<and> \<not> (28 \<le> (of_char c :: nat) \<and> (of_char c :: nat) \<le> 31)"

definition int_strip :: "string \<Rightarrow> string" where
  "int_strip s = rev (dropWhile int_space (rev (dropWhile int_space s)))"

definition int_base16 :: "string \<Rightarrow> int option" where
  "int_base16 s =
    (let t = int_strip s;
         (neg, t) = (case t of c # r \<Rightarrow> if c = CHR ''-'' then (True, r)
                                      else if c = CHR ''+'' then (False, r) else (False, t)
                             | [] \<Rightarrow> (False, t));
         t = (if starts_with ''0x'' t \<or> starts_with ''0X'' t
              then (let r = drop 2 t in if starts_with ''_'' r then tl r else r) else t)
     in map_option (\<lambda>n. if neg then - int n else int n) (hex_digits True 0 t))"

definition as_uuid :: "string \<Rightarrow> uuid option" where
  "as_uuid s =
    (let hex = replace ''uuid:'' [] (replace ''urn:'' [] s);
         hex = replace_char CHR ''-'' [] (strip_chars ''{}'' hex)
     in if length hex \<noteq> 32 then None
        else case int_base16 hex of
               None \<Rightarrow> None
             | Some i \<Rightarrow> if 0 \<le> i \<and> i < 2 ^ 128 then Some (nat i) else None)"

fun hex_of :: "nat \<Rightarrow> nat \<Rightarrow> string" where
  "hex_of 0 n = []"
| "hex_of (Suc w) n = hex_of w (n div 16) @ [hex_char (n mod 16)]"

definition uuid_str :: "uuid \<Rightarrow> string" where
  "uuid_str u = (let h = hex_of 32 u in
     take 8 h @ ''-'' @ take 4 (drop 8 h) @ ''-'' @ take 4 (drop 12 h) @ ''-''
     @ take 4 (drop 16 h) @ ''-'' @ drop 20 h)"

section \<open>UUIDs and their text\<close>

lemma replace_absent: "c \<in> set p \<Longrightarrow> c \<notin> set s \<Longrightarrow> replace p r s = s"
proof (induction s)
  case Nil
  then show ?case by (simp add: replace.simps)
next
  case (Cons x s)
  have "\<not> starts_with p (x # s)"
  proof
    assume "starts_with p (x # s)"
    then obtain t where "x # s = p @ t" by (auto simp: starts_with_iff)
    then have "c \<in> set (x # s)" using Cons.prems(1) by (metis Un_iff set_append)
    with Cons.prems(2) show False by simp
  qed
  with Cons show ?case by (subst replace.simps) simp
qed

lemma replace_keeps: "c \<in> set s \<Longrightarrow> c \<notin> set p \<Longrightarrow> c \<in> set (replace p r s)"
proof (induction p r s rule: replace.induct)
  case (1 p r s)
  show ?case
  proof (cases "s = [] \<or> p = []")
    case True
    then show ?thesis using 1(3) by (subst replace.simps) simp
  next
    case False
    then obtain x xs where s: "s = x # xs" by (cases s) auto
    show ?thesis
    proof (cases "starts_with p s")
      case True
      then obtain t where t: "s = p @ t" by (auto simp: starts_with_iff)
      then have "c \<in> set (drop (length p) s)" using 1(3,4) by simp
      with 1(1) False True 1(4) show ?thesis by (subst replace.simps) simp
    next
      case False
      then show ?thesis using 1(2,3,4) \<open>\<not> (s = [] \<or> p = [])\<close> by (subst replace.simps) (auto simp: s)
    qed
  qed
qed

lemma set_dropWhile_keeps: "c \<in> set s \<Longrightarrow> \<not> P c \<Longrightarrow> c \<in> set (dropWhile P s)"
  by (metis set_takeWhileD takeWhile_dropWhile_id Un_iff set_append)

lemma strip_chars_keeps: "c \<in> set s \<Longrightarrow> c \<notin> set cs \<Longrightarrow> c \<in> set (strip_chars cs s)"
  by (auto simp: strip_chars_def rstrip_chars_def intro!: set_dropWhile_keeps)

lemma strip_keeps: "c \<in> set s \<Longrightarrow> \<not> is_space c \<Longrightarrow> c \<in> set (strip s)"
  by (auto simp: strip_def lstrip_def rstrip_def intro!: set_dropWhile_keeps)

lemma rstrip_chars_subset: "c \<in> set (rstrip_chars cs s) \<Longrightarrow> c \<in> set s"
  by (auto simp: rstrip_chars_def dest: set_dropWhileD)

lemma strip_subset: "c \<in> set (strip s) \<Longrightarrow> c \<in> set s"
  by (auto simp: strip_def lstrip_def rstrip_def dest!: set_dropWhileD)

lemma at_in_norm_addr: "CHR ''@'' \<in> set (norm_addr s) \<longleftrightarrow> CHR ''@'' \<in> set s"
proof -
  have "\<not> is_space CHR ''@''" by (simp add: is_space_def)
  then have "CHR ''@'' \<in> set (strip s) \<longleftrightarrow> CHR ''@'' \<in> set s"
    using strip_subset [of "CHR ''@''" s] strip_keeps [of "CHR ''@''" s] by blast
  then show ?thesis by (simp add: norm_addr_def)
qed

lemma int_strip_keeps: "c \<in> set s \<Longrightarrow> \<not> is_space c \<Longrightarrow> c \<in> set (int_strip s)"
  by (auto simp: int_strip_def int_space_def intro!: set_dropWhile_keeps)

lemma strip_absent: "\<forall>c \<in> set s. \<not> is_space c \<Longrightarrow> strip s = s"
  by (rule strip_fixed) (auto simp: neq_Nil_conv dest: last_in_set hd_in_set)

lemma dropWhile_absent: "\<forall>c \<in> set s. \<not> P c \<Longrightarrow> dropWhile P s = s"
  by (cases s) auto

lemma int_strip_absent: "\<forall>c \<in> set s. \<not> is_space c \<Longrightarrow> int_strip s = s"
proof -
  assume "\<forall>c \<in> set s. \<not> is_space c"
  then have "dropWhile int_space s = s" "dropWhile int_space (rev s) = rev s"
    by (auto simp: int_space_def intro!: dropWhile_absent)
  then show ?thesis by (simp add: int_strip_def)
qed

lemma strip_chars_absent: "set cs \<inter> set s = {} \<Longrightarrow> strip_chars cs s = s"
proof -
  assume "set cs \<inter> set s = {}"
  then have "dropWhile (\<lambda>c. c \<in> set cs) s = s" "dropWhile (\<lambda>c. c \<in> set cs) (rev s) = rev s"
    by (auto intro!: dropWhile_absent)
  then show ?thesis by (simp add: strip_chars_def rstrip_chars_def)
qed

lemma replace_char_Nil: "replace_char c [] s = filter (\<lambda>x. x \<noteq> c) s"
  by (induction s) (auto simp: replace_char_def)

lemma hex_digits_chars: "hex_digits need n s = Some k \<Longrightarrow> c \<in> set s \<Longrightarrow> hex_value c \<noteq> None \<or> c = CHR ''_''"
  by (induction need n s rule: hex_digits.induct) (auto split: option.splits if_splits)

lemma int_base16_chars:
  assumes "int_base16 s = Some k" and "c \<in> set s"
  shows "hex_value c \<noteq> None \<or> is_space c \<or> c \<in> {CHR ''_'', CHR ''-'', CHR ''+'', CHR ''x'', CHR ''X''}"
proof (rule ccontr)
  assume no: "\<not> ?thesis"
  then have c: "c \<in> set (int_strip s)" using assms(2) by (simp add: int_strip_keeps)
  define t where "t = (case int_strip s of [] \<Rightarrow> [] | c # r \<Rightarrow> if c = CHR ''-'' \<or> c = CHR ''+'' then r else int_strip s)"
  have nc: "c \<noteq> CHR ''-''" "c \<noteq> CHR ''+''" "c \<noteq> CHR ''x''" "c \<noteq> CHR ''X''" "c \<noteq> CHR ''_''" "hex_value c = None"
    using no by auto
  have ct: "c \<in> set t"
    unfolding t_def using c nc(1,2) by (cases "int_strip s") auto
  define u where "u = (if starts_with ''0x'' t \<or> starts_with ''0X'' t
              then (let r = drop 2 t in if starts_with ''_'' r then tl r else r) else t)"
  have zero: "hex_value CHR ''0'' = Some 0" by (simp add: hex_value_def)
  have "c \<in> set u"
  proof (cases "starts_with ''0x'' t \<or> starts_with ''0X'' t")
    case True
    then obtain y r where t: "t = CHR ''0'' # y # r" "y = CHR ''x'' \<or> y = CHR ''X''"
      by (auto simp: starts_with_iff)
    have "c \<noteq> CHR ''0''" using nc(6) zero by auto
    then have "c \<in> set r" using ct nc(3,4) t by auto
    moreover have "c \<in> set (tl r)" if "starts_with ''_'' r" using that nc(5) \<open>c \<in> set r\<close>
      by (auto simp: starts_with_iff)
    ultimately show ?thesis by (simp add: u_def True Let_def t)
  qed (simp add: u_def ct)
  moreover have "hex_digits True 0 u \<noteq> None"
    using assms(1) by (auto simp: int_base16_def Let_def t_def u_def split: list.splits if_splits)
  ultimately show False using nc(5,6) hex_digits_chars [of True 0 u _ c] by blast
qed

lemma as_uuid_chars:
  assumes "c \<in> set s" and "c \<in> {CHR ''.'', CHR ''@''}"
  shows "as_uuid s = None"
proof -
  define h where "h = replace_char CHR ''-'' [] (strip_chars ''{}'' (replace ''uuid:'' [] (replace ''urn:'' [] s)))"
  have "c \<in> set h"
    using assms by (auto simp: h_def replace_char_Nil intro!: strip_chars_keeps replace_keeps)
  moreover have "hex_value c = None \<and> \<not> is_space c"
    using assms(2) by (auto simp: hex_value_def is_space_def)
  ultimately have "int_base16 h = None"
    using int_base16_chars [of h _ c] assms(2) by (cases "int_base16 h") auto
  then show ?thesis by (simp add: as_uuid_def h_def Let_def)
qed

definition is_hex :: "char \<Rightarrow> bool" where
  "is_hex c \<longleftrightarrow> c \<in> set ''0123456789abcdef''"

lemma hex_table: "list_all (\<lambda>d. is_hex (hex_char d) \<and> hex_value (hex_char d) = Some d) [0..<16]"
  by code_simp

lemma is_hex_char: "d < 16 \<Longrightarrow> is_hex (hex_char d) \<and> hex_value (hex_char d) = Some d"
  using hex_table by (simp only: list_all_iff set_upt atLeastLessThan_iff) auto

lemma is_hex_hex_of: "c \<in> set (hex_of w n) \<Longrightarrow> is_hex c"
  using is_hex_char [of "_ mod 16"] by (induction w n rule: hex_of.induct) auto

lemma hex_facts: "is_hex c \<Longrightarrow> hex_value c \<noteq> None \<and> \<not> is_space c \<and> c \<notin> set ''-+xX_{}:rnu''"
proof -
  have "list_all (\<lambda>c. hex_value c \<noteq> None \<and> \<not> is_space c \<and> c \<notin> set ''-+xX_{}:rnu'') ''0123456789abcdef''"
    by code_simp
  then show "is_hex c \<Longrightarrow> hex_value c \<noteq> None \<and> \<not> is_space c \<and> c \<notin> set ''-+xX_{}:rnu''"
    unfolding is_hex_def list_all_iff by blast
qed

lemma length_hex_of [simp]: "length (hex_of w n) = w"
  by (induction w n rule: hex_of.induct) auto

lemma hex_digits_append:
  "hex_digits need m (xs @ [hex_char (d mod 16)]) =
    (case hex_digits False m xs of None \<Rightarrow> None | Some k \<Rightarrow> Some (16 * k + d mod 16))"
  if "\<forall>c \<in> set xs. hex_value c \<noteq> None"
  using that is_hex_char [of "d mod 16"]
  by (induction xs arbitrary: need m) auto

lemma hex_digits_hex_of:
  "hex_digits False m (hex_of w n) = Some (m * 16 ^ w + n mod 16 ^ w)"
proof (induction w n rule: hex_of.induct)
  case (1 n)
  then show ?case by simp
next
  case (2 w n)
  have "\<forall>c \<in> set (hex_of w (n div 16)). hex_value c \<noteq> None"
    using is_hex_hex_of hex_facts by blast
  with 2 have "hex_digits False m (hex_of (Suc w) n) = Some (16 * (m * 16 ^ w + n div 16 mod 16 ^ w) + n mod 16)"
    by (simp add: hex_digits_append)
  also have "16 * (n div 16 mod 16 ^ w) + n mod 16 = n mod 16 ^ Suc w"
    by (simp add: mod_mult2_eq)
  then have "16 * (m * 16 ^ w + n div 16 mod 16 ^ w) + n mod 16 = m * 16 ^ Suc w + n mod 16 ^ Suc w"
    by simp
  finally show ?case .
qed

lemma int_base16_hex_of:
  assumes "0 < w"
  shows "int_base16 (hex_of w n) = Some (int (n mod 16 ^ w))"
proof -
  let ?h = "hex_of w n"
  have chars: "hex_value c \<noteq> None \<and> \<not> is_space c \<and> c \<notin> set ''-+xX_{}:rnu''" if "c \<in> set ?h" for c
    using that is_hex_hex_of hex_facts by blast
  obtain c r where h: "?h = c # r" using assms by (cases ?h) (use length_hex_of [of w n] in auto)
  have st: "int_strip ?h = ?h" using chars by (intro int_strip_absent) auto
  have c: "c \<noteq> CHR ''-''" "c \<noteq> CHR ''+''" using chars [of c] h by auto
  have x: "\<not> starts_with ''0x'' ?h" "\<not> starts_with ''0X'' ?h"
    using chars [of "CHR ''x''"] chars [of "CHR ''X''"] by (auto simp: starts_with_iff)
  have "hex_digits True 0 ?h = hex_digits False 0 ?h"
    using chars [of c] h by (auto split: option.splits)
  then have "hex_digits True 0 ?h = Some (n mod 16 ^ w)"
    by (simp add: hex_digits_hex_of)
  with st c x show ?thesis by (simp add: int_base16_def Let_def h)
qed

lemma set_uuid_str: "c \<in> set (uuid_str u) \<Longrightarrow> is_hex c \<or> c = CHR ''-''"
  using is_hex_hex_of [of c 32 u] by (auto simp: uuid_str_def Let_def dest: in_set_takeD in_set_dropD)

lemma uuid_str_hex: "filter (\<lambda>x. x \<noteq> CHR ''-'') (uuid_str u) = hex_of 32 u"
proof -
  let ?h = "hex_of 32 u"
  have no: "\<forall>c \<in> set ?h. c \<noteq> CHR ''-''"
    using is_hex_hex_of [of _ 32 u] hex_facts by fastforce
  have f: "filter (\<lambda>x. x \<noteq> CHR ''-'') (take k (drop m ?h)) = take k (drop m ?h)" for k m
    using no by (auto intro!: filter_True dest: in_set_takeD in_set_dropD)
  have f0: "filter (\<lambda>x. x \<noteq> CHR ''-'') (take k ?h) = take k ?h"
    "filter (\<lambda>x. x \<noteq> CHR ''-'') (drop k ?h) = drop k ?h" for k
    using no by (auto intro!: filter_True dest: in_set_takeD in_set_dropD)
  have "filter (\<lambda>x. x \<noteq> CHR ''-'') (uuid_str u) =
      take 8 ?h @ take 4 (drop 8 ?h) @ take 4 (drop 12 ?h) @ take 4 (drop 16 ?h) @ drop 20 ?h"
    by (simp add: uuid_str_def Let_def f f0)
  also have "\<dots> = ?h"
    using append_take_drop_id [of 8 ?h] append_take_drop_id [of 4 "drop 8 ?h"]
      append_take_drop_id [of 4 "drop 12 ?h"] append_take_drop_id [of 4 "drop 16 ?h"]
    by (simp add: drop_drop)
  finally show ?thesis .
qed

lemma as_uuid_uuid_str: "u < 2 ^ 128 \<Longrightarrow> as_uuid (uuid_str u) = Some u"
proof -
  assume u: "u < 2 ^ 128"
  let ?s = "uuid_str u"
  have no: "c \<notin> set ?s" if "c \<in> set ''{}:rnu''" for c
    using that set_uuid_str [of c u] hex_facts [of c] by auto
  have "replace ''urn:'' [] ?s = ?s" by (rule replace_absent [of "CHR '':''"]) (use no in auto)
  moreover have "replace ''uuid:'' [] ?s = ?s" by (rule replace_absent [of "CHR '':''"]) (use no in auto)
  moreover have "strip_chars ''{}'' ?s = ?s" by (rule strip_chars_absent) (use no in auto)
  moreover have "(16 :: nat) ^ 32 = 2 ^ 128" by (simp flip: power_mult [of 2 4 32])
  ultimately show ?thesis using u
    by (simp add: as_uuid_def Let_def replace_char_Nil uuid_str_hex int_base16_hex_of nat_less_iff
        del: hex_of.simps)
qed

lemma uuid_str_inj: "u < 2 ^ 128 \<Longrightarrow> v < 2 ^ 128 \<Longrightarrow> uuid_str u = uuid_str v \<longleftrightarrow> u = v"
  by (metis as_uuid_uuid_str option.inject)

text \<open>\<open>uuid4()\<close> yields 128-bit values.\<close>

definition valid_uuid :: "uuid \<Rightarrow> bool" where
  "valid_uuid u \<longleftrightarrow> u < 2 ^ 128"

lemma as_uuid_valid [simp]: "valid_uuid u \<Longrightarrow> as_uuid (uuid_str u) = Some u"
  unfolding valid_uuid_def by (rule as_uuid_uuid_str)

section \<open>Optional text\<close>

text \<open>The truth of a \<open>str | None\<close>.\<close>

definition truthy :: "string option \<Rightarrow> bool" where
  "truthy v = (case v of None \<Rightarrow> False | Some s \<Rightarrow> s \<noteq> [])"

section \<open>Decimal text\<close>

text \<open>\<open>str\<close> of an integer.\<close>

function digits_of :: "int \<Rightarrow> string" where
  "digits_of n = (if n < 10 then [char_of (48 + nat n)] else digits_of (n div 10) @ [char_of (48 + nat (n mod 10))])"
  by pat_completeness auto
termination
  by (relation "measure nat") (auto simp: zless_nat_eq_int_zless)

declare digits_of.simps [simp del]

definition dec_str :: "int \<Rightarrow> string" where
  "dec_str n = (if n < 0 then CHR ''-'' # digits_of (- n) else digits_of n)"

text \<open>\<open>int(s)\<close>: surrounding whitespace, a sign, digits with single underscores between them.\<close>

definition digit_value :: "char \<Rightarrow> int" where
  "digit_value c = of_char c - 48"

fun dec_digits :: "bool \<Rightarrow> int \<Rightarrow> string \<Rightarrow> int option" where
  "dec_digits need n [] = (if need then None else Some n)"
| "dec_digits need n (c # s) =
    (if is_digit c then dec_digits False (10 * n + digit_value c) s
     else if c = CHR ''_'' \<and> \<not> need then dec_digits True n s else None)"

definition int_base10 :: "string \<Rightarrow> int option" where
  "int_base10 s =
    (case int_strip s of
       [] \<Rightarrow> None
     | c # r \<Rightarrow> if c = CHR ''-'' then map_option uminus (dec_digits True 0 r)
                else if c = CHR ''+'' then dec_digits True 0 r else dec_digits True 0 (c # r))"

lemma dec_digits_no_dot: "dec_digits need n s = Some k \<Longrightarrow> CHR ''.'' \<notin> set s"
  by (induction need n s rule: dec_digits.induct) (auto simp: is_digit_def split: if_splits)

end
