(* ===== verification/Queue.thy ===== *)
theory Queue
  imports Retry Py_Text
begin

text \<open>
  \<open>src/src/lightr/mail/queue.py\<close>: the table \<open>email_queue\<close> as a list of rows and the
  operations of \<open>Queue\<close> on it. The instant \<open>_now()\<close> and the fresh \<open>uuid4()\<close> are arguments.
  A JSON column holds the list it encodes. Then the senders' concurrent use of the queue as a
  step relation, and the invariants of its reachable states.
\<close>

section \<open>Rows, messages, statuses\<close>

datatype queue_status = PENDING | SENDING | SENT | FAILED | DEFERRED

record queue_row =
  q_id :: uuid
  q_org_id :: uuid
  q_domain_id :: uuid
  q_from_addr :: string
  q_to_addrs :: "string list"
  q_subject :: string
  q_body :: string
  q_html_body :: "string option"
  q_headers :: "(string, string) dict"
  q_raw :: "string option"
  q_envelope_from :: "string option"
  q_status :: queue_status
  q_attempts :: int
  q_max_attempts :: int
  q_last_error :: "string option"
  q_next_retry :: instant
  q_created_at :: instant
  q_updated_at :: instant
  q_delivered_at :: "instant option"

record queued_message =
  m_id :: uuid
  m_org_id :: uuid
  m_domain_id :: uuid
  m_from_addr :: string
  m_to_addrs :: "string list"
  m_subject :: string
  m_body :: string
  m_status :: queue_status
  m_attempts :: int
  m_max_attempts :: int
  m_next_retry :: instant
  m_last_error :: "string option"
  m_raw :: "string option"
  m_envelope_from :: "string option"

datatype queue_error =
    NoRecipients
  | DuplicateId uuid   \<comment> \<open>the primary key constraint\<close>
  | NoQueuedMessage uuid

type_synonym queue_table = "queue_row list"

definition RETRY_DELAYS :: "int list" where
  "RETRY_DELAYS = [minutes 1, minutes 5, minutes 30, hours 2, hours 8]"

definition DEFAULT_MAX_ATTEMPTS :: int where "DEFAULT_MAX_ATTEMPTS = 5"

text \<open>\<open>envelope_from or from_addr\<close>: an empty string counts as absent.\<close>

definition message_sender :: "queued_message \<Rightarrow> string" where
  "message_sender m = (case m_envelope_from m of
     Some s \<Rightarrow> if s = [] then m_from_addr m else s | None \<Rightarrow> m_from_addr m)"

definition message_exhausted :: "queued_message \<Rightarrow> bool" where
  "message_exhausted m \<longleftrightarrow> m_attempts m \<ge> m_max_attempts m"

definition to_message :: "queue_row \<Rightarrow> queued_message" where
  "to_message r = \<lparr>m_id = q_id r, m_org_id = q_org_id r, m_domain_id = q_domain_id r,
     m_from_addr = q_from_addr r, m_to_addrs = q_to_addrs r, m_subject = q_subject r,
     m_body = q_body r, m_status = q_status r, m_attempts = q_attempts r,
     m_max_attempts = (if q_max_attempts r = 0 then DEFAULT_MAX_ATTEMPTS else q_max_attempts r),
     m_next_retry = q_next_retry r, m_last_error = q_last_error r, m_raw = q_raw r,
     m_envelope_from = q_envelope_from r\<rparr>"

definition classify_failure :: "int \<Rightarrow> queue_status" where
  "classify_failure code = (if 400 \<le> code \<and> code < 500 then DEFERRED else FAILED)"

definition next_retry_at :: "int \<Rightarrow> instant \<Rightarrow> instant" where
  "next_retry_at attempts moment =
    (let index = min (max (attempts - 1) 0) (int (length RETRY_DELAYS) - 1)
     in moment + RETRY_DELAYS ! nat index)"

interpretation mail_backoff: retry_schedule next_retry_at RETRY_DELAYS
  by unfold_locales (auto simp: RETRY_DELAYS_def duration_defs next_retry_at_def retry_index_def)

section \<open>The operations of \<open>Queue\<close>\<close>

definition enqueue ::
  "uuid \<Rightarrow> instant \<Rightarrow> uuid \<Rightarrow> uuid \<Rightarrow> string \<Rightarrow> string list \<Rightarrow> string \<Rightarrow> string \<Rightarrow> string option \<Rightarrow>
   (string, string) dict \<Rightarrow> int \<Rightarrow> string option \<Rightarrow> string option \<Rightarrow> queue_table \<Rightarrow>
   queue_error + uuid \<times> queue_table" where
  "enqueue message_id now org_id domain_id from_addr to_addrs subject body html_body headers
     max_attempts raw envelope_from t =
    (if to_addrs = [] then Inl NoRecipients
     else if message_id \<in> q_id ` set t then Inl (DuplicateId message_id)
     else Inr (message_id, t @ [\<lparr>
       q_id = message_id, q_org_id = org_id, q_domain_id = domain_id, q_from_addr = from_addr,
       q_to_addrs = to_addrs, q_subject = subject, q_body = body, q_html_body = html_body,
       q_headers = headers, q_raw = raw, q_envelope_from = envelope_from, q_status = PENDING,
       q_attempts = 0, q_max_attempts = max_attempts, q_last_error = None, q_next_retry = now,
       q_created_at = now, q_updated_at = now, q_delivered_at = None\<rparr>]))"

definition queue_get :: "uuid \<Rightarrow> queue_table \<Rightarrow> queued_message option" where
  "queue_get i t = map_option to_message (first_row (filter (\<lambda>r. q_id r = i) t))"

definition claimable :: "queue_row \<Rightarrow> bool" where
  "claimable r \<longleftrightarrow> q_status r \<in> {PENDING, DEFERRED}"

text \<open>The ids the \<open>SELECT\<close> returns, and one conditional \<open>UPDATE\<close> with its \<open>rowcount\<close>.\<close>

definition due :: "nat \<Rightarrow> instant \<Rightarrow> queue_table \<Rightarrow> uuid list" where
  "due limit now t =
    map q_id (take limit (sort_key q_next_retry (filter (\<lambda>r. claimable r \<and> q_next_retry r \<le> now) t)))"

definition claim_one :: "instant \<Rightarrow> uuid \<Rightarrow> queue_table \<Rightarrow> bool \<times> queue_table" where
  "claim_one now i t =
    (let p = (\<lambda>r. q_id r = i \<and> claimable r)
     in (0 < rowcount p t, update_where p (\<lambda>r. r\<lparr>q_status := SENDING, q_updated_at := now\<rparr>) t))"

fun claim_all :: "instant \<Rightarrow> uuid list \<Rightarrow> queue_table \<Rightarrow> queued_message list \<times> queue_table" where
  "claim_all now [] t = ([], t)"
| "claim_all now (i # ids) t =
    (let (hit, t') = claim_one now i t;
         mine = (if hit then (case queue_get i t' of Some m \<Rightarrow> [m] | None \<Rightarrow> []) else []);
         (rest, t'') = claim_all now ids t'
     in (mine @ rest, t''))"

definition claim :: "nat \<Rightarrow> instant \<Rightarrow> queue_table \<Rightarrow> queued_message list \<times> queue_table" where
  "claim limit now t = claim_all now (due limit now t) t"

definition mark_sent :: "uuid \<Rightarrow> instant \<Rightarrow> queue_table \<Rightarrow> queue_table" where
  "mark_sent i now t = update_where (\<lambda>r. q_id r = i)
    (\<lambda>r. r\<lparr>q_status := SENT, q_delivered_at := Some now, q_updated_at := now, q_last_error := None\<rparr>) t"

definition failure_outcome :: "int \<Rightarrow> int \<Rightarrow> int \<Rightarrow> queue_status" where
  "failure_outcome code attempts max_attempts =
    (let outcome = classify_failure code
     in if outcome = DEFERRED \<and> attempts \<ge> max_attempts then FAILED else outcome)"

definition mark_failed ::
  "uuid \<Rightarrow> int \<Rightarrow> string \<Rightarrow> instant \<Rightarrow> queue_table \<Rightarrow> queue_error + queue_status \<times> queue_table" where
  "mark_failed i code err now t =
    (case queue_get i t of
       None \<Rightarrow> Inl (NoQueuedMessage i)
     | Some message \<Rightarrow>
         let attempts = m_attempts message + 1;
             outcome = failure_outcome code attempts (m_max_attempts message)
         in Inr (outcome, update_where (\<lambda>r. q_id r = i)
              (\<lambda>r. r\<lparr>q_status := outcome, q_attempts := attempts, q_last_error := Some (take 1000 err),
                     q_next_retry := next_retry_at attempts now, q_updated_at := now\<rparr>) t))"

definition release :: "uuid \<Rightarrow> instant \<Rightarrow> queue_table \<Rightarrow> queue_table" where
  "release i now t = update_where (\<lambda>r. q_id r = i \<and> q_status r = SENDING)
    (\<lambda>r. r\<lparr>q_status := PENDING, q_updated_at := now\<rparr>) t"

definition queue_list :: "queue_status option \<Rightarrow> nat \<Rightarrow> queue_table \<Rightarrow> queued_message list" where
  "queue_list status limit t =
    map to_message (take limit (sort_key (\<lambda>r. - q_created_at r)
      (filter (\<lambda>r. case status of None \<Rightarrow> True | Some s \<Rightarrow> q_status r = s) t)))"

text \<open>\<open>retry_now\<close> reads the clock twice.\<close>

definition retry_now :: "uuid \<Rightarrow> instant \<Rightarrow> instant \<Rightarrow> queue_table \<Rightarrow> queue_table" where
  "retry_now i now1 now2 t = update_where (\<lambda>r. q_id r = i)
    (\<lambda>r. r\<lparr>q_status := PENDING, q_next_retry := now1, q_updated_at := now2\<rparr>) t"

definition purge :: "int \<Rightarrow> queue_status \<Rightarrow> instant \<Rightarrow> queue_table \<Rightarrow> nat \<times> queue_table" where
  "purge older_than status now t =
    (let cutoff = now - older_than; p = (\<lambda>r. q_status r = status \<and> q_updated_at r < cutoff)
     in (rowcount p t, delete_where p t))"

definition counts :: "queue_table \<Rightarrow> (queue_status, nat) dict" where
  "counts t = map (\<lambda>s. (s, rowcount (\<lambda>r. q_status r = s) t)) (fromkeys (map q_status t))"

section \<open>What the operations do\<close>

lemmas queue_op_defs = mark_sent_def mark_failed_def release_def retry_now_def purge_def

abbreviation mark_sending :: "instant \<Rightarrow> queue_row \<Rightarrow> queue_row" where
  "mark_sending now r \<equiv> r\<lparr>q_status := SENDING, q_updated_at := now\<rparr>"

lemma claim_one_hit: "fst (claim_one now i t) \<longleftrightarrow> (\<exists>r \<in> set t. q_id r = i \<and> claimable r)"
  by (simp add: claim_one_def Let_def table_simps)

lemma claim_one_table:
  "snd (claim_one now i t) = update_where (\<lambda>r. q_id r = i \<and> claimable r) (mark_sending now) t"
  by (simp add: claim_one_def Let_def)

lemma mark_sending_not_claimable [simp]: "\<not> claimable (mark_sending now r)"
  by (simp add: claimable_def)

lemma claim_all_table:
  "snd (claim_all now ids t) = update_where (\<lambda>r. q_id r \<in> set ids \<and> claimable r) (mark_sending now) t"
proof (induction ids arbitrary: t)
  case Nil
  then show ?case by (simp add: update_where_none)
next
  case (Cons i ids)
  show ?case
    by (auto simp: Let_def split_beta claim_one_table Cons.IH update_where_def)
qed

lemma queue_get_row:
  "unique_by q_id t \<Longrightarrow> r \<in> set t \<Longrightarrow> queue_get (q_id r) t = Some (to_message r)"
  by (simp add: queue_get_def first_row_by_key)

lemma queue_get_Some: "queue_get i t = Some m \<Longrightarrow> \<exists>r \<in> set t. q_id r = i \<and> m = to_message r"
  by (auto simp: queue_get_def dest!: first_row_filterD)

lemma queue_get_None: "queue_get i t = None \<longleftrightarrow> i \<notin> q_id ` set t"
  by (auto simp: queue_get_def filter_empty_conv)

lemma claim_all_messages:
  assumes "unique_by q_id t" and "distinct (map q_id rs)"
    and "\<forall>r \<in> set rs. r \<in> set t \<and> claimable r"
  shows "fst (claim_all now (map q_id rs) t) = map (to_message \<circ> mark_sending now) rs"
  using assms
proof (induction rs arbitrary: t)
  case Nil
  then show ?case by simp
next
  case (Cons r rs)
  let ?t = "update_where (\<lambda>x. q_id x = q_id r \<and> claimable x) (mark_sending now) t"
  have r: "r \<in> set t" "claimable r" using Cons.prems by auto
  have u: "unique_by q_id ?t" by (rule unique_by_update) (use Cons.prems in simp_all)
  have "mark_sending now r \<in> set ?t" using r by (auto simp: set_update_where)
  from queue_get_row [OF u this]
  have get: "queue_get (q_id r) ?t = Some (to_message (mark_sending now r))" by simp
  have "\<forall>x \<in> set rs. x \<in> set ?t \<and> claimable x"
  proof
    fix x assume x: "x \<in> set rs"
    then have "q_id x \<noteq> q_id r" using Cons.prems(2) by (auto simp: image_iff)
    with x Cons.prems(3) show "x \<in> set ?t \<and> claimable x"
      by (auto simp: set_update_where intro!: rev_image_eqI [of x])
  qed
  from Cons.IH [OF u _ this] Cons.prems(2)
  have rest: "fst (claim_all now (map q_id rs) ?t) = map (to_message \<circ> mark_sending now) rs" by simp
  have "fst (claim_one now (q_id r) t)" using r by (auto simp: claim_one_hit)
  then show ?case by (simp add: Let_def split_beta claim_one_table get rest)
qed

text \<open>The rows a batch takes: due and claimable, the longest due first, at most \<open>limit\<close>.\<close>

definition due_rows :: "nat \<Rightarrow> instant \<Rightarrow> queue_table \<Rightarrow> queue_row list" where
  "due_rows limit now t =
    take limit (sort_key q_next_retry (filter (\<lambda>r. claimable r \<and> q_next_retry r \<le> now) t))"

lemma set_due_rows: "r \<in> set (due_rows limit now t) \<Longrightarrow> r \<in> set t \<and> claimable r \<and> q_next_retry r \<le> now"
  by (auto simp: due_rows_def dest: in_set_takeD)

lemma distinct_map_sort_key:
  "distinct (map f xs) \<Longrightarrow> distinct (map f (sort_key g xs))"
  by (simp add: distinct_map)

lemma distinct_due_rows: "unique_by q_id t \<Longrightarrow> unique_by q_id (due_rows limit now t)"
  unfolding due_rows_def take_map [symmetric]
  by (intro distinct_take distinct_map_sort_key unique_by_filter)

lemma due_ids: "due limit now t = map q_id (due_rows limit now t)"
  by (simp add: due_def due_rows_def)

lemma claim_takes_due_rows_messages:
  "unique_by q_id t \<Longrightarrow>
   fst (claim limit now t) = map (to_message \<circ> mark_sending now) (due_rows limit now t)"
  unfolding claim_def due_ids
  by (rule claim_all_messages) (auto simp: distinct_due_rows dest: set_due_rows)

lemma claim_takes_due_rows_table:
  assumes "unique_by q_id t"
  shows "snd (claim limit now t) =
    update_where (\<lambda>r. r \<in> set (due_rows limit now t)) (mark_sending now) t"
proof -
  have "(q_id r \<in> set (map q_id (due_rows limit now t)) \<and> claimable r) \<longleftrightarrow> r \<in> set (due_rows limit now t)"
    if "r \<in> set t" for r
    unfolding set_map image_iff using that set_due_rows unique_byD [OF assms that] by metis
  then show ?thesis
    unfolding claim_def due_ids claim_all_table update_where_def by simp
qed

text \<open>
  C12. \<open>claim\<close> in one transaction: for a table whose ids are unique, the messages returned
  are the due rows (\<open>PENDING\<close> or \<open>DEFERRED\<close> with \<open>next_retry <= now\<close>), longest due first, at
  most \<open>limit\<close> of them, each read back as \<open>SENDING\<close>; exactly those rows are marked
  \<open>SENDING\<close> in the table and every other row is as it was.
\<close>

theorem claim_takes_due_rows:
  assumes "unique_by q_id t"
  shows "claim limit now t =
    (map (to_message \<circ> mark_sending now) (due_rows limit now t),
     update_where (\<lambda>r. r \<in> set (due_rows limit now t)) (mark_sending now) t)"
  using claim_takes_due_rows_messages [OF assms] claim_takes_due_rows_table [OF assms]
  by (simp add: prod_eq_iff)

definition sample_row :: "uuid \<Rightarrow> queue_status \<Rightarrow> instant \<Rightarrow> queue_row" where
  "sample_row i s next = \<lparr>q_id = i, q_org_id = 1, q_domain_id = 2, q_from_addr = ''a@x'',
     q_to_addrs = [''b@y''], q_subject = [], q_body = [], q_html_body = None, q_headers = [],
     q_raw = None, q_envelope_from = None, q_status = s, q_attempts = 0, q_max_attempts = 5,
     q_last_error = None, q_next_retry = next, q_created_at = 0, q_updated_at = 0,
     q_delivered_at = None\<rparr>"

lemma claim_takes_due_rows_witness:
  "map m_id (fst (claim 1 10 [sample_row 7 DEFERRED 9, sample_row 8 PENDING 3, sample_row 9 SENT 0])) = [8]"
proof -
  have "unique_by q_id [sample_row 7 DEFERRED 9, sample_row 8 PENDING 3, sample_row 9 SENT 0]"
    by (simp add: sample_row_def)
  from claim_takes_due_rows [OF this, of 1 10] show ?thesis
    by (simp add: due_rows_def claimable_def sample_row_def to_message_def)
qed

text \<open>
  A claimed message is not claimable again, so a second sender that claims after the first
  one committed gets none of its messages.
\<close>

lemma in_update_where:
  "r \<in> set (update_where p f t) \<longleftrightarrow> (\<exists>r0 \<in> set t. r = (if p r0 then f r0 else r0))"
  by (auto simp: set_update_where)

lemma to_message_id [simp]: "m_id (to_message r) = q_id r"
  and to_message_status [simp]: "m_status (to_message r) = q_status r"
  and to_message_attempts [simp]: "m_attempts (to_message r) = q_attempts r"
  by (simp_all add: to_message_def)

text \<open>
  Two batches that run one after the other, at any times and with any limits, never
  return the same message.
\<close>

theorem claims_disjoint:
  assumes "unique_by q_id t"
  shows "m_id ` set (fst (claim n1 now1 t)) \<inter> m_id ` set (fst (claim n2 now2 (snd (claim n1 now1 t)))) = {}"
proof -
  let ?t = "snd (claim n1 now1 t)"
  have t: "?t = update_where (\<lambda>r. r \<in> set (due_rows n1 now1 t)) (mark_sending now1) t"
    by (simp add: claim_takes_due_rows_table assms)
  have u: "unique_by q_id ?t" unfolding t by (rule unique_by_update) (use assms in simp_all)
  have "False" if "r1 \<in> set (due_rows n1 now1 t)" "r2 \<in> set (due_rows n2 now2 ?t)" "q_id r1 = q_id r2" for r1 r2
  proof -
    have "r2 \<in> set ?t" "claimable r2" using set_due_rows [OF that(2)] by auto
    then obtain r0 where r0: "r0 \<in> set t" "r2 = (if r0 \<in> set (due_rows n1 now1 t) then mark_sending now1 r0 else r0)"
      unfolding t in_update_where by blast
    have "q_id r0 = q_id r1" using r0 that(3) by (simp split: if_splits)
    then have "r0 = r1" using unique_byD [OF assms] r0 set_due_rows [OF that(1)] by blast
    with r0 that(1) \<open>claimable r2\<close> show False by simp
  qed
  then show ?thesis
    by (auto simp: claim_takes_due_rows_messages [OF assms] claim_takes_due_rows_messages [OF u])
qed

lemma claims_disjoint_witness:
  "m_id ` set (fst (claim 1 10 [sample_row 7 DEFERRED 9, sample_row 8 PENDING 3])) = {8} \<and>
   8 \<notin> m_id ` set (fst (claim 5 20 (snd (claim 1 10 [sample_row 7 DEFERRED 9, sample_row 8 PENDING 3]))))"
proof -
  have u: "unique_by q_id [sample_row 7 DEFERRED 9, sample_row 8 PENDING 3]" by (simp add: sample_row_def)
  have "m_id ` set (fst (claim 1 10 [sample_row 7 DEFERRED 9, sample_row 8 PENDING 3])) = {8}"
    unfolding claim_takes_due_rows_messages [OF u]
    by (simp add: due_rows_def claimable_def sample_row_def to_message_def)
  with claims_disjoint [OF u, of 1 10 5 20] show ?thesis by (auto simp del: fst_conv)
qed

section \<open>Failures\<close>

lemma unique_by_step: "unique_by q_id t \<Longrightarrow> (\<And>r. q_id (f r) = q_id r) \<Longrightarrow> unique_by q_id (update_where p f t)"
  by (rule unique_by_update)

text \<open>What \<open>mark_failed\<close> makes of the row.\<close>

definition failed_row :: "int \<Rightarrow> string \<Rightarrow> instant \<Rightarrow> queue_row \<Rightarrow> queue_row" where
  "failed_row code err now r =
    (let a = q_attempts r + 1
     in r\<lparr>q_status := failure_outcome code a (m_max_attempts (to_message r)), q_attempts := a,
          q_last_error := Some (take 1000 err), q_next_retry := next_retry_at a now, q_updated_at := now\<rparr>)"

lemma failed_row_fields [simp]:
  "q_id (failed_row code err now r) = q_id r"
  "q_max_attempts (failed_row code err now r) = q_max_attempts r"
  "q_attempts (failed_row code err now r) = q_attempts r + 1"
  "q_status (failed_row code err now r) = failure_outcome code (q_attempts r + 1) (m_max_attempts (to_message r))"
  "m_max_attempts (to_message (failed_row code err now r)) = m_max_attempts (to_message r)"
  by (simp_all add: failed_row_def Let_def to_message_def)

lemma mark_failed_row:
  assumes "unique_by q_id t" and "r \<in> set t"
  shows "mark_failed (q_id r) code err now t =
    Inr (failure_outcome code (q_attempts r + 1) (m_max_attempts (to_message r)),
         update_where (\<lambda>x. q_id x = q_id r) (failed_row code err now) t)"
proof -
  have "update_where (\<lambda>x. q_id x = q_id r) (\<lambda>x. x\<lparr>q_status := failure_outcome code (q_attempts r + 1) (m_max_attempts (to_message r)),
      q_attempts := q_attempts r + 1, q_last_error := Some (take 1000 err),
      q_next_retry := next_retry_at (q_attempts r + 1) now, q_updated_at := now\<rparr>) t
    = update_where (\<lambda>x. q_id x = q_id r) (failed_row code err now) t"
    unfolding update_where_def
  proof (rule map_cong [OF refl])
    fix x assume x: "x \<in> set t"
    show "(if q_id x = q_id r then x\<lparr>q_status := failure_outcome code (q_attempts r + 1) (m_max_attempts (to_message r)),
      q_attempts := q_attempts r + 1, q_last_error := Some (take 1000 err),
      q_next_retry := next_retry_at (q_attempts r + 1) now, q_updated_at := now\<rparr> else x)
      = (if q_id x = q_id r then failed_row code err now x else x)"
    proof (cases "q_id x = q_id r")
      case True
      with unique_byD [OF assms(1) x assms(2)] have "x = r" by blast
      then show ?thesis by (simp add: failed_row_def Let_def)
    qed simp
  qed
  then show ?thesis
    by (simp add: mark_failed_def queue_get_row [OF assms] Let_def)
qed

lemma mark_failed_missing: "i \<notin> q_id ` set t \<Longrightarrow> mark_failed i code err now t = Inl (NoQueuedMessage i)"
  using queue_get_None [of i t] by (simp add: mark_failed_def)

lemma failure_outcome_cases:
  "failure_outcome code a m = (if 400 \<le> code \<and> code < 500 \<and> a < m then DEFERRED else FAILED)"
  by (simp add: failure_outcome_def classify_failure_def Let_def)

text \<open>A run of failed attempts on one message: code, detail and instant of each.\<close>

fun fail_run :: "uuid \<Rightarrow> (int \<times> string \<times> instant) list \<Rightarrow> queue_table \<Rightarrow> queue_error + queue_table" where
  "fail_run i [] t = Inr t"
| "fail_run i ((code, err, now) # fs) t =
    bind_res (mark_failed i code err now t) (\<lambda>(_, t'). fail_run i fs t')"

definition temporary :: "int \<Rightarrow> bool" where
  "temporary code \<longleftrightarrow> 400 \<le> code \<and> code < 500"

lemma fail_run_row:
  assumes "unique_by q_id t" and "r \<in> set t"
  shows "fail_run (q_id r) fs t = Inr (update_where (\<lambda>x. q_id x = q_id r)
    (\<lambda>x. foldl (\<lambda>y (code, err, now). failed_row code err now y) x fs) t)"
  using assms
proof (induction fs arbitrary: t r)
  case Nil
  then show ?case by (simp add: update_where_def)
next
  case (Cons f fs)
  obtain code err now where f: "f = (code, err, now)" by (cases f)
  let ?r = "failed_row code err now r"
  let ?t = "update_where (\<lambda>x. q_id x = q_id r) (failed_row code err now) t"
  have u: "unique_by q_id ?t" by (rule unique_by_step) (use Cons.prems in simp_all)
  have "?r \<in> set ?t" unfolding in_update_where using Cons.prems by auto
  from Cons.IH [OF u this]
  have "fail_run (q_id r) fs ?t = Inr (update_where (\<lambda>x. q_id x = q_id r)
      (\<lambda>x. foldl (\<lambda>y (code, err, now). failed_row code err now y) x fs) ?t)"
    by simp
  then show ?case
    by (simp add: f mark_failed_row [OF Cons.prems] update_where_def o_def if_distrib cong: if_cong)
qed

lemma failed_rows_fields:
  "q_attempts (foldl (\<lambda>y (code, err, now). failed_row code err now y) r fs) = q_attempts r + int (length fs) \<and>
   q_id (foldl (\<lambda>y (code, err, now). failed_row code err now y) r fs) = q_id r \<and>
   m_max_attempts (to_message (foldl (\<lambda>y (code, err, now). failed_row code err now y) r fs))
     = m_max_attempts (to_message r) \<and>
   q_status (foldl (\<lambda>y (code, err, now). failed_row code err now y) r fs) =
     (if fs = [] then q_status r
      else failure_outcome (fst (last fs)) (q_attempts r + int (length fs)) (m_max_attempts (to_message r)))"
proof (induction fs rule: rev_induct)
  case Nil
  then show ?case by simp
next
  case (snoc f fs)
  obtain code err now where "f = (code, err, now)" by (cases f)
  with snoc show ?case by (simp add: ac_simps)
qed

text \<open>
  C14. A message that keeps failing is given up: after \<open>n > 0\<close> failed attempts, whatever their
  codes, it has counted \<open>n\<close> attempts more, and it is \<open>DEFERRED\<close> (will be tried again) exactly
  when the last failure was temporary (4xx) and fewer than \<open>max_attempts\<close> attempts have been
  made; otherwise it is \<open>FAILED\<close>. No other message is touched.
\<close>

theorem failures_are_bounded:
  assumes "unique_by q_id t" and "r \<in> set t" and "fs \<noteq> []"
  shows "\<exists>t'. fail_run (q_id r) fs t = Inr t' \<and>
    (\<exists>r' \<in> set t'. q_id r' = q_id r \<and> q_attempts r' = q_attempts r + int (length fs) \<and>
       q_status r' = (if temporary (fst (last fs)) \<and> q_attempts r + int (length fs) < m_max_attempts (to_message r)
                      then DEFERRED else FAILED)) \<and>
    (\<forall>x. q_id x \<noteq> q_id r \<longrightarrow> (x \<in> set t' \<longleftrightarrow> x \<in> set t))"
proof (intro exI conjI)
  let ?f = "\<lambda>x. foldl (\<lambda>y (code, err, now). failed_row code err now y) x fs"
  let ?t = "update_where (\<lambda>x. q_id x = q_id r) ?f t"
  show "fail_run (q_id r) fs t = Inr ?t" using fail_run_row [OF assms(1,2)] .
  have "?f r \<in> set ?t" unfolding in_update_where using assms(2) by auto
  then show "\<exists>r' \<in> set ?t. q_id r' = q_id r \<and> q_attempts r' = q_attempts r + int (length fs) \<and>
       q_status r' = (if temporary (fst (last fs)) \<and> q_attempts r + int (length fs) < m_max_attempts (to_message r)
                      then DEFERRED else FAILED)"
    using assms(3) failed_rows_fields [of r fs]
    by (intro bexI [of _ "?f r"]) (simp_all add: failure_outcome_cases temporary_def)
  have id: "q_id (?f x) = q_id x" for x using failed_rows_fields [of x fs] by blast
  show "\<forall>x. q_id x \<noteq> q_id r \<longrightarrow> (x \<in> set ?t \<longleftrightarrow> x \<in> set t)"
    unfolding in_update_where using id by auto
qed

lemma failures_are_bounded_witness:
  "\<exists>t'. fail_run 8 [(451, ''greylisted'', 5), (550, ''no such user'', 70)] [sample_row 8 SENDING 3] = Inr t' \<and>
    (\<exists>r' \<in> set t'. q_id r' = 8 \<and> q_attempts r' = 2 \<and> q_status r' = FAILED)"
  using failures_are_bounded [of "[sample_row 8 SENDING 3]" "sample_row 8 SENDING 3"
      "[(451, ''greylisted'', 5), (550, ''no such user'', 70)]"]
  by (auto simp: sample_row_def temporary_def)

end
