(* ===== verification/Queue_Steps.thy ===== *)
theory Queue_Steps
  imports Queue
begin

text \<open>
  The queue used by several senders at once (\<open>Sender.drain_once\<close> in
  \<open>src/src/lightr/mail/sender.py\<close> over \<open>Queue.claim\<close>), by the code that enqueues, and by an
  operator (\<open>lightr queue retry\<close>, \<open>lightr queue purge\<close>). A step is one SQL statement of one of
  them: \<open>claim\<close> is its \<open>SELECT\<close> and then one conditional \<open>UPDATE\<close> per id, so other senders
  may act between any two of them. A delivery is an attempt that ended in \<open>mark_sent\<close>; an attempt that some
  recipient domains took and one did not ends in \<open>mark_failed\<close> and is a failure here.
\<close>

section \<open>The system\<close>

record queue_system =
  sy_table :: queue_table
  sy_selected :: "(nat \<times> uuid) list"   \<comment> \<open>ids a sender's SELECT returned and it has not updated yet\<close>
  sy_held :: "(nat \<times> uuid) list"       \<comment> \<open>messages a sender has claimed and is sending\<close>
  sy_delivered :: "uuid list"          \<comment> \<open>successful deliveries, in order\<close>
  sy_used :: "uuid list"               \<comment> \<open>every id \<open>uuid4()\<close> has produced\<close>

definition empty_system :: queue_system where
  "empty_system = \<lparr>sy_table = [], sy_selected = [], sy_held = [], sy_delivered = [], sy_used = []\<rparr>"

datatype queue_event =
    Arrive uuid
  | Select nat
  | Claim nat uuid
  | Delivered nat uuid
  | Failed nat uuid int
  | Released nat uuid
  | RetryNow uuid queue_status   \<comment> \<open>with the status of the message it is run on\<close>
  | Purge queue_status

inductive queue_step :: "queue_system \<Rightarrow> queue_event \<Rightarrow> queue_system \<Rightarrow> bool" where
  arrive:
    "i \<notin> set (sy_used s) \<Longrightarrow>
     enqueue i now org did fr rcpts subject body html hdrs maxa raw env (sy_table s) = Inr (i, t') \<Longrightarrow>
     queue_step s (Arrive i) (s\<lparr>sy_table := t', sy_used := i # sy_used s\<rparr>)"
| select:
    "queue_step s (Select k)
       (s\<lparr>sy_selected := sy_selected s @ map (Pair k) (due limit now (sy_table s))\<rparr>)"
| claim_hit:
    "(k, i) \<in> set (sy_selected s) \<Longrightarrow> claim_one now i (sy_table s) = (True, t') \<Longrightarrow>
     queue_step s (Claim k i)
       (s\<lparr>sy_table := t', sy_selected := remove1 (k, i) (sy_selected s), sy_held := (k, i) # sy_held s\<rparr>)"
| claim_miss:
    "(k, i) \<in> set (sy_selected s) \<Longrightarrow> claim_one now i (sy_table s) = (False, t') \<Longrightarrow>
     queue_step s (Claim k i) (s\<lparr>sy_table := t', sy_selected := remove1 (k, i) (sy_selected s)\<rparr>)"
| delivered:
    "(k, i) \<in> set (sy_held s) \<Longrightarrow>
     queue_step s (Delivered k i)
       (s\<lparr>sy_table := mark_sent i now (sy_table s), sy_held := remove1 (k, i) (sy_held s),
          sy_delivered := sy_delivered s @ [i]\<rparr>)"
| failed:
    "(k, i) \<in> set (sy_held s) \<Longrightarrow> mark_failed i code err now (sy_table s) = Inr (outcome, t') \<Longrightarrow>
     queue_step s (Failed k i code) (s\<lparr>sy_table := t', sy_held := remove1 (k, i) (sy_held s)\<rparr>)"
| failed_missing:
    "(k, i) \<in> set (sy_held s) \<Longrightarrow> mark_failed i code err now (sy_table s) = Inl e \<Longrightarrow>
     queue_step s (Failed k i code) (s\<lparr>sy_held := remove1 (k, i) (sy_held s)\<rparr>)"
| released:
    "(k, i) \<in> set (sy_held s) \<Longrightarrow>
     queue_step s (Released k i)
       (s\<lparr>sy_table := release i now (sy_table s), sy_held := remove1 (k, i) (sy_held s)\<rparr>)"
| retry:
    "r \<in> set (sy_table s) \<Longrightarrow>
     queue_step s (RetryNow (q_id r) (q_status r))
       (s\<lparr>sy_table := retry_now (q_id r) now1 now2 (sy_table s)\<rparr>)"
| purged:
    "queue_step s (Purge status) (s\<lparr>sy_table := snd (purge older_than status now (sy_table s))\<rparr>)"

inductive_cases queue_stepE: "queue_step s e s'"

lemmas queue_step_cases = queue_stepE [consumes 1, case_names arrive select claim_hit claim_miss
  delivered failed failed_missing released retry purged]

text \<open>The states that events of a given kind can lead to.\<close>

inductive reachable :: "(queue_event \<Rightarrow> bool) \<Rightarrow> queue_system \<Rightarrow> bool" for allowed where
  start: "reachable allowed empty_system"
| step: "reachable allowed s \<Longrightarrow> queue_step s e s' \<Longrightarrow> allowed e \<Longrightarrow> reachable allowed s'"

text \<open>
  What \<open>retry_now\<close> is documented for: a deferred or failed message (or one already pending).
\<close>

definition documented_use :: "queue_event \<Rightarrow> bool" where
  "documented_use e = (case e of RetryNow _ status \<Rightarrow> status \<in> {DEFERRED, FAILED, PENDING} | _ \<Rightarrow> True)"

section \<open>The invariant\<close>

definition system_ok :: "queue_system \<Rightarrow> bool" where
  "system_ok s \<longleftrightarrow>
    unique_by q_id (sy_table s) \<and>
    q_id ` set (sy_table s) \<subseteq> set (sy_used s) \<and>
    snd ` set (sy_held s) \<union> set (sy_delivered s) \<subseteq> set (sy_used s) \<and>
    distinct (map snd (sy_held s) @ sy_delivered s) \<and>
    (\<forall>r \<in> set (sy_table s). q_id r \<in> snd ` set (sy_held s) \<longrightarrow> q_status r = SENDING) \<and>
    (\<forall>r \<in> set (sy_table s). q_id r \<in> set (sy_delivered s) \<longrightarrow> q_status r = SENT)"

lemma system_ok_empty: "system_ok empty_system"
  by (simp add: system_ok_def empty_system_def)

text \<open>
  The invariant seen from the table: an update that touches only the row \<open>i\<close> keeps it for
  every other message.
\<close>

lemma ids_update [simp]: "(\<And>r. q_id (f r) = q_id r) \<Longrightarrow> q_id ` set (update_where p f t) = q_id ` set t"
proof -
  assume "\<And>r. q_id (f r) = q_id r"
  then have "map q_id (update_where p f t) = map q_id t" by (simp add: update_where_def)
  then show ?thesis by (metis set_map)
qed

lemma remove_held:
  assumes "distinct (map snd h)" and "(k, i) \<in> set h"
  shows "snd ` set (remove1 (k, i) h) = snd ` set h - {i}" and "distinct (map snd (remove1 (k, i) h))"
proof -
  have d: "distinct h" using assms(1) by (simp add: distinct_map)
  have "snd x \<noteq> i" if "x \<in> set h" "x \<noteq> (k, i)" for x
    using assms that inj_onD [of snd "set h" x "(k, i)"] by (auto simp: distinct_map)
  then show "snd ` set (remove1 (k, i) h) = snd ` set h - {i}"
    using d by (auto simp: set_remove1_eq image_iff)
  show "distinct (map snd (remove1 (k, i) h))"
    using assms(1) d by (auto simp: distinct_map set_remove1_eq distinct_remove1 intro: inj_on_subset)
qed

text \<open>The shape every step on one message has: its row changes, it may leave or join a list.\<close>

lemma system_ok_change:
  assumes ok: "system_ok s"
    and table: "sy_table s' = update_where p f (sy_table s)" "\<And>r. q_id (f r) = q_id r"
    and used: "sy_used s' = sy_used s"
    and lists: "distinct (map snd (sy_held s') @ sy_delivered s')"
      "snd ` set (sy_held s') \<union> set (sy_delivered s') \<subseteq> set (sy_used s)"
    and held: "\<And>r. r \<in> set (sy_table s) \<Longrightarrow> q_id r \<in> snd ` set (sy_held s') \<Longrightarrow>
      q_status (if p r then f r else r) = SENDING"
    and sent: "\<And>r. r \<in> set (sy_table s) \<Longrightarrow> q_id r \<in> set (sy_delivered s') \<Longrightarrow>
      q_status (if p r then f r else r) = SENT"
  shows "system_ok s'"
proof -
  have id: "q_id (if p r then f r else r) = q_id r" for r using table(2) by simp
  have "unique_by q_id (sy_table s')"
    unfolding table(1) using ok table(2) by (intro unique_by_update) (auto simp: system_ok_def)
  moreover have "q_id ` set (sy_table s') = q_id ` set (sy_table s)"
    unfolding table(1) using table(2) by simp
  moreover have "\<forall>r \<in> set (sy_table s'). q_id r \<in> snd ` set (sy_held s') \<longrightarrow> q_status r = SENDING"
    unfolding table(1) set_update_where
  proof (intro ballI impI)
    fix x assume "x \<in> (\<lambda>r. if p r then f r else r) ` set (sy_table s)" and x: "q_id x \<in> snd ` set (sy_held s')"
    then obtain r where "r \<in> set (sy_table s)" "x = (if p r then f r else r)" by blast
    with held [of r] id [of r] x show "q_status x = SENDING" by simp
  qed
  moreover have "\<forall>r \<in> set (sy_table s'). q_id r \<in> set (sy_delivered s') \<longrightarrow> q_status r = SENT"
    unfolding table(1) set_update_where
  proof (intro ballI impI)
    fix x assume "x \<in> (\<lambda>r. if p r then f r else r) ` set (sy_table s)" and x: "q_id x \<in> set (sy_delivered s')"
    then obtain r where "r \<in> set (sy_table s)" "x = (if p r then f r else r)" by blast
    with sent [of r] id [of r] x show "q_status x = SENT" by simp
  qed
  ultimately show ?thesis
    using ok used lists by (simp add: system_ok_def)
qed

lemma system_okD:
  assumes "system_ok s"
  shows "unique_by q_id (sy_table s)"
    and "\<And>r. r \<in> set (sy_table s) \<Longrightarrow> q_id r \<in> snd ` set (sy_held s) \<Longrightarrow> q_status r = SENDING"
    and "\<And>r. r \<in> set (sy_table s) \<Longrightarrow> q_id r \<in> set (sy_delivered s) \<Longrightarrow> q_status r = SENT"
    and "distinct (map snd (sy_held s))" "distinct (sy_delivered s)"
    and "snd ` set (sy_held s) \<inter> set (sy_delivered s) = {}"
    and "snd ` set (sy_held s) \<subseteq> set (sy_used s)" "set (sy_delivered s) \<subseteq> set (sy_used s)"
    and "q_id ` set (sy_table s) \<subseteq> set (sy_used s)"
  using assms by (auto simp: system_ok_def)

text \<open>A sender that puts down a message it holds, whatever the row becomes.\<close>

lemma system_ok_put_down:
  assumes ok: "system_ok s" and held: "(k, i) \<in> set (sy_held s)"
    and table: "sy_table s' = update_where (\<lambda>r. q_id r = i \<and> p r) f (sy_table s)" "\<And>r. q_id (f r) = q_id r"
    and rest: "sy_used s' = sy_used s" "sy_held s' = remove1 (k, i) (sy_held s)" "sy_delivered s' = sy_delivered s"
  shows "system_ok s'"
proof (rule system_ok_change [OF ok table rest(1)])
  note D = system_okD [OF ok]
  note R = remove_held [OF D(4) held]
  have i: "i \<notin> set (sy_delivered s)" using held D(6) by force
  show "distinct (map snd (sy_held s') @ sy_delivered s')"
    and "snd ` set (sy_held s') \<union> set (sy_delivered s') \<subseteq> set (sy_used s)"
    using D(5-8) R by (auto simp: rest)
  show "q_status (if q_id r = i \<and> p r then f r else r) = SENDING"
    if "r \<in> set (sy_table s)" "q_id r \<in> snd ` set (sy_held s')" for r
    using that D(2) R by (auto simp: rest)
  show "q_status (if q_id r = i \<and> p r then f r else r) = SENT"
    if "r \<in> set (sy_table s)" "q_id r \<in> set (sy_delivered s')" for r
    using that D(3) i by (auto simp: rest)
qed

lemma claimable_status: "claimable r \<Longrightarrow> q_status r \<noteq> SENDING \<and> q_status r \<noteq> SENT"
  by (auto simp: claimable_def)

lemma mark_failed_Inr:
  assumes "unique_by q_id t" and "mark_failed i code err now t = Inr (outcome, t')"
  shows "t' = update_where (\<lambda>r. q_id r = i \<and> True) (failed_row code err now) t"
proof -
  have "i \<in> q_id ` set t" using assms(2) mark_failed_missing [of i t] by fastforce
  then obtain r where "r \<in> set t" "i = q_id r" by blast
  with mark_failed_row [OF assms(1)] assms(2) show ?thesis by simp
qed

lemma system_ok_step:
  assumes "queue_step s e s'" and "documented_use e" and ok: "system_ok s"
  shows "system_ok s'"
  using assms(1)
proof (cases rule: queue_step_cases)
  case (arrive i now org did fr rcpts subject body html hdrs maxa raw env t')
  have new: "i \<notin> snd ` set (sy_held s)" "i \<notin> set (sy_delivered s)"
    using arrive(3) system_okD(7,8) [OF ok] by auto
  obtain r where t': "t' = sy_table s @ [r]" "q_id r = i" "i \<notin> q_id ` set (sy_table s)"
    using arrive(4) by (auto simp: enqueue_def split: if_splits)
  show ?thesis using ok new t' by (auto simp: system_ok_def arrive(2))
next
  case (select k limit now)
  then show ?thesis using ok by (simp add: system_ok_def)
next
  case (claim_hit k i now t')
  have t': "t' = update_where (\<lambda>r. q_id r = i \<and> claimable r) (mark_sending now) (sy_table s)"
    using claim_one_table [of now i "sy_table s"] claim_hit(4) by simp
  obtain r where r: "r \<in> set (sy_table s)" "q_id r = i" "claimable r"
    using claim_one_hit [of now i "sy_table s"] claim_hit(4) by auto
  note D = system_okD [OF ok]
  have new: "i \<notin> snd ` set (sy_held s)" "i \<notin> set (sy_delivered s)"
    using D(2,3) [OF r(1)] claimable_status [OF r(3)] r(2) by blast+
  show ?thesis
  proof (rule system_ok_change [OF ok, where p = "\<lambda>r. q_id r = i \<and> claimable r" and f = "mark_sending now"])
    fix x assume x: "x \<in> set (sy_table s)" "q_id x \<in> snd ` set (sy_held s')"
    show "q_status (if q_id x = i \<and> claimable x then mark_sending now x else x) = SENDING"
      using x D(2) r unique_byD [OF D(1) x(1) r(1)] by (auto simp: claim_hit(2))
  next
    fix x assume x: "x \<in> set (sy_table s)" "q_id x \<in> set (sy_delivered s')"
    show "q_status (if q_id x = i \<and> claimable x then mark_sending now x else x) = SENT"
      using x D(3) new by (auto simp: claim_hit(2))
  qed (use D new r in \<open>auto simp: claim_hit(2) t'\<close>)
next
  case (claim_miss k i now t')
  have "t' = sy_table s"
    using claim_one_table [of now i "sy_table s"] claim_one_hit [of now i "sy_table s"] claim_miss(4)
    by (simp add: update_where_none)
  then show ?thesis using ok claim_miss(2) by (simp add: system_ok_def)
next
  case (delivered k i now)
  note D = system_okD [OF ok]
  note R = remove_held [OF D(4) delivered(3)]
  have new: "i \<notin> set (sy_delivered s)" "i \<in> set (sy_used s)" using delivered(3) D(6,7) by force+
  show ?thesis
  proof (rule system_ok_change [OF ok, where p = "\<lambda>r. q_id r = i"])
    show "sy_table s' = update_where (\<lambda>r. q_id r = i)
       (\<lambda>r. r\<lparr>q_status := SENT, q_delivered_at := Some now, q_updated_at := now, q_last_error := None\<rparr>) (sy_table s)"
      by (simp add: delivered(2) mark_sent_def)
  qed (use D R new in \<open>auto simp: delivered(2)\<close>)
next
  case (failed k i code err now outcome t')
  show ?thesis
    using system_ok_put_down [OF ok failed(3), where f = "failed_row code err now" and p = "\<lambda>_. True"]
      mark_failed_Inr [OF system_okD(1) [OF ok] failed(4)]
    by (simp add: failed(2))
next
  case (failed_missing k i code err now e)
  show ?thesis
    using system_ok_put_down [OF ok failed_missing(3), where f = "\<lambda>r. r" and p = "\<lambda>_. True"]
    by (simp add: failed_missing(2) update_where_def cong: if_cong)
next
  case (released k i now)
  show ?thesis
    using system_ok_put_down [OF ok released(3), where p = "\<lambda>r. q_status r = SENDING"]
    by (simp add: released(2) release_def)
next
  case (retry r now1 now2)
  note D = system_okD [OF ok]
  have "q_status r \<noteq> SENDING" "q_status r \<noteq> SENT"
    using assms(2) by (auto simp: retry(1) documented_use_def)
  then have r: "q_id r \<notin> snd ` set (sy_held s)" "q_id r \<notin> set (sy_delivered s)"
    using D(2,3) [OF retry(3)] by blast+
  then have r': "(k, q_id r) \<notin> set (sy_held s)" for k by force
  show ?thesis
  proof (rule system_ok_change [OF ok, where p = "\<lambda>x. q_id x = q_id r"])
    show "sy_table s' = update_where (\<lambda>x. q_id x = q_id r)
       (\<lambda>r. r\<lparr>q_status := PENDING, q_next_retry := now1, q_updated_at := now2\<rparr>) (sy_table s)"
      by (simp add: retry(2) retry_now_def)
  qed (use D r r' in \<open>auto simp: retry(2)\<close>)
next
  case (purged status older_than now)
  show ?thesis using ok
    by (auto simp: system_ok_def purged(2) purge_def Let_def set_delete_where intro!: unique_by_delete)
qed

lemma reachable_ok: "reachable documented_use s \<Longrightarrow> system_ok s"
  by (induction rule: reachable.induct) (auto intro: system_ok_empty system_ok_step)

section \<open>At most one delivery\<close>

text \<open>
  C11. However the statements of any number of senders, of the code that enqueues, of purges and
  of operators who retry only deferred, failed or pending messages interleave: no message is
  delivered twice, no message is held by two senders, a held message has not been delivered,
  and while a sender holds it its row (if it was not purged) is \<open>SENDING\<close>, so nobody else can
  claim it.
\<close>

theorem no_message_delivered_twice:
  assumes "reachable documented_use s"
  shows "distinct (sy_delivered s) \<and> distinct (map snd (sy_held s)) \<and>
    snd ` set (sy_held s) \<inter> set (sy_delivered s) = {} \<and>
    (\<forall>(k, i) \<in> set (sy_held s). \<not> fst (claim_one now i (sy_table s)))"
proof -
  note D = system_okD [OF reachable_ok [OF assms]]
  have "\<not> fst (claim_one now i (sy_table s))" if "(k, i) \<in> set (sy_held s)" for k i
  proof
    assume "fst (claim_one now i (sy_table s))"
    then obtain r where "r \<in> set (sy_table s)" "q_id r = i" "claimable r" by (auto simp: claim_one_hit)
    moreover have "i \<in> snd ` set (sy_held s)" using that by force
    ultimately show False using D(2) [of r] claimable_status [of r] by simp
  qed
  with D show ?thesis by blast
qed

text \<open>A run with two senders that both select message 7 before either updates it.\<close>

definition race :: "queue_system" where
  "race = \<lparr>sy_table = [sample_row 7 SENDING 0], sy_selected = [(2, 7)], sy_held = [(1, 7)],
     sy_delivered = [], sy_used = [7]\<rparr>"

lemma sample_row_simps [simp]:
  "q_id (sample_row i st n) = i" "q_status (sample_row i st n) = st" "q_next_retry (sample_row i st n) = n"
  by (simp_all add: sample_row_def)

lemma race_reachable: "reachable documented_use race"
proof -
  let ?r = "sample_row 7 PENDING 0"
  let ?s1 = "empty_system\<lparr>sy_table := [?r], sy_used := [7]\<rparr>"
  have 1: "queue_step empty_system (Arrive 7) ?s1"
    using arrive [where s = empty_system and i = 7 and now = 0 and org = 1 and did = 2 and
        fr = "''a@x''" and rcpts = "[''b@y'']" and subject = "[]" and body = "[]" and html = None and
        hdrs = "[]" and maxa = 5 and raw = None and env = None and t' = "[?r]"]
    by (simp add: empty_system_def enqueue_def sample_row_def)
  have sel: "due 10 0 [?r] = [7]"
    by (simp add: due_def claimable_def)
  let ?s2 = "?s1\<lparr>sy_selected := [(1, 7)]\<rparr>" and ?s3 = "?s1\<lparr>sy_selected := [(1, 7), (2, 7)]\<rparr>"
  have 2: "queue_step ?s1 (Select 1) ?s2"
    using select [of ?s1 1 10 0] by (simp add: sel empty_system_def)
  have 3: "queue_step ?s2 (Select 2) ?s3"
    using select [of ?s2 2 10 0] by (simp add: sel)
  have t: "claim_one 0 7 [?r] = (True, [sample_row 7 SENDING 0])"
    by (simp add: claim_one_def rowcount_def update_where_def sample_row_def claimable_def)
  have 4: "queue_step ?s3 (Claim 1 7) race"
    using claim_hit [of 1 7 ?s3 0 "[sample_row 7 SENDING 0]"] t
    by (simp add: race_def empty_system_def)
  have r1: "reachable documented_use ?s1"
    by (rule reachable.step [OF reachable.start 1]) (simp add: documented_use_def)
  have r2: "reachable documented_use ?s2"
    by (rule reachable.step [OF r1 2]) (simp add: documented_use_def)
  have r3: "reachable documented_use ?s3"
    by (rule reachable.step [OF r2 3]) (simp add: documented_use_def)
  show ?thesis
    by (rule reachable.step [OF r3 4]) (simp add: documented_use_def)
qed

lemma no_message_delivered_twice_witness: "\<not> fst (claim_one 0 7 (sy_table race))"
  using no_message_delivered_twice [OF race_reachable, of 0] by (simp add: race_def)

section \<open>Finished messages\<close>

lemma row_kept: "r \<in> set t \<Longrightarrow> \<not> p r \<Longrightarrow> r \<in> set (update_where p f t)"
  by (force simp: set_update_where)

text \<open>
  A permanent failure is not retried and a sent message is not sent again: in every
  reachable state, no step of a sender, an enqueuer or a purge (only an operator's
  \<open>retry_now\<close> on that very message) changes a row that is \<open>FAILED\<close> or \<open>SENT\<close>; a purge may
  delete it.
\<close>

theorem finished_messages_stay:
  assumes "reachable documented_use s" and "queue_step s e s'"
    and "r \<in> set (sy_table s)" and "q_status r \<in> {FAILED, SENT}"
    and "\<forall>status. e \<noteq> RetryNow (q_id r) status"
  shows "r \<in> set (sy_table s') \<or> (\<exists>status. e = Purge status \<and> q_status r = status)"
proof -
  note ok = reachable_ok [OF assms(1)]
  note D = system_okD [OF ok]
  have nc: "\<not> claimable r" using assms(4) by (auto simp: claimable_def)
  have nh: "(k, q_id r) \<notin> set (sy_held s)" for k
  proof
    assume "(k, q_id r) \<in> set (sy_held s)"
    then have "q_id r \<in> snd ` set (sy_held s)" by force
    from D(2) [OF assms(3) this] assms(4) show False by simp
  qed
  have held: "q_id r \<noteq> i" if "(k, i) \<in> set (sy_held s)" for k i using nh that by auto
  have claimed: "r \<in> set t'" if "claim_one now i (sy_table s) = (hit, t')" for now i hit t'
    using claim_one_table [of now i "sy_table s"] that nc assms(3) by (simp add: row_kept)
  have failed: "r \<in> set t'" if "(k, i) \<in> set (sy_held s)" "mark_failed i code err now (sy_table s) = Inr (outcome, t')"
    for k i code err now outcome t'
    using mark_failed_Inr [OF D(1) that(2)] held [OF that(1)] assms(3) by (simp add: row_kept)
  show ?thesis
    using assms(2)
  proof (cases rule: queue_step_cases)
    case (retry r0 now1 now2)
    have "q_id r \<noteq> q_id r0" using assms(5) retry(1) by auto
    then show ?thesis using assms(3) by (simp add: retry(2) retry_now_def row_kept)
  qed (use assms(3) held claimed failed in
      \<open>auto simp: enqueue_def mark_sent_def release_def purge_def Let_def set_delete_where
          intro: row_kept split: if_splits\<close>)
qed

lemma finished_messages_stay_witness:
  "\<exists>s r. reachable documented_use s \<and> r \<in> set (sy_table s) \<and> q_status r = FAILED \<and>
     (\<forall>s' k. queue_step s (Select k) s' \<longrightarrow> r \<in> set (sy_table s'))"
proof -
  let ?s = "race\<lparr>sy_table := [failed_row 550 [] 1 (sample_row 7 SENDING 0)], sy_held := []\<rparr>"
  have "queue_step race (Failed 1 7 550) ?s"
    using failed [of 1 7 race 550 "[]" 1 FAILED "[failed_row 550 [] 1 (sample_row 7 SENDING 0)]"]
      mark_failed_row [of "[sample_row 7 SENDING 0]" "sample_row 7 SENDING 0" 550 "[]" 1]
    by (simp add: race_def update_where_def failure_outcome_cases)
  then have r: "reachable documented_use ?s"
    by (rule reachable.step [OF race_reachable]) (simp add: documented_use_def)
  have "\<forall>s' k. queue_step ?s (Select k) s' \<longrightarrow> failed_row 550 [] 1 (sample_row 7 SENDING 0) \<in> set (sy_table s')"
    using finished_messages_stay [OF r, of "Select k" for k] by (simp add: failure_outcome_cases)
  then show ?thesis using r by (intro exI [of _ ?s] exI [of _ "failed_row 550 [] 1 (sample_row 7 SENDING 0)"])
      (simp add: failure_outcome_cases)
qed

text \<open>
  \<open>retry_now\<close> has no guard on the status: run on a message that was \<open>SENT\<close> (the command
  takes any id), it makes it due again, and the next sufficiently large batch sends it a second
  time.
\<close>

theorem retry_of_sent_is_claimed:
  assumes "unique_by q_id t" and "r \<in> set t" and "q_status r = SENT"
    and "now1 \<le> now" and "length t \<le> limit"
  shows "q_id r \<in> m_id ` set (fst (claim limit now (retry_now (q_id r) now1 now2 t)))"
proof -
  let ?f = "\<lambda>r. r\<lparr>q_status := PENDING, q_next_retry := now1, q_updated_at := now2\<rparr>"
  let ?t = "retry_now (q_id r) now1 now2 t"
  have u: "unique_by q_id ?t"
    unfolding retry_now_def by (rule unique_by_update) (use assms in simp_all)
  have "?f r \<in> set ?t" using assms(2) by (force simp: retry_now_def set_update_where)
  moreover have "claimable (?f r)" "q_next_retry (?f r) \<le> now" using assms(4) by (simp_all add: claimable_def)
  moreover have "length (sort_key q_next_retry (filter (\<lambda>r. claimable r \<and> q_next_retry r \<le> now) ?t)) \<le> limit"
    using assms(5) by (auto simp: retry_now_def intro: order_trans [OF length_filter_le])
  ultimately have "?f r \<in> set (due_rows limit now ?t)"
    by (simp add: due_rows_def)
  then have "q_id (?f r) \<in> m_id ` set (fst (claim limit now ?t))"
    unfolding claim_takes_due_rows_messages [OF u] set_map
    by (intro image_eqI [where x = "(to_message \<circ> mark_sending now) (?f r)"] imageI) simp_all
  then show ?thesis by simp
qed

lemma retry_of_sent_is_claimed_witness:
  "7 \<in> m_id ` set (fst (claim 10 5 (retry_now 7 3 3 [sample_row 7 SENT 0])))"
  using retry_of_sent_is_claimed [of "[sample_row 7 SENT 0]" "sample_row 7 SENT 0" 3 5 10 3] by simp

end
