(* ===== verification/Models.thy ===== *)
theory Models
  imports Py_Text Retry
begin

text \<open>
  \<open>src/src/lightr/models.py\<close>: the records the repositories read and write, with the field
  validators Pydantic runs when one is made. A validator's \<open>ValueError\<close> is the left result.
\<close>

section \<open>Enumerations\<close>

datatype auth_mode = NATIVE | EXTERNAL_AUTH | DISABLED

datatype alias_type = FORWARD | BRIDGE

datatype spam_policy = JUNK | REJECT_SPAM | TAG

section \<open>Records\<close>

record organization =
  o_id :: uuid
  o_name :: string
  o_created_at :: instant

record domain =
  d_id :: uuid
  d_org_id :: uuid
  d_name :: string
  d_mail_hostname :: "string option"
  d_dkim_private_key :: "string option"
  d_dkim_selector :: "string option"
  d_webhook_url :: "string option"
  d_auth_webhook_url :: "string option"
  d_auth_webhook_secret :: "string option"
  d_auth_webhook_verified :: bool
  d_auth_webhook_verified_at :: "instant option"
  d_tls_cert_file :: "string option"
  d_tls_key_file :: "string option"
  d_relay_enabled :: bool
  d_relay_host :: "string option"
  d_relay_port :: "int option"
  d_relay_username :: "string option"
  d_relay_password :: "string option"
  d_relay_use_tls :: bool
  d_relay_tls_skip_verify :: bool
  d_spam_policy :: spam_policy
  d_is_verified :: bool
  d_created_at :: instant

record account =
  a_id :: uuid
  a_domain_id :: uuid
  a_local_part :: string
  a_display_name :: "string option"
  a_auth_mode :: auth_mode
  a_password_hash :: "string option"
  a_external_id :: "string option"
  a_quota_bytes :: "int option"
  a_maildir_path :: "string option"
  a_can_send :: bool
  a_can_receive :: bool
  a_created_at :: instant
  a_domain_name :: "string option"   \<comment> \<open>filled in on read, not a column\<close>

record mail_alias =
  al_id :: uuid
  al_domain_id :: uuid
  al_source :: string
  al_destinations :: "string list"
  al_type :: alias_type
  al_is_active :: bool
  al_created_at :: instant
  al_updated_at :: instant

record suppression =
  sup_email :: string
  sup_reason :: string
  sup_org_id :: "uuid option"
  sup_created_at :: instant

section \<open>Validators\<close>

datatype value_error =
    NotADomainName string
  | ContainsWhitespace string
  | EmptyLocalPart
  | LocalPartHasAt
  | LocalPartHasSpace
  | EmptySource

definition normalise_name :: "string \<Rightarrow> value_error + string" where
  "normalise_name v =
    (let name = rstrip_chars ''.'' (lower (strip v))
     in if name = [] \<or> CHR ''.'' \<notin> set name then Inl (NotADomainName v)
        else if CHR '' '' \<in> set name then Inl (ContainsWhitespace v)
        else Inr name)"

definition normalise_local_part :: "string \<Rightarrow> value_error + string" where
  "normalise_local_part v =
    (let local = lower (strip v)
     in if local = [] then Inl EmptyLocalPart
        else if CHR ''@'' \<in> set local then Inl LocalPartHasAt
        else if \<exists>c \<in> set local. is_space c then Inl LocalPartHasSpace
        else Inr local)"

definition normalise_source :: "string \<Rightarrow> value_error + string" where
  "normalise_source v =
    (let source = lower (strip v)
     in if source = [] then Inl EmptySource else Inr (fst (split_first CHR ''@'' source)))"

text \<open>
  \<open>_parse_destinations\<close> for a string that is not JSON: the comma-separated form. (A JSON array
  is the list it encodes.)
\<close>

definition parse_destinations :: "string \<Rightarrow> string list" where
  "parse_destinations v = map strip (filter (\<lambda>d. strip d \<noteq> []) (split_char CHR '','' v))"

section \<open>Properties of a record\<close>

definition hostname :: "domain \<Rightarrow> string" where
  "hostname d = (case d_mail_hostname d of None \<Rightarrow> d_name d | Some h \<Rightarrow> if h = [] then d_name d else h)"

definition email :: "account \<Rightarrow> string option" where
  "email a = (case a_domain_name a of None \<Rightarrow> None | Some n \<Rightarrow> Some (a_local_part a @ ''@'' @ n))"

definition with_domain :: "account \<Rightarrow> domain \<Rightarrow> account" where
  "with_domain a d = a\<lparr>a_domain_name := Some (d_name d)\<rparr>"

section \<open>What a stored row satisfies\<close>

text \<open>
  Reading a row runs the validators again. On values the validators produced they change
  nothing (a domain name that ends in a tab or newline before its final dot is the exception,
  \<open>tab_name_unstable\<close> in the repository theory), so the repositories below read rows as stored.
\<close>

definition canonical_name :: "string \<Rightarrow> bool" where
  "canonical_name n \<longleftrightarrow> normalise_name n = Inr n"

definition canonical_local_part :: "string \<Rightarrow> bool" where
  "canonical_local_part l \<longleftrightarrow> normalise_local_part l = Inr l"

lemma normalise_local_part_idem:
  "normalise_local_part v = Inr l \<Longrightarrow> canonical_local_part l"
  by (auto simp: normalise_local_part_def canonical_local_part_def Let_def strip_lower split: if_splits)

lemma normalise_name_idem:
  assumes "normalise_name v = Inr n" and "\<forall>c \<in> set (strip v). \<not> is_space c"
  shows "canonical_name n"
proof -
  have n: "n = rstrip_chars ''.'' (lower (strip v))" "CHR ''.'' \<in> set n" "CHR '' '' \<notin> set n"
    using assms(1) by (auto simp: normalise_name_def Let_def split: if_splits)
  have "\<forall>c \<in> set n. \<not> is_space c"
    using assms(2) unfolding n(1) by (auto simp: lower_def dest!: rstrip_chars_subset)
  then have "strip n = n" by (rule strip_absent)
  moreover have "lower n = n"
    unfolding n(1) lower_def by (rule map_idI) (auto simp: lower_def dest!: rstrip_chars_subset)
  moreover have "rstrip_chars ''.'' n = n" unfolding n(1) by (simp add: rstrip_chars_def)
  ultimately show ?thesis using n(2,3) by (auto simp: canonical_name_def normalise_name_def Let_def)
qed

lemma canonical_local_partD:
  assumes "canonical_local_part l"
  shows "l \<noteq> []" "CHR ''@'' \<notin> set l" "lower l = l" "\<forall>c \<in> set l. \<not> is_space c" "strip l = l"
proof -
  from assms have *: "lower (strip l) = l" "l \<noteq> []" "CHR ''@'' \<notin> set l" "\<forall>c \<in> set l. \<not> is_space c"
    unfolding canonical_local_part_def normalise_local_part_def Let_def
    by (auto simp del: at_in_lower split: if_splits)
  show "l \<noteq> []" "CHR ''@'' \<notin> set l" "\<forall>c \<in> set l. \<not> is_space c" using * by auto
  show "lower l = l" using *(1) by (metis lower_idem)
  show "strip l = l" using *(4) by (rule strip_absent)
qed

lemma canonical_nameD:
  assumes "canonical_name n"
  shows "CHR ''.'' \<in> set n" "norm_addr n = n" "rstrip_chars ''.'' n = n" "n \<noteq> []"
proof -
  from assms have *: "rstrip_chars ''.'' (lower (strip n)) = n" "CHR ''.'' \<in> set n"
    by (auto simp: canonical_name_def normalise_name_def Let_def split: if_splits)
  have len: "length (strip n) \<le> length n"
    using length_dropWhile_le [of is_space "rev (dropWhile is_space n)"] length_dropWhile_le [of is_space n]
    by (simp add: strip_def lstrip_def rstrip_def)
  let ?m = "lower (strip n)"
  obtain w where w: "rev ?m = w @ dropWhile (\<lambda>c. c \<in> set ''.'') (rev ?m)"
    by (metis takeWhile_dropWhile_id)
  have "length n = length (dropWhile (\<lambda>c. c \<in> set ''.'') (rev ?m))"
    using *(1) by (metis length_rev rstrip_chars_def)
  then have "w = []" using w len by (metis add_le_same_cancel2 length_append length_greater_0_conv length_map
        length_rev linorder_not_le lower_def)
  then have ls: "?m = n" using *(1) w by (metis append_Nil rev_rev_ident rstrip_chars_def)
  show "CHR ''.'' \<in> set n" using * by simp
  then show "n \<noteq> []" by auto
  show "norm_addr n = n" using ls by (simp add: norm_addr_def)
  show "rstrip_chars ''.'' n = n" using *(1) ls by simp
qed

end
