(* ===== verification/Repo.thy ===== *)
theory Repo
  imports Models "HOL-Library.Char_ord" "HOL-Library.List_Lexorder"
begin

text \<open>
  \<open>src/src/lightr/repo.py\<close>: the repositories over the tables \<open>organizations\<close>, \<open>domains\<close>,
  \<open>accounts\<close> and \<open>aliases\<close> of \<open>src/src/lightr/db/schema.py\<close>, with the constraints the schema
  declares (primary keys, \<open>UNIQUE\<close>, foreign keys, which the engine switches on). A read is a
  function of the database, a write gives the new database or the exception.
\<close>

section \<open>The database and the exceptions\<close>

record database =
  organizations :: "organization list"
  domains :: "domain list"
  accounts :: "account list"
  aliases :: "mail_alias list"

datatype repo_error =
    NotFoundError string string
  | AmbiguousReferenceError string string "string list"
  | ConflictError string
  | IntegrityError           \<comment> \<open>a constraint of the schema\<close>

text \<open>\<open>except LookupError\<close> catches the first two.\<close>

fun is_lookup_error :: "repo_error \<Rightarrow> bool" where
  "is_lookup_error (NotFoundError _ _) = True"
| "is_lookup_error (AmbiguousReferenceError _ _ _) = True"
| "is_lookup_error (ConflictError _) = False"
| "is_lookup_error IntegrityError = False"

section \<open>Organizations\<close>

definition org_create :: "organization \<Rightarrow> database \<Rightarrow> repo_error + database" where
  "org_create org db =
    (if o_id org \<in> o_id ` set (organizations db) then Inl IntegrityError
     else Inr (db\<lparr>organizations := organizations db @ [org]\<rparr>))"

definition org_list :: "nat \<Rightarrow> nat \<Rightarrow> database \<Rightarrow> organization list" where
  "org_list limit offset db = take limit (drop offset (sort_key o_name (organizations db)))"

text \<open>SQL's \<open>lower\<close> folds ASCII letters only; in \<open>LIKE\<close>, \<open>%\<close> is any run and \<open>_\<close> any character.\<close>

definition sql_lower :: "string \<Rightarrow> string" where
  "sql_lower s = map (\<lambda>c. let n = (of_char c :: nat) in if 65 \<le> n \<and> n \<le> 90 then char_of (n + 32) else c) s"

fun sql_like :: "string \<Rightarrow> string \<Rightarrow> bool" where
  "sql_like [] s = (s = [])"
| "sql_like (p # ps) s =
    (if p = CHR ''%'' then sql_like ps s \<or> (case s of [] \<Rightarrow> False | _ # s' \<Rightarrow> sql_like (p # ps) s')
     else case s of [] \<Rightarrow> False | c # s' \<Rightarrow> (p = CHR ''_'' \<or> p = c) \<and> sql_like ps s')"

definition org_resolve :: "string \<Rightarrow> database \<Rightarrow> repo_error + organization" where
  "org_resolve ref db =
    (case as_uuid ref of
       Some i \<Rightarrow> (case first_row (filter (\<lambda>og. o_id og = i) (organizations db)) of
                  None \<Rightarrow> Inl (NotFoundError ''organization'' ref) | Some og \<Rightarrow> Inr og)
     | None \<Rightarrow>
       (case first_row (filter (\<lambda>og. o_name og = ref) (organizations db)) of
          Some og \<Rightarrow> Inr og
        | None \<Rightarrow>
          (case filter (\<lambda>og. sql_like (sql_lower (lower ref @ ''%'')) (sql_lower (o_name og))) (organizations db) of
             [] \<Rightarrow> Inl (NotFoundError ''organization'' ref)
           | [og] \<Rightarrow> Inr og
           | os \<Rightarrow> Inl (AmbiguousReferenceError ''organization'' ref (map o_name os)))))"

definition org_rename :: "uuid \<Rightarrow> string \<Rightarrow> database \<Rightarrow> database" where
  "org_rename i name db =
    db\<lparr>organizations := update_where (\<lambda>og. o_id og = i) (\<lambda>og. og\<lparr>o_name := name\<rparr>) (organizations db)\<rparr>"

definition org_delete :: "uuid \<Rightarrow> database \<Rightarrow> repo_error + database" where
  "org_delete i db =
    (if i \<in> o_id ` set (organizations db) \<and> i \<in> d_org_id ` set (domains db) then Inl IntegrityError
     else Inr (db\<lparr>organizations := delete_where (\<lambda>og. o_id og = i) (organizations db)\<rparr>))"

definition org_default :: "uuid \<Rightarrow> instant \<Rightarrow> database \<Rightarrow> repo_error + organization \<times> database" where
  "org_default fresh now db =
    (case org_list 2 0 db of
       [] \<Rightarrow> (let org = \<lparr>o_id = fresh, o_name = ''default'', o_created_at = now\<rparr>
             in bind_res (org_create org db) (\<lambda>db'. Inr (org, db')))
     | [og] \<Rightarrow> Inr (og, db)
     | os \<Rightarrow> Inl (AmbiguousReferenceError ''organization'' ''(unspecified)'' (map o_name os)))"

section \<open>Domains\<close>

definition domain_exists :: "string \<Rightarrow> database \<Rightarrow> bool" where
  "domain_exists name db \<longleftrightarrow> lower name \<in> d_name ` set (domains db)"

abbreviation is_local :: "string \<Rightarrow> database \<Rightarrow> bool" where
  "is_local \<equiv> domain_exists"

definition domain_create :: "domain \<Rightarrow> database \<Rightarrow> repo_error + database" where
  "domain_create d db =
    (if domain_exists (d_name d) db then Inl (ConflictError (d_name d))
     else if d_id d \<in> d_id ` set (domains db) \<or> d_name d \<in> d_name ` set (domains db)
       \<or> d_org_id d \<notin> o_id ` set (organizations db) then Inl IntegrityError
     else Inr (db\<lparr>domains := domains db @ [d]\<rparr>))"

definition domain_list :: "uuid option \<Rightarrow> nat \<Rightarrow> database \<Rightarrow> domain list" where
  "domain_list org limit db =
    take limit (sort_key d_name (filter (\<lambda>d. case org of None \<Rightarrow> True | Some i \<Rightarrow> d_org_id d = i) (domains db)))"

definition domain_ref_name :: "string \<Rightarrow> string" where
  "domain_ref_name ref =
    (let name = rstrip_chars ''.'' (lower (strip ref))
     in if CHR ''@'' \<in> set name then snd (split_first CHR ''@'' name) else name)"

definition domain_resolve :: "string \<Rightarrow> database \<Rightarrow> repo_error + domain" where
  "domain_resolve ref db =
    (case first_row (case as_uuid ref of
         Some i \<Rightarrow> filter (\<lambda>d. d_id d = i) (domains db)
       | None \<Rightarrow> filter (\<lambda>d. d_name d = domain_ref_name ref) (domains db)) of
       None \<Rightarrow> Inl (NotFoundError ''domain'' ref) | Some d \<Rightarrow> Inr d)"

definition domain_update :: "domain \<Rightarrow> database \<Rightarrow> repo_error + database" where
  "domain_update d db =
    (if d_id d \<in> d_id ` set (domains db) \<and>
        ((\<exists>d' \<in> set (domains db). d_id d' \<noteq> d_id d \<and> d_name d' = d_name d)
         \<or> d_org_id d \<notin> o_id ` set (organizations db)) then Inl IntegrityError
     else Inr (db\<lparr>domains := update_where (\<lambda>d'. d_id d' = d_id d) (\<lambda>_. d) (domains db)\<rparr>))"

definition domain_delete :: "uuid \<Rightarrow> database \<Rightarrow> repo_error + database" where
  "domain_delete i db =
    (if i \<in> d_id ` set (domains db) \<and> i \<in> a_domain_id ` set (accounts db) then Inl IntegrityError
     else Inr (db\<lparr>domains := delete_where (\<lambda>d. d_id d = i) (domains db)\<rparr>))"

section \<open>Accounts\<close>

text \<open>The account and its domain name: \<open>accounts JOIN domains\<close>.\<close>

definition joined :: "database \<Rightarrow> account list" where
  "joined db = concat (map (\<lambda>a. map (with_domain a) (filter (\<lambda>d. d_id d = a_domain_id a) (domains db))) (accounts db))"

abbreviation account_key :: "account \<Rightarrow> uuid \<times> string" where
  "account_key a \<equiv> (a_domain_id a, a_local_part a)"

definition account_create :: "account \<Rightarrow> database \<Rightarrow> repo_error + database" where
  "account_create a db =
    (if a_id a \<in> a_id ` set (accounts db) \<or> account_key a \<in> account_key ` set (accounts db)
       \<or> a_domain_id a \<notin> d_id ` set (domains db) then Inl IntegrityError
     else Inr (db\<lparr>accounts := accounts db @ [a\<lparr>a_domain_name := None\<rparr>]\<rparr>))"

definition account_list :: "uuid option \<Rightarrow> nat \<Rightarrow> nat \<Rightarrow> database \<Rightarrow> account list" where
  "account_list dom_id limit offset db =
    take limit (drop offset (sort_key (\<lambda>a. the (a_domain_name a)) (sort_key a_local_part
      (filter (\<lambda>a. case dom_id of None \<Rightarrow> True | Some i \<Rightarrow> a_domain_id a = i) (joined db)))))"

definition shown_address :: "account \<Rightarrow> string" where
  "shown_address a = a_local_part a @ ''@'' @ the (a_domain_name a)"

definition account_resolve :: "string \<Rightarrow> database \<Rightarrow> repo_error + account" where
  "account_resolve ref db =
    (case as_uuid ref of
       Some i \<Rightarrow> (case first_row (filter (\<lambda>a. a_id a = i) (joined db)) of
                  None \<Rightarrow> Inl (NotFoundError ''account'' ref) | Some a \<Rightarrow> Inr a)
     | None \<Rightarrow>
       (let value = lower (strip ref)
        in if CHR ''@'' \<in> set value
           then (let (local, domain_name) = split_first CHR ''@'' value
                 in case first_row (filter (\<lambda>a. a_local_part a = local \<and> a_domain_name a = Some domain_name) (joined db)) of
                      None \<Rightarrow> Inl (NotFoundError ''account'' ref) | Some a \<Rightarrow> Inr a)
           else (case filter (\<lambda>a. a_local_part a = value) (joined db) of
                   [] \<Rightarrow> Inl (NotFoundError ''account'' ref)
                 | [a] \<Rightarrow> Inr a
                 | as \<Rightarrow> Inl (AmbiguousReferenceError ''account'' ref (map shown_address as)))))"

definition account_find :: "string \<Rightarrow> database \<Rightarrow> account option" where
  "account_find addr db = (case account_resolve addr db of Inl _ \<Rightarrow> None | Inr a \<Rightarrow> Some a)"

definition account_update :: "account \<Rightarrow> database \<Rightarrow> repo_error + database" where
  "account_update a db =
    (if a_id a \<in> a_id ` set (accounts db) \<and>
        ((\<exists>a' \<in> set (accounts db). a_id a' \<noteq> a_id a \<and> account_key a' = account_key a)
         \<or> a_domain_id a \<notin> d_id ` set (domains db)) then Inl IntegrityError
     else Inr (db\<lparr>accounts := update_where (\<lambda>a'. a_id a' = a_id a) (\<lambda>_. a\<lparr>a_domain_name := None\<rparr>) (accounts db)\<rparr>))"

definition set_password_hash :: "uuid \<Rightarrow> string \<Rightarrow> database \<Rightarrow> database" where
  "set_password_hash i h db =
    db\<lparr>accounts := update_where (\<lambda>a. a_id a = i)
       (\<lambda>a. a\<lparr>a_password_hash := Some h, a_auth_mode := NATIVE\<rparr>) (accounts db)\<rparr>"

definition account_delete :: "uuid \<Rightarrow> database \<Rightarrow> database" where
  "account_delete i db = db\<lparr>accounts := delete_where (\<lambda>a. a_id a = i) (accounts db)\<rparr>"

definition account_count :: "uuid option \<Rightarrow> database \<Rightarrow> nat" where
  "account_count dom_id db = rowcount (\<lambda>a. case dom_id of None \<Rightarrow> True | Some i \<Rightarrow> a_domain_id a = i) (accounts db)"

section \<open>Aliases\<close>

abbreviation alias_key :: "mail_alias \<Rightarrow> uuid \<times> string" where
  "alias_key l \<equiv> (al_domain_id l, al_source l)"

definition alias_create :: "mail_alias \<Rightarrow> database \<Rightarrow> repo_error + database" where
  "alias_create l db =
    (if al_id l \<in> al_id ` set (aliases db) \<or> alias_key l \<in> alias_key ` set (aliases db) then Inl IntegrityError
     else Inr (db\<lparr>aliases := aliases db @ [l]\<rparr>))"

definition alias_list :: "uuid option \<Rightarrow> nat \<Rightarrow> database \<Rightarrow> mail_alias list" where
  "alias_list dom_id limit db =
    take limit (sort_key al_source (filter (\<lambda>l. case dom_id of None \<Rightarrow> True | Some i \<Rightarrow> al_domain_id l = i) (aliases db)))"

definition alias_resolve :: "string \<Rightarrow> uuid option \<Rightarrow> database \<Rightarrow> repo_error + mail_alias" where
  "alias_resolve ref dom_id db =
    (case as_uuid ref of
       Some i \<Rightarrow> (case first_row (filter (\<lambda>l. al_id l = i) (aliases db)) of
                  None \<Rightarrow> Inl (NotFoundError ''alias'' ref) | Some l \<Rightarrow> Inr l)
     | None \<Rightarrow>
       (let source = fst (split_first CHR ''@'' (lower (strip ref)))
        in case filter (\<lambda>l. al_source l = source \<and> (case dom_id of None \<Rightarrow> True | Some i \<Rightarrow> al_domain_id l = i)) (aliases db) of
             [] \<Rightarrow> Inl (NotFoundError ''alias'' ref)
           | [l] \<Rightarrow> Inr l
           | ls \<Rightarrow> Inl (AmbiguousReferenceError ''alias'' ref (map (uuid_str \<circ> al_id) ls))))"

definition alias_lookup :: "uuid \<Rightarrow> string \<Rightarrow> database \<Rightarrow> mail_alias option" where
  "alias_lookup dom_id source db =
    first_row (filter (\<lambda>l. al_domain_id l = dom_id \<and> al_source l = lower source \<and> al_is_active l) (aliases db))"

definition alias_update :: "mail_alias \<Rightarrow> instant \<Rightarrow> database \<Rightarrow> repo_error + database" where
  "alias_update l now db =
    (if \<exists>old \<in> set (aliases db). al_id old = al_id l \<and>
         (\<exists>l' \<in> set (aliases db). al_id l' \<noteq> al_id l \<and> alias_key l' = (al_domain_id old, al_source l))
     then Inl IntegrityError
     else Inr (db\<lparr>aliases := update_where (\<lambda>l'. al_id l' = al_id l)
       (\<lambda>l'. l'\<lparr>al_source := al_source l, al_destinations := al_destinations l, al_type := al_type l,
               al_is_active := al_is_active l, al_updated_at := now\<rparr>) (aliases db)\<rparr>))"

definition alias_delete :: "uuid \<Rightarrow> database \<Rightarrow> database" where
  "alias_delete i db = db\<lparr>aliases := delete_where (\<lambda>l. al_id l = i) (aliases db)\<rparr>"

section \<open>The invariant of the tables\<close>

definition db_ok :: "database \<Rightarrow> bool" where
  "db_ok db \<longleftrightarrow>
    unique_by o_id (organizations db) \<and>
    unique_by d_id (domains db) \<and> unique_by d_name (domains db) \<and>
    unique_by a_id (accounts db) \<and> unique_by account_key (accounts db) \<and>
    unique_by al_id (aliases db) \<and> unique_by alias_key (aliases db) \<and>
    d_org_id ` set (domains db) \<subseteq> o_id ` set (organizations db) \<and>
    a_domain_id ` set (accounts db) \<subseteq> d_id ` set (domains db) \<and>
    (\<forall>d \<in> set (domains db). canonical_name (d_name d) \<and> valid_uuid (d_id d)) \<and>
    (\<forall>a \<in> set (accounts db). canonical_local_part (a_local_part a) \<and> valid_uuid (a_id a) \<and> a_domain_name a = None)"

datatype repo_op =
    OrgCreate organization
  | OrgRename uuid string
  | OrgDelete uuid
  | DomainCreate domain
  | DomainUpdate domain
  | DomainDelete uuid
  | AccountCreate account
  | AccountUpdate account
  | SetPasswordHash uuid string
  | AccountDelete uuid
  | AliasCreate mail_alias
  | AliasUpdate mail_alias instant
  | AliasDelete uuid

fun repo_exec :: "repo_op \<Rightarrow> database \<Rightarrow> repo_error + database" where
  "repo_exec (OrgCreate g) db = org_create g db"
| "repo_exec (OrgRename i n) db = Inr (org_rename i n db)"
| "repo_exec (OrgDelete i) db = org_delete i db"
| "repo_exec (DomainCreate d) db = domain_create d db"
| "repo_exec (DomainUpdate d) db = domain_update d db"
| "repo_exec (DomainDelete i) db = domain_delete i db"
| "repo_exec (AccountCreate a) db = account_create a db"
| "repo_exec (AccountUpdate a) db = account_update a db"
| "repo_exec (SetPasswordHash i h) db = Inr (set_password_hash i h db)"
| "repo_exec (AccountDelete i) db = Inr (account_delete i db)"
| "repo_exec (AliasCreate l) db = alias_create l db"
| "repo_exec (AliasUpdate l now) db = alias_update l now db"
| "repo_exec (AliasDelete i) db = Inr (alias_delete i db)"

text \<open>What Pydantic checked of the model that is written.\<close>

fun validated :: "repo_op \<Rightarrow> bool" where
  "validated (DomainCreate d) = (canonical_name (d_name d) \<and> valid_uuid (d_id d))"
| "validated (DomainUpdate d) = (canonical_name (d_name d) \<and> valid_uuid (d_id d))"
| "validated (AccountCreate a) = (canonical_local_part (a_local_part a) \<and> valid_uuid (a_id a))"
| "validated (AccountUpdate a) = (canonical_local_part (a_local_part a) \<and> valid_uuid (a_id a))"
| "validated _ = True"

lemma update_row_key:
  assumes "unique_by k rows" and "unique_by i rows" and "\<And>r. r \<in> set rows \<Longrightarrow> i r = x \<Longrightarrow> k (f r) = y"
    and "\<And>r. r \<in> set rows \<Longrightarrow> i r \<noteq> x \<Longrightarrow> k r \<noteq> y"
  shows "unique_by k (update_where (\<lambda>r. i r = x) f rows)"
  using assms
proof (induction rows)
  case Nil
  then show ?case by (simp add: table_simps)
next
  case (Cons r rows)
  have IH: "unique_by k (update_where (\<lambda>r. i r = x) f rows)" using Cons by simp
  have other: "update_where (\<lambda>r. i r = x) f rows = rows" if "i r = x"
    using Cons.prems(2) that by (intro update_where_none) (auto simp: image_iff)
  show ?case
  proof (cases "i r = x")
    case True
    then have "k r' \<noteq> y" if "r' \<in> set rows" for r'
    proof -
      have "i r' \<noteq> x" using that True Cons.prems(2) by (metis distinct.simps(2) image_eqI list.map(2) set_map)
      then show ?thesis using that Cons.prems(4) by simp
    qed
    then show ?thesis using True Cons.prems by (auto simp: table_simps other)
  next
    case False
    then show ?thesis using IH Cons.prems by (auto simp: table_simps set_update_where)
  qed
qed

lemma update_where_same_key:
  "(\<And>r. p r \<Longrightarrow> k (f r) = k r) \<Longrightarrow> map k (update_where p f rows) = map k rows"
  by (simp add: update_where_def)

lemma image_update_same:
  "(\<And>r. p r \<Longrightarrow> k (f r) = k r) \<Longrightarrow> k ` set (update_where p f rows) = k ` set rows"
  using update_where_same_key [of p k f rows] by (metis set_map)

lemma image_update_subset:
  "k ` set rows \<subseteq> B \<Longrightarrow> (\<And>r. r \<in> set rows \<Longrightarrow> p r \<Longrightarrow> k (f r) \<in> B) \<Longrightarrow> k ` set (update_where p f rows) \<subseteq> B"
  by (auto simp: set_update_where)

lemma db_ok_domain_update:
  assumes ok: "db_ok db" and v: "validated (DomainUpdate d)" and r: "domain_update d db = Inr db'"
  shows "db_ok db'"
proof -
  have db': "db' = db\<lparr>domains := update_where (\<lambda>d'. d_id d' = d_id d) (\<lambda>_. d) (domains db)\<rparr>"
    and new: "d_id d \<in> d_id ` set (domains db) \<Longrightarrow>
      (\<forall>d' \<in> set (domains db). d_id d' \<noteq> d_id d \<longrightarrow> d_name d' \<noteq> d_name d) \<and> d_org_id d \<in> o_id ` set (organizations db)"
    using r by (auto simp: domain_update_def split: if_splits)
  have ids: "map d_id (domains db') = map d_id (domains db)"
    unfolding db' by simp (rule update_where_same_key, simp)
  have names: "unique_by d_name (domains db')"
  proof (cases "d_id d \<in> d_id ` set (domains db)")
    case True
    then show ?thesis unfolding db' using ok new
      by (auto simp: db_ok_def intro!: update_row_key)
  next
    case False
    then have "domains db' = domains db" unfolding db' by (auto simp: image_iff intro!: update_where_none)
    then show ?thesis using ok by (simp add: db_ok_def)
  qed
  have "d_id ` set (domains db') = d_id ` set (domains db)" using ids by (metis set_map)
  moreover have "d_org_id ` set (domains db') \<subseteq> o_id ` set (organizations db)"
  proof -
    have "d_org_id d \<in> o_id ` set (organizations db)" if "r \<in> set (domains db)" "d_id r = d_id d" for r
      using new that by (metis imageI)
    then show ?thesis unfolding db' using ok by (simp add: db_ok_def image_update_subset)
  qed
  moreover have "\<forall>x \<in> set (domains db'). canonical_name (d_name x) \<and> valid_uuid (d_id x)"
    using ok v unfolding db' by (auto simp: db_ok_def set_update_where)
  ultimately show ?thesis using ok ids names by (simp add: db_ok_def db')
qed

lemma db_ok_account_update:
  assumes ok: "db_ok db" and v: "validated (AccountUpdate a)" and r: "account_update a db = Inr db'"
  shows "db_ok db'"
proof -
  let ?f = "\<lambda>_. a\<lparr>a_domain_name := None\<rparr>"
  have db': "db' = db\<lparr>accounts := update_where (\<lambda>a'. a_id a' = a_id a) ?f (accounts db)\<rparr>"
    and new: "a_id a \<in> a_id ` set (accounts db) \<Longrightarrow>
      (\<forall>a' \<in> set (accounts db). a_id a' \<noteq> a_id a \<longrightarrow> account_key a' \<noteq> account_key a) \<and> a_domain_id a \<in> d_id ` set (domains db)"
    using r by (auto simp: account_update_def split: if_splits)
  have ids: "map a_id (accounts db') = map a_id (accounts db)"
    unfolding db' by simp (rule update_where_same_key, simp)
  have keys: "unique_by account_key (accounts db')"
  proof (cases "a_id a \<in> a_id ` set (accounts db)")
    case True
    have "unique_by account_key (update_where (\<lambda>a'. a_id a' = a_id a) ?f (accounts db))"
    proof (rule update_row_key [where y = "account_key a"])
      show "unique_by account_key (accounts db)" "unique_by a_id (accounts db)"
        using ok by (simp_all add: db_ok_def)
    qed (use new [OF True] in auto)
    then show ?thesis by (simp add: db')
  next
    case False
    then have "accounts db' = accounts db" unfolding db' by (auto simp: image_iff intro!: update_where_none)
    then show ?thesis using ok by (simp add: db_ok_def)
  qed
  have "a_domain_id ` set (accounts db') \<subseteq> d_id ` set (domains db)"
  proof -
    have "a_domain_id a \<in> d_id ` set (domains db)" if "r \<in> set (accounts db)" "a_id r = a_id a" for r
      using new that by (metis imageI)
    then show ?thesis unfolding db' using ok by (simp add: db_ok_def image_update_subset)
  qed
  moreover have "\<forall>x \<in> set (accounts db'). canonical_local_part (a_local_part x) \<and> valid_uuid (a_id x) \<and> a_domain_name x = None"
    using ok v unfolding db' by (auto simp: db_ok_def set_update_where)
  ultimately show ?thesis using ok ids keys by (simp add: db_ok_def db')
qed

lemma db_ok_alias_update:
  assumes ok: "db_ok db" and r: "alias_update l now db = Inr db'"
  shows "db_ok db'"
proof -
  let ?f = "\<lambda>l'. l'\<lparr>al_source := al_source l, al_destinations := al_destinations l, al_type := al_type l,
               al_is_active := al_is_active l, al_updated_at := now\<rparr>"
  let ?t = "update_where (\<lambda>l'. al_id l' = al_id l) ?f (aliases db)"
  have db': "db' = db\<lparr>aliases := ?t\<rparr>"
    and new: "\<And>old l'. old \<in> set (aliases db) \<Longrightarrow> al_id old = al_id l \<Longrightarrow> l' \<in> set (aliases db) \<Longrightarrow>
      al_id l' \<noteq> al_id l \<Longrightarrow> alias_key l' \<noteq> (al_domain_id old, al_source l)"
    using r by (auto simp: alias_update_def split: if_splits)
  have u: "unique_by al_id (aliases db)" "unique_by alias_key (aliases db)" using ok by (simp_all add: db_ok_def)
  have ids: "map al_id ?t = map al_id (aliases db)"
    by (rule update_where_same_key) simp
  have keys: "unique_by alias_key ?t"
  proof (cases "\<exists>old \<in> set (aliases db). al_id old = al_id l")
    case True
    then obtain old where old: "old \<in> set (aliases db)" "al_id old = al_id l" by blast
    show ?thesis
    proof (rule update_row_key [OF u(2,1), where y = "(al_domain_id old, al_source l)"])
      fix x assume "x \<in> set (aliases db)" "al_id x = al_id l"
      then have "x = old" using unique_byD [OF u(1)] old by simp
      then show "alias_key (?f x) = (al_domain_id old, al_source l)" by simp
    qed (use new [OF old] in blast)
  next
    case False
    then have "?t = aliases db" by (intro update_where_none) auto
    then show ?thesis using u by simp
  qed
  show ?thesis using ok ids keys by (simp add: db_ok_def db')
qed

lemma subset_delete:
  assumes "A \<subseteq> k ` set rows" and "\<not> (x \<in> k ` set rows \<and> x \<in> A)"
  shows "A \<subseteq> k ` set (delete_where (\<lambda>r. k r = x) rows)"
proof
  fix y assume y: "y \<in> A"
  with assms(1) obtain r where "r \<in> set rows" "y = k r" by blast
  moreover have "y \<noteq> x" using assms y by blast
  ultimately show "y \<in> k ` set (delete_where (\<lambda>r. k r = x) rows)"
    by (auto simp: set_delete_where)
qed

lemma delete_subset:
  "d_org_id ` set ds \<subseteq> B \<Longrightarrow> d_org_id ` set (delete_where p ds) \<subseteq> B"
  "a_domain_id ` set xs \<subseteq> B \<Longrightarrow> a_domain_id ` set (delete_where q xs) \<subseteq> B"
  "x \<in> set (delete_where r zs) \<longleftrightarrow> x \<in> set zs \<and> \<not> r x"
  by (auto simp: set_delete_where)

lemmas delete_facts = delete_subset unique_by_delete

lemma db_ok_password:
  assumes "db_ok db"
  shows "db_ok (set_password_hash i h db)"
proof -
  let ?t = "update_where (\<lambda>a. a_id a = i) (\<lambda>a. a\<lparr>a_password_hash := Some h, a_auth_mode := NATIVE\<rparr>) (accounts db)"
  have "map k ?t = map k (accounts db)" if "\<And>a x y. k (a\<lparr>a_password_hash := x, a_auth_mode := y\<rparr>) = k a" for k :: "account \<Rightarrow> 'b"
    by (rule update_where_same_key) (use that in auto)
  from this [of a_id] this [of a_domain_id] this [of "\<lambda>a. account_key a"]
  have "unique_by a_id ?t" "a_domain_id ` set ?t = a_domain_id ` set (accounts db)" "unique_by account_key ?t"
    using assms by (simp_all add: db_ok_def flip: set_map)
  moreover have "\<forall>a \<in> set ?t. canonical_local_part (a_local_part a) \<and> valid_uuid (a_id a) \<and> a_domain_name a = None"
    using assms by (auto simp: set_update_where db_ok_def)
  ultimately show ?thesis using assms by (simp add: db_ok_def set_password_hash_def)
qed

lemma db_ok_org_create:
  assumes "db_ok db" and "org_create g db = Inr db'"
  shows "db_ok db'"
proof -
  have "o_id g \<notin> o_id ` set (organizations db)" "db' = db\<lparr>organizations := organizations db @ [g]\<rparr>"
    using assms(2) by (simp_all add: org_create_def split: if_splits)
  then show ?thesis using assms(1) by (simp add: db_ok_def subset_insertI2)
qed

lemma db_ok_org_rename:
  assumes "db_ok db"
  shows "db_ok (org_rename i n db)"
proof -
  have "map o_id (update_where (\<lambda>g. o_id g = i) (\<lambda>g. g\<lparr>o_name := n\<rparr>) (organizations db)) = map o_id (organizations db)"
    by (rule update_where_same_key) simp
  moreover have "o_id ` set (update_where (\<lambda>g. o_id g = i) (\<lambda>g. g\<lparr>o_name := n\<rparr>) (organizations db)) = o_id ` set (organizations db)"
    by (rule image_update_same) simp
  ultimately show ?thesis using assms by (simp add: db_ok_def org_rename_def)
qed

lemma db_ok_org_delete:
  assumes ok: "db_ok db" and r: "org_delete i db = Inr db'"
  shows "db_ok db'"
proof -
  from r have no: "\<not> (i \<in> o_id ` set (organizations db) \<and> i \<in> d_org_id ` set (domains db))"
    and db': "db' = db\<lparr>organizations := delete_where (\<lambda>g. o_id g = i) (organizations db)\<rparr>"
    by (simp_all add: org_delete_def split: if_splits)
  have "d_org_id ` set (domains db) \<subseteq> o_id ` set (delete_where (\<lambda>g. o_id g = i) (organizations db))"
    by (rule subset_delete [OF _ no]) (use ok in \<open>simp add: db_ok_def\<close>)
  then show ?thesis using ok by (simp add: db_ok_def db' unique_by_delete)
qed

lemma db_ok_domain_create:
  assumes "db_ok db" and "validated (DomainCreate d)" and "domain_create d db = Inr db'"
  shows "db_ok db'"
proof -
  have "d_id d \<notin> d_id ` set (domains db)" "d_name d \<notin> d_name ` set (domains db)"
    "d_org_id d \<in> o_id ` set (organizations db)" "db' = db\<lparr>domains := domains db @ [d]\<rparr>"
    using assms(3) by (simp_all add: domain_create_def split: if_splits)
  then show ?thesis using assms(1,2) by (simp add: db_ok_def subset_insertI2)
qed

lemma db_ok_domain_delete:
  assumes ok: "db_ok db" and r: "domain_delete i db = Inr db'"
  shows "db_ok db'"
proof -
  from r have no: "\<not> (i \<in> d_id ` set (domains db) \<and> i \<in> a_domain_id ` set (accounts db))"
    and db': "db' = db\<lparr>domains := delete_where (\<lambda>d. d_id d = i) (domains db)\<rparr>"
    by (simp_all add: domain_delete_def split: if_splits)
  have "a_domain_id ` set (accounts db) \<subseteq> d_id ` set (delete_where (\<lambda>d. d_id d = i) (domains db))"
    by (rule subset_delete [OF _ no]) (use ok in \<open>simp add: db_ok_def\<close>)
  then show ?thesis using ok by (simp add: db_ok_def db' unique_by_delete delete_subset)
qed

lemma db_ok_account_create:
  assumes "db_ok db" and "validated (AccountCreate a)" and "account_create a db = Inr db'"
  shows "db_ok db'"
proof -
  have "a_id a \<notin> a_id ` set (accounts db)" "account_key a \<notin> account_key ` set (accounts db)"
    "a_domain_id a \<in> d_id ` set (domains db)" "db' = db\<lparr>accounts := accounts db @ [a\<lparr>a_domain_name := None\<rparr>]\<rparr>"
    using assms(3) by (simp_all add: account_create_def split: if_splits)
  then show ?thesis using assms(1,2) by (simp add: db_ok_def)
qed

lemma db_ok_account_delete: "db_ok db \<Longrightarrow> db_ok (account_delete i db)"
  by (simp add: account_delete_def db_ok_def delete_facts)

lemma db_ok_alias_create:
  assumes "db_ok db" and "alias_create l db = Inr db'"
  shows "db_ok db'"
proof -
  have "al_id l \<notin> al_id ` set (aliases db)" "alias_key l \<notin> alias_key ` set (aliases db)"
    "db' = db\<lparr>aliases := aliases db @ [l]\<rparr>"
    using assms(2) by (simp_all add: alias_create_def split: if_splits)
  then show ?thesis using assms(1) by (simp add: db_ok_def)
qed

lemma db_ok_alias_delete: "db_ok db \<Longrightarrow> db_ok (alias_delete i db)"
  by (simp add: alias_delete_def db_ok_def delete_facts)

lemmas db_ok_writes = db_ok_org_create db_ok_org_rename db_ok_org_delete
  db_ok_domain_create db_ok_domain_update db_ok_domain_delete
  db_ok_account_create db_ok_account_update db_ok_password db_ok_account_delete
  db_ok_alias_create db_ok_alias_update db_ok_alias_delete

lemma db_ok_exec: "db_ok db \<Longrightarrow> repo_exec op db = Inr db' \<Longrightarrow> validated op \<Longrightarrow> db_ok db'"
  by (cases op) (auto intro: db_ok_writes simp del: validated.simps)

subsection \<open>What a write touches\<close>

text \<open>The domains whose own row, accounts or aliases a write may change.\<close>

fun op_touches :: "repo_op \<Rightarrow> database \<Rightarrow> uuid set" where
  "op_touches (DomainUpdate d) db = {d_id d}"
| "op_touches (DomainDelete i) db = {i}"
| "op_touches (AccountCreate a) db = {a_domain_id a}"
| "op_touches (AccountUpdate a) db = {a_domain_id a} \<union> a_domain_id ` {r \<in> set (accounts db). a_id r = a_id a}"
| "op_touches (SetPasswordHash i h) db = a_domain_id ` {r \<in> set (accounts db). a_id r = i}"
| "op_touches (AccountDelete i) db = a_domain_id ` {r \<in> set (accounts db). a_id r = i}"
| "op_touches (AliasCreate l) db = {al_domain_id l}"
| "op_touches (AliasUpdate l now) db = al_domain_id ` {r \<in> set (aliases db). al_id r = al_id l}"
| "op_touches (AliasDelete i) db = al_domain_id ` {r \<in> set (aliases db). al_id r = i}"
| "op_touches _ db = {}"

definition same_domain :: "domain \<Rightarrow> database \<Rightarrow> database \<Rightarrow> bool" where
  "same_domain d db db' \<longleftrightarrow> d \<in> set (domains db') \<and>
    filter (\<lambda>a. a_domain_id a = d_id d) (accounts db') = filter (\<lambda>a. a_domain_id a = d_id d) (accounts db) \<and>
    filter (\<lambda>l. al_domain_id l = d_id d) (aliases db') = filter (\<lambda>l. al_domain_id l = d_id d) (aliases db)"

lemma write_frame:
  assumes "repo_exec op db = Inr db'" and "d \<in> set (domains db)" and "d_id d \<notin> op_touches op db"
  shows "same_domain d db db'"
proof (cases op)
  case (AccountUpdate a)
  then have "accounts db' = update_where (\<lambda>a'. a_id a' = a_id a) (\<lambda>_. a\<lparr>a_domain_name := None\<rparr>) (accounts db)"
    "domains db' = domains db" "aliases db' = aliases db"
    using assms(1) by (auto simp: account_update_def split: if_splits)
  moreover have "a_domain_id r \<noteq> d_id d" if "r \<in> set (accounts db)" "a_id r = a_id a" for r
    using assms(3) AccountUpdate that by force
  ultimately show ?thesis using assms(2,3) AccountUpdate
    by (auto simp: same_domain_def intro!: filter_update_where)
next
  case (AliasUpdate l now)
  then have "aliases db' = update_where (\<lambda>l'. al_id l' = al_id l)
       (\<lambda>l'. l'\<lparr>al_source := al_source l, al_destinations := al_destinations l, al_type := al_type l,
               al_is_active := al_is_active l, al_updated_at := now\<rparr>) (aliases db)"
    "domains db' = domains db" "accounts db' = accounts db"
    using assms(1) by (auto simp: alias_update_def split: if_splits)
  moreover have "al_domain_id r \<noteq> d_id d" if "r \<in> set (aliases db)" "al_id r = al_id l" for r
    using assms(3) AliasUpdate that by force
  ultimately show ?thesis using assms(2) by (auto simp: same_domain_def intro!: filter_update_where)
qed (use assms in \<open>auto simp: same_domain_def org_create_def org_rename_def org_delete_def domain_create_def
    domain_update_def domain_delete_def account_create_def set_password_hash_def account_delete_def alias_create_def
    alias_delete_def set_update_where set_delete_where image_iff eq_commute [of "d_id d"]
    split: if_splits intro!: filter_update_where filter_delete_where\<close>)

text \<open>A small installation the witnesses run on.\<close>

definition sample_domain :: "uuid \<Rightarrow> string \<Rightarrow> domain" where
  "sample_domain i n = \<lparr>d_id = i, d_org_id = 1, d_name = n, d_mail_hostname = None,
     d_dkim_private_key = None, d_dkim_selector = Some ''default'', d_webhook_url = None,
     d_auth_webhook_url = None, d_auth_webhook_secret = None, d_auth_webhook_verified = False,
     d_auth_webhook_verified_at = None, d_tls_cert_file = None, d_tls_key_file = None,
     d_relay_enabled = False, d_relay_host = None, d_relay_port = None, d_relay_username = None,
     d_relay_password = None, d_relay_use_tls = False, d_relay_tls_skip_verify = False,
     d_spam_policy = JUNK, d_is_verified = True, d_created_at = 0\<rparr>"

definition sample_account :: "uuid \<Rightarrow> uuid \<Rightarrow> string \<Rightarrow> account" where
  "sample_account i d l = \<lparr>a_id = i, a_domain_id = d, a_local_part = l, a_display_name = None,
     a_auth_mode = NATIVE, a_password_hash = None, a_external_id = None, a_quota_bytes = None,
     a_maildir_path = None, a_can_send = True, a_can_receive = True, a_created_at = 0,
     a_domain_name = None\<rparr>"

definition sample_alias :: "uuid \<Rightarrow> uuid \<Rightarrow> string \<Rightarrow> string list \<Rightarrow> alias_type \<Rightarrow> mail_alias" where
  "sample_alias i d src dests ty = \<lparr>al_id = i, al_domain_id = d, al_source = src,
     al_destinations = dests, al_type = ty, al_is_active = True, al_created_at = 0, al_updated_at = 0\<rparr>"

definition sample_db :: "database" where
  "sample_db = \<lparr>organizations = [\<lparr>o_id = 1, o_name = ''acme'', o_created_at = 0\<rparr>],
     domains = [sample_domain 2 ''acme.org'', sample_domain 3 ''b.net''],
     accounts = [sample_account 4 2 ''ann'', sample_account 5 3 ''bob''],
     aliases = [sample_alias 6 2 ''sales'' [''ann@acme.org'', ''out@far.com''] FORWARD,
       sample_alias 7 2 ''ann'' [''bob@b.net''] BRIDGE,
       sample_alias 8 2 ''ping'' [''pong@acme.org''] FORWARD,
       sample_alias 9 2 ''pong'' [''ping@acme.org''] FORWARD]\<rparr>"

lemma sample_canonical:
  "canonical_name ''acme.org''" "canonical_name ''b.net''" "canonical_name ''c.com''"
  "canonical_local_part ''ann''" "canonical_local_part ''bob''"
  by code_simp+

lemma sample_db_ok: "db_ok sample_db"
  by (simp add: db_ok_def sample_db_def sample_domain_def sample_account_def sample_alias_def
      sample_canonical valid_uuid_def)

section \<open>References\<close>

lemma db_okD:
  assumes "db_ok db"
  shows "unique_by o_id (organizations db)" "unique_by d_id (domains db)" "unique_by d_name (domains db)"
    "unique_by a_id (accounts db)" "unique_by account_key (accounts db)"
    "unique_by al_id (aliases db)" "unique_by alias_key (aliases db)"
    "\<And>d. d \<in> set (domains db) \<Longrightarrow> canonical_name (d_name d)"
    "\<And>d. d \<in> set (domains db) \<Longrightarrow> valid_uuid (d_id d)"
    "\<And>a. a \<in> set (accounts db) \<Longrightarrow> canonical_local_part (a_local_part a)"
    "\<And>a. a \<in> set (accounts db) \<Longrightarrow> valid_uuid (a_id a)"
    "\<And>a. a \<in> set (accounts db) \<Longrightarrow> a_domain_name a = None"
  using assms by (auto simp: db_ok_def)

lemma domain_resolve_by_id:
  assumes "db_ok db" and "d \<in> set (domains db)"
  shows "domain_resolve (uuid_str (d_id d)) db = Inr d"
  using first_row_by_key [OF db_okD(2) [OF assms(1)] assms(2)] db_okD(9) [OF assms] by (simp add: domain_resolve_def)

lemma db_ok_domain_of:
  assumes "db_ok db" and "a \<in> set (accounts db)"
  obtains d where "d \<in> set (domains db)" "d_id d = a_domain_id a"
proof -
  have "a_domain_id ` set (accounts db) \<subseteq> d_id ` set (domains db)" using assms(1) by (simp add: db_ok_def)
  then have "a_domain_id a \<in> d_id ` set (domains db)" using assms(2) by blast
  then show ?thesis using that by auto
qed

lemma domain_ref_name_of:
  assumes "canonical_name n"
  shows "domain_ref_name n = (if CHR ''@'' \<in> set n then snd (split_first CHR ''@'' n) else n)"
  using canonical_nameD [OF assms] by (simp add: domain_ref_name_def norm_addr_def)

text \<open>
  Looking a domain up by a name that is not a UUID finds the row with the normalised name,
  or raises \<open>NotFoundError\<close>.
\<close>

lemma domain_resolve_name:
  "as_uuid ref = None \<Longrightarrow> domain_resolve ref db =
    (case first_row (filter (\<lambda>d. d_name d = domain_ref_name ref) (domains db)) of
       None \<Rightarrow> Inl (NotFoundError ''domain'' ref) | Some d \<Rightarrow> Inr d)"
  by (simp add: domain_resolve_def)

lemma domain_resolve_Inr: "domain_resolve ref db = Inr d \<Longrightarrow> d \<in> set (domains db)"
  by (auto simp: domain_resolve_def split: option.splits dest!: first_row_filterD)

lemma domain_resolve_Inl: "domain_resolve ref db = Inl e \<Longrightarrow> is_lookup_error e"
  by (auto simp: domain_resolve_def split: option.splits)

lemma domain_by_name:
  assumes "db_ok db" and "d \<in> set (domains db)" and "CHR ''@'' \<notin> set (d_name d)"
  shows "domain_resolve (d_name d) db = Inr d"
proof -
  note D = db_okD [OF assms(1)]
  note c = canonical_nameD [OF D(8) [OF assms(2)]]
  have "as_uuid (d_name d) = None" using c(1) by (rule as_uuid_chars) simp
  then show ?thesis
    using first_row_by_key [OF D(3) assms(2)] assms(3) D(8) [OF assms(2)]
    by (simp add: domain_resolve_name domain_ref_name_of)
qed

text \<open>
  Every way of naming a domain that exists resolves to it: its id, its name, and an address
  at it in any case, with spaces around it and a trailing dot.
\<close>

theorem domain_references_agree:
  assumes "db_ok db" and "d \<in> set (domains db)" and "CHR ''@'' \<notin> set (d_name d)"
    and "CHR ''@'' \<notin> set l" and "rstrip_chars ''.'' (norm_addr ref) = l @ ''@'' @ d_name d"
  shows "domain_resolve (uuid_str (d_id d)) db = Inr d \<and> domain_resolve (d_name d) db = Inr d \<and>
    domain_resolve ref db = Inr d"
proof (intro conjI)
  note D = db_okD [OF assms(1)]
  show "domain_resolve (d_name d) db = Inr d" by (rule domain_by_name [OF assms(1-3)])
  show "domain_resolve (uuid_str (d_id d)) db = Inr d"
    using first_row_by_key [OF D(2) assms(2)] D(9) [OF assms(2)] by (simp add: domain_resolve_def)
  have "CHR ''@'' \<in> set (norm_addr ref)"
    by (rule rstrip_chars_subset [of _ "''.''"]) (simp add: assms(5))
  then have "as_uuid ref = None"
    by (intro as_uuid_chars [of "CHR ''@''"]) (simp_all add: at_in_norm_addr)
  moreover have "domain_ref_name ref = d_name d"
    using assms(5) split_first_unique [OF assms(4), of "d_name d"] by (simp add: domain_ref_name_def norm_addr_def)
  ultimately show "domain_resolve ref db = Inr d"
    using first_row_by_key [OF D(3) assms(2)] by (simp add: domain_resolve_name)
qed

lemma domain_references_agree_witness:
  "domain_resolve ''  Ann@ACME.org. '' sample_db = Inr (sample_domain 2 ''acme.org'')"
proof -
  have "sample_domain 2 ''acme.org'' \<in> set (domains sample_db)" by (simp add: sample_db_def)
  moreover have "rstrip_chars ''.'' (norm_addr ''  Ann@ACME.org. '') = ''ann'' @ ''@'' @ ''acme.org''" by code_simp
  ultimately show ?thesis
    using domain_references_agree [OF sample_db_ok, of "sample_domain 2 ''acme.org''" "''ann''" "''  Ann@ACME.org. ''"]
    by (simp add: sample_domain_def)
qed

lemma in_joined: "x \<in> set (joined db) \<longleftrightarrow>
    (\<exists>a \<in> set (accounts db). \<exists>d \<in> set (domains db). d_id d = a_domain_id a \<and> x = with_domain a d)"
  by (auto simp: joined_def)

lemma joined_ids:
  assumes "db_ok db"
  shows "map a_id (joined db) = map a_id (accounts db)"
proof -
  have one: "map (with_domain a) (filter (\<lambda>d. d_id d = a_domain_id a) (domains db)) = [with_domain a d]"
    if "a \<in> set (accounts db)" "d \<in> set (domains db)" "d_id d = a_domain_id a" for a d
  proof -
    from filter_by_key [OF db_okD(2) [OF assms] that(2)] that(3) show ?thesis by simp
  qed
  have "map a_id (map (with_domain a) (filter (\<lambda>d. d_id d = a_domain_id a) (domains db))) = [a_id a]"
    if a: "a \<in> set (accounts db)" for a
  proof -
    obtain d where "d \<in> set (domains db)" "d_id d = a_domain_id a" using db_ok_domain_of [OF assms a] .
    from one [OF a this] show ?thesis by (simp add: with_domain_def)
  qed
  then have "map (\<lambda>a. map a_id (map (with_domain a) (filter (\<lambda>d. d_id d = a_domain_id a) (domains db)))) (accounts db)
      = map (\<lambda>a. [a_id a]) (accounts db)" by (rule map_cong [OF refl])
  then have "concat (map (\<lambda>a. map a_id (map (with_domain a) (filter (\<lambda>d. d_id d = a_domain_id a) (domains db)))) (accounts db))
      = map a_id (accounts db)" by (simp only: concat_map_singleton)
  then show ?thesis by (simp add: joined_def map_concat o_def)
qed

lemma account_by_address:
  assumes "db_ok db" and "a \<in> set (accounts db)" and "d \<in> set (domains db)" and "d_id d = a_domain_id a"
    and "as_uuid ref = None" and "norm_addr ref = a_local_part a @ ''@'' @ d_name d"
  shows "account_resolve ref db = Inr (with_domain a d)"
proof -
  note D = db_okD [OF assms(1)]
  have l: "CHR ''@'' \<notin> set (a_local_part a)" using canonical_local_partD(2) [OF D(10) [OF assms(2)]] .
  have "first_row (filter (\<lambda>x. a_local_part x = a_local_part a \<and> a_domain_name x = Some (d_name d)) (joined db))
      = Some (with_domain a d)"
  proof (rule first_row_unique [where key = a_id])
    show "unique_by a_id (joined db)" using joined_ids [OF assms(1)] D(4) by simp
    show "with_domain a d \<in> set (joined db)" using assms(2-4) by (auto simp: in_joined)
  next
    fix x assume x: "x \<in> set (joined db)" "a_local_part x = a_local_part a \<and> a_domain_name x = Some (d_name d)"
    then obtain a' d' where *: "a' \<in> set (accounts db)" "d' \<in> set (domains db)" "d_id d' = a_domain_id a'" "x = with_domain a' d'"
      by (auto simp: in_joined)
    then have "d' = d" using x(2) unique_byD [OF D(3) *(2) assms(3)] by (simp add: with_domain_def)
    then have "a' = a" using * x(2) assms(4) by (intro unique_byD [OF D(5) *(1) assms(2)]) (simp add: with_domain_def)
    then show "a_id x = a_id (with_domain a d)" using * \<open>d' = d\<close> by simp
  qed (simp add: with_domain_def)
  then show ?thesis
    using split_first_unique [OF l, of "d_name d"] assms(5,6) unfolding norm_addr_def
    by (simp add: account_resolve_def Let_def)
qed

text \<open>
  An account is found by its address, in any case and with spaces around it, and by its id;
  and a bare local part finds the account
  exactly when only one account on the whole server has it, so it never picks one of several.
\<close>

theorem account_references_agree:
  assumes "db_ok db" and "a \<in> set (accounts db)" and "d \<in> set (domains db)" and "d_id d = a_domain_id a"
    and "norm_addr ref = a_local_part a @ ''@'' @ d_name d"
  shows "account_resolve ref db = Inr (with_domain a d) \<and>
    account_resolve (uuid_str (a_id a)) db = Inr (with_domain a d) \<and>
    (as_uuid (a_local_part a) = None \<longrightarrow>
      (account_resolve (a_local_part a) db = Inr (with_domain a d) \<longleftrightarrow>
       (\<forall>a' \<in> set (accounts db). a_local_part a' = a_local_part a \<longrightarrow> a' = a)))"
proof (intro conjI impI)
  note D = db_okD [OF assms(1)]
  note L = canonical_local_partD [OF D(10) [OF assms(2)]]
  have u: "unique_by a_id (joined db)" using joined_ids [OF assms(1)] D(4) by simp
  have m: "with_domain a d \<in> set (joined db)" using assms(2-4) by (auto simp: in_joined)
  have id: "a_id (with_domain a d) = a_id a" by (simp add: with_domain_def)
  have "CHR ''@'' \<in> set (norm_addr ref)" using assms(5) by simp
  then have "as_uuid ref = None" by (intro as_uuid_chars [of "CHR ''@''"]) (simp_all add: at_in_norm_addr)
  then show "account_resolve ref db = Inr (with_domain a d)"
    by (rule account_by_address [OF assms(1-4) _ assms(5)])
  show "account_resolve (uuid_str (a_id a)) db = Inr (with_domain a d)"
    using first_row_by_key [OF u m] D(11) [OF assms(2)] by (simp add: account_resolve_def id)
  assume none: "as_uuid (a_local_part a) = None"
  let ?f = "filter (\<lambda>x. a_local_part x = a_local_part a) (joined db)"
  have res: "account_resolve (a_local_part a) db =
      (case ?f of [] \<Rightarrow> Inl (NotFoundError ''account'' (a_local_part a)) | [x] \<Rightarrow> Inr x
        | as \<Rightarrow> Inl (AmbiguousReferenceError ''account'' (a_local_part a) (map shown_address as)))"
    using none L by (simp add: account_resolve_def Let_def)
  have in_f: "with_domain a d \<in> set ?f" using m by (simp add: with_domain_def)
  have one: "account_resolve (a_local_part a) db = Inr (with_domain a d) \<longleftrightarrow> ?f = [with_domain a d]"
    unfolding res by (auto split: list.splits)
  have "?f = [with_domain a d] \<longleftrightarrow> (\<forall>x \<in> set ?f. x = with_domain a d)"
  proof
    assume all: "\<forall>x \<in> set ?f. x = with_domain a d"
    have "distinct ?f" using u by (simp add: distinct_map)
    with all in_f show "?f = [with_domain a d]"
      by (cases ?f; cases "tl ?f") auto
  qed simp
  also have "\<dots> \<longleftrightarrow> (\<forall>a' \<in> set (accounts db). a_local_part a' = a_local_part a \<longrightarrow> a' = a)"
  proof
    assume all: "\<forall>x \<in> set ?f. x = with_domain a d"
    show "\<forall>a' \<in> set (accounts db). a_local_part a' = a_local_part a \<longrightarrow> a' = a"
    proof (intro ballI impI)
      fix a' assume a': "a' \<in> set (accounts db)" "a_local_part a' = a_local_part a"
      obtain d' where d': "d' \<in> set (domains db)" "d_id d' = a_domain_id a'" using db_ok_domain_of [OF assms(1) a'(1)] .
      have "with_domain a' d' \<in> set ?f" using a' d' by (auto simp: in_joined with_domain_def)
      then have "with_domain a' d' = with_domain a d" using all by blast
      then have "a_id a' = a_id a" unfolding with_domain_def by (metis account.select_convs(1) account.surjective account.update_convs(13))
      then show "a' = a" using unique_byD [OF D(4) a'(1) assms(2)] by simp
    qed
  next
    assume all: "\<forall>a' \<in> set (accounts db). a_local_part a' = a_local_part a \<longrightarrow> a' = a"
    show "\<forall>x \<in> set ?f. x = with_domain a d"
    proof
      fix x assume "x \<in> set ?f"
      then obtain a' d' where "a' \<in> set (accounts db)" "d' \<in> set (domains db)" "d_id d' = a_domain_id a'"
        "x = with_domain a' d'" "a_local_part a' = a_local_part a"
        by (auto simp: in_joined with_domain_def)
      moreover from this have "a' = a" using all by blast
      ultimately show "x = with_domain a d" using unique_byD [OF D(2) _ assms(3)] assms(4) by simp
    qed
  qed
  finally show "account_resolve (a_local_part a) db = Inr (with_domain a d) \<longleftrightarrow>
       (\<forall>a' \<in> set (accounts db). a_local_part a' = a_local_part a \<longrightarrow> a' = a)" using one by simp
qed

lemma account_references_agree_witness:
  "account_resolve '' ANN@acme.org '' sample_db = Inr (with_domain (sample_account 4 2 ''ann'') (sample_domain 2 ''acme.org''))"
proof -
  have "sample_account 4 2 ''ann'' \<in> set (accounts sample_db)" "sample_domain 2 ''acme.org'' \<in> set (domains sample_db)"
    by (simp_all add: sample_db_def)
  moreover have "norm_addr '' ANN@acme.org '' = ''ann'' @ ''@'' @ ''acme.org''" by code_simp
  ultimately show ?thesis
    using account_references_agree [OF sample_db_ok, of "sample_account 4 2 ''ann''" "sample_domain 2 ''acme.org''" "'' ANN@acme.org ''"]
    by (simp add: sample_domain_def sample_account_def)
qed

text \<open>
  The validator of a domain name is not idempotent: whitespace before the final dots survives
  the first run (only a space is refused) and is stripped by the next one.
\<close>

lemma tab_name_unstable:
  "normalise_name (''a.b'' @ [CHR 0x09] @ ''.'') = Inr (''a.b'' @ [CHR 0x09])"
  "normalise_name (''a.b'' @ [CHR 0x09]) = Inr ''a.b''"
  by code_simp+

text \<open>\<open>LIKE\<close> metacharacters in a reference are not escaped: \<open>_\<close> matches any character.\<close>

lemma org_like_wildcard:
  "org_resolve ''_c'' sample_db = Inr \<lparr>o_id = 1, o_name = ''acme'', o_created_at = 0\<rparr>"
  by code_simp

section \<open>Lookups never raise anything but a \<open>LookupError\<close>\<close>

lemma account_resolve_Inl: "account_resolve ref db = Inl e \<Longrightarrow> is_lookup_error e"
  by (auto simp: account_resolve_def Let_def split_beta split: option.splits if_splits list.splits)

lemma org_resolve_Inl: "org_resolve ref db = Inl e \<Longrightarrow> is_lookup_error e"
  by (auto simp: org_resolve_def split: option.splits list.splits)

lemma alias_resolve_Inl: "alias_resolve ref did db = Inl e \<Longrightarrow> is_lookup_error e"
  by (auto simp: alias_resolve_def Let_def split: option.splits if_splits list.splits)

text \<open>
  The delivery path looks an alias up by its exact source, and only while it is active.
\<close>

lemma alias_lookup_iff:
  assumes "db_ok db"
  shows "alias_lookup did src db = Some l \<longleftrightarrow>
    l \<in> set (aliases db) \<and> al_domain_id l = did \<and> al_source l = lower src \<and> al_is_active l"
proof
  assume "alias_lookup did src db = Some l"
  then show "l \<in> set (aliases db) \<and> al_domain_id l = did \<and> al_source l = lower src \<and> al_is_active l"
    by (auto simp: alias_lookup_def dest!: first_row_filterD)
next
  assume "l \<in> set (aliases db) \<and> al_domain_id l = did \<and> al_source l = lower src \<and> al_is_active l"
  then show "alias_lookup did src db = Some l"
    unfolding alias_lookup_def
    by (intro first_row_unique [OF db_okD(7) [OF assms]]) auto
qed

end
