(* ===== verification/Replies.thy ===== *)
theory Replies
  imports Py_Text Retry
begin

text \<open>
  \<open>src/src/lightr/mail/replies.py\<close>: reply tokens and their table \<open>alias_reply_routes\<close>, and the
  removal of the header card from a quoted reply. The clock and \<open>secrets.token_hex\<close> are
  arguments. The table's primary key is the token.
\<close>

section \<open>Tokens\<close>

definition REPLY_PREFIX :: string where "REPLY_PREFIX = ''reply+''"

definition TOKEN_BYTES :: nat where "TOKEN_BYTES = 12"

definition RETENTION :: int where "RETENTION = days 30"

definition reply_address :: "string \<Rightarrow> string \<Rightarrow> string" where
  "reply_address token domain_name = REPLY_PREFIX @ token @ ''@'' @ domain_name"

text \<open>The regular expression \<open>^reply\+([0-9a-f]{24})$\<close> on the stripped, lowercased local part.\<close>

definition token_from :: "string \<Rightarrow> string option" where
  "token_from local_part =
    (let l = lower (strip local_part); t = drop (length REPLY_PREFIX) l
     in if starts_with REPLY_PREFIX l \<and> length t = TOKEN_BYTES * 2 \<and> list_all is_hex t then Some t else None)"

lemma token_from_iff:
  "token_from l = Some t \<longleftrightarrow>
    norm_addr l = REPLY_PREFIX @ t \<and> length t = TOKEN_BYTES * 2 \<and> list_all is_hex t"
  by (auto simp: token_from_def norm_addr_def Let_def starts_with_iff)

text \<open>A token is 24 lowercase hexadecimal digits.\<close>

definition is_token :: "string \<Rightarrow> bool" where
  "is_token t \<longleftrightarrow> length t = TOKEN_BYTES * 2 \<and> list_all is_hex t"

lemma lower_hex: "is_hex c \<Longrightarrow> lower_char c = c \<and> c \<noteq> CHR ''@''"
proof -
  have "list_all (\<lambda>c. lower_char c = c \<and> c \<noteq> CHR ''@'') ''0123456789abcdef''" by code_simp
  then show "is_hex c \<Longrightarrow> lower_char c = c \<and> c \<noteq> CHR ''@''" unfolding is_hex_def list_all_iff by blast
qed

lemma lower_token: "list_all is_hex t \<Longrightarrow> lower t = t \<and> CHR ''@'' \<notin> set t"
  using lower_hex by (auto simp: lower_def list_all_iff intro!: map_idI)

lemma strip_token: "list_all is_hex t \<Longrightarrow> strip (REPLY_PREFIX @ t) = REPLY_PREFIX @ t"
proof -
  assume t: "list_all is_hex t"
  have "list_all (\<lambda>c. \<not> is_space c) REPLY_PREFIX" by code_simp
  then show ?thesis using t hex_facts by (intro strip_absent) (auto simp: list_all_iff)
qed

lemma lower_prefix [simp]: "lower REPLY_PREFIX = REPLY_PREFIX"
  by code_simp

lemma at_prefix [simp]: "CHR ''@'' \<notin> set REPLY_PREFIX"
  by (simp add: REPLY_PREFIX_def)

text \<open>
  A token address reads back: the local part of \<open>reply_address token domain\<close>, in any case
  a mail system gives it back in, yields the token, and every local part that yields it is that
  one up to case and surrounding whitespace.
\<close>

theorem token_roundtrip:
  assumes "is_token t"
  shows "split_first CHR ''@'' (reply_address t dn) = (REPLY_PREFIX @ t, dn) \<and>
    (token_from l = Some t \<longleftrightarrow> norm_addr l = REPLY_PREFIX @ t) \<and>
    token_from (fst (split_first CHR ''@'' (reply_address t dn))) = Some t"
proof -
  have t: "length t = TOKEN_BYTES * 2" "list_all is_hex t" using assms by (simp_all add: is_token_def)
  have split: "split_first CHR ''@'' (reply_address t dn) = (REPLY_PREFIX @ t, dn)"
    using split_first_unique [of "CHR ''@''" "REPLY_PREFIX @ t" dn] lower_token [OF t(2)]
    by (simp add: reply_address_def)
  moreover have "norm_addr (REPLY_PREFIX @ t) = REPLY_PREFIX @ t"
    using strip_token [OF t(2)] lower_token [OF t(2)] by (simp add: norm_addr_def)
  ultimately show ?thesis using t by (simp add: token_from_iff)
qed

lemma token_roundtrip_witness:
  "token_from (fst (split_first CHR ''@'' (reply_address ''0123456789abcdef01234567'' ''acme.org''))) =
    Some ''0123456789abcdef01234567''"
proof -
  have "is_token ''0123456789abcdef01234567''" by code_simp
  from token_roundtrip [OF this, of "''acme.org''"] show ?thesis by blast
qed

section \<open>Routes and their table\<close>

datatype route_kind = BRIDGE_ROUTE | FORWARD_ROUTE

record reply_route =
  rr_token :: string
  rr_alias_id :: uuid
  rr_domain_id :: "uuid option"
  rr_local_address :: string
  rr_original_from :: string
  rr_destinations :: "string list"
  rr_account_id :: "uuid option"
  rr_original_to :: "string option"
  rr_original_cc :: "string option"
  rr_kind :: route_kind
  rr_created_at :: instant

type_synonym reply_table = "reply_route list"

definition route_address :: "reply_route \<Rightarrow> string \<Rightarrow> string" where
  "route_address r domain_name = reply_address (rr_token r) domain_name"

definition route_expired :: "instant \<Rightarrow> reply_route \<Rightarrow> bool" where
  "route_expired now r \<longleftrightarrow> rr_created_at r < now - RETENTION"

definition accepts_reply_from :: "reply_route \<Rightarrow> string list \<Rightarrow> bool" where
  "accepts_reply_from r senders =
    (let allowed = map norm_addr (rr_destinations r)
     in \<exists>s \<in> set senders. s \<noteq> [] \<and> norm_addr s \<in> set allowed)"

text \<open>\<open>create\<close> raises when the fresh token is already in the table (\<open>None\<close>: \<open>IntegrityError\<close>).\<close>

definition reply_create ::
  "string \<Rightarrow> instant \<Rightarrow> uuid \<Rightarrow> uuid option \<Rightarrow> string \<Rightarrow> string list \<Rightarrow> string \<Rightarrow> route_kind \<Rightarrow> uuid option \<Rightarrow>
   string option \<Rightarrow> string option \<Rightarrow> reply_table \<Rightarrow> (reply_route \<times> reply_table) option" where
  "reply_create token now alias_id domain_id local_address destinations original_from kind account_id
     original_to original_cc t =
    (let route = \<lparr>rr_token = token, rr_alias_id = alias_id, rr_domain_id = domain_id,
       rr_local_address = lower local_address, rr_original_from = lower original_from,
       rr_destinations = map lower destinations, rr_account_id = account_id,
       rr_original_to = original_to, rr_original_cc = original_cc, rr_kind = kind, rr_created_at = now\<rparr>
     in if token \<in> rr_token ` set t then None else Some (route, t @ [route]))"

definition reply_get :: "string \<Rightarrow> instant \<Rightarrow> reply_table \<Rightarrow> reply_route option" where
  "reply_get token now t =
    (case first_row (filter (\<lambda>r. rr_token r = lower token) t) of
       None \<Rightarrow> None | Some r \<Rightarrow> if route_expired now r then None else Some r)"

definition reply_sweep :: "int \<Rightarrow> instant \<Rightarrow> reply_table \<Rightarrow> nat \<times> reply_table" where
  "reply_sweep older_than now t =
    (let p = (\<lambda>r. rr_created_at r < now - older_than) in (rowcount p t, delete_where p t))"

lemma reply_get_iff:
  assumes "unique_by rr_token t"
  shows "reply_get token now t = Some r \<longleftrightarrow>
    r \<in> set t \<and> rr_token r = lower token \<and> \<not> route_expired now r"
proof
  assume "reply_get token now t = Some r"
  then show "r \<in> set t \<and> rr_token r = lower token \<and> \<not> route_expired now r"
    by (auto simp: reply_get_def split: option.splits if_splits dest!: first_row_filterD)
next
  assume r: "r \<in> set t \<and> rr_token r = lower token \<and> \<not> route_expired now r"
  then have "first_row (filter (\<lambda>x. rr_token x = lower token) t) = Some r"
    by (intro first_row_unique [OF assms]) auto
  with r show "reply_get token now t = Some r" by (simp add: reply_get_def)
qed

text \<open>
  Removing expired tokens is invisible: after a sweep, every lookup from then on gives what
  it gave without it, so when the sweep runs does not matter.
\<close>

theorem reply_sweep_unobservable:
  assumes "unique_by rr_token t" and "now \<le> later"
  shows "reply_get token later (snd (reply_sweep RETENTION now t)) = reply_get token later t"
proof -
  let ?t = "snd (reply_sweep RETENTION now t)"
  have u: "unique_by rr_token ?t" using assms(1) by (simp add: reply_sweep_def Let_def unique_by_delete)
  have "reply_get token later ?t = Some r \<longleftrightarrow> reply_get token later t = Some r" for r
    unfolding reply_get_iff [OF u] reply_get_iff [OF assms(1)] using assms(2)
    by (auto simp: reply_sweep_def Let_def set_delete_where route_expired_def)
  then show ?thesis by (metis not_Some_eq)
qed

text \<open>
  A token that was handed out leads back to the route it was made for, in any case it comes
  back in, for thirty days and not a moment longer, unless another call stored the same token.
\<close>

theorem reply_route_lives:
  assumes "unique_by rr_token t" and "is_token token"
    and "reply_create token now al did addr dests orig kind acc oto occ t = Some (r, t')"
    and "lower token' = token"
  shows "reply_get token' later t' = (if later \<le> now + RETENTION then Some r else None) \<and>
    rr_local_address r = lower addr \<and> rr_original_from r = lower orig \<and>
    rr_destinations r = map lower dests \<and> unique_by rr_token t' \<and> set t \<subseteq> set t'"
proof -
  have r: "t' = t @ [r]" "rr_token r = token" "rr_created_at r = now" "token \<notin> rr_token ` set t"
    "rr_local_address r = lower addr" "rr_original_from r = lower orig" "rr_destinations r = map lower dests"
    using assms(3) by (auto simp: reply_create_def Let_def split: if_splits)
  have u: "unique_by rr_token t'" using r assms(1) by auto
  have "reply_get token' later t' = Some x \<longleftrightarrow> x = r \<and> later \<le> now + RETENTION" for x
  proof -
    have "rr_token x \<noteq> token" if "x \<in> set t" using r(4) that by (metis imageI)
    then show ?thesis unfolding reply_get_iff [OF u] using r(1-3) assms(4) by (auto simp: route_expired_def)
  qed
  then have "reply_get token' later t' = (if later \<le> now + RETENTION then Some r else None)"
    by (metis not_Some_eq)
  with r u show ?thesis by auto
qed

lemma reply_sweep_unobservable_witness:
  "reply_get ''ab'' (days 31) (snd (reply_sweep RETENTION (days 30) [])) = None"
  using reply_sweep_unobservable [of "[]" "days 30" "days 31" "''ab''"]
  by (simp add: days_def reply_get_def)

lemma reply_route_lives_witness:
  "\<exists>r t'. reply_create ''0123456789abcdef01234567'' 5 6 (Some 2) ''Sales@acme.org'' [''out@far.com'']
      ''joe@x.org'' FORWARD_ROUTE None None None [] = Some (r, t') \<and>
    reply_get ''0123456789ABCDEF01234567'' 7 t' = Some r"
proof -
  have t: "is_token ''0123456789abcdef01234567''" by code_simp
  have l: "lower ''0123456789ABCDEF01234567'' = ''0123456789abcdef01234567''" by code_simp
  obtain r t' where c: "reply_create ''0123456789abcdef01234567'' 5 6 (Some 2) ''Sales@acme.org'' [''out@far.com'']
      ''joe@x.org'' FORWARD_ROUTE None None None [] = Some (r, t')"
    by (simp add: reply_create_def Let_def)
  have "reply_get ''0123456789ABCDEF01234567'' 7 t' = Some r"
    using reply_route_lives [OF _ t c l, of 7] by (simp add: RETENTION_def days_def)
  with c show ?thesis by blast
qed

section \<open>Taking the header card out of a quoted reply\<close>

definition FORWARD_MARKER :: string where "FORWARD_MARKER = ''Forwarded by Lightr''"

definition REPLY_HINT :: string where "REPLY_HINT = ''Reply to this email to answer the sender.''"

definition card_starts :: "string list" where
  "card_starts = [FORWARD_MARKER, ''---------- Forwarded by Lightr ----------'']"

definition card_ends :: "string list" where
  "card_ends = [REPLY_HINT, ''---------- Original message ----------'', ''Reply to this message to answer'']"

definition bare :: "string \<Rightarrow> string" where
  "bare line = strip (strip_chars ''*'' (strip (dropWhile (\<lambda>c. is_space c \<or> c = CHR ''>'') line)))"

text \<open>\<open>next((i for i in range(i0, len(xs)) if p(xs[i])), None)\<close>.\<close>

fun find_index :: "('a \<Rightarrow> bool) \<Rightarrow> 'a list \<Rightarrow> nat option" where
  "find_index p [] = None"
| "find_index p (x # xs) = (if p x then Some 0 else map_option Suc (find_index p xs))"

definition find_from :: "('a \<Rightarrow> bool) \<Rightarrow> nat \<Rightarrow> 'a list \<Rightarrow> nat option" where
  "find_from p i xs = map_option ((+) i) (find_index p (drop i xs))"

text \<open>The lines the card occupies: from \<open>start\<close> up to, not including, \<open>stop\<close>.\<close>

definition card_lines :: "string list \<Rightarrow> (nat \<times> nat) option" where
  "card_lines lines =
    (case find_index (\<lambda>l. bare l \<in> set card_starts) lines of
       None \<Rightarrow> None
     | Some start \<Rightarrow>
       (case find_from (\<lambda>l. \<exists>e \<in> set card_ends. starts_with e (bare l)) (start + 1) lines of
          None \<Rightarrow> None
        | Some j \<Rightarrow>
          let j = (if \<not> ends_with ''.'' (bare (lines ! j)) \<and> j + 1 < length lines
                      \<and> ends_with ''.'' (bare (lines ! (j + 1))) then j + 1 else j);
              j = (if j + 1 < length lines \<and> bare (lines ! (j + 1)) = [] then j + 1 else j)
          in Some (start, j + 1)))"

definition strip_card_text :: "string \<Rightarrow> string" where
  "strip_card_text text =
    (let lines = splitlines_keep text
     in case card_lines lines of
          None \<Rightarrow> text
        | Some (start, stop) \<Rightarrow> concat (take start lines @ drop stop lines))"

lemma find_index_Some:
  "find_index p xs = Some i \<longleftrightarrow> i < length xs \<and> p (xs ! i) \<and> (\<forall>j < i. \<not> p (xs ! j))"
proof (induction xs arbitrary: i)
  case Nil
  then show ?case by simp
next
  case (Cons x xs)
  show ?case
    by (cases i) (auto simp: Cons less_Suc_eq_0_disj)
qed

lemma find_index_None: "find_index p xs = None \<longleftrightarrow> (\<forall>x \<in> set xs. \<not> p x)"
  by (induction xs) auto

lemma find_from_Some:
  "find_from p i xs = Some j \<Longrightarrow> i \<le> j \<and> j < length xs \<and> p (xs ! j)"
  by (auto simp: find_from_def find_index_Some)

lemma card_lines_bounds:
  assumes "card_lines lines = Some (start, stop)"
  shows "start + 2 \<le> stop" "stop \<le> length lines"
    "bare (lines ! start) \<in> set card_starts" "\<forall>i < start. bare (lines ! i) \<notin> set card_starts"
  using assms
  by (auto simp: card_lines_def Let_def find_index_Some split: option.splits if_splits dest!: find_from_Some)

text \<open>
  Cleaning a plain-text reply removes at most one block of whole lines and nothing else:
  the lines of the text are some lines, the block and the rest, and the result is the first and
  the last of these. The block begins with the first line that is a marker under its quoting
  and has at least two lines. A text with no marker line is unchanged.
\<close>

theorem strip_card_text_removes_block:
  "(strip_card_text text = text \<or>
    (\<exists>pre card post. splitlines_keep text = pre @ card @ post \<and> text = concat (pre @ card @ post) \<and>
       strip_card_text text = concat (pre @ post) \<and> 2 \<le> length card \<and>
       bare (hd card) \<in> set card_starts \<and> set card_starts \<inter> bare ` set pre = {})) \<and>
   (set card_starts \<inter> bare ` set (splitlines_keep text) = {} \<longrightarrow> strip_card_text text = text)"
proof
  let ?l = "splitlines_keep text"
  show "strip_card_text text = text \<or>
    (\<exists>pre card post. ?l = pre @ card @ post \<and> text = concat (pre @ card @ post) \<and>
       strip_card_text text = concat (pre @ post) \<and> 2 \<le> length card \<and>
       bare (hd card) \<in> set card_starts \<and> set card_starts \<inter> bare ` set pre = {})"
  proof (cases "card_lines ?l")
    case None
    then show ?thesis by (simp add: strip_card_text_def)
  next
    case (Some se)
    then obtain start stop where c: "card_lines ?l = Some (start, stop)" by (cases se) simp
    note B = card_lines_bounds [OF c]
    let ?pre = "take start ?l" and ?card = "drop start (take stop ?l)" and ?post = "drop stop ?l"
    have "take stop ?l = ?pre @ ?card"
      using append_take_drop_id [of start "take stop ?l"] B(1) by (simp add: min_def)
    then have l: "?l = ?pre @ ?card @ ?post"
      by (metis append.assoc append_take_drop_id)
    have len: "2 \<le> length ?card" using B by simp
    have "hd ?card = ?l ! start" using B by (subst hd_drop_conv_nth) auto
    then have "bare (hd ?card) \<in> set card_starts" using B by simp
    moreover have "set card_starts \<inter> bare ` set ?pre = {}"
      using B(4) by (auto simp: in_set_conv_nth)
    moreover have "strip_card_text text = concat (?pre @ ?post)"
      by (simp add: strip_card_text_def c Let_def)
    moreover have "text = concat (?pre @ ?card @ ?post)" using l by (metis concat_splitlines_keep)
    ultimately show ?thesis using l len by blast
  qed
  show "set card_starts \<inter> bare ` set ?l = {} \<longrightarrow> strip_card_text text = text"
  proof
    assume "set card_starts \<inter> bare ` set ?l = {}"
    then have "find_index (\<lambda>l. bare l \<in> set card_starts) ?l = None" by (auto simp: find_index_None)
    then show "strip_card_text text = text" by (simp add: strip_card_text_def card_lines_def)
  qed
qed

lemma strip_card_text_removes_block_witness:
  "strip_card_text ''No card here.'' = ''No card here.''"
proof -
  have "list_all (\<lambda>l. bare l \<notin> set card_starts) (splitlines_keep ''No card here.'')" by code_simp
  then have "set card_starts \<inter> bare ` set (splitlines_keep ''No card here.'') = {}"
    by (auto simp: list_all_iff)
  then show ?thesis using strip_card_text_removes_block [of "''No card here.''"] by blast
qed

lemma find_index_append:
  "find_index p (xs @ ys) =
    (case find_index p xs of Some i \<Rightarrow> Some i | None \<Rightarrow> map_option ((+) (length xs)) (find_index p ys))"
  by (cases "find_index p ys"; induction xs) (auto split: option.splits)

text \<open>
  When the reply quotes the card Lightr wrote, between other lines and at any quoting
  depth, exactly the card comes out, with the blank line after it.
\<close>

theorem strip_card_text_removes_card:
  assumes "splitlines_keep text = pre @ [first] @ mid @ [final] @ post"
    and "bare first = FORWARD_MARKER" and "bare final = REPLY_HINT"
    and "\<forall>l \<in> set pre. bare l \<notin> set card_starts"
    and "\<forall>l \<in> set mid. \<forall>e \<in> set card_ends. \<not> starts_with e (bare l)"
  shows "strip_card_text text =
    concat (pre @ (case post of [] \<Rightarrow> [] | l # ls \<Rightarrow> if bare l = [] then ls else post))"
proof -
  let ?l = "pre @ [first] @ mid @ [final] @ post"
  let ?stop = "\<lambda>l. \<exists>e \<in> set card_ends. starts_with e (bare l)"
  have "find_index (\<lambda>l. bare l \<in> set card_starts) pre = None" using assms(4) by (simp add: find_index_None)
  then have start: "find_index (\<lambda>l. bare l \<in> set card_starts) ?l = Some (length pre)"
    by (simp add: find_index_append assms(2) card_starts_def)
  have "find_index ?stop mid = None" using assms(5) by (simp add: find_index_None)
  moreover have "?stop final"
    by (simp add: assms(3) card_ends_def starts_with_def)
  ultimately have "find_index ?stop (mid @ final # post) = Some (length mid)"
    by (simp add: find_index_append)
  then have halt: "find_from ?stop (length pre + 1) ?l = Some (length pre + 1 + length mid)"
    by (simp add: find_from_def)
  have dot: "ends_with ''.'' (bare final)" unfolding assms(3) by code_simp
  have at: "?l ! (length pre + 1 + length mid) = final" by (simp add: nth_append)
  have next_line: "post = l # ls \<Longrightarrow> ?l ! (length pre + 1 + length mid + 1) = l" for l ls by (simp add: nth_append)
  show ?thesis
  proof (cases post)
    case Nil
    then show ?thesis using start halt dot at
      by (simp add: strip_card_text_def card_lines_def Let_def assms(1))
  next
    case (Cons l ls)
    then show ?thesis using start halt dot at next_line [OF Cons]
      by (simp add: strip_card_text_def card_lines_def Let_def assms(1) eval_nat_numeral)
  qed
qed

lemma strip_card_text_removes_card_witness:
  "strip_card_text (concat [''Hi'', [CHR 0x0A], ''> Forwarded by Lightr'', [CHR 0x0A], ''> From: x'', [CHR 0x0A],
      ''> Reply to this email to answer the sender.'', [CHR 0x0A], ''>'', [CHR 0x0A], ''> old'']) =
    concat [''Hi'', [CHR 0x0A], ''> old'']"
proof -
  let ?nl = "[CHR 0x0A]"
  have lines: "splitlines_keep (concat [''Hi'', ?nl, ''> Forwarded by Lightr'', ?nl, ''> From: x'', ?nl,
      ''> Reply to this email to answer the sender.'', ?nl, ''>'', ?nl, ''> old'']) =
    [''Hi'' @ ?nl] @ [''> Forwarded by Lightr'' @ ?nl] @ [''> From: x'' @ ?nl] @
      [''> Reply to this email to answer the sender.'' @ ?nl] @ [''>'' @ ?nl, ''> old'']"
    by code_simp
  have "bare (''> Forwarded by Lightr'' @ ?nl) = FORWARD_MARKER"
    "bare (''> Reply to this email to answer the sender.'' @ ?nl) = REPLY_HINT"
    "bare (''Hi'' @ ?nl) \<notin> set card_starts" "bare (''>'' @ ?nl) = []"
    "list_all (\<lambda>e. \<not> starts_with e (bare (''> From: x'' @ ?nl))) card_ends"
    by code_simp+
  then show ?thesis
    using strip_card_text_removes_card [OF lines] by (simp add: list_all_iff)
qed

text \<open>
  The HTML card: from the last \<open><table\<close> before the marker to the \<open></table>\<close> that closes it.
  \<open>table_tag\<close> is a match of \<open><(/?)table\b[^>]*>\<close>, ignoring case, at the start of the text:
  whether it closes, and its length.
\<close>

definition is_word :: "char \<Rightarrow> bool" where
  "is_word c = (let n = (of_char c :: nat) in
     (48 \<le> n \<and> n \<le> 57) \<or> (65 \<le> n \<and> n \<le> 90) \<or> n = 95 \<or> (97 \<le> n \<and> n \<le> 122)
     \<or> n \<in> {170, 178, 179, 181, 185, 186, 188, 189, 190} \<or> (192 \<le> n \<and> n \<noteq> 215 \<and> n \<noteq> 247))"

definition table_rest :: "string \<Rightarrow> bool" where
  "table_rest r = (let after = drop 5 r in
     lower (take 5 r) = ''table'' \<and> (after = [] \<or> \<not> is_word (hd after)) \<and> CHR ''>'' \<in> set after)"

definition table_tag :: "string \<Rightarrow> (bool \<times> nat) option" where
  "table_tag s =
    (let closing = starts_with ''</'' s;
         r = drop (if closing then 2 else 1) s
     in if starts_with ''<'' s \<and> table_rest r
        then Some (closing, length s - length (dropWhile (\<lambda>c. c \<noteq> CHR ''>'') (drop 5 r)) + 1)
        else None)"

text \<open>
  The loop over \<open>finditer\<close>: the text from the current position on, how far that is from the
  start, and the depth; the end of the tag that brings the depth to zero.
\<close>

fun table_end :: "nat \<Rightarrow> int \<Rightarrow> nat \<Rightarrow> string \<Rightarrow> nat option" where
  "table_end skip depth i [] = None"
| "table_end skip depth i (c # s) =
    (if 0 < skip then table_end (skip - 1) depth (i + 1) s
     else case table_tag (c # s) of
            None \<Rightarrow> table_end 0 depth (i + 1) s
          | Some (closing, n) \<Rightarrow>
              let depth = (if closing then depth - 1 else depth + 1)
              in if depth = 0 then Some (i + n) else table_end (n - 1) depth (i + 1) s)"

text \<open>\<open>s.find(p)\<close> and \<open>s.rfind(p, 0, at)\<close>; \<open>None\<close> is -1.\<close>

definition find_str :: "string \<Rightarrow> string \<Rightarrow> nat option" where
  "find_str p s = find_index (\<lambda>i. starts_with p (drop i s)) [0..<length s + 1]"

definition rfind_str :: "string \<Rightarrow> nat \<Rightarrow> string \<Rightarrow> nat option" where
  "rfind_str p at s =
    (let hits = filter (\<lambda>i. starts_with p (drop i (take at s))) [0..<Suc at]
     in if hits = [] then None else Some (last hits))"

definition strip_card_html :: "string \<Rightarrow> string" where
  "strip_card_html html =
    (case find_str FORWARD_MARKER html of
       None \<Rightarrow> html
     | Some at \<Rightarrow>
       (case rfind_str ''<table'' at (lower html) of
          None \<Rightarrow> html
        | Some start \<Rightarrow>
          (case table_end 0 0 0 (drop start html) of
             None \<Rightarrow> html
           | Some n \<Rightarrow> take start html @ drop (start + n) html)))"

lemma table_tag_length: "table_tag s = Some (b, n) \<Longrightarrow> 0 < n \<and> n \<le> length s"
proof -
  assume h: "table_tag s = Some (b, n)"
  define r where "r = drop (if starts_with ''</'' s then 2 else 1) s"
  have "(if starts_with ''<'' s \<and> table_rest r
        then Some (starts_with ''</'' s, length s - length (dropWhile (\<lambda>c. c \<noteq> CHR ''>'') (drop 5 r)) + 1)
        else None) = Some (b, n)"
    using h by (simp only: table_tag_def Let_def r_def)
  then have n: "n = length s - length (dropWhile (\<lambda>c. c \<noteq> CHR ''>'') (drop 5 r)) + 1" and tr: "table_rest r"
    by (simp_all only: option.inject prod.inject option.distinct split: if_split_asm)
  have gt: "CHR ''>'' \<in> set (drop 5 r)" using tr unfolding table_rest_def Let_def by blast
  have "dropWhile (\<lambda>c. c \<noteq> CHR ''>'') (drop 5 r) \<noteq> []"
    unfolding dropWhile_eq_Nil_conv using gt by blast
  then have "0 < length (dropWhile (\<lambda>c. c \<noteq> CHR ''>'') (drop 5 r))" by simp
  moreover have "length (dropWhile (\<lambda>c. c \<noteq> CHR ''>'') (drop 5 r)) \<le> length (drop 5 r)"
    by (rule length_dropWhile_le)
  moreover have "length (drop 5 r) \<le> length s" by (simp add: r_def)
  ultimately show ?thesis using n by linarith
qed

lemma table_end_bounds: "table_end skip depth i s = Some n \<Longrightarrow> i < n \<and> n \<le> i + length s"
proof (induction skip depth i s rule: table_end.induct)
  case (1 skip depth i)
  then show ?case by simp
next
  case (2 skip depth i c s)
  show ?case
  proof (cases "0 < skip")
    case True
    then have "table_end (skip - 1) depth (i + 1) s = Some n" using 2(4) by simp
    with 2(1) [OF True] show ?thesis by simp
  next
    case skip: False
    show ?thesis
    proof (cases "table_tag (c # s)")
      case None
      then have "table_end 0 depth (i + 1) s = Some n" using 2(4) skip by simp
      with 2(2) [OF skip None] show ?thesis by simp
    next
      case (Some bn)
      then obtain b m where t: "table_tag (c # s) = Some (b, m)" by (cases bn) simp
      note len = table_tag_length [OF t]
      define d where "d = (if b then depth - 1 else depth + 1)"
      show ?thesis
      proof (cases "d = 0")
        case True
        then show ?thesis using 2(4) skip t len by (simp add: d_def split: if_splits)
      next
        case False
        then have "table_end (m - 1) d (i + 1) s = Some n" using 2(4) skip t by (simp add: d_def split: if_splits)
        with 2(3) [OF skip t refl d_def False] show ?thesis by simp
      qed
    qed
  qed
qed

lemma rfind_str_Some:
  assumes "rfind_str p at s = Some i"
  shows "starts_with p (drop i s) \<and> i \<le> at"
proof -
  let ?hits = "filter (\<lambda>i. starts_with p (drop i (take at s))) [0..<Suc at]"
  have "?hits \<noteq> []" "i = last ?hits"
    using assms by (simp_all add: rfind_str_def Let_def del: upt_Suc split: if_splits)
  then have "i \<in> set ?hits" by (metis last_in_set)
  then have i: "starts_with p (drop i (take at s))" "i \<le> at" by (simp_all del: upt_Suc)
  then obtain t where "take (at - i) (drop i s) = p @ t" by (auto simp: starts_with_iff drop_take)
  then have "drop i s = p @ t @ drop (at - i) (drop i s)" by (metis append.assoc append_take_drop_id)
  with i(2) show ?thesis unfolding starts_with_iff by blast
qed

text \<open>
  Cleaning an HTML reply removes at most one stretch of the text, which begins with a
  \<open><table\<close> and stands before or around the marker, and keeps everything before and after it.
\<close>

theorem strip_card_html_removes_one_stretch:
  "strip_card_html html = html \<or>
    (\<exists>pre card post. html = pre @ card @ post \<and> strip_card_html html = pre @ post \<and> card \<noteq> [] \<and>
       starts_with ''<table'' (lower (card @ post)) \<and> contains FORWARD_MARKER (card @ post))"
proof (cases "strip_card_html html = html")
  case False
  then obtain at start n where h: "find_str FORWARD_MARKER html = Some at"
    "rfind_str ''<table'' at (lower html) = Some start" "table_end 0 0 0 (drop start html) = Some n"
    by (auto simp: strip_card_html_def split: option.splits)
  have at: "starts_with FORWARD_MARKER (drop at html)"
    using h(1) by (auto simp: find_str_def find_index_Some simp del: upt_Suc)
  note st = rfind_str_Some [OF h(2)]
  note n = table_end_bounds [OF h(3)]
  let ?card = "take n (drop start html)" and ?post = "drop (start + n) html"
  have whole: "?card @ ?post = drop start html"
    by (metis append_take_drop_id add.commute drop_drop)
  have "drop at html = drop (at - start) (drop start html)" using st by simp
  then have "contains FORWARD_MARKER (drop start html)"
    using at by (metis append_take_drop_id contains_iff starts_with_iff)
  moreover have "starts_with ''<table'' (lower (drop start html))"
    using st by (simp add: lower_def drop_map)
  moreover have "?card \<noteq> []" using n by auto
  moreover have "html = take start html @ ?card @ ?post" using whole by simp
  moreover have "strip_card_html html = take start html @ ?post"
    by (simp add: strip_card_html_def h)
  ultimately show ?thesis using whole by metis
qed simp

text \<open>
  The marker itself need not be in the table that goes: a table that closes before a mention of
  the marker is removed, and the mention stays.
\<close>

lemma strip_card_html_other_table:
  "strip_card_html ''<table>prices</table> Forwarded by Lightr'' = '' Forwarded by Lightr''"
  by code_simp

text \<open>
  Threading: the wrapped copy's own \<open>Message-ID\<close> is taken out of \<open>References\<close>, and
  \<open>In-Reply-To\<close> is replaced by the last reference that is left when it names that copy or is
  missing. The arguments and the result are the two headers, \<open>None\<close> for an absent one.
\<close>

definition FORWARD_ID_TAG :: string where "FORWARD_ID_TAG = ''lightr-fwd''"

definition one_line :: "string option \<Rightarrow> string" where
  "one_line v = (case v of None \<Rightarrow> [] | Some s \<Rightarrow> join '' '' (split_ws s))"

definition drop_forward_ids :: "string option \<Rightarrow> string option \<Rightarrow> string option \<times> string option" where
  "drop_forward_ids references in_reply_to =
    (let refs = filter (\<lambda>r. \<not> contains FORWARD_ID_TAG r) (split_ws (one_line references));
         irt = one_line in_reply_to;
         new_refs = (if refs = [] then None else Some (join '' '' refs));
         new_irt = (if contains FORWARD_ID_TAG irt \<or> irt = []
                    then (if refs = [] then None else Some (last refs)) else in_reply_to)
     in (new_refs, new_irt))"

end
