(* ===== verification/Routing.thy ===== *)
theory Routing
  imports Repo Replies
begin

text \<open>
  \<open>src/src/lightr/mail/routing.py\<close>: what happens to one recipient. The state is the database,
  the suppression list and the table of reply routes, all only read. \<open>_AliasLoopError\<close> is
  \<open>AliasLoop\<close>.
\<close>

section \<open>Routes\<close>

definition MAX_ALIAS_DEPTH :: nat where "MAX_ALIAS_DEPTH = 5"

datatype disposition = LOCAL | ALIAS_FORWARD | ALIAS_BRIDGE | REPLY | REJECT

datatype reject_reason =
    NOT_LOCAL_DOMAIN
  | NO_SUCH_MAILBOX
  | SUPPRESSED
  | ALIAS_LOOP
  | ACCOUNT_DISABLED
  | RECEIVING_BLOCKED

definition smtp_code :: "reject_reason \<Rightarrow> int" where
  "smtp_code r = (if r = ALIAS_LOOP then 451 else 550)"

fun smtp_message :: "reject_reason \<Rightarrow> string" where
  "smtp_message NOT_LOCAL_DOMAIN = ''Relay access denied''"
| "smtp_message NO_SUCH_MAILBOX = ''No such user here''"
| "smtp_message SUPPRESSED = ''Address suppressed''"
| "smtp_message ALIAS_LOOP = ''Alias loop detected; try again later''"
| "smtp_message ACCOUNT_DISABLED = ''Mailbox unavailable''"
| "smtp_message RECEIVING_BLOCKED = ''Mailbox unavailable''"

record route =
  ro_recipient :: string
  ro_disposition :: disposition
  ro_account_id :: "uuid option"
  ro_domain_id :: "uuid option"
  ro_mailbox :: "string option"
  ro_forward_to :: "string list"
  ro_reason :: "reject_reason option"
  ro_alias_id :: "uuid option"
  ro_reply :: "reply_route option"

definition plain_route :: "string \<Rightarrow> disposition \<Rightarrow> route" where
  "plain_route recipient d = \<lparr>ro_recipient = recipient, ro_disposition = d, ro_account_id = None,
     ro_domain_id = None, ro_mailbox = None, ro_forward_to = [], ro_reason = None,
     ro_alias_id = None, ro_reply = None\<rparr>"

definition rejected :: "route \<Rightarrow> bool" where
  "rejected r \<longleftrightarrow> ro_disposition r = REJECT"

definition delivers_locally :: "route \<Rightarrow> bool" where
  "delivers_locally r \<longleftrightarrow> ro_disposition r \<in> {LOCAL, ALIAS_BRIDGE}"

definition reject :: "string \<Rightarrow> uuid option \<Rightarrow> reject_reason \<Rightarrow> route" where
  "reject recipient domain_id reason =
    (plain_route recipient REJECT)\<lparr>ro_domain_id := domain_id, ro_reason := Some reason\<rparr>"

section \<open>Alias expansion\<close>

datatype alias_error = AliasLoop

record routing_db =
  rt_db :: database
  rt_suppressed :: "suppression list"
  rt_replies :: reply_table

definition is_suppressed :: "string \<Rightarrow> suppression list \<Rightarrow> bool" where
  "is_suppressed address sups \<longleftrightarrow> lower address \<in> sup_email ` set sups"

definition usable :: "string \<Rightarrow> bool" where
  "usable address \<longleftrightarrow> address \<noteq> [] \<and> CHR ''@'' \<in> set address"

text \<open>
  \<open>_expand\<close>: \<open>seen\<close> is the path being followed. An external address and an account are kept,
  another local address that is not an alias is dropped, an alias is expanded one level deeper.
\<close>

function expand :: "database \<Rightarrow> string list \<Rightarrow> string list \<Rightarrow> nat \<Rightarrow> alias_error + string list" where
  "expand db destinations seen depth =
    (if MAX_ALIAS_DEPTH \<le> depth then Inl AliasLoop
     else bind_res
       (map_res (\<lambda>destination.
          let address = norm_addr destination
          in if \<not> usable address then Inr []
             else if address \<in> set seen then Inl AliasLoop
             else let (local_part, domain_name) = split_first CHR ''@'' address
                  in case domain_resolve domain_name db of
                       Inl _ \<Rightarrow> Inr [address]
                     | Inr d \<Rightarrow>
                       if account_find address db \<noteq> None then Inr [address]
                       else case alias_lookup (d_id d) local_part db of
                              None \<Rightarrow> Inr []
                            | Some nested \<Rightarrow> expand db (al_destinations nested) (address # seen) (depth + 1))
         destinations)
       (\<lambda>resolved. Inr (fromkeys (concat resolved))))"
  by pat_completeness auto

termination
  by (relation "measure (\<lambda>(db, destinations, seen, depth). MAX_ALIAS_DEPTH - depth)")
     (auto simp: not_le)

declare expand.simps [simp del]

definition bridge_mailbox :: "uuid \<Rightarrow> string \<Rightarrow> database \<Rightarrow> (uuid \<times> string) option" where
  "bridge_mailbox domain_id local_part db =
    (case first_row (filter (\<lambda>a. a_domain_id a = domain_id \<and> a_local_part a = local_part) (joined db)) of
       None \<Rightarrow> None
     | Some a \<Rightarrow> Some (a_id a, local_part @ ''@'' @ the (a_domain_name a)))"

section \<open>The decision\<close>

text \<open>The branch for an address that has a mailbox, and the one for an address that has none.\<close>

definition route_account :: "string \<Rightarrow> string \<Rightarrow> string \<Rightarrow> domain \<Rightarrow> account \<Rightarrow> database \<Rightarrow> route" where
  "route_account recipient address local_part d a db =
    (if a_auth_mode a = DISABLED then reject recipient (Some (d_id d)) ACCOUNT_DISABLED
     else if \<not> a_can_receive a then reject recipient (Some (d_id d)) RECEIVING_BLOCKED
     else
       let local = (plain_route recipient LOCAL)\<lparr>ro_account_id := Some (a_id a),
             ro_domain_id := Some (d_id d), ro_mailbox := Some address\<rparr>
       in case alias_lookup (d_id d) local_part db of
            None \<Rightarrow> local
          | Some bridge \<Rightarrow>
            if al_type bridge \<noteq> BRIDGE then local
            else case expand db (al_destinations bridge) [address] 0 of
                   Inl _ \<Rightarrow> reject recipient (Some (d_id d)) ALIAS_LOOP
                 | Inr destinations \<Rightarrow>
                   if destinations = [] then local
                   else local\<lparr>ro_disposition := ALIAS_BRIDGE, ro_forward_to := destinations,
                              ro_alias_id := Some (al_id bridge)\<rparr>)"

definition route_alias :: "string \<Rightarrow> string \<Rightarrow> string \<Rightarrow> domain \<Rightarrow> database \<Rightarrow> route" where
  "route_alias recipient address local_part d db =
    (case alias_lookup (d_id d) local_part db of
       None \<Rightarrow> reject recipient (Some (d_id d)) NO_SUCH_MAILBOX
     | Some al \<Rightarrow>
       (case expand db (al_destinations al) [address] 0 of
          Inl _ \<Rightarrow> reject recipient (Some (d_id d)) ALIAS_LOOP
        | Inr destinations \<Rightarrow>
          if destinations = [] then reject recipient (Some (d_id d)) NO_SUCH_MAILBOX
          else
            let forward = (plain_route recipient ALIAS_FORWARD)\<lparr>ro_domain_id := Some (d_id d),
                  ro_forward_to := destinations, ro_alias_id := Some (al_id al)\<rparr>
            in if al_type al = BRIDGE
               then case bridge_mailbox (d_id d) local_part db of
                      None \<Rightarrow> forward
                    | Some (owner, mailbox) \<Rightarrow>
                      forward\<lparr>ro_disposition := ALIAS_BRIDGE, ro_account_id := Some owner,
                              ro_mailbox := Some mailbox\<rparr>
               else forward))"

definition route_to :: "instant \<Rightarrow> routing_db \<Rightarrow> string \<Rightarrow> route" where
  "route_to now rdb recipient =
    (let address = norm_addr recipient; db = rt_db rdb
     in if CHR ''@'' \<notin> set address then reject recipient None NO_SUCH_MAILBOX
        else if is_suppressed address (rt_suppressed rdb) then reject recipient None SUPPRESSED
        else let (local_part, domain_name) = split_first CHR ''@'' address
             in case domain_resolve domain_name db of
                  Inl _ \<Rightarrow> reject recipient None NOT_LOCAL_DOMAIN
                | Inr d \<Rightarrow>
                  (case (case token_from local_part of None \<Rightarrow> None
                         | Some token \<Rightarrow> reply_get token now (rt_replies rdb)) of
                     Some reply \<Rightarrow>
                       (plain_route recipient REPLY)\<lparr>ro_domain_id := Some (d_id d), ro_reply := Some reply\<rparr>
                   | None \<Rightarrow>
                     (case account_find address db of
                        Some a \<Rightarrow> route_account recipient address local_part d a db
                      | None \<Rightarrow> route_alias recipient address local_part d db)))"

definition route_all :: "instant \<Rightarrow> routing_db \<Rightarrow> string list \<Rightarrow> route list" where
  "route_all now rdb recipients = map (route_to now rdb) recipients"

section \<open>What expansion computes\<close>

text \<open>
  One address, seen by the database: kept, dropped, or an alias with destinations. This is the
  directory the specification walks.
\<close>

datatype hop = Leaf | Dropped | Nested "string list"

definition hop_of :: "database \<Rightarrow> string \<Rightarrow> hop" where
  "hop_of db address =
    (let (local_part, domain_name) = split_first CHR ''@'' address
     in case domain_resolve domain_name db of
          Inl _ \<Rightarrow> Leaf
        | Inr d \<Rightarrow>
          if account_find address db \<noteq> None then Leaf
          else case alias_lookup (d_id d) local_part db of
                 None \<Rightarrow> Dropped | Some nested \<Rightarrow> Nested (al_destinations nested))"

definition expand_one :: "database \<Rightarrow> string list \<Rightarrow> nat \<Rightarrow> string \<Rightarrow> alias_error + string list" where
  "expand_one db seen depth destination =
    (let address = norm_addr destination
     in if \<not> usable address then Inr []
        else if address \<in> set seen then Inl AliasLoop
        else case hop_of db address of
               Leaf \<Rightarrow> Inr [address] | Dropped \<Rightarrow> Inr []
             | Nested ns \<Rightarrow> expand db ns (address # seen) (depth + 1))"

lemma expand_step:
  "expand db destinations seen depth =
    (if MAX_ALIAS_DEPTH \<le> depth then Inl AliasLoop
     else bind_res (map_res (expand_one db seen depth) destinations) (\<lambda>rs. Inr (fromkeys (concat rs))))"
  by (subst expand.simps)
     (auto simp: expand_one_def hop_of_def Let_def split_beta split: sum.splits option.splits
       intro!: arg_cong2 [of _ _ _ _ bind_res] map_res_cong)

text \<open>\<open>leads_to db d a\<close>: mail for the destination \<open>d\<close> ends at the address \<open>a\<close>.\<close>

inductive leads_to :: "database \<Rightarrow> string \<Rightarrow> string \<Rightarrow> bool" for db where
  leaf: "usable (norm_addr d) \<Longrightarrow> hop_of db (norm_addr d) = Leaf \<Longrightarrow> leads_to db d (norm_addr d)"
| nested: "usable (norm_addr d) \<Longrightarrow> hop_of db (norm_addr d) = Nested ns \<Longrightarrow> n \<in> set ns \<Longrightarrow>
    leads_to db n a \<Longrightarrow> leads_to db d a"

inductive_cases leads_toE: "leads_to db d a"

text \<open>\<open>alias_path db ds p ns\<close>: from one of \<open>ds\<close>, the aliases \<open>p\<close> one after the other, to \<open>ns\<close>.\<close>

inductive alias_path :: "database \<Rightarrow> string list \<Rightarrow> string list \<Rightarrow> string list \<Rightarrow> bool" for db where
  here: "alias_path db ds [] ds"
| hop: "d \<in> set ds \<Longrightarrow> usable (norm_addr d) \<Longrightarrow> hop_of db (norm_addr d) = Nested ms \<Longrightarrow>
    alias_path db ms p ns \<Longrightarrow> alias_path db ds (norm_addr d # p) ns"

inductive_cases alias_pathE: "alias_path db ds p ns"

inductive_simps alias_path_Nil: "alias_path db ds [] ns"

inductive_simps alias_path_Cons: "alias_path db ds (a # p) ns"

lemma leads_to_Nested:
  "usable (norm_addr d) \<Longrightarrow> hop_of db (norm_addr d) = Nested ns \<Longrightarrow>
   leads_to db d a \<longleftrightarrow> (\<exists>n \<in> set ns. leads_to db n a)"
  by (subst leads_to.simps) auto

lemma expand_one_Inr:
  assumes "expand_one db seen depth d = Inr r"
    and "\<And>ns r. expand db ns (norm_addr d # seen) (depth + 1) = Inr r \<Longrightarrow>
      set r = {a. \<exists>n \<in> set ns. leads_to db n a}"
  shows "set r = {a. leads_to db d a}"
proof (cases "usable (norm_addr d)")
  case False
  then have "r = []" using assms(1) by (simp add: expand_one_def)
  moreover have "\<not> leads_to db d a" for a using False by (auto elim: leads_toE)
  ultimately show ?thesis by simp
next
  case True
  show ?thesis
  proof (cases "hop_of db (norm_addr d)")
    case Leaf
    then have "r = [norm_addr d]" using assms(1) True by (simp add: expand_one_def Let_def split: if_splits)
    then show ?thesis using True Leaf by (auto elim: leads_toE intro: leads_to.leaf)
  next
    case Dropped
    then have "r = []" using assms(1) True by (simp add: expand_one_def Let_def split: if_splits)
    then show ?thesis using Dropped by (auto elim: leads_toE)
  next
    case (Nested ns)
    then have "expand db ns (norm_addr d # seen) (depth + 1) = Inr r"
      using assms(1) True by (simp add: expand_one_def Let_def split: if_splits)
    from assms(2) [OF this] show ?thesis
      using True Nested by (simp add: leads_to_Nested)
  qed
qed

lemma expand_reaches_leaves_spec:
  assumes "expand db destinations seen depth = Inr rs"
  shows "set rs = {a. \<exists>d \<in> set destinations. leads_to db d a} \<and> distinct rs"
  using assms
proof (induction "MAX_ALIAS_DEPTH - depth" arbitrary: destinations seen depth rs)
  case 0
  then show ?case by (simp add: expand_step)
next
  case (Suc k)
  then have IH: "expand db ns s (depth + 1) = Inr r \<Longrightarrow> set r = {a. \<exists>n \<in> set ns. leads_to db n a}" for ns s r
  proof -
    have "k = MAX_ALIAS_DEPTH - (depth + 1)" using Suc.hyps(2) by linarith
    then show "expand db ns s (depth + 1) = Inr r \<Longrightarrow> set r = {a. \<exists>n \<in> set ns. leads_to db n a}"
      using Suc.hyps(1) [of "depth + 1" ns s r] by blast
  qed
  obtain rss where rss: "map_res (expand_one db seen depth) destinations = Inr rss" "rs = fromkeys (concat rss)"
    using Suc.prems by (auto simp: expand_step res_simps simp del: map_res_Inr_iff split: if_splits)
  have "list_all2 (\<lambda>d r. expand_one db seen depth d = Inr r) destinations rss"
    using rss(1) by (simp add: map_res_Inr_iff)
  then have "list_all2 (\<lambda>d r. set r = {a. leads_to db d a}) destinations rss"
    by (rule list_all2_mono) (rule expand_one_Inr, assumption, rule IH)
  then have "set (concat rss) = {a. \<exists>d \<in> set destinations. leads_to db d a}"
    by (induction rule: list_all2_induct) auto
  then show ?case using rss(2) by simp
qed

text \<open>
  C15. When expansion succeeds, the addresses it gives are exactly the final addresses the
  destinations lead to through aliases (accounts of ours and addresses elsewhere), each once,
  however many aliases converge on it.
\<close>

theorem expand_reaches_leaves:
  assumes "expand db destinations seen depth = Inr rs"
  shows "set rs = {a. \<exists>d \<in> set destinations. leads_to db d a} \<and> distinct rs"
  by (rule expand_reaches_leaves_spec [OF assms])

lemma expand_one_Inl:
  "(\<exists>e. expand_one db seen depth d = Inl e) \<longleftrightarrow>
    usable (norm_addr d) \<and> (norm_addr d \<in> set seen \<or>
      (\<exists>ns. hop_of db (norm_addr d) = Nested ns \<and> (\<exists>e. expand db ns (norm_addr d # seen) (depth + 1) = Inl e)))"
  by (auto simp: expand_one_def Let_def split: hop.splits)

text \<open>
  C16. Expansion fails exactly when following aliases from the destinations runs for
  \<open>MAX_ALIAS_DEPTH\<close> aliases (less the depth already used) or comes back to an address it is
  already following; so two aliases that converge are no loop, and every loop is found.
\<close>

theorem expand_fails_iff_loop:
  assumes "depth \<le> MAX_ALIAS_DEPTH"
  shows "(\<exists>e. expand db destinations seen depth = Inl e) \<longleftrightarrow>
    (\<exists>p ns. alias_path db destinations p ns \<and>
      (length p = MAX_ALIAS_DEPTH - depth \<or>
       length p < MAX_ALIAS_DEPTH - depth \<and>
         (\<exists>d \<in> set ns. usable (norm_addr d) \<and> norm_addr d \<in> set seen \<union> set p)))"
  using assms
proof (induction "MAX_ALIAS_DEPTH - depth" arbitrary: destinations seen depth)
  case 0
  then show ?case by (auto simp: expand_step intro: alias_path.here)
next
  case (Suc k)
  let ?Q = "\<lambda>seen k p ns. length p = k \<or>
    length p < k \<and> (\<exists>d \<in> set ns. usable (norm_addr d) \<and> norm_addr d \<in> set seen \<union> set p)"
  have k: "MAX_ALIAS_DEPTH - depth = Suc k" "MAX_ALIAS_DEPTH - (depth + 1) = k" "depth + 1 \<le> MAX_ALIAS_DEPTH"
    using Suc.hyps(2) by auto
  have IH: "(\<exists>e. expand db ns s (depth + 1) = Inl e) \<longleftrightarrow> (\<exists>p ms. alias_path db ns p ms \<and> ?Q s k p ms)" for ns s
    using Suc.hyps(1) [of "depth + 1" ns s] k by simp
  have fails: "(\<exists>e. expand db destinations seen depth = Inl e) \<longleftrightarrow>
      (\<exists>d \<in> set destinations. \<exists>e. expand_one db seen depth d = Inl e)"
    using k map_res_Inl_iff [of "expand_one db seen depth" destinations]
    by (simp add: expand_step res_simps del: map_res_Inr_iff)
  have Q: "?Q (a # seen) k p ms \<longleftrightarrow> ?Q seen (Suc k) (a # p) ms" for a p ms
    by auto
  show ?case
  proof
    assume "\<exists>e. expand db destinations seen depth = Inl e"
    then obtain d where d: "d \<in> set destinations" "usable (norm_addr d)"
      and or: "norm_addr d \<in> set seen \<or>
        (\<exists>ns. hop_of db (norm_addr d) = Nested ns \<and> (\<exists>e. expand db ns (norm_addr d # seen) (depth + 1) = Inl e))"
      unfolding fails expand_one_Inl by blast
    from or show "\<exists>p ns. alias_path db destinations p ns \<and> ?Q seen (MAX_ALIAS_DEPTH - depth) p ns"
    proof
      assume "norm_addr d \<in> set seen"
      with d show ?thesis
        by (intro exI [of _ "[]"] exI [of _ destinations]) (auto simp: k alias_path.here)
    next
      assume "\<exists>ns. hop_of db (norm_addr d) = Nested ns \<and> (\<exists>e. expand db ns (norm_addr d # seen) (depth + 1) = Inl e)"
      then obtain ns p ms where "hop_of db (norm_addr d) = Nested ns" "alias_path db ns p ms" "?Q (norm_addr d # seen) k p ms"
        unfolding IH by blast
      with d have "alias_path db destinations (norm_addr d # p) ms" "?Q seen (Suc k) (norm_addr d # p) ms"
        using Q by (auto intro: alias_path.hop)
      then show ?thesis unfolding k by blast
    qed
  next
    assume "\<exists>p ns. alias_path db destinations p ns \<and> ?Q seen (MAX_ALIAS_DEPTH - depth) p ns"
    then obtain p ns where p: "alias_path db destinations p ns" "?Q seen (Suc k) p ns" unfolding k by blast
    show "\<exists>e. expand db destinations seen depth = Inl e"
      unfolding fails expand_one_Inl
    proof (cases p)
      case Nil
      then have "ns = destinations" using p(1) by (simp add: alias_path_Nil)
      with p(2) Nil show "\<exists>d \<in> set destinations. usable (norm_addr d) \<and> (norm_addr d \<in> set seen \<or>
        (\<exists>ns. hop_of db (norm_addr d) = Nested ns \<and> (\<exists>e. expand db ns (norm_addr d # seen) (depth + 1) = Inl e)))"
        by auto
    next
      case (Cons a p')
      then obtain d ms where d: "d \<in> set destinations" "usable (norm_addr d)" "a = norm_addr d"
        "hop_of db (norm_addr d) = Nested ms" "alias_path db ms p' ns"
        using p(1) by (auto simp: alias_path_Cons)
      have "?Q (norm_addr d # seen) k p' ns" using p(2) Cons d(3) Q [where a = a and p = p' and ms = ns] by blast
      with d(5) have "\<exists>e. expand db ms (norm_addr d # seen) (depth + 1) = Inl e" unfolding IH by blast
      with d show "\<exists>d \<in> set destinations. usable (norm_addr d) \<and> (norm_addr d \<in> set seen \<or>
        (\<exists>ns. hop_of db (norm_addr d) = Nested ns \<and> (\<exists>e. expand db ns (norm_addr d # seen) (depth + 1) = Inl e)))"
        by blast
    qed
  qed
qed

lemma expand_reaches_leaves_witness:
  "expand sample_db [''Sales@acme.org'', ''ann@acme.org'', ''x@far.com''] [] 0
     = Inr [''ann@acme.org'', ''out@far.com'', ''x@far.com''] \<and>
   (\<exists>d \<in> set [''Sales@acme.org'', ''ann@acme.org'', ''x@far.com'']. leads_to sample_db d ''out@far.com'')"
proof -
  have e: "expand sample_db [''Sales@acme.org'', ''ann@acme.org'', ''x@far.com''] [] 0
     = Inr [''ann@acme.org'', ''out@far.com'', ''x@far.com'']" by code_simp
  from expand_reaches_leaves [OF e] have
    "{a. \<exists>d \<in> set [''Sales@acme.org'', ''ann@acme.org'', ''x@far.com'']. leads_to sample_db d a}
      = set [''ann@acme.org'', ''out@far.com'', ''x@far.com'']" by blast
  then have "''out@far.com'' \<in> {a. \<exists>d \<in> set [''Sales@acme.org'', ''ann@acme.org'', ''x@far.com'']. leads_to sample_db d a}"
    by simp
  with e show ?thesis by blast
qed

lemma expand_fails_iff_loop_witness:
  "\<exists>p ns. alias_path sample_db [''ping@acme.org''] p ns \<and> length p \<le> 5"
proof -
  have e: "expand sample_db [''ping@acme.org''] [] 0 = Inl AliasLoop" by code_simp
  have "(0 :: nat) \<le> MAX_ALIAS_DEPTH" by simp
  from expand_fails_iff_loop [OF this, of sample_db "[''ping@acme.org'']" "[]"] e
  show ?thesis by (auto simp: MAX_ALIAS_DEPTH_def)
qed

section \<open>What routing decides\<close>

lemmas route_defs = route_account_def route_alias_def reject_def plain_route_def

lemma route_account_disposition:
  "ro_disposition (route_account rec addr lp d a db) \<in> {LOCAL, ALIAS_BRIDGE} \<Longrightarrow>
    a_auth_mode a \<noteq> DISABLED \<and> a_can_receive a"
  by (auto simp: route_defs Let_def split: if_splits option.splits sum.splits)

lemma route_account_fields:
  "delivers_locally (route_account rec addr lp d a db) \<Longrightarrow>
    ro_account_id (route_account rec addr lp d a db) = Some (a_id a) \<and>
    ro_mailbox (route_account rec addr lp d a db) = Some addr"
  by (auto simp: delivers_locally_def route_defs Let_def split: if_splits option.splits sum.splits)

lemma route_alias_not_local: "ro_disposition (route_alias rec addr lp d db) \<noteq> LOCAL"
  by (auto simp: route_defs Let_def split: if_splits option.splits sum.splits)

text \<open>The stages of \<open>route\<close> an address passes when it is neither refused early nor a token.\<close>

lemma route_to_cases:
  obtains (no_at) "CHR ''@'' \<notin> set (norm_addr recipient)"
      "route_to now rdb recipient = reject recipient None NO_SUCH_MAILBOX"
  | (suppressed) "is_suppressed (norm_addr recipient) (rt_suppressed rdb)"
      "route_to now rdb recipient = reject recipient None SUPPRESSED"
  | (foreign) e where "domain_resolve (snd (split_first CHR ''@'' (norm_addr recipient))) (rt_db rdb) = Inl e"
      "route_to now rdb recipient = reject recipient None NOT_LOCAL_DOMAIN"
  | (reply) d token r where "domain_resolve (snd (split_first CHR ''@'' (norm_addr recipient))) (rt_db rdb) = Inr d"
      "\<not> is_suppressed (norm_addr recipient) (rt_suppressed rdb)"
      "token_from (fst (split_first CHR ''@'' (norm_addr recipient))) = Some token"
      "reply_get token now (rt_replies rdb) = Some r"
      "route_to now rdb recipient = (plain_route recipient REPLY)\<lparr>ro_domain_id := Some (d_id d), ro_reply := Some r\<rparr>"
  | (account) d a where "domain_resolve (snd (split_first CHR ''@'' (norm_addr recipient))) (rt_db rdb) = Inr d"
      "\<not> is_suppressed (norm_addr recipient) (rt_suppressed rdb)"
      "account_find (norm_addr recipient) (rt_db rdb) = Some a"
      "route_to now rdb recipient =
        route_account recipient (norm_addr recipient) (fst (split_first CHR ''@'' (norm_addr recipient))) d a (rt_db rdb)"
  | (alias_only) d where "domain_resolve (snd (split_first CHR ''@'' (norm_addr recipient))) (rt_db rdb) = Inr d"
      "\<not> is_suppressed (norm_addr recipient) (rt_suppressed rdb)"
      "account_find (norm_addr recipient) (rt_db rdb) = None"
      "route_to now rdb recipient =
        route_alias recipient (norm_addr recipient) (fst (split_first CHR ''@'' (norm_addr recipient))) d (rt_db rdb)"
proof -
  let ?a = "norm_addr recipient"
  let ?lp = "fst (split_first CHR ''@'' ?a)" and ?dn = "snd (split_first CHR ''@'' ?a)"
  let ?tok = "case token_from ?lp of None \<Rightarrow> None | Some token \<Rightarrow> reply_get token now (rt_replies rdb)"
  note R = route_to_def [of now rdb recipient, unfolded Let_def split_beta]
  show thesis
  proof (cases "CHR ''@'' \<in> set ?a")
    case False
    then show thesis by (intro no_at) (simp_all add: R)
  next
    case at: True
    show thesis
    proof (cases "is_suppressed ?a (rt_suppressed rdb)")
      case True
      then show thesis using at by (intro suppressed) (simp_all add: R)
    next
      case ns: False
      show thesis
      proof (cases "domain_resolve ?dn (rt_db rdb)")
        case (Inl e)
        then show thesis using at ns by (intro foreign [of e]) (simp_all add: R)
      next
        case d: (Inr d)
        show thesis
        proof (cases ?tok)
          case (Some r)
          then obtain token where "token_from ?lp = Some token" "reply_get token now (rt_replies rdb) = Some r"
            by (cases "token_from ?lp") simp_all
          then show thesis using at ns d by (intro reply [of d token r]) (simp_all add: R)
        next
          case tok: None
          show thesis
          proof (cases "account_find ?a (rt_db rdb)")
            case None
            then show thesis using at ns d tok by (intro alias_only [of d]) (simp_all add: R)
          next
            case (Some x)
            then show thesis using at ns d tok by (intro account [of d x]) (simp_all add: R)
          qed
        qed
      qed
    qed
  qed
qed

lemma lower_split_first: "lower s = s \<Longrightarrow> lower (fst (split_first c s)) = fst (split_first c s)"
proof -
  assume "lower s = s"
  then have "\<forall>x \<in> set s. lower_char x = x" by (metis lower_def map_eq_conv map_ident)
  then show ?thesis by (auto simp: lower_def split_first_def intro!: map_idI dest: set_takeWhileD)
qed

text \<open>
  Nothing is delivered to a mailbox that must not receive: when an address is routed to a
  mailbox (\<open>LOCAL\<close>, or \<open>ALIAS_BRIDGE\<close> for an address that names its domain in full), the
  address is not suppressed, its domain is ours, and the mailbox is that of the account with
  that very address, which is neither disabled nor blocked from receiving.
\<close>

theorem local_delivery_is_allowed:
  assumes "ro_disposition (route_to now rdb recipient) = LOCAL \<or>
      ro_disposition (route_to now rdb recipient) = ALIAS_BRIDGE \<and>
      account_find (norm_addr recipient) (rt_db rdb) \<noteq> None"
  shows "\<exists>a d. account_find (norm_addr recipient) (rt_db rdb) = Some a \<and>
    a_auth_mode a \<noteq> DISABLED \<and> a_can_receive a \<and> d \<in> set (domains (rt_db rdb)) \<and>
    \<not> is_suppressed (norm_addr recipient) (rt_suppressed rdb) \<and>
    ro_account_id (route_to now rdb recipient) = Some (a_id a) \<and>
    ro_mailbox (route_to now rdb recipient) = Some (norm_addr recipient)"
proof (cases rule: route_to_cases [of recipient now rdb])
  case (account d a)
  let ?r = "route_account recipient (norm_addr recipient) (fst (split_first CHR ''@'' (norm_addr recipient))) d a (rt_db rdb)"
  have *: "ro_disposition ?r \<in> {LOCAL, ALIAS_BRIDGE}" using assms account(4) by auto
  then have "delivers_locally ?r" by (simp add: delivers_locally_def)
  from route_account_fields [OF this] route_account_disposition [OF *] account domain_resolve_Inr [OF account(1)]
  show ?thesis by auto
next
  case (alias_only d)
  then show ?thesis using assms route_alias_not_local by auto
qed (use assms in \<open>simp_all add: reject_def plain_route_def\<close>)

definition sample_rdb :: routing_db where
  "sample_rdb = \<lparr>rt_db = sample_db, rt_suppressed = [], rt_replies = []\<rparr>"

lemma local_delivery_is_allowed_witness:
  "ro_mailbox (route_to 0 sample_rdb ''Bob@B.net'') = Some ''bob@b.net''"
proof -
  have "ro_disposition (route_to 0 sample_rdb ''Bob@B.net'') = LOCAL" by code_simp
  then have "ro_mailbox (route_to 0 sample_rdb ''Bob@B.net'') = Some (norm_addr ''Bob@B.net'')"
    using local_delivery_is_allowed [of 0 sample_rdb "''Bob@B.net''"] by blast
  moreover have "norm_addr ''Bob@B.net'' = ''bob@b.net''" by code_simp
  ultimately show ?thesis by simp
qed

definition blocked_rdb :: routing_db where
  "blocked_rdb = sample_rdb\<lparr>rt_db := sample_db\<lparr>accounts :=
     [(sample_account 4 2 ''ann'')\<lparr>a_can_receive := False\<rparr>, sample_account 5 3 ''bob'']\<rparr>\<rparr>"

text \<open>
  These account checks can be walked around: the domain is resolved after a trailing
  dot is dropped but the account is looked up with the dot, so mail for an address written
  \<open>ann@acme.org.\<close> skips the check of an account that may not receive and is mirrored into its
  mailbox when a bridge alias of the same name exists, while \<open>ann@acme.org\<close> is refused.
\<close>

theorem trailing_dot_skips_account_checks:
  "ro_reason (route_to 0 blocked_rdb ''ann@acme.org'') = Some RECEIVING_BLOCKED \<and>
   ro_disposition (route_to 0 blocked_rdb ''ann@acme.org.'') = ALIAS_BRIDGE \<and>
   ro_mailbox (route_to 0 blocked_rdb ''ann@acme.org.'') = Some ''ann@acme.org''"
  by code_simp

lemma route_account_forwards:
  assumes "ro_forward_to (route_account rec addr lp d a db) \<noteq> []"
  shows "\<exists>l rs. alias_lookup (d_id d) lp db = Some l \<and> expand db (al_destinations l) [addr] 0 = Inr rs \<and>
    ro_forward_to (route_account rec addr lp d a db) = rs \<and> ro_alias_id (route_account rec addr lp d a db) = Some (al_id l)"
  using assms by (auto simp: route_defs Let_def split: if_splits option.splits sum.splits)

lemma route_alias_forwards:
  assumes "ro_forward_to (route_alias rec addr lp d db) \<noteq> []"
  shows "\<exists>l rs. alias_lookup (d_id d) lp db = Some l \<and> expand db (al_destinations l) [addr] 0 = Inr rs \<and>
    ro_forward_to (route_alias rec addr lp d db) = rs \<and> ro_alias_id (route_alias rec addr lp d db) = Some (al_id l)"
  using assms by (auto simp: route_defs Let_def split: if_splits option.splits sum.splits)

text \<open>
  What a message is forwarded to is what its alias leads to: the forwarding addresses of a
  route are the final addresses reached from the destinations of the active alias that matches
  the address on its domain, each once.
\<close>

theorem forwards_follow_alias:
  assumes "ro_forward_to (route_to now rdb recipient) \<noteq> []"
  shows "\<exists>d l. domain_resolve (snd (split_first CHR ''@'' (norm_addr recipient))) (rt_db rdb) = Inr d \<and>
    l \<in> set (aliases (rt_db rdb)) \<and> al_domain_id l = d_id d \<and> al_is_active l \<and>
    al_source l = fst (split_first CHR ''@'' (norm_addr recipient)) \<and>
    ro_alias_id (route_to now rdb recipient) = Some (al_id l) \<and>
    set (ro_forward_to (route_to now rdb recipient)) =
      {a. \<exists>dest \<in> set (al_destinations l). leads_to (rt_db rdb) dest a} \<and>
    distinct (ro_forward_to (route_to now rdb recipient))"
proof -
  let ?a = "norm_addr recipient"
  let ?lp = "fst (split_first CHR ''@'' ?a)" and ?r = "route_to now rdb recipient"
  have low: "lower ?lp = ?lp" by (simp add: lower_split_first)
  have main: "\<exists>l rs. alias_lookup (d_id d) ?lp (rt_db rdb) = Some l \<and> expand (rt_db rdb) (al_destinations l) [?a] 0 = Inr rs \<and>
      ro_forward_to ?r = rs \<and> ro_alias_id ?r = Some (al_id l) \<Longrightarrow>
      domain_resolve (snd (split_first CHR ''@'' ?a)) (rt_db rdb) = Inr d \<Longrightarrow> ?thesis" for d
  proof (elim exE conjE)
    fix l rs assume h: "alias_lookup (d_id d) ?lp (rt_db rdb) = Some l"
      "expand (rt_db rdb) (al_destinations l) [?a] 0 = Inr rs" "ro_forward_to ?r = rs" "ro_alias_id ?r = Some (al_id l)"
      and d: "domain_resolve (snd (split_first CHR ''@'' ?a)) (rt_db rdb) = Inr d"
    have "l \<in> set (aliases (rt_db rdb)) \<and> al_domain_id l = d_id d \<and> al_source l = lower ?lp \<and> al_is_active l"
      using h(1) by (auto simp: alias_lookup_def dest!: first_row_filterD)
    with h d low expand_reaches_leaves_spec [OF h(2)] show ?thesis
      by (intro exI [of _ d] exI [of _ l]) simp
  qed
  show ?thesis
  proof (cases rule: route_to_cases [of recipient now rdb])
    case (account d a)
    note f = route_account_forwards [OF assms [unfolded account(4)]]
    show ?thesis by (rule main [OF _ account(1)]) (unfold account(4), rule f)
  next
    case (alias_only d)
    note f = route_alias_forwards [OF assms [unfolded alias_only(4)]]
    show ?thesis by (rule main [OF _ alias_only(1)]) (unfold alias_only(4), rule f)
  qed (use assms in \<open>simp_all add: reject_def plain_route_def\<close>)
qed

lemma forwards_follow_alias_witness:
  "set (ro_forward_to (route_to 0 sample_rdb ''sales@acme.org'')) =
    {a. \<exists>dest \<in> set [''ann@acme.org'', ''out@far.com'']. leads_to sample_db dest a}"
proof -
  have "ro_forward_to (route_to 0 sample_rdb ''sales@acme.org'') = [''ann@acme.org'', ''out@far.com'']" by code_simp
  then obtain d l where l: "domain_resolve (snd (split_first CHR ''@'' (norm_addr ''sales@acme.org''))) sample_db = Inr d"
    "l \<in> set (aliases sample_db)" "al_domain_id l = d_id d" "al_source l = fst (split_first CHR ''@'' (norm_addr ''sales@acme.org''))"
    "set (ro_forward_to (route_to 0 sample_rdb ''sales@acme.org'')) = {a. \<exists>dest \<in> set (al_destinations l). leads_to sample_db dest a}"
    using forwards_follow_alias [of 0 sample_rdb "''sales@acme.org''"] by (auto simp: sample_rdb_def)
  have "fst (split_first CHR ''@'' (norm_addr ''sales@acme.org'')) = ''sales''" by code_simp
  with l have "l = sample_alias 6 2 ''sales'' [''ann@acme.org'', ''out@far.com''] FORWARD"
    by (auto simp: sample_db_def sample_alias_def)
  with l(5) show ?thesis by (simp add: sample_alias_def)
qed

end
