(* ===== verification/Ip.thy ===== *)
theory Ip
  imports Py_Text "HOL-Library.Word"
begin

text \<open>
  Python's \<open>ipaddress\<close> as the program uses it: reading an address or a network from text,
  membership and equality. An IPv4 address is a 32-bit word, an IPv6 address a 128-bit word with
  an optional scope; \<open>None\<close> stands for the \<open>ValueError\<close>. A network is its base and prefix length.
\<close>

unbundle bit_operations_syntax

datatype ip = V4 "32 word" | V6 "128 word" "string option"

datatype ip_net = Net4 "32 word" nat | Net6 "128 word" nat

section \<open>Reading addresses\<close>

definition decimal :: "string \<Rightarrow> int" where
  "decimal s = foldl (\<lambda>n c. 10 * n + digit_value c) 0 s"

definition parse_octet :: "string \<Rightarrow> int option" where
  "parse_octet s =
    (if s = [] \<or> \<not> list_all is_digit s \<or> 3 < length s \<or> (s \<noteq> ''0'' \<and> hd s = CHR ''0'') \<or> 255 < decimal s
     then None else Some (decimal s))"

fun opt_list :: "'a option list \<Rightarrow> 'a list option" where
  "opt_list [] = Some []"
| "opt_list (None # xs) = None"
| "opt_list (Some x # xs) = map_option ((#) x) (opt_list xs)"

definition parse_v4 :: "string \<Rightarrow> int option" where
  "parse_v4 s =
    (let octets = split_char CHR ''.'' s
     in if s = [] \<or> length octets \<noteq> 4 then None
        else map_option (foldl (\<lambda>n x. 256 * n + x) 0) (opt_list (map parse_octet octets)))"

definition parse_hextet :: "string \<Rightarrow> int option" where
  "parse_hextet s =
    (if s = [] \<or> \<not> list_all (\<lambda>c. hex_value c \<noteq> None) s \<or> 4 < length s then None
     else Some (foldl (\<lambda>n c. 16 * n + int (the (hex_value c))) 0 s))"

function hex_str :: "int \<Rightarrow> string" where
  "hex_str n = (if n < 16 then [hex_char (nat n)] else hex_str (n div 16) @ [hex_char (nat (n mod 16))])"
  by pat_completeness auto
termination
  by (relation "measure nat") (auto simp: zless_nat_eq_int_zless)

declare hex_str.simps [simp del]

text \<open>The parts of an IPv6 text, an IPv4 suffix rewritten as two hexadecimal parts.\<close>

definition v6_parts :: "string \<Rightarrow> string list option" where
  "v6_parts s =
    (let parts = split_char CHR '':'' s
     in if s = [] \<or> length parts < 3 then None
        else if CHR ''.'' \<in> set (last parts) then
          map_option (\<lambda>n. butlast parts @ [hex_str (n div 65536), hex_str (n mod 65536)]) (parse_v4 (last parts))
        else Some parts)"

definition hextets :: "string list \<Rightarrow> nat \<Rightarrow> string list \<Rightarrow> int option" where
  "hextets hi skipped lo =
    (case (opt_list (map parse_hextet hi), opt_list (map parse_hextet lo)) of
       (Some h, Some l) \<Rightarrow> Some (foldl (\<lambda>n x. 65536 * n + x) 0 (h @ replicate skipped 0 @ l))
     | _ \<Rightarrow> None)"

definition parse_v6 :: "string \<Rightarrow> int option" where
  "parse_v6 s =
    (case v6_parts s of
       None \<Rightarrow> None
     | Some parts \<Rightarrow>
       let len = length parts;
           skips = filter (\<lambda>i. parts ! i = []) [1..<len - 1]
       in if 9 < len then None
          else case skips of
                 [] \<Rightarrow> if len \<noteq> 8 \<or> hd parts = [] \<or> last parts = [] then None else hextets parts 0 []
               | [k] \<Rightarrow>
                 let hi = (if hd parts = [] then k - 1 else k);
                     lo = (if last parts = [] then len - k - 2 else len - k - 1)
                 in if hd parts = [] \<and> hi \<noteq> 0 \<or> last parts = [] \<and> lo \<noteq> 0 \<or> 8 < hi + lo + 1 then None
                    else hextets (take hi parts) (8 - (hi + lo)) (drop (len - lo) parts)
               | _ \<Rightarrow> None)"

definition split_scope :: "string \<Rightarrow> (string \<times> string option) option" where
  "split_scope s =
    (let (addr, sep, scope) = partition_char CHR ''%'' s
     in if \<not> sep then Some (addr, None)
        else if scope = [] \<or> CHR ''%'' \<in> set scope then None else Some (addr, Some scope))"

definition v4_address :: "string \<Rightarrow> 32 word option" where
  "v4_address s = (if CHR ''/'' \<in> set s then None else map_option of_int (parse_v4 s))"

definition v6_address :: "string \<Rightarrow> (128 word \<times> string option) option" where
  "v6_address s =
    (if CHR ''/'' \<in> set s then None
     else case split_scope s of
            None \<Rightarrow> None
          | Some (addr, scope) \<Rightarrow> map_option (\<lambda>n. (of_int n, scope)) (parse_v6 addr))"

definition ip_address :: "string \<Rightarrow> ip option" where
  "ip_address s =
    (case v4_address s of
       Some a \<Rightarrow> Some (V4 a)
     | None \<Rightarrow> (case v6_address s of Some (a, scope) \<Rightarrow> Some (V6 a scope) | None \<Rightarrow> None))"

section \<open>Networks\<close>

text \<open>The host part of a mask: the low bits that are not compared.\<close>

definition net_mask :: "nat \<Rightarrow> 'w::len word" where
  "net_mask p = NOT (mask (LENGTH('w) - p))"

definition prefix_string :: "nat \<Rightarrow> string \<Rightarrow> nat option" where
  "prefix_string width s =
    (if s = [] \<or> \<not> list_all is_digit s \<or> int width < decimal s then None else Some (nat (decimal s)))"

text \<open>A dotted netmask, or failing that a dotted hostmask.\<close>

definition mask_prefix :: "32 word \<Rightarrow> nat option" where
  "mask_prefix m = List.find (\<lambda>p. net_mask p = m) [0..<33]"

definition ip_prefix_string :: "string \<Rightarrow> nat option" where
  "ip_prefix_string s =
    (case parse_v4 s of
       None \<Rightarrow> None
     | Some n \<Rightarrow> (case mask_prefix (of_int n) of Some p \<Rightarrow> Some p | None \<Rightarrow> mask_prefix (NOT (of_int n))))"

definition v4_network :: "string \<Rightarrow> ip_net option" where
  "v4_network s =
    (case split_char CHR ''/'' s of
       [a] \<Rightarrow> map_option (\<lambda>w. Net4 w 32) (v4_address a)
     | [a, m] \<Rightarrow>
       (case (v4_address a, case prefix_string 32 m of Some p \<Rightarrow> Some p | None \<Rightarrow> ip_prefix_string m) of
          (Some w, Some p) \<Rightarrow> Some (Net4 (w AND net_mask p) p)
        | _ \<Rightarrow> None)
     | _ \<Rightarrow> None)"

definition v6_network :: "string \<Rightarrow> ip_net option" where
  "v6_network s =
    (case split_char CHR ''/'' s of
       [a] \<Rightarrow> map_option (\<lambda>(w, _). Net6 w 128) (v6_address a)
     | [a, m] \<Rightarrow>
       (case (v6_address a, prefix_string 128 m) of
          (Some (w, _), Some p) \<Rightarrow> Some (Net6 (w AND net_mask p) p)
        | _ \<Rightarrow> None)
     | _ \<Rightarrow> None)"

text \<open>\<open>ip_network(s, strict=False)\<close>.\<close>

definition ip_network :: "string \<Rightarrow> ip_net option" where
  "ip_network s = (case v4_network s of Some n \<Rightarrow> Some n | None \<Rightarrow> v6_network s)"

fun in_network :: "ip \<Rightarrow> ip_net \<Rightarrow> bool" where
  "in_network (V4 a) (Net4 base p) = (a AND net_mask p = base)"
| "in_network (V6 a scope) (Net6 base p) = (a AND net_mask p = base)"
| "in_network _ _ = False"

text \<open>An IPv4-mapped IPv6 address as the IPv4 address it carries.\<close>

definition unmap :: "ip \<Rightarrow> ip" where
  "unmap a =
    (case a of
       V6 w _ \<Rightarrow> if drop_bit 32 w = 0xFFFF then V4 (ucast w) else a
     | V4 _ \<Rightarrow> a)"

section \<open>A network is an interval\<close>

lemma and_net_mask_push: "x AND net_mask p = push_bit (LENGTH('w) - p) (drop_bit (LENGTH('w) - p) x)"
  for x :: "'w::len word"
  by (rule bit_word_eqI) (auto simp: net_mask_def bit_simps)

lemma drop_bit_and_net_mask: "drop_bit (LENGTH('w) - p) (x AND net_mask p) = drop_bit (LENGTH('w) - p) x"
  for x :: "'w::len word"
  by (rule bit_word_eqI) (auto simp: net_mask_def bit_simps dest: bit_imp_le_length)

lemma uint_drop_bit: "uint (drop_bit n a) = uint a div 2 ^ n" for a :: "'w::len word"
proof -
  have "uint (drop_bit n a) = drop_bit n (take_bit LENGTH('w) (uint a))"
    by (simp only: unsigned_drop_bit_eq min.idem)
  also have "take_bit LENGTH('w) (uint a) = uint a"
    unfolding take_bit_int_eq_self_iff using uint_lt2p [of a] uint_ge_0 [of a] by blast
  finally show ?thesis by (simp only: drop_bit_eq_div)
qed

lemma take_bit_push_drop: "take_bit n (push_bit n x) = 0" for x :: "'w::len word"
  by (simp add: take_bit_push_bit)

lemma and_net_mask:
  fixes a :: "'w::len word"
  shows "a AND net_mask p = b AND net_mask p \<longleftrightarrow>
    uint a div 2 ^ (LENGTH('w) - p) = uint b div 2 ^ (LENGTH('w) - p)"
proof -
  let ?n = "LENGTH('w) - p"
  have "a AND net_mask p = b AND net_mask p \<longleftrightarrow> drop_bit ?n a = drop_bit ?n b"
    by (metis and_net_mask_push drop_bit_and_net_mask)
  also have "\<dots> \<longleftrightarrow> uint (drop_bit ?n a) = uint (drop_bit ?n b)" by (simp only: word_uint_eq_iff)
  also have "\<dots> \<longleftrightarrow> uint a div 2 ^ ?n = uint b div 2 ^ ?n"
    by (simp only: uint_drop_bit)
  finally show ?thesis .
qed

lemma div_interval: "0 < s \<Longrightarrow> x div s = q \<longleftrightarrow> q * s \<le> x \<and> x < q * s + s" for x s q :: int
proof
  assume s: "0 < s"
  show "q * s \<le> x \<and> x < q * s + s" if "x div s = q"
  proof -
    have "x = q * s + x mod s" using that by (metis div_mult_mod_eq)
    then show ?thesis using pos_mod_bound [OF s, of x] pos_mod_sign [OF s, of x] by linarith
  qed
  show "q * s \<le> x \<and> x < q * s + s \<Longrightarrow> x div s = q"
    using s by (intro int_div_pos_eq [of x s q "x - q * s"]) (auto simp: mult.commute)
qed

text \<open>
  Membership in a network whose base has no host bits: the address lies in the interval of
  \<open>2 ^ (width - p)\<close> addresses that starts at the base.
\<close>

lemma in_interval:
  fixes a base :: "'w::len word"
  assumes "base AND net_mask p = base"
  shows "a AND net_mask p = base \<longleftrightarrow>
    uint base \<le> uint a \<and> uint a < uint base + 2 ^ (LENGTH('w) - p)"
proof -
  let ?n = "LENGTH('w) - p" and ?s = "2 ^ (LENGTH('w) - p) :: int"
  have "take_bit ?n base = 0"
    using take_bit_push_drop [of ?n "drop_bit ?n base"] and_net_mask_push [of base p] assms by simp
  then have "uint base mod ?s = 0"
    by (metis take_bit_eq_mod unsigned_take_bit_eq unsigned_0)
  then have b: "uint base = uint base div ?s * ?s" by (metis add.right_neutral div_mult_mod_eq)
  have "a AND net_mask p = base \<longleftrightarrow> uint a div ?s = uint base div ?s"
    using and_net_mask [of a p base] assms by simp
  also have "\<dots> \<longleftrightarrow> uint base div ?s * ?s \<le> uint a \<and> uint a < uint base div ?s * ?s + ?s"
    by (rule div_interval) simp
  finally show ?thesis using b by simp
qed

end
