(* ===== verification/Relay.thy ===== *)
theory Relay
  imports Repo Ip
begin

text \<open>
  \<open>src/src/lightr/mail/relay.py\<close>: a domain's smarthost. \<open>relay_apply\<close> returns the changed domain
  (the code changes it in place and its callers save it only when nothing was raised),
  \<open>relay_connection\<close> the keyword arguments for \<open>aiosmtplib\<close>, \<open>relay_view\<close> what is shown.
\<close>

definition IMPLICIT_TLS_PORT :: int where "IMPLICIT_TLS_PORT = 465"

definition DEFAULT_PORT :: int where "DEFAULT_PORT = 587"

datatype relay_error =
    NotAHostname string
  | NotAPort int
  | NoRelayHost
  | HalfALogin
  | PasswordWithoutTls
  | RelayRefused string int string   \<comment> \<open>the server's own words\<close>

record relay_change =
  rc_enabled :: "bool option"
  rc_host :: "string option"
  rc_port :: "int option"
  rc_username :: "string option"
  rc_password :: "string option"
  rc_use_tls :: "bool option"
  rc_skip_verify :: "bool option"
  rc_clear :: bool

section \<open>Host names and ports\<close>

definition label_char :: "char \<Rightarrow> bool" where
  "label_char c \<longleftrightarrow> is_digit c \<or> 97 \<le> (of_char c :: nat) \<and> (of_char c :: nat) \<le> 122"

text \<open>\<open>[a-z0-9](?:[a-z0-9-]{0,61}[a-z0-9])?\<close>\<close>

definition is_label :: "string \<Rightarrow> bool" where
  "is_label s \<longleftrightarrow> s \<noteq> [] \<and> length s \<le> 63 \<and> label_char (hd s) \<and> label_char (last s) \<and>
     list_all (\<lambda>c. label_char c \<or> c = CHR ''-'') s"

definition dotted_labels :: "string \<Rightarrow> bool" where
  "dotted_labels s \<longleftrightarrow> length s \<le> 253 \<and> 2 \<le> length (split_char CHR ''.'' s) \<and> list_all is_label (split_char CHR ''.'' s)"

text \<open>\<open>_HOSTNAME.match\<close>: \<open>$\<close> also matches before a newline that ends the text.\<close>

definition hostname_match :: "string \<Rightarrow> bool" where
  "hostname_match s \<longleftrightarrow> dotted_labels s \<or> s \<noteq> [] \<and> last s = CHR 0x0A \<and> dotted_labels (butlast s)"

definition normalise_host :: "string \<Rightarrow> relay_error + string option" where
  "normalise_host value =
    (let host = rstrip_chars ''.'' (lower (strip value))
     in if host = [] then Inr None
        else case ip_address host of
               Some _ \<Rightarrow> Inr (Some host)
             | None \<Rightarrow> if hostname_match host then Inr (Some host) else Inl (NotAHostname value))"

definition check_port :: "int \<Rightarrow> relay_error + int" where
  "check_port value = (if 0 < value \<and> value < 65536 then Inr value else Inl (NotAPort value))"

section \<open>Changing and using the settings\<close>

text \<open>\<open>x or None\<close>, and the truth of an optional string.\<close>

definition or_none :: "string \<Rightarrow> string option" where
  "or_none s = (if s = [] then None else Some s)"

definition uses_tls :: "domain \<Rightarrow> bool" where
  "uses_tls d \<longleftrightarrow> d_relay_port d = Some IMPLICIT_TLS_PORT \<or> d_relay_use_tls d"

definition relay_cleared :: "domain \<Rightarrow> domain" where
  "relay_cleared d = d\<lparr>d_relay_enabled := False, d_relay_host := None, d_relay_port := None,
     d_relay_username := None, d_relay_password := None, d_relay_use_tls := False,
     d_relay_tls_skip_verify := False\<rparr>"

definition set_login_and_tls :: "relay_change \<Rightarrow> domain \<Rightarrow> domain" where
  "set_login_and_tls c d0 =
    (let d1 = (case rc_username c of Some u \<Rightarrow> d0\<lparr>d_relay_username := or_none (strip u)\<rparr> | None \<Rightarrow> d0);
         d2 = (case rc_password c of Some p \<Rightarrow> d1\<lparr>d_relay_password := or_none p\<rparr> | None \<Rightarrow> d1);
         d3 = (case rc_use_tls c of Some b \<Rightarrow> d2\<lparr>d_relay_use_tls := b\<rparr> | None \<Rightarrow> d2);
         d4 = (case rc_skip_verify c of Some b \<Rightarrow> d3\<lparr>d_relay_tls_skip_verify := b\<rparr> | None \<Rightarrow> d3)
     in case rc_enabled c of Some b \<Rightarrow> d4\<lparr>d_relay_enabled := b\<rparr> | None \<Rightarrow> d4)"

definition relay_checked :: "domain \<Rightarrow> relay_error + domain" where
  "relay_checked d =
    (if \<not> d_relay_enabled d then Inr d
     else if \<not> truthy (d_relay_host d) then Inl NoRelayHost
     else if truthy (d_relay_username d) \<noteq> truthy (d_relay_password d) then Inl HalfALogin
     else if truthy (d_relay_username d) \<and> \<not> uses_tls d then Inl PasswordWithoutTls
     else Inr d)"

definition relay_apply :: "relay_change \<Rightarrow> domain \<Rightarrow> relay_error + domain" where
  "relay_apply c d =
    (if rc_clear c then Inr (relay_cleared d)
     else bind_res (case rc_host c of
              Some h \<Rightarrow> bind_res (normalise_host h) (\<lambda>h'. Inr (d\<lparr>d_relay_host := h'\<rparr>)) | None \<Rightarrow> Inr d) (\<lambda>d1.
          bind_res (case rc_port c of
              Some p \<Rightarrow> bind_res (check_port p) (\<lambda>p'. Inr (d1\<lparr>d_relay_port := Some p'\<rparr>)) | None \<Rightarrow> Inr d1) (\<lambda>d2.
          relay_checked (set_login_and_tls c d2))))"

record connection_args =
  ca_hostname :: string
  ca_port :: int
  ca_use_tls :: bool
  ca_start_tls :: bool
  ca_validate_certs :: bool
  ca_username :: "string option"
  ca_password :: "string option"

definition relay_port_of :: "domain \<Rightarrow> int" where
  "relay_port_of d = (case d_relay_port d of Some p \<Rightarrow> if p = 0 then DEFAULT_PORT else p | None \<Rightarrow> DEFAULT_PORT)"

definition relay_connection :: "domain \<Rightarrow> connection_args" where
  "relay_connection d =
    (let port = relay_port_of d; implicit = (port = IMPLICIT_TLS_PORT)
     in \<lparr>ca_hostname = (case d_relay_host d of Some h \<Rightarrow> h | None \<Rightarrow> []), ca_port = port,
         ca_use_tls = implicit, ca_start_tls = d_relay_use_tls d \<and> \<not> implicit,
         ca_validate_certs = (\<not> d_relay_tls_skip_verify d),
         ca_username = Option.bind (d_relay_username d) or_none,
         ca_password = Option.bind (d_relay_password d) or_none\<rparr>)"

record relay_shown =
  rv_domain :: string
  rv_enabled :: bool
  rv_host :: "string option"
  rv_port :: "int option"
  rv_tls :: string
  rv_verify_certificate :: bool
  rv_username :: "string option"
  rv_password :: "string option"

definition relay_view :: "domain \<Rightarrow> relay_shown" where
  "relay_view d =
    \<lparr>rv_domain = d_name d, rv_enabled = d_relay_enabled d, rv_host = d_relay_host d,
     rv_port = (case d_relay_port d of
         Some p \<Rightarrow> if p \<noteq> 0 then Some p else if truthy (d_relay_host d) then Some DEFAULT_PORT else None
       | None \<Rightarrow> if truthy (d_relay_host d) then Some DEFAULT_PORT else None),
     rv_tls = (if d_relay_port d = Some IMPLICIT_TLS_PORT then ''implicit''
               else if d_relay_use_tls d then ''starttls'' else ''off''),
     rv_verify_certificate = (\<not> d_relay_tls_skip_verify d), rv_username = d_relay_username d,
     rv_password = (if truthy (d_relay_password d) then Some ''(set)'' else None)\<rparr>"

text \<open>
  \<open>test_login\<close>. \<open>probe\<close> is the SMTP session, connection and login and quit, with the login to try:
  \<open>None\<close> when it went through, the text of the exception otherwise.
\<close>

definition relay_test_login ::
  "(connection_args \<Rightarrow> (string \<times> string) option \<Rightarrow> string option) \<Rightarrow> domain \<Rightarrow> relay_error + string" where
  "relay_test_login probe d =
    (if \<not> truthy (d_relay_host d) then Inl NoRelayHost
     else
       let s = relay_connection d;
           credentials = (case ca_username s of
               Some u \<Rightarrow> Some (u, case ca_password s of Some p \<Rightarrow> p | None \<Rightarrow> [])
             | None \<Rightarrow> None)
       in case probe (s\<lparr>ca_username := None, ca_password := None\<rparr>) credentials of
            Some text \<Rightarrow> Inl (RelayRefused (ca_hostname s) (ca_port s) text)
          | None \<Rightarrow>
              Inr (ca_hostname s @ '':'' @ dec_str (ca_port s) @ '' accepted the connection ('' @
                (if ca_use_tls s then ''TLS'' else if ca_start_tls s then ''STARTTLS'' else ''no TLS'') @ '', '' @
                (case ca_username s of Some u \<Rightarrow> ''logged in as '' @ u | None \<Rightarrow> ''no login'') @ '')''))"

section \<open>What a change guarantees\<close>

lemma relay_apply_checked:
  "relay_apply c d = Inr d' \<Longrightarrow> \<not> rc_clear c \<Longrightarrow> relay_checked d' = Inr d'"
  by (auto simp: relay_apply_def relay_checked_def bind_res_Inr_iff split: option.splits if_splits)

lemma set_login_keeps:
  "d_id (set_login_and_tls c d) = d_id d" "d_org_id (set_login_and_tls c d) = d_org_id d"
  "d_name (set_login_and_tls c d) = d_name d"
  by (simp_all add: set_login_and_tls_def Let_def split: option.split)

lemma relay_checked_same: "relay_checked d = Inr d' \<Longrightarrow> d' = d"
  by (simp add: relay_checked_def split: if_splits)

lemma relay_apply_keeps:
  assumes "relay_apply c d = Inr d'"
  shows "d_id d' = d_id d" "d_org_id d' = d_org_id d" "d_name d' = d_name d"
proof -
  have "d_id d' = d_id d \<and> d_org_id d' = d_org_id d \<and> d_name d' = d_name d"
  proof (cases "rc_clear c")
    case True
    then show ?thesis using assms by (auto simp: relay_apply_def relay_cleared_def)
  next
    case False
    then obtain d1 d2 where 1: "(case rc_host c of
              Some h \<Rightarrow> bind_res (normalise_host h) (\<lambda>h'. Inr (d\<lparr>d_relay_host := h'\<rparr>)) | None \<Rightarrow> Inr d) = Inr d1"
      and 2: "(case rc_port c of
              Some p \<Rightarrow> bind_res (check_port p) (\<lambda>p'. Inr (d1\<lparr>d_relay_port := Some p'\<rparr>)) | None \<Rightarrow> Inr d1) = Inr d2"
      and 3: "relay_checked (set_login_and_tls c d2) = Inr d'"
      using assms by (simp only: relay_apply_def if_False bind_res_Inr_iff) blast
    have "d_id d1 = d_id d \<and> d_org_id d1 = d_org_id d \<and> d_name d1 = d_name d"
      using 1 by (cases "rc_host c") (auto simp: bind_res_Inr_iff)
    moreover have "d_id d2 = d_id d1 \<and> d_org_id d2 = d_org_id d1 \<and> d_name d2 = d_name d1"
      using 2 by (cases "rc_port c") (auto simp: bind_res_Inr_iff)
    ultimately show ?thesis using relay_checked_same [OF 3] by (simp add: set_login_keeps)
  qed
  then show "d_id d' = d_id d" "d_org_id d' = d_org_id d" "d_name d' = d_name d" by simp_all
qed

lemma relay_checked_Inr:
  "relay_checked d = Inr d \<Longrightarrow> d_relay_enabled d \<Longrightarrow>
   truthy (d_relay_host d) \<and> truthy (d_relay_username d) = truthy (d_relay_password d) \<and>
   (truthy (d_relay_username d) \<longrightarrow> uses_tls d)"
  by (auto simp: relay_checked_def split: if_splits)

lemma or_none_None: "Option.bind s or_none = None \<longleftrightarrow> \<not> truthy s"
  by (cases s) (auto simp: or_none_def truthy_def)

lemma connection_encrypted: "uses_tls d \<Longrightarrow> ca_use_tls (relay_connection d) \<or> ca_start_tls (relay_connection d)"
  by (auto simp: uses_tls_def relay_connection_def relay_port_of_def Let_def IMPLICIT_TLS_PORT_def DEFAULT_PORT_def
      split: option.splits)

text \<open>
  Whatever a domain's settings were: after a change that \<open>apply\<close> accepts, a relay that is
  enabled has a host, its login is a user name with a password or neither, and the
  connection made from the settings carries a login only under TLS, implicit or \<open>STARTTLS\<close>
  (never both at once).
\<close>

theorem relay_password_needs_tls:
  assumes "relay_apply c d = Inr d'" and "d_relay_enabled d'"
  shows "ca_hostname (relay_connection d') \<noteq> [] \<and>
    (ca_username (relay_connection d') = None \<longleftrightarrow> ca_password (relay_connection d') = None) \<and>
    (ca_password (relay_connection d') = None \<or>
     ca_use_tls (relay_connection d') \<noteq> ca_start_tls (relay_connection d'))"
proof -
  have "\<not> rc_clear c" using assms by (auto simp: relay_apply_def relay_cleared_def)
  from relay_checked_Inr [OF relay_apply_checked [OF assms(1) this] assms(2)]
  have facts: "truthy (d_relay_host d')" "truthy (d_relay_username d') = truthy (d_relay_password d')"
    "truthy (d_relay_username d') \<Longrightarrow> uses_tls d'" by auto
  have login: "ca_username (relay_connection d') = None \<longleftrightarrow> \<not> truthy (d_relay_username d')"
    "ca_password (relay_connection d') = None \<longleftrightarrow> \<not> truthy (d_relay_password d')"
    by (simp_all add: relay_connection_def Let_def or_none_None)
  have "ca_hostname (relay_connection d') \<noteq> []"
    using facts(1) by (auto simp: relay_connection_def Let_def truthy_def split: option.splits)
  moreover have "\<not> (ca_use_tls (relay_connection d') \<and> ca_start_tls (relay_connection d'))"
    by (simp add: relay_connection_def Let_def)
  ultimately show ?thesis using facts login connection_encrypted by blast
qed

definition login_change :: "int option \<Rightarrow> relay_change" where
  "login_change port = \<lparr>rc_enabled = Some True, rc_host = Some ''SMTP.relay.net.'', rc_port = port,
     rc_username = Some ''user '', rc_password = Some ''secret'', rc_use_tls = None,
     rc_skip_verify = None, rc_clear = False\<rparr>"

lemma relay_password_needs_tls_witness:
  "relay_apply (login_change None) (sample_domain 2 ''x.org'') = Inl PasswordWithoutTls \<and>
   (\<exists>d'. relay_apply (login_change (Some 465)) (sample_domain 2 ''x.org'') = Inr d' \<and>
      ca_password (relay_connection d') = Some ''secret'' \<and> ca_hostname (relay_connection d') = ''smtp.relay.net'' \<and>
      ca_use_tls (relay_connection d') \<noteq> ca_start_tls (relay_connection d'))"
proof -
  let ?d = "(sample_domain 2 ''x.org'')\<lparr>d_relay_enabled := True, d_relay_host := Some ''smtp.relay.net'',
    d_relay_port := Some 465, d_relay_username := Some ''user'', d_relay_password := Some ''secret''\<rparr>"
  have run: "relay_apply (login_change (Some 465)) (sample_domain 2 ''x.org'') = Inr ?d"
    and refused: "relay_apply (login_change None) (sample_domain 2 ''x.org'') = Inl PasswordWithoutTls"
    by code_simp+
  have shown: "ca_password (relay_connection ?d) = Some ''secret''" "ca_hostname (relay_connection ?d) = ''smtp.relay.net''"
    by code_simp+
  from relay_password_needs_tls [OF run] shown run refused show ?thesis by simp
qed

text \<open>The settings shown do not depend on the password, beyond whether there is one.\<close>

lemma relay_view_hides_password:
  "truthy p = truthy q \<Longrightarrow> relay_view (d\<lparr>d_relay_password := p\<rparr>) = relay_view (d\<lparr>d_relay_password := q\<rparr>)"
  by (simp add: relay_view_def)

text \<open>\<open>$\<close> lets a newline through: \<open>rstrip\<close> of the dots runs after \<open>strip\<close>.\<close>

lemma relay_host_newline:
  "normalise_host (''smtp.example.com'' @ [CHR 0x0A, CHR ''.'']) = Inr (Some (''smtp.example.com'' @ [CHR 0x0A]))"
  by code_simp

end
