(* ===== verification/Sender.thy ===== *)
theory Sender
  imports Queue_Steps Routing Relay "HOL-Library.Multiset"
begin

text \<open>
  \<open>src/src/lightr/mail/sender.py\<close>: one delivery attempt and one drain of the queue. What is outside
  is a parameter, the record \<open>outside\<close>: the SMTP client, the DNS answers, the DKIM signature and the
  bytes of an \<open>EmailMessage\<close>. An SMTP exception is its \<open>code\<close> attribute (\<open>None\<close> when there is none or
  it is no \<open>int\<close>) with its text.
\<close>

section \<open>One attempt\<close>

definition TRANSIENT_CODE :: int where "TRANSIENT_CODE = 451"

record send_result =
  sr_ok :: bool
  sr_code :: int
  sr_detail :: string

definition sent_ok :: send_result where
  "sent_ok = \<lparr>sr_ok = True, sr_code = 250, sr_detail = []\<rparr>"

definition send_failure :: "int \<Rightarrow> string \<Rightarrow> send_result" where
  "send_failure code detail = \<lparr>sr_ok = False, sr_code = code, sr_detail = detail\<rparr>"

text \<open>The \<open>code\<close> attribute of an exception, \<open>None\<close> when there is none or it is no \<open>int\<close>.\<close>

definition code_from :: "int option \<Rightarrow> int" where
  "code_from code =
    (case code of Some c \<Rightarrow> if 200 \<le> c \<and> c < 600 then c else TRANSIENT_CODE | None \<Rightarrow> TRANSIENT_CODE)"

definition helo_name :: "string list \<Rightarrow> string \<Rightarrow> domain \<Rightarrow> string" where
  "helo_name domain_certs server_hostname d =
    (let name = rstrip_chars ''.'' (lower (d_name d));
         hosts = filter (\<lambda>c. c = name \<or> ends_with (''.'' @ name) c)
                   (map (\<lambda>h. rstrip_chars ''.'' (lower h)) domain_certs)
     in if name \<noteq> [] \<and> hosts \<noteq> [] then hd hosts else server_hostname)"

type_synonym smtp_exception = "int option \<times> string"

text \<open>
  \<open>smtp_send args payload sender recipients helo\<close> is \<open>aiosmtplib.send\<close>, \<open>None\<close> when it returns;
  \<open>mx_answers\<close> is \<open>dns.asyncresolver.resolve\<close> (preference and exchange of each record, \<open>None\<close> for an
  exception), \<open>sign_or_warn\<close> takes the payload, the domain, the selector and the key.
\<close>

record outside =
  smtp_relay :: "connection_args \<Rightarrow> string \<Rightarrow> string \<Rightarrow> string list \<Rightarrow> string \<Rightarrow> smtp_exception option"
  smtp_mx :: "string \<Rightarrow> string \<Rightarrow> string \<Rightarrow> string list \<Rightarrow> string \<Rightarrow> smtp_exception option"
  mx_answers :: "string \<Rightarrow> (nat \<times> string) list option"
  sign_or_warn :: "string \<Rightarrow> string \<Rightarrow> string \<Rightarrow> string \<Rightarrow> string"
  message_bytes :: "string \<Rightarrow> string \<Rightarrow> string \<Rightarrow> string \<Rightarrow> string"

record mail_config =
  domain_certs :: "string list"
  server_hostname :: string

definition compose_message :: "outside \<Rightarrow> queued_message \<Rightarrow> domain \<Rightarrow> string" where
  "compose_message out m d =
    (let raw = (if truthy (m_raw m) then the (m_raw m)
                else message_bytes out (m_from_addr m) (join '', '' (m_to_addrs m)) (m_subject m) (m_body m))
     in if truthy (d_dkim_private_key d)
        then sign_or_warn out raw (d_name d)
          (if truthy (d_dkim_selector d) then the (d_dkim_selector d) else ''default'') (the (d_dkim_private_key d))
        else raw)"

text \<open>The hosts tried in order until one takes the message; \<open>None\<close> is success.\<close>

fun try_hosts :: "(string \<Rightarrow> smtp_exception option) \<Rightarrow> string list \<Rightarrow> smtp_exception option \<Rightarrow> smtp_exception option" where
  "try_hosts transmit [] last_error = last_error"
| "try_hosts transmit (h # hs) last_error =
    (case transmit h of None \<Rightarrow> None | Some exc \<Rightarrow> try_hosts transmit hs (Some exc))"

definition mx_hosts :: "outside \<Rightarrow> string \<Rightarrow> string list" where
  "mx_hosts out domain_name =
    (case mx_answers out domain_name of
       None \<Rightarrow> []
     | Some answers \<Rightarrow> map (rstrip_chars ''.'' \<circ> snd) (sort_key fst answers))"

definition by_domain :: "string list \<Rightarrow> (string, string list) dict" where
  "by_domain recipients =
    foldl (\<lambda>groups r. if CHR ''@'' \<in> set r then group_append (lower (snd (split_first CHR ''@'' r))) r groups else groups)
      [] recipients"

text \<open>
  The loop over the recipient domains: it stops at the first that fails. Beside the result, the
  recipients a host has taken the message for.
\<close>

fun send_groups ::
  "(string \<Rightarrow> string list \<Rightarrow> smtp_exception option) \<Rightarrow> (string \<Rightarrow> string list) \<Rightarrow> (string, string list) dict \<Rightarrow>
   send_result \<times> string list" where
  "send_groups transmit hosts_of [] = (sent_ok, [])"
| "send_groups transmit hosts_of ((domain_name, recipients) # groups) =
    (let hosts = hosts_of domain_name
     in if hosts = [] then (send_failure TRANSIENT_CODE (''no MX for '' @ domain_name), [])
        else case try_hosts (\<lambda>h. transmit h recipients) hosts None of
               Some (code, text) \<Rightarrow> (send_failure (code_from code) (domain_name @ '': '' @ text), [])
             | None \<Rightarrow> (let (result, delivered) = send_groups transmit hosts_of groups
                        in (result, recipients @ delivered)))"

definition send_direct :: "outside \<Rightarrow> queued_message \<Rightarrow> string \<Rightarrow> string \<Rightarrow> send_result \<times> string list" where
  "send_direct out m payload helo =
    (let groups = by_domain (m_to_addrs m)
     in if groups = [] then (send_failure 550 ''no deliverable recipients'', [])
        else send_groups (\<lambda>h rs. smtp_mx out h payload (message_sender m) rs helo) (mx_hosts out) groups)"

definition send_via_relay :: "outside \<Rightarrow> queued_message \<Rightarrow> domain \<Rightarrow> string \<Rightarrow> string \<Rightarrow> send_result" where
  "send_via_relay out m d payload helo =
    (let settings = relay_connection d
     in case smtp_relay out settings payload (message_sender m) (m_to_addrs m) helo of
          Some (code, text) \<Rightarrow>
            send_failure (code_from code)
              (''relay '' @ ca_hostname settings @ '':'' @ dec_str (ca_port settings) @ '': '' @ text)
        | None \<Rightarrow> sent_ok)"

definition send_message :: "outside \<Rightarrow> mail_config \<Rightarrow> database \<Rightarrow> queued_message \<Rightarrow> send_result" where
  "send_message out cfg db m =
    (case domain_resolve (uuid_str (m_domain_id m)) db of
       Inl _ \<Rightarrow> send_failure 550 (''unknown sending domain: no domain matching '' @
                   [CHR 0x27] @ uuid_str (m_domain_id m) @ [CHR 0x27])
     | Inr d \<Rightarrow>
       let payload = compose_message out m d;
           helo = helo_name (domain_certs cfg) (server_hostname cfg) d
       in if d_relay_enabled d \<and> truthy (d_relay_host d)
          then send_via_relay out m d payload helo
          else fst (send_direct out m payload helo))"

section \<open>One drain\<close>

definition attempt_one :: "(queued_message \<Rightarrow> send_result) \<Rightarrow> instant \<Rightarrow> queued_message \<Rightarrow> queue_table \<Rightarrow> queue_error + queue_table" where
  "attempt_one send now m t =
    (let result = send m
     in if sr_ok result then Inr (mark_sent (m_id m) now t)
        else bind_res (mark_failed (m_id m) (sr_code result) (sr_detail result) now t) (\<lambda>(_, t'). Inr t'))"

fun attempt_all :: "(queued_message \<Rightarrow> send_result) \<Rightarrow> instant \<Rightarrow> queued_message list \<Rightarrow> queue_table \<Rightarrow> queue_error + queue_table" where
  "attempt_all send now [] t = Inr t"
| "attempt_all send now (m # ms) t = bind_res (attempt_one send now m t) (attempt_all send now ms)"

definition drain_once :: "(queued_message \<Rightarrow> send_result) \<Rightarrow> nat \<Rightarrow> instant \<Rightarrow> instant \<Rightarrow> queue_table \<Rightarrow> queue_error + nat \<times> queue_table" where
  "drain_once send limit now later t =
    (let (claimed, t') = claim limit now t
     in bind_res (attempt_all send later claimed t') (\<lambda>t''. Inr (length claimed, t'')))"

section \<open>What a drain leaves behind\<close>

lemma in_update_row:
  "x \<in> set (update_where p f t) \<Longrightarrow> \<exists>y \<in> set t. x = (if p y then f y else y)"
  by (auto simp: set_update_where)

text \<open>The row of a claimed message after its attempt.\<close>

definition attempted_row :: "(queued_message \<Rightarrow> send_result) \<Rightarrow> instant \<Rightarrow> queue_row \<Rightarrow> queue_row" where
  "attempted_row send now r =
    (let result = send (to_message r)
     in if sr_ok result
        then r\<lparr>q_status := SENT, q_delivered_at := Some now, q_updated_at := now, q_last_error := None\<rparr>
        else failed_row (sr_code result) (sr_detail result) now r)"

lemma attempted_row_id [simp]: "q_id (attempted_row send now r) = q_id r"
  by (simp add: attempted_row_def Let_def)

lemma attempt_one_row:
  assumes "unique_by q_id t" and "r \<in> set t"
  shows "attempt_one send now (to_message r) t = Inr (update_where (\<lambda>x. q_id x = q_id r) (attempted_row send now) t)"
proof -
  have eq: "x = r" if "x \<in> set t" "q_id x = q_id r" for x
    using unique_byD [OF assms(1) that(1) assms(2)] that(2) by simp
  show ?thesis
    using eq by (auto simp: attempt_one_def Let_def mark_sent_def mark_failed_row [OF assms] update_where_def
        attempted_row_def intro!: map_cong)
qed

lemma attempt_all_rows:
  assumes "unique_by q_id t" and "unique_by q_id rs" and "set rs \<subseteq> set t"
  shows "attempt_all send now (map to_message rs) t =
    Inr (update_where (\<lambda>x. x \<in> set rs) (attempted_row send now) t)"
  using assms
proof (induction rs arbitrary: t)
  case Nil
  then show ?case by (simp add: update_where_none)
next
  case (Cons r rs)
  let ?t = "update_where (\<lambda>x. q_id x = q_id r) (attempted_row send now) t"
  have r: "r \<in> set t" using Cons.prems by simp
  have eq: "x = r" if "x \<in> set t" "q_id x = q_id r" for x
    using unique_byD [OF Cons.prems(1) that(1) r] that(2) by simp
  have u: "unique_by q_id ?t" by (rule unique_by_update) (use Cons.prems in simp_all)
  have other: "q_id x \<noteq> q_id r" if "x \<in> set rs" for x using Cons.prems(2) that by (auto simp: image_iff)
  have "set rs \<subseteq> set ?t"
  proof
    fix x assume x: "x \<in> set rs"
    then have "x \<in> set t" "q_id x \<noteq> q_id r" using Cons.prems(3) other by auto
    then show "x \<in> set ?t" by (force simp: set_update_where)
  qed
  from Cons.IH [OF u _ this] Cons.prems(2)
  have "attempt_all send now (map to_message rs) ?t = Inr (update_where (\<lambda>x. x \<in> set rs) (attempted_row send now) ?t)"
    by simp
  also have "update_where (\<lambda>x. x \<in> set rs) (attempted_row send now) ?t
      = update_where (\<lambda>x. x \<in> set (r # rs)) (attempted_row send now) t"
    unfolding update_where_def map_map
  proof (rule map_cong [OF refl])
    fix x assume x: "x \<in> set t"
    have "attempted_row send now x \<notin> set rs" if "q_id x = q_id r"
      using other [of "attempted_row send now x"] that by auto
    then show "((\<lambda>r. if r \<in> set rs then attempted_row send now r else r) \<circ>
          (\<lambda>x. if q_id x = q_id r then attempted_row send now x else x)) x =
        (if x \<in> set (r # rs) then attempted_row send now x else x)"
      using eq [OF x] other [of x] by auto
  qed
  finally show ?case by (simp add: attempt_one_row [OF Cons.prems(1) r])
qed

text \<open>The rows a drain has claimed, marked and attempted.\<close>

definition drained_row :: "(queued_message \<Rightarrow> send_result) \<Rightarrow> instant \<Rightarrow> instant \<Rightarrow> queue_row \<Rightarrow> queue_row" where
  "drained_row send now later r = attempted_row send later (mark_sending now r)"

lemma drain_once_spec:
  assumes u: "unique_by q_id t"
  shows "drain_once send limit now later t =
    Inr (length (due_rows limit now t),
         update_where (\<lambda>r. r \<in> set (due_rows limit now t)) (drained_row send now later) t)"
proof -
  let ?rs = "due_rows limit now t" and ?ms = "map (mark_sending now) (due_rows limit now t)"
  let ?t = "update_where (\<lambda>r. r \<in> set ?rs) (mark_sending now) t"
  have u': "unique_by q_id ?t" by (rule unique_by_update) (use u in simp_all)
  have "unique_by q_id ?ms" using distinct_due_rows [OF u, of limit now] by (simp add: comp_def)
  moreover have "set ?ms \<subseteq> set ?t" using set_due_rows [of _ limit now t] by (auto simp: set_update_where)
  ultimately have run: "attempt_all send later (map to_message ?ms) ?t =
      Inr (update_where (\<lambda>r. r \<in> set ?ms) (attempted_row send later) ?t)"
    using attempt_all_rows [OF u'] by blast
  have "update_where (\<lambda>r. r \<in> set ?ms) (attempted_row send later) ?t
      = update_where (\<lambda>r. r \<in> set ?rs) (drained_row send now later) t"
    unfolding update_where_def map_map
  proof (rule map_cong [OF refl])
    fix x assume x: "x \<in> set t"
    have "x \<notin> set ?ms" if other: "x \<notin> set ?rs"
    proof
      assume "x \<in> set ?ms"
      then obtain r where r: "r \<in> set ?rs" "x = mark_sending now r" by auto
      then have "q_id x = q_id r" "r \<in> set t" using set_due_rows by auto
      with unique_byD [OF u x] have "x = r" by blast
      with r other show False by simp
    qed
    then show "((\<lambda>r. if r \<in> set ?ms then attempted_row send later r else r) \<circ>
          (\<lambda>r. if r \<in> set ?rs then mark_sending now r else r)) x =
        (if x \<in> set ?rs then drained_row send now later x else x)"
      by (auto simp: drained_row_def)
  qed
  with run show ?thesis
    by (simp add: drain_once_def split_beta claim_takes_due_rows_messages [OF u] claim_takes_due_rows_table [OF u]
        flip: map_map)
qed

lemma drained_row_facts:
  "q_id (drained_row send now later r) = q_id r"
  "q_status (drained_row send now later r) =
    (let result = send (to_message (mark_sending now r))
     in if sr_ok result then SENT else failure_outcome (sr_code result) (q_attempts r + 1) (m_max_attempts (to_message r)))"
  by (simp_all add: drained_row_def attempted_row_def Let_def to_message_def failed_row_def)

text \<open>What one attempt makes of a claimed row.\<close>

definition settled :: "send_result \<Rightarrow> instant \<Rightarrow> queue_row \<Rightarrow> queue_row \<Rightarrow> bool" where
  "settled result later r r' \<longleftrightarrow> q_id r' = q_id r \<and>
    (if sr_ok result then q_status r' = SENT \<and> q_attempts r' = q_attempts r
     else q_attempts r' = q_attempts r + 1 \<and> later < q_next_retry r' \<and>
       q_status r' = (if temporary (sr_code result) \<and> q_attempts r + 1 < m_max_attempts (to_message r) then DEFERRED else FAILED))"

lemma drained_row_settled: "settled (send (to_message (mark_sending now r))) later r (drained_row send now later r)"
  using mail_backoff.next_at_later [of later "q_attempts r + 1"]
  by (auto simp: settled_def drained_row_def attempted_row_def Let_def to_message_def failed_row_def failure_outcome_cases temporary_def)

text \<open>
  C13. A drain over a table with unique ids where no claim is open attempts every due message up
  to the limit and settles it: \<open>SENT\<close> when the attempt succeeded; else with one more attempt counted and the
  next one later than this one, \<open>DEFERRED\<close> when the failure is temporary and an attempt is left, and \<open>FAILED\<close>
  otherwise. It leaves no row \<open>SENDING\<close>, and the rows it did not claim as they were.
\<close>

theorem drain_settles_due_messages:
  assumes u: "unique_by q_id t" and idle: "\<forall>r \<in> set t. q_status r \<noteq> SENDING"
  shows "\<exists>t'. drain_once send limit now later t = Inr (length (due_rows limit now t), t') \<and>
    map q_id t' = map q_id t \<and> (\<forall>r' \<in> set t'. q_status r' \<noteq> SENDING) \<and>
    (\<forall>r \<in> set t. if r \<in> set (due_rows limit now t)
       then \<exists>r' \<in> set t'. settled (send (to_message (mark_sending now r))) later r r'
       else r \<in> set t')"
proof -
  let ?due = "set (due_rows limit now t)" and ?f = "drained_row send now later"
  let ?t = "update_where (\<lambda>r. r \<in> ?due) ?f t"
  note fin = drained_row_settled [of send now _ later]
  have ids: "map q_id ?t = map q_id t" by (auto simp: update_where_def drained_row_facts)
  have "q_status (?f r) \<noteq> SENDING" for r using fin [of r] by (auto simp: settled_def split: if_splits)
  then have none: "\<forall>r' \<in> set ?t. q_status r' \<noteq> SENDING" using idle by (auto simp: set_update_where)
  have each: "if r \<in> ?due then \<exists>r' \<in> set ?t. settled (send (to_message (mark_sending now r))) later r r' else r \<in> set ?t"
    if r: "r \<in> set t" for r
  proof (cases "r \<in> ?due")
    case True
    then have "?f r \<in> set ?t" using r by (auto simp: set_update_where)
    then show ?thesis using True fin [of r] by auto
  next
    case False
    then show ?thesis using r by (auto simp: set_update_where intro!: rev_image_eqI [of r])
  qed
  show ?thesis
    by (intro exI [of _ ?t] conjI ballI drain_once_spec [OF u] ids none each) (use none in blast)+
qed

lemma drain_settles_due_messages_witness:
  "\<exists>t'. drain_once (\<lambda>m. send_failure 450 ''busy'') 10 5 6 [sample_row 7 PENDING 0, sample_row 8 SENT 0] = Inr (1, t') \<and>
     map q_id t' = [7, 8] \<and> (\<exists>r' \<in> set t'. q_id r' = 7 \<and> q_status r' = DEFERRED)"
proof -
  let ?t = "[sample_row 7 PENDING 0, sample_row 8 SENT 0]"
  have "unique_by q_id ?t" "\<forall>r \<in> set ?t. q_status r \<noteq> SENDING" by (simp_all add: sample_row_def)
  from drain_settles_due_messages [OF this, of "\<lambda>m. send_failure 450 ''busy''" 10 5 6]
  show ?thesis
    by (auto simp: due_rows_def claimable_def sample_row_def settled_def send_failure_def temporary_def to_message_def)
qed

lemma try_hosts_None:
  "hosts \<noteq> [] \<Longrightarrow> try_hosts transmit hosts e = None \<Longrightarrow> \<exists>h \<in> set hosts. transmit h = None"
proof (induction hosts arbitrary: e)
  case (Cons h hs)
  then show ?case by (cases "hs = []") (auto split: option.splits)
qed simp

lemma group_append_simps:
  "group_append k v [] = [(k, [v])]"
  "group_append k v ((k', vs) # d) = (if k' = k then (k, vs @ [v]) # d else (k', vs) # group_append k v d)"
  by (auto simp: group_append_def)

lemma group_append_all: "mset (concat (map snd (group_append k v d))) = add_mset v (mset (concat (map snd d)))"
  by (induction d) (auto simp: group_append_simps)

lemma group_append_key:
  "(k', vs') \<in> set (group_append k v d) \<Longrightarrow> x \<in> set vs' \<Longrightarrow> x = v \<and> k' = k \<or> (\<exists>vs. (k', vs) \<in> set d \<and> x \<in> set vs)"
proof (induction d)
  case Nil
  then show ?case by (simp add: group_append_simps)
next
  case (Cons e d)
  obtain j ws where e: "e = (j, ws)" by (cases e)
  show ?case
  proof (cases "j = k")
    case True
    with Cons.prems e have "(k', vs') = (k, ws @ [v]) \<or> (k', vs') \<in> set d" by (simp add: group_append_simps)
    then show ?thesis using Cons.prems(2) e True by auto
  next
    case False
    with Cons.prems e have "(k', vs') = (j, ws) \<or> (k', vs') \<in> set (group_append k v d)" by (simp add: group_append_simps)
    then show ?thesis using Cons.IH Cons.prems(2) e by auto
  qed
qed

definition domain_of :: "string \<Rightarrow> string" where
  "domain_of r = lower (snd (split_first CHR ''@'' r))"

abbreviation addressable :: "string list \<Rightarrow> string list" where
  "addressable \<equiv> filter (\<lambda>r. CHR ''@'' \<in> set r)"

lemma by_domain_snoc:
  "by_domain (rs @ [r]) = (if CHR ''@'' \<in> set r then group_append (domain_of r) r (by_domain rs) else by_domain rs)"
  by (simp add: by_domain_def domain_of_def)

lemma by_domain_all: "mset (concat (map snd (by_domain rs))) = mset (addressable rs)"
proof (induction rs rule: rev_induct)
  case Nil
  then show ?case by (simp add: by_domain_def)
next
  case (snoc r rs)
  then show ?case by (simp add: by_domain_snoc group_append_all)
qed

lemma by_domain_key: "(k, rs') \<in> set (by_domain rs) \<Longrightarrow> r \<in> set rs' \<Longrightarrow> domain_of r = k"
proof (induction rs arbitrary: k rs' rule: rev_induct)
  case Nil
  then show ?case by (simp add: by_domain_def)
next
  case (snoc x rs)
  then show ?case by (auto simp: by_domain_snoc split: if_splits dest!: group_append_key)
qed

lemma send_groups_ok:
  assumes "send_groups transmit hosts_of groups = (result, delivered)" and "sr_ok result"
  shows "delivered = concat (map snd groups) \<and>
    (\<forall>(k, rs) \<in> set groups. \<exists>h \<in> set (hosts_of k). transmit h rs = None)"
  using assms
proof (induction groups arbitrary: delivered)
  case Nil
  then show ?case by simp
next
  case (Cons g groups)
  obtain k rs where g: "g = (k, rs)" by (cases g)
  obtain res del where rest: "send_groups transmit hosts_of groups = (res, del)" by (cases "send_groups transmit hosts_of groups")
  from Cons.prems g rest have hosts: "hosts_of k \<noteq> []"
    and tried: "try_hosts (\<lambda>h. transmit h rs) (hosts_of k) None = None"
    and res: "res = result" "delivered = rs @ del"
    by (auto simp: send_failure_def Let_def split: if_splits option.splits prod.splits)
  show ?case using Cons.IH [OF _ Cons.prems(2), of del] rest res g try_hosts_None [OF hosts tried] by auto
qed

lemma message_of_row:
  "m_to_addrs (to_message r) = q_to_addrs r"
  "message_sender (to_message r) = (case q_envelope_from r of None \<Rightarrow> q_from_addr r | Some s \<Rightarrow> if s = [] then q_from_addr r else s)"
  "q_to_addrs (failed_row code err now r) = q_to_addrs r"
  "q_from_addr (failed_row code err now r) = q_from_addr r"
  "q_envelope_from (failed_row code err now r) = q_envelope_from r"
  by (simp_all add: to_message_def message_sender_def failed_row_def Let_def split: option.split)

text \<open>
  A message sent directly with success was taken, for every recipient that has an \<open>@\<close> and
  as often as it is listed, by an MX host of that recipient's own domain; nobody else was served.
\<close>

theorem direct_success_reaches_everyone:
  assumes "send_direct out m payload helo = (result, delivered)" and "sr_ok result"
  shows "mset delivered = mset (addressable (m_to_addrs m)) \<and>
    (\<forall>r \<in> set delivered. \<exists>h \<in> set (mx_hosts out (domain_of r)). \<exists>rs. r \<in> set rs \<and>
       smtp_mx out h payload (message_sender m) rs helo = None)"
proof -
  let ?g = "by_domain (m_to_addrs m)"
  have "send_groups (\<lambda>h rs. smtp_mx out h payload (message_sender m) rs helo) (mx_hosts out) ?g = (result, delivered)"
    using assms by (auto simp: send_direct_def Let_def send_failure_def split: if_splits)
  note sent = send_groups_ok [OF this assms(2)]
  then have "mset delivered = mset (addressable (m_to_addrs m))" by (simp only: by_domain_all)
  moreover have "\<exists>h \<in> set (mx_hosts out (domain_of r)). \<exists>rs. r \<in> set rs \<and>
      smtp_mx out h payload (message_sender m) rs helo = None" if r: "r \<in> set delivered" for r
  proof -
    from sent r obtain k rs where k: "(k, rs) \<in> set ?g" "r \<in> set rs" by auto
    with sent obtain h where "h \<in> set (mx_hosts out k)" "smtp_mx out h payload (message_sender m) rs helo = None" by blast
    with k by_domain_key [OF k] show ?thesis by blast
  qed
  ultimately show ?thesis by blast
qed

text \<open>An outside world for the witnesses: the hosts listed as up take everything.\<close>

definition sample_outside :: "(string \<times> string) list \<Rightarrow> string list \<Rightarrow> outside" where
  "sample_outside mx up =
    \<lparr>smtp_relay = (\<lambda>args payload sender rs helo. None),
     smtp_mx = (\<lambda>host payload sender rs helo. if host \<in> set up then None else Some (Some 450, ''try later'')),
     mx_answers = (\<lambda>d. map_option (\<lambda>h. [(10, h)]) (map_of mx d)),
     sign_or_warn = (\<lambda>raw d s k. raw), message_bytes = (\<lambda>f t s b. b)\<rparr>"

definition sample_message :: "string list \<Rightarrow> queued_message" where
  "sample_message rs = to_message (sample_row 7 PENDING 0\<lparr>q_to_addrs := rs, q_domain_id := 2\<rparr>)"

lemma direct_success_reaches_everyone_witness:
  "\<exists>delivered. send_direct (sample_outside [(''x'', ''mx.x.'')] [''mx.x'']) (sample_message [''a@X'', ''nobody'', ''b@x'']) [] [] = (sent_ok, delivered)
     \<and> mset delivered = {#''a@X'', ''b@x''#}"
proof -
  have run: "send_direct (sample_outside [(''x'', ''mx.x.'')] [''mx.x'']) (sample_message [''a@X'', ''nobody'', ''b@x'']) [] []
      = (sent_ok, [''a@X'', ''b@x''])"
    by code_simp
  have "m_to_addrs (sample_message [''a@X'', ''nobody'', ''b@x'']) = [''a@X'', ''nobody'', ''b@x'']"
    by (simp add: sample_message_def to_message_def)
  with direct_success_reaches_everyone [OF run] run show ?thesis by (simp add: sent_ok_def)
qed

lemma failure_outcome_451: "a < n \<Longrightarrow> failure_outcome TRANSIENT_CODE a n = DEFERRED"
  by (simp add: failure_outcome_def classify_failure_def TRANSIENT_CODE_def)

text \<open>
  When the first recipient domain has taken a message and the next has no MX host to offer,
  the whole attempt counts as a transient failure: with an attempt left the row becomes
  \<open>DEFERRED\<close> with its recipients unchanged, and once its retry is due the next attempt hands the
  message to the first domain again, whatever happens to the others.
\<close>

theorem partial_delivery_is_repeated:
  assumes u: "unique_by q_id t" and r: "r \<in> set t"
    and groups: "by_domain (q_to_addrs r) = (k1, rs1) # (k2, rs2) # rest"
    and first: "mx_hosts out k1 \<noteq> []"
      "try_hosts (\<lambda>h. smtp_mx out h payload (message_sender (to_message r)) rs1 helo) (mx_hosts out k1) None = None"
    and second: "mx_hosts out k2 = []"
    and left: "q_attempts r + 1 < m_max_attempts (to_message r)"
  shows "snd (send_direct out (to_message r) payload helo) = rs1 \<and>
    (\<exists>t' r'. attempt_one (\<lambda>m. fst (send_direct out m payload helo)) now (to_message r) t = Inr t' \<and>
       r' \<in> set t' \<and> q_id r' = q_id r \<and> q_status r' = DEFERRED \<and>
       set rs1 \<subseteq> set (snd (send_direct out (to_message r') payload helo)))"
proof -
  let ?send = "\<lambda>m. fst (send_direct out m payload helo)"
  let ?r = "attempted_row ?send now r"
  have same: "m_to_addrs (to_message x) = q_to_addrs r \<Longrightarrow> message_sender (to_message x) = message_sender (to_message r) \<Longrightarrow>
      send_direct out (to_message x) payload helo = (send_failure TRANSIENT_CODE (''no MX for '' @ k2), rs1)" for x
    using first second groups by (simp add: send_direct_def)
  have now: "send_direct out (to_message r) payload helo = (send_failure TRANSIENT_CODE (''no MX for '' @ k2), rs1)"
    by (rule same) (simp_all only: message_of_row)
  have row: "?r = failed_row TRANSIENT_CODE (''no MX for '' @ k2) now r"
    by (simp add: attempted_row_def now send_failure_def)
  have "send_direct out (to_message ?r) payload helo = (send_failure TRANSIENT_CODE (''no MX for '' @ k2), rs1)"
    by (rule same) (simp_all only: row message_of_row)
  moreover have "q_status ?r = DEFERRED" using failure_outcome_451 [OF left] by (simp add: row)
  moreover have "?r \<in> set (update_where (\<lambda>x. q_id x = q_id r) (attempted_row ?send now) t)"
    using r by (auto simp: set_update_where)
  ultimately show ?thesis
    using attempt_one_row [OF u r, of ?send now] now
    by (intro conjI exI [of _ ?r] exI [of _ "update_where (\<lambda>x. q_id x = q_id r) (attempted_row ?send now) t"]) simp_all
qed

lemma partial_delivery_is_repeated_witness:
  "\<exists>t' r'. attempt_one (\<lambda>m. fst (send_direct (sample_outside [(''x'', ''mx.x.'')] [''mx.x'']) m [] [])) 5
       (sample_message [''a@x'', ''b@y'']) [sample_row 7 PENDING 0\<lparr>q_to_addrs := [''a@x'', ''b@y''], q_domain_id := 2\<rparr>] = Inr t' \<and>
     r' \<in> set t' \<and> q_status r' = DEFERRED \<and>
     ''a@x'' \<in> set (snd (send_direct (sample_outside [(''x'', ''mx.x.'')] [''mx.x'']) (to_message r') [] []))"
proof -
  let ?out = "sample_outside [(''x'', ''mx.x.'')] [''mx.x'']"
  let ?r = "sample_row 7 PENDING 0\<lparr>q_to_addrs := [''a@x'', ''b@y''], q_domain_id := 2\<rparr>"
  have groups: "by_domain (q_to_addrs ?r) = [(''x'', [''a@x'']), (''y'', [''b@y''])]"
    and hosts: "mx_hosts ?out ''x'' = [''mx.x'']" "mx_hosts ?out ''y'' = []"
    by code_simp+
  have taken: "try_hosts (\<lambda>h. smtp_mx ?out h [] (message_sender (to_message ?r)) [''a@x''] []) (mx_hosts ?out ''x'') None = None"
    unfolding hosts by (simp add: sample_outside_def)
  have u: "unique_by q_id [?r]" "?r \<in> set [?r]" by simp_all
  have some: "mx_hosts ?out ''x'' \<noteq> []" unfolding hosts by simp
  have left: "q_attempts ?r + 1 < m_max_attempts (to_message ?r)" by (simp add: sample_row_def to_message_def)
  have "sample_message [''a@x'', ''b@y''] = to_message ?r" by (simp only: sample_message_def)
  with partial_delivery_is_repeated [OF u groups some taken hosts(2) left, of 5]
  show ?thesis by (metis insert_subset list.set(2))
qed

end
