(* ===== verification/Apikeys.thy ===== *)
theory Apikeys
  imports Repo Ip
begin

text \<open>
  \<open>src/src/lightr/apikeys.py\<close>: API keys and their table. The random part of a new secret and the
  clock are arguments; SHA-256 is the parameter \<open>sha\<close>, of which the properties assume only that
  it tells the secrets they name apart. The table has unique ids and unique hashes.
\<close>

section \<open>Keys\<close>

datatype key_type = ADMIN_KEY | ORG_KEY | DOMAIN_KEY | ACCOUNT_KEY

datatype permission = READ | WRITE | SEND | MAILBOX | ADMIN

fun DEFAULT_PERMISSIONS :: "key_type \<Rightarrow> permission list" where
  "DEFAULT_PERMISSIONS ADMIN_KEY = [ADMIN, READ, WRITE, SEND, MAILBOX]"
| "DEFAULT_PERMISSIONS ORG_KEY = [READ, WRITE, SEND]"
| "DEFAULT_PERMISSIONS DOMAIN_KEY = [READ, WRITE, SEND]"
| "DEFAULT_PERMISSIONS ACCOUNT_KEY = [READ, MAILBOX, SEND]"

definition KEY_PREFIX :: string where "KEY_PREFIX = ''lk''"

definition PREFIX_LENGTH :: nat where "PREFIX_LENGTH = 12"

record api_key =
  k_id :: uuid
  k_name :: string
  k_description :: "string option"
  k_prefix :: string
  k_key_hash :: string
  k_organization_id :: "uuid option"
  k_domain_id :: "uuid option"
  k_account_id :: "uuid option"
  k_type :: key_type
  k_permissions :: "permission list"
  k_allowed_ips :: "string list"
  k_rate_limit :: int
  k_daily_limit :: int
  k_active :: bool
  k_expires_at :: "instant option"
  k_last_used_at :: "instant option"
  k_last_used_ip :: "string option"
  k_usage_count :: int
  k_usage_today :: int
  k_created_at :: instant
  k_updated_at :: instant

datatype key_error =
    NeedsOrganization
  | NeedsDomain
  | NeedsAccount
  | BothExpiries
  | NotPositiveDays
  | KeyConflict              \<comment> \<open>id or hash already in the table\<close>

definition key_expired :: "instant \<Rightarrow> api_key \<Rightarrow> bool" where
  "key_expired now k = (case k_expires_at k of None \<Rightarrow> False | Some t \<Rightarrow> t < now)"

definition key_usable :: "instant \<Rightarrow> api_key \<Rightarrow> bool" where
  "key_usable now k \<longleftrightarrow> k_active k \<and> \<not> key_expired now k"

definition allows :: "api_key \<Rightarrow> permission \<Rightarrow> bool" where
  "allows k p \<longleftrightarrow> ADMIN \<in> set (k_permissions k) \<or> p \<in> set (k_permissions k)"

definition entry_matches :: "ip \<Rightarrow> string \<Rightarrow> bool" where
  "entry_matches address entry =
    (if CHR ''/'' \<in> set entry
     then (case ip_network entry of None \<Rightarrow> False | Some n \<Rightarrow> in_network address n)
     else ip_address entry = Some address)"

definition allows_ip :: "api_key \<Rightarrow> string option \<Rightarrow> bool" where
  "allows_ip k ip =
    (if k_allowed_ips k = [] then True
     else case ip of
            None \<Rightarrow> False
          | Some s \<Rightarrow> (case ip_address s of
                         None \<Rightarrow> False
                       | Some address \<Rightarrow> \<exists>entry \<in> set (k_allowed_ips k). entry_matches address entry))"

definition scope_description :: "api_key \<Rightarrow> string" where
  "scope_description k =
    (if k_type k = ADMIN_KEY then ''all organizations''
     else case k_account_id k of
            Some i \<Rightarrow> ''account '' @ uuid_str i
          | None \<Rightarrow> (case k_domain_id k of
                       Some i \<Rightarrow> ''domain '' @ uuid_str i
                     | None \<Rightarrow> (case k_organization_id k of
                                  Some i \<Rightarrow> ''organization '' @ uuid_str i | None \<Rightarrow> ''unscoped'')))"

text \<open>From the random body of a secret: the secret, its visible prefix and its hash.\<close>

definition generate_secret :: "(string \<Rightarrow> string) \<Rightarrow> string \<Rightarrow> string \<times> string \<times> string" where
  "generate_secret sha body =
    (let secret = KEY_PREFIX @ ''_'' @ body in (secret, take PREFIX_LENGTH secret, sha secret))"

section \<open>The repository\<close>

type_synonym key_table = "api_key list"

definition check_scope :: "key_type \<Rightarrow> uuid option \<Rightarrow> uuid option \<Rightarrow> uuid option \<Rightarrow> key_error option" where
  "check_scope ty org did acc =
    (if ty = ORG_KEY \<and> org = None then Some NeedsOrganization
     else if ty = DOMAIN_KEY \<and> did = None then Some NeedsDomain
     else if ty = ACCOUNT_KEY \<and> acc = None then Some NeedsAccount else None)"

definition expiry :: "instant \<Rightarrow> int option \<Rightarrow> instant option \<Rightarrow> key_error + instant option" where
  "expiry now in_days at =
    (case in_days of
       None \<Rightarrow> Inr at
     | Some d \<Rightarrow> if at \<noteq> None then Inl BothExpiries
                 else if d \<le> 0 then Inl NotPositiveDays else Inr (Some (now + days d)))"

definition key_create ::
  "(string \<Rightarrow> string) \<Rightarrow> string \<Rightarrow> uuid \<Rightarrow> instant \<Rightarrow> string \<Rightarrow> key_type \<Rightarrow> uuid option \<Rightarrow> uuid option \<Rightarrow>
   uuid option \<Rightarrow> permission list option \<Rightarrow> string list \<Rightarrow> int option \<Rightarrow> string option \<Rightarrow> instant option \<Rightarrow>
   key_table \<Rightarrow> key_error + api_key \<times> string \<times> key_table" where
  "key_create sha body fresh now name ty org did acc perms ips in_days descr at t =
    (case check_scope ty org did acc of
       Some e \<Rightarrow> Inl e
     | None \<Rightarrow>
       let (secret, pfx, digest) = generate_secret sha body
       in bind_res (expiry now in_days at) (\<lambda>exp.
         let k = \<lparr>k_id = fresh, k_name = name, k_description = descr, k_prefix = pfx, k_key_hash = digest,
               k_organization_id = org, k_domain_id = did, k_account_id = acc, k_type = ty,
               k_permissions = (case perms of None \<Rightarrow> DEFAULT_PERMISSIONS ty
                 | Some ps \<Rightarrow> if ps = [] then DEFAULT_PERMISSIONS ty else ps),
               k_allowed_ips = ips, k_rate_limit = 1000, k_daily_limit = 100000, k_active = True,
               k_expires_at = exp, k_last_used_at = None, k_last_used_ip = None, k_usage_count = 0,
               k_usage_today = 0, k_created_at = now, k_updated_at = now\<rparr>
         in if fresh \<in> k_id ` set t \<or> digest \<in> k_key_hash ` set t then Inl KeyConflict
            else Inr (k, secret, t @ [k])))"

definition verify :: "(string \<Rightarrow> string) \<Rightarrow> string \<Rightarrow> string option \<Rightarrow> instant \<Rightarrow> key_table \<Rightarrow> api_key option" where
  "verify sha secret ip now t =
    (if secret = [] \<or> \<not> starts_with (KEY_PREFIX @ ''_'') secret then None
     else case first_row (filter (\<lambda>k. k_key_hash k = sha secret) t) of
            None \<Rightarrow> None
          | Some k \<Rightarrow> if \<not> key_usable now k \<or> \<not> allows_ip k ip then None else Some k)"

definition key_list :: "uuid option \<Rightarrow> nat \<Rightarrow> key_table \<Rightarrow> api_key list" where
  "key_list org limit t =
    take limit (sort_key (\<lambda>k. - k_created_at k)
      (filter (\<lambda>k. org = None \<or> k_organization_id k = org) t))"

definition key_resolve :: "string \<Rightarrow> key_table \<Rightarrow> repo_error + api_key" where
  "key_resolve ref t =
    (case as_uuid ref of
       Some i \<Rightarrow> (case first_row (filter (\<lambda>k. k_id k = i) t) of
                  None \<Rightarrow> Inl (NotFoundError ''api key'' ref) | Some k \<Rightarrow> Inr k)
     | None \<Rightarrow> (case filter (\<lambda>k. k_name k = ref \<or> k_prefix k = ref) t of
                  [] \<Rightarrow> Inl (NotFoundError ''api key'' ref)
                | [k] \<Rightarrow> Inr k
                | ks \<Rightarrow> Inl (AmbiguousReferenceError ''api key'' ref (map k_prefix ks))))"

definition revoke :: "uuid \<Rightarrow> instant \<Rightarrow> key_table \<Rightarrow> key_table" where
  "revoke i now t = update_where (\<lambda>k. k_id k = i) (\<lambda>k. k\<lparr>k_active := False, k_updated_at := now\<rparr>) t"

text \<open>\<open>rotate\<close> gives the new secret; a hash that another key has breaks the constraint.\<close>

definition rotate :: "(string \<Rightarrow> string) \<Rightarrow> string \<Rightarrow> uuid \<Rightarrow> instant \<Rightarrow> key_table \<Rightarrow> key_error + string \<times> key_table" where
  "rotate sha body i now t =
    (let (secret, pfx, digest) = generate_secret sha body
     in if (\<exists>k \<in> set t. k_id k = i) \<and> (\<exists>k \<in> set t. k_id k \<noteq> i \<and> k_key_hash k = digest) then Inl KeyConflict
        else Inr (secret, update_where (\<lambda>k. k_id k = i)
               (\<lambda>k. k\<lparr>k_prefix := pfx, k_key_hash := digest, k_updated_at := now\<rparr>) t))"

definition key_delete :: "uuid \<Rightarrow> key_table \<Rightarrow> key_table" where
  "key_delete i t = delete_where (\<lambda>k. k_id k = i) t"

definition record_use :: "uuid \<Rightarrow> string option \<Rightarrow> instant \<Rightarrow> key_table \<Rightarrow> key_table" where
  "record_use i ip now t = update_where (\<lambda>k. k_id k = i)
    (\<lambda>k. k\<lparr>k_last_used_at := Some now, k_last_used_ip := ip,
           k_usage_count := k_usage_count k + 1, k_usage_today := k_usage_today k + 1\<rparr>) t"

section \<open>What a secret opens\<close>

definition keys_ok :: "key_table \<Rightarrow> bool" where
  "keys_ok t \<longleftrightarrow> unique_by k_id t \<and> unique_by k_key_hash t"

lemma verify_iff_row:
  assumes "keys_ok t"
  shows "verify sha secret ip now t = Some k \<longleftrightarrow>
    starts_with (KEY_PREFIX @ ''_'') secret \<and> k \<in> set t \<and> k_key_hash k = sha secret \<and>
    k_active k \<and> \<not> key_expired now k \<and> allows_ip k ip"
proof
  assume "verify sha secret ip now t = Some k"
  then show "starts_with (KEY_PREFIX @ ''_'') secret \<and> k \<in> set t \<and> k_key_hash k = sha secret \<and>
    k_active k \<and> \<not> key_expired now k \<and> allows_ip k ip"
    by (auto simp: verify_def key_usable_def split: if_splits option.splits dest!: first_row_filterD)
next
  assume r: "starts_with (KEY_PREFIX @ ''_'') secret \<and> k \<in> set t \<and> k_key_hash k = sha secret \<and>
    k_active k \<and> \<not> key_expired now k \<and> allows_ip k ip"
  then have "first_row (filter (\<lambda>k. k_key_hash k = sha secret) t) = Some k"
    using first_row_by_key [of k_key_hash t k] assms by (simp add: keys_ok_def)
  moreover have "secret \<noteq> []" using r by (auto simp: starts_with_def KEY_PREFIX_def)
  ultimately show "verify sha secret ip now t = Some k" using r by (simp add: verify_def key_usable_def)
qed

text \<open>
  A revoked key opens nothing, from any address and at any time, and revoking it changes
  nothing for any other key.
\<close>

theorem revoked_key_is_dead:
  assumes "keys_ok t"
  shows "verify sha secret ip later (revoke i now t) = Some k \<longleftrightarrow>
    k_id k \<noteq> i \<and> verify sha secret ip later t = Some k"
proof -
  let ?f = "\<lambda>k. k\<lparr>k_active := False, k_updated_at := now\<rparr>"
  have ok: "keys_ok (revoke i now t)"
    using assms unfolding keys_ok_def revoke_def by (auto intro!: unique_by_update)
  have mem: "k \<in> set (revoke i now t) \<and> k_active k \<longleftrightarrow> k \<in> set t \<and> k_id k \<noteq> i \<and> k_active k"
    unfolding revoke_def set_update_where by (auto simp: image_iff)
  show ?thesis unfolding verify_iff_row [OF ok] verify_iff_row [OF assms] using mem by blast
qed

lemma update_key_row:
  assumes "unique_by k_id t" and "k \<in> set t" and "\<And>x. k_id (f x) = k_id x"
  shows "x \<in> set (update_where (\<lambda>x. k_id x = k_id k) f t) \<longleftrightarrow> x = f k \<or> x \<in> set t \<and> k_id x \<noteq> k_id k"
proof -
  have "y = k" if "y \<in> set t" "k_id y = k_id k" for y using unique_byD [OF assms(1) that(1) assms(2)] that(2) by simp
  then show ?thesis using assms(2,3) by (auto simp: set_update_where image_iff)
qed

text \<open>
  Rotating a key replaces its secret and nothing else: the new secret opens the same key,
  with the scope, permissions, address list and expiry it had, exactly when the old one did
  before; a secret with the old hash opens nothing any more.
\<close>

theorem rotation_replaces_secret:
  assumes "keys_ok t" and "k \<in> set t" and "rotate sha body (k_id k) now t = Inr (secret, t')"
    and "sha old = k_key_hash k" and "starts_with (KEY_PREFIX @ ''_'') old" and "sha secret \<noteq> sha old"
  shows "verify sha secret ip later t' =
      map_option (\<lambda>k. k\<lparr>k_prefix := take PREFIX_LENGTH secret, k_key_hash := sha secret, k_updated_at := now\<rparr>)
        (verify sha old ip later t) \<and>
    verify sha old ip later t' = None \<and> keys_ok t'"
proof -
  let ?f = "\<lambda>k. k\<lparr>k_prefix := take PREFIX_LENGTH secret, k_key_hash := sha secret, k_updated_at := now\<rparr>"
  have r: "secret = KEY_PREFIX @ ''_'' @ body" "t' = update_where (\<lambda>x. k_id x = k_id k) ?f t"
    "\<forall>x \<in> set t. k_id x \<noteq> k_id k \<longrightarrow> k_key_hash x \<noteq> sha secret"
    using assms(2,3) by (auto simp: rotate_def generate_secret_def Let_def split: if_splits)
  have u: "unique_by k_id t" "unique_by k_key_hash t" using assms(1) by (simp_all add: keys_ok_def)
  have "unique_by k_id t'" unfolding r(2) by (rule unique_by_update [OF u(1)]) simp
  moreover have "unique_by k_key_hash t'" unfolding r(2)
    by (rule update_row_key [OF u(2,1), where y = "sha secret"]) (use r(3) in auto)
  ultimately have ok: "keys_ok t'" by (simp add: keys_ok_def)
  have mem: "x \<in> set t' \<longleftrightarrow> x = ?f k \<or> x \<in> set t \<and> k_id x \<noteq> k_id k" for x
    unfolding r(2) by (rule update_key_row [OF u(1) assms(2)]) simp
  have other: "k_key_hash x \<noteq> sha old" if "x \<in> set t" "k_id x \<noteq> k_id k" for x
    using unique_byD [OF u(2) that(1) assms(2)] that(2) assms(4) by auto
  have pre: "starts_with (KEY_PREFIX @ ''_'') secret" unfolding r(1) by (metis append.assoc starts_with_append)
  have new: "verify sha secret ip later t' = Some x \<longleftrightarrow> x = ?f k \<and> k_active k \<and> \<not> key_expired later k \<and> allows_ip k ip" for x
  proof -
    have "allows_ip (?f k) ip = allows_ip k ip" "key_expired later (?f k) = key_expired later k"
      by (simp_all add: allows_ip_def key_expired_def split: option.splits)
    then show ?thesis unfolding verify_iff_row [OF ok] using pre mem [of x] r(3) by auto
  qed
  have was: "verify sha old ip later t = Some x \<longleftrightarrow> x = k \<and> k_active k \<and> \<not> key_expired later k \<and> allows_ip k ip" for x
    unfolding verify_iff_row [OF assms(1)] using assms(2,4,5) unique_byD [OF u(2) _ assms(2)] by auto
  have gone: "verify sha old ip later t' \<noteq> Some x" for x
    unfolding verify_iff_row [OF ok] using mem [of x] other [of x] assms(6) by auto
  have "verify sha secret ip later t' = map_option ?f (verify sha old ip later t)"
  proof (cases "k_active k \<and> \<not> key_expired later k \<and> allows_ip k ip")
    case True
    then show ?thesis using new [of "?f k"] was [of k] by simp
  next
    case False
    then have "verify sha secret ip later t' = None" "verify sha old ip later t = None"
      using new was by (metis not_Some_eq)+
    then show ?thesis by simp
  qed
  then show ?thesis using gone ok by (metis not_Some_eq)
qed

definition sample_key :: "uuid \<Rightarrow> key_type \<Rightarrow> string \<Rightarrow> api_key" where
  "sample_key i ty h = \<lparr>k_id = i, k_name = ''key'', k_description = None, k_prefix = ''lk_abc'', k_key_hash = h,
     k_organization_id = None, k_domain_id = Some 2, k_account_id = None, k_type = ty,
     k_permissions = DEFAULT_PERMISSIONS ty, k_allowed_ips = [''10.0.0.0/8''], k_rate_limit = 1000,
     k_daily_limit = 100000, k_active = True, k_expires_at = None, k_last_used_at = None,
     k_last_used_ip = None, k_usage_count = 0, k_usage_today = 0, k_created_at = 0, k_updated_at = 0\<rparr>"

lemma revoked_key_is_dead_witness:
  "verify id ''lk_one'' (Some ''10.1.2.3'') 5 (revoke 1 3 [sample_key 1 DOMAIN_KEY ''lk_one'']) = None"
proof -
  have ok: "keys_ok [sample_key 1 DOMAIN_KEY ''lk_one'']" by (simp add: keys_ok_def)
  have "verify id ''lk_one'' (Some ''10.1.2.3'') 5 (revoke 1 3 [sample_key 1 DOMAIN_KEY ''lk_one'']) \<noteq> Some k" for k
    unfolding revoked_key_is_dead [OF ok] verify_iff_row [OF ok] by (auto simp: sample_key_def)
  then show ?thesis by (metis not_Some_eq)
qed

lemma rotation_replaces_secret_witness:
  "\<exists>t'. rotate id ''two'' 1 3 [sample_key 1 DOMAIN_KEY ''lk_one''] = Inr (''lk_two'', t') \<and>
    verify id ''lk_one'' (Some ''10.1.2.3'') 5 t' = None"
proof -
  obtain t' where t': "rotate id ''two'' 1 3 [sample_key 1 DOMAIN_KEY ''lk_one''] = Inr (''lk_two'', t')"
    by (simp add: rotate_def generate_secret_def Let_def KEY_PREFIX_def sample_key_def)
  have "keys_ok [sample_key 1 DOMAIN_KEY ''lk_one'']" by (simp add: keys_ok_def)
  from rotation_replaces_secret [OF this, of "sample_key 1 DOMAIN_KEY ''lk_one''" id "''two''" 3 "''lk_two''" t' "''lk_one''"] t'
  have "verify id ''lk_one'' (Some ''10.1.2.3'') 5 t' = None"
    by (simp add: sample_key_def KEY_PREFIX_def starts_with_def)
  with t' show ?thesis by blast
qed

text \<open>
  An empty list of permissions is taken as none given: the key gets everything its type may do.
\<close>

lemma empty_permissions_mean_default:
  "key_create sha body 1 0 n ORG_KEY (Some 1) None None (Some []) [] None None None [] =
   key_create sha body 1 0 n ORG_KEY (Some 1) None None None [] None None None []"
  by (simp add: key_create_def check_scope_def expiry_def generate_secret_def Let_def)

end
