(* ===== verification/Ssrf.thy ===== *)
theory Ssrf
  imports Ip
begin

text \<open>
  \<open>src/src/lightr/webhooks/ssrf.py\<close>: which URL a webhook may have and which address it is pinned
  to. \<open>urllib.parse.urlparse\<close> is modelled as far as the guard reads it (scheme, network location,
  host, port); name resolution is the parameter \<open>resolve\<close>, \<open>None\<close> when it fails.
\<close>

section \<open>\<open>urlparse\<close>\<close>

datatype url_error = InvalidUrl

record parsed_url =
  u_scheme :: string
  u_netloc :: string

definition ascii_alpha :: "char \<Rightarrow> bool" where
  "ascii_alpha c = (let n = (of_char c :: nat) in (65 \<le> n \<and> n \<le> 90) \<or> (97 \<le> n \<and> n \<le> 122))"

definition scheme_char :: "char \<Rightarrow> bool" where
  "scheme_char c \<longleftrightarrow> ascii_alpha c \<or> is_digit c \<or> c \<in> set ''+-.''"

definition c0_or_space :: "char \<Rightarrow> bool" where
  "c0_or_space c \<longleftrightarrow> (of_char c :: nat) \<le> 32"

text \<open>A bracketed host must be an IPv6 address or an IPvFuture literal.\<close>

definition ipv_future :: "string \<Rightarrow> bool" where
  "ipv_future s =
    (let hex = takeWhile (\<lambda>c. hex_value c \<noteq> None) (tl s); r = dropWhile (\<lambda>c. hex_value c \<noteq> None) (tl s)
     in hex \<noteq> [] \<and> starts_with ''.'' r \<and> tl r \<noteq> [] \<and> CHR 0x0A \<notin> set (tl r))"

definition bracketed_ok :: "string \<Rightarrow> bool" where
  "bracketed_ok h =
    (if starts_with ''v'' h then ipv_future h
     else case ip_address h of Some (V6 _ _) \<Rightarrow> True | _ \<Rightarrow> False)"

definition urlsplit :: "string \<Rightarrow> url_error + parsed_url" where
  "urlsplit url0 =
    (let url = filter (\<lambda>c. c \<notin> {CHR 0x09, CHR 0x0D, CHR 0x0A}) (dropWhile c0_or_space url0);
         (before, colon, after) = partition_char CHR '':'' url;
         has_scheme = (colon \<and> before \<noteq> [] \<and> ascii_alpha (hd before) \<and> list_all scheme_char before);
         scheme = (if has_scheme then lower before else []);
         rest = (if has_scheme then after else url);
         netloc = (if starts_with ''//'' rest
                   then takeWhile (\<lambda>c. c \<notin> set ''/?#'') (drop 2 rest) else []);
         has_open = CHR ''['' \<in> set netloc; has_close = CHR '']'' \<in> set netloc
     in if has_open \<noteq> has_close then Inl InvalidUrl
        else if has_open \<and> \<not> bracketed_ok (fst (partition_char CHR '']'' (snd (snd (partition_char CHR ''['' netloc)))))
             then Inl InvalidUrl
        else Inr \<lparr>u_scheme = scheme, u_netloc = netloc\<rparr>)"

definition hostinfo :: "parsed_url \<Rightarrow> string \<times> string" where
  "hostinfo u =
    (let info = after_last CHR ''@'' (u_netloc u);
         (_, open_br, bracketed) = partition_char CHR ''['' info
     in if open_br
        then (let (h, _, p) = partition_char CHR '']'' bracketed in (h, snd (snd (partition_char CHR '':'' p))))
        else (let (h, _, p) = partition_char CHR '':'' info in (h, p)))"

definition url_hostname :: "parsed_url \<Rightarrow> string option" where
  "url_hostname u =
    (let h = fst (hostinfo u); (name, sep, zone) = partition_char CHR ''%'' h
     in if h = [] then None else Some (lower name @ (if sep then ''%'' else []) @ zone))"

definition url_port :: "parsed_url \<Rightarrow> url_error + nat option" where
  "url_port u =
    (let p = snd (hostinfo u)
     in if p = [] then Inr None
        else if \<not> list_all is_digit p \<or> 65535 < decimal p then Inl InvalidUrl
        else Inr (Some (nat (decimal p))))"

section \<open>The guard\<close>

definition ALLOWED_SCHEMES :: "string list" where "ALLOWED_SCHEMES = [''http'', ''https'']"

definition ALLOWED_PORTS :: "nat list" where
  "ALLOWED_PORTS = [80, 443, 8080, 8443, 3000, 5000, 8000, 9000]"

definition BLOCKED_CIDRS :: "string list" where
  "BLOCKED_CIDRS = [''0.0.0.0/8'', ''10.0.0.0/8'', ''127.0.0.0/8'', ''169.254.0.0/16'', ''172.16.0.0/12'',
    ''192.0.0.0/24'', ''192.168.0.0/16'', ''198.18.0.0/15'', ''224.0.0.0/4'', ''240.0.0.0/4'',
    ''255.255.255.255/32'', ''::1/128'', ''fc00::/7'', ''fe80::/10'', ''ff00::/8'', ''::/128'']"

definition BLOCKED_NETWORKS :: "ip_net list" where
  "BLOCKED_NETWORKS = map (\<lambda>cidr. the (ip_network cidr)) BLOCKED_CIDRS"

datatype ssrf_error =
    SchemeNotAllowed string
  | NoHost
  | CredentialsInUrl
  | PortNotAllowed nat
  | CannotResolve string
  | NoAddress string
  | BlockedAddress string
  | BadUrl                  \<comment> \<open>a \<open>ValueError\<close> of the URL parser\<close>

record vetted_target =
  vt_url :: string
  vt_host :: string
  vt_address :: string
  vt_port :: nat

definition is_blocked :: "string \<Rightarrow> bool" where
  "is_blocked address =
    (case ip_address address of
       None \<Rightarrow> True
     | Some parsed \<Rightarrow> \<exists>n \<in> set BLOCKED_NETWORKS. in_network (unmap parsed) n)"

definition check_url :: "string \<Rightarrow> ssrf_error + string \<times> string \<times> nat" where
  "check_url url =
    (case urlsplit (strip url) of
       Inl _ \<Rightarrow> Inl BadUrl
     | Inr parsed \<Rightarrow>
       if u_scheme parsed \<notin> set ALLOWED_SCHEMES then Inl (SchemeNotAllowed (u_scheme parsed))
       else case url_hostname parsed of
              None \<Rightarrow> Inl NoHost
            | Some host \<Rightarrow>
              if CHR ''@'' \<in> set (u_netloc parsed) then Inl CredentialsInUrl
              else case url_port parsed of
                     Inl _ \<Rightarrow> Inl BadUrl
                   | Inr p \<Rightarrow>
                     let port = (case p of Some n \<Rightarrow> if n = 0 then (if u_scheme parsed = ''https'' then 443 else 80) else n
                                 | None \<Rightarrow> if u_scheme parsed = ''https'' then 443 else 80)
                     in if port \<notin> set ALLOWED_PORTS then Inl (PortNotAllowed port)
                        else Inr (u_scheme parsed, host, port))"

definition vet :: "(string \<Rightarrow> nat \<Rightarrow> string list option) \<Rightarrow> string \<Rightarrow> bool \<Rightarrow> ssrf_error + vetted_target" where
  "vet resolve url allow_private =
    bind_res (check_url url) (\<lambda>(_, host, port).
      case resolve host port of
        None \<Rightarrow> Inl (CannotResolve host)
      | Some infos \<Rightarrow>
        let addresses = fromkeys infos
        in if addresses = [] then Inl (NoAddress host)
           else case (if allow_private then [] else filter is_blocked addresses) of
                  a # _ \<Rightarrow> Inl (BlockedAddress a)
                | [] \<Rightarrow> Inr \<lparr>vt_url = strip url, vt_host = host, vt_address = hd addresses, vt_port = port\<rparr>)"

section \<open>What is blocked\<close>

lemma blocked_networks:
  "BLOCKED_NETWORKS =
    [Net4 0 8, Net4 0x0A000000 8, Net4 0x7F000000 8, Net4 0xA9FE0000 16, Net4 0xAC100000 12,
     Net4 0xC0000000 24, Net4 0xC0A80000 16, Net4 0xC6120000 15, Net4 0xE0000000 4, Net4 0xF0000000 4,
     Net4 0xFFFFFFFF 32, Net6 1 128, Net6 (0xFC00 * 2 ^ 112) 7, Net6 (0xFE80 * 2 ^ 112) 10,
     Net6 (0xFF00 * 2 ^ 112) 8, Net6 0 128]"
  by code_simp

text \<open>The reserved addresses as numbers.\<close>

definition reserved_v4 :: "int \<Rightarrow> bool" where
  "reserved_v4 n \<longleftrightarrow>
    n div 2 ^ 24 \<in> {0, 10, 127} \<or> n div 2 ^ 16 \<in> {0xA9FE, 0xC0A8} \<or> n div 2 ^ 20 = 0xAC1
    \<or> n div 2 ^ 8 = 0xC00000 \<or> n div 2 ^ 17 = 0x6309 \<or> 0xE0000000 \<le> n"

definition reserved_v6 :: "int \<Rightarrow> bool" where
  "reserved_v6 n \<longleftrightarrow>
    n \<in> {0, 1} \<or> n div 2 ^ 121 = 0x7E \<or> n div 2 ^ 118 = 0x3FA \<or> n div 2 ^ 120 = 0xFF"

lemma net4_member:
  "in_network (V4 a) (Net4 base p) \<longleftrightarrow> uint a div 2 ^ (32 - p) = uint base div 2 ^ (32 - p)"
  if "base AND net_mask p = base"
  using and_net_mask [of a p base] that by simp

lemma net6_member:
  "in_network (V6 a sc) (Net6 base p) \<longleftrightarrow> uint a div 2 ^ (128 - p) = uint base div 2 ^ (128 - p)"
  if "base AND net_mask p = base"
  using and_net_mask [of a p base] that by simp

definition net_aligned :: "ip_net \<Rightarrow> bool" where
  "net_aligned n = (case n of Net4 b p \<Rightarrow> b AND net_mask p = b | Net6 b p \<Rightarrow> b AND net_mask p = b)"

lemma blocked_aligned: "list_all net_aligned BLOCKED_NETWORKS"
  unfolding blocked_networks by code_simp

lemma blocked_v4: "(\<exists>n \<in> set BLOCKED_NETWORKS. in_network (V4 a) n) \<longleftrightarrow> reserved_v4 (uint a)"
proof -
  have al: "base AND net_mask p = base" if "Net4 base p \<in> set BLOCKED_NETWORKS" for base p
    using blocked_aligned that unfolding list_all_iff net_aligned_def by fastforce
  have "(\<exists>n \<in> set BLOCKED_NETWORKS. in_network (V4 a) n) \<longleftrightarrow>
      (\<exists>(b, p) \<in> set [(0, 8), (0x0A000000, 8), (0x7F000000, 8), (0xA9FE0000, 16), (0xAC100000, 12),
        (0xC0000000, 24), (0xC0A80000, 16), (0xC6120000, 15), (0xE0000000, 4), (0xF0000000, 4), (0xFFFFFFFF :: 32 word, 32)].
        in_network (V4 a) (Net4 b p))"
    unfolding blocked_networks by simp
  also have "\<dots> \<longleftrightarrow>
      (\<exists>(b, p) \<in> set [(0, 8), (0x0A000000, 8), (0x7F000000, 8), (0xA9FE0000, 16), (0xAC100000, 12),
        (0xC0000000, 24), (0xC0A80000, 16), (0xC6120000, 15), (0xE0000000, 4), (0xF0000000, 4), (0xFFFFFFFF :: 32 word, 32)].
        uint a div 2 ^ (32 - p) = uint b div 2 ^ (32 - p))"
    by (intro bex_cong refl) (auto simp: net4_member [OF al] blocked_networks simp del: in_network.simps)
  also have "\<dots> \<longleftrightarrow> reserved_v4 (uint a)"
  proof -
    have "0 \<le> uint a" "uint a < 2 ^ 32" using uint_lt2p [of a] by simp_all
    then have top: "uint a div 268435456 = 14 \<or> uint a div 268435456 = 15 \<or> uint a = 4294967295 \<longleftrightarrow> 3758096384 \<le> uint a"
      using div_interval [of 268435456 "uint a" 14] div_interval [of 268435456 "uint a" 15] by auto
    show ?thesis unfolding reserved_v4_def using top by simp blast
  qed
  finally show ?thesis .
qed

lemma blocked_v6: "(\<exists>n \<in> set BLOCKED_NETWORKS. in_network (V6 a sc) n) \<longleftrightarrow> reserved_v6 (uint a)"
proof -
  have al: "base AND net_mask p = base" if "Net6 base p \<in> set BLOCKED_NETWORKS" for base p
    using blocked_aligned that unfolding list_all_iff net_aligned_def by fastforce
  have "(\<exists>n \<in> set BLOCKED_NETWORKS. in_network (V6 a sc) n) \<longleftrightarrow>
      (\<exists>(b, p) \<in> set [(1 :: 128 word, 128), (0xFC00 * 2 ^ 112, 7), (0xFE80 * 2 ^ 112, 10), (0xFF00 * 2 ^ 112, 8), (0, 128)].
        in_network (V6 a sc) (Net6 b p))"
    unfolding blocked_networks by simp
  also have "\<dots> \<longleftrightarrow>
      (\<exists>(b, p) \<in> set [(1 :: 128 word, 128), (0xFC00 * 2 ^ 112, 7), (0xFE80 * 2 ^ 112, 10), (0xFF00 * 2 ^ 112, 8), (0, 128)].
        uint a div 2 ^ (128 - p) = uint b div 2 ^ (128 - p))"
    by (intro bex_cong refl) (auto simp: net6_member [OF al] blocked_networks simp del: in_network.simps)
  also have "\<dots> \<longleftrightarrow> reserved_v6 (uint a)"
    unfolding reserved_v6_def by simp blast
  finally show ?thesis .
qed

text \<open>
  What a webhook may not reach: text that is no IP address; an IPv4 address in one of the
  reserved ranges; an IPv6 address that wraps such an IPv4 address; and an IPv6 address that is
  unspecified, loopback, unique-local, link-local or multicast. Nothing else is refused.
\<close>

theorem blocked_iff_reserved:
  "is_blocked s \<longleftrightarrow>
    (case ip_address s of
       None \<Rightarrow> True
     | Some (V4 a) \<Rightarrow> reserved_v4 (uint a)
     | Some (V6 a _) \<Rightarrow>
       if uint a div 2 ^ 32 = 0xFFFF then reserved_v4 (uint a mod 2 ^ 32) else reserved_v6 (uint a))"
proof -
  have "drop_bit 32 a = 0xFFFF \<longleftrightarrow> uint a div 2 ^ 32 = 0xFFFF" for a :: "128 word"
    using uint_drop_bit [of 32 a] by (simp add: word_uint_eq_iff)
  moreover have "uint (ucast a :: 32 word) = uint a mod 2 ^ 32" for a :: "128 word"
    by (simp add: unsigned_ucast_eq take_bit_eq_mod)
  ultimately show ?thesis
    by (simp add: is_blocked_def unmap_def blocked_v4 blocked_v6 split: option.splits ip.splits)
qed

text \<open>
  C31. A URL that passes is safe to connect to: its scheme is http or https, its port is an
  allowed one, it names a host and carries no credentials, it is pinned to an address the host
  resolved to, and no address the host resolved to is blocked, not only the pinned one.
\<close>

theorem vetted_target_is_safe:
  assumes "vet resolve url False = Inr t"
  shows "\<exists>parsed infos. urlsplit (strip url) = Inr parsed \<and> u_scheme parsed \<in> {''http'', ''https''} \<and>
    CHR ''@'' \<notin> set (u_netloc parsed) \<and> url_hostname parsed = Some (vt_host t) \<and>
    vt_port t \<in> set ALLOWED_PORTS \<and> resolve (vt_host t) (vt_port t) = Some infos \<and>
    vt_address t \<in> set infos \<and> (\<forall>a \<in> set infos. \<not> is_blocked a)"
proof -
  obtain sch host port where c: "check_url url = Inr (sch, host, port)"
    using assms by (auto simp: vet_def res_simps)
  obtain infos where i: "resolve host port = Some infos" "fromkeys infos \<noteq> []"
    "filter is_blocked (fromkeys infos) = []" "t = \<lparr>vt_url = strip url, vt_host = host, vt_address = hd (fromkeys infos), vt_port = port\<rparr>"
    using assms by (auto simp: vet_def c Let_def split: option.splits if_splits list.splits)
  obtain parsed where p: "urlsplit (strip url) = Inr parsed" "u_scheme parsed \<in> set ALLOWED_SCHEMES"
    "url_hostname parsed = Some host" "CHR ''@'' \<notin> set (u_netloc parsed)" "port \<in> set ALLOWED_PORTS"
    using c by (auto simp: check_url_def Let_def split: sum.splits if_splits option.splits)
  have "hd (fromkeys infos) \<in> set infos" using i(2) hd_in_set set_fromkeys by metis
  moreover have "\<forall>a \<in> set infos. \<not> is_blocked a"
    using i(3) by (metis filter_empty_conv set_fromkeys)
  ultimately show ?thesis using i p by (auto simp: ALLOWED_SCHEMES_def)
qed

lemma vetted_target_is_safe_witness:
  "\<exists>t. vet (\<lambda>h p. Some [''93.184.216.34'']) ''https://hooks.acme.org/in'' False = Inr t \<and> \<not> is_blocked ''93.184.216.34''"
proof -
  have "vet (\<lambda>h p. Some [''93.184.216.34'']) ''https://hooks.acme.org/in'' False =
      Inr \<lparr>vt_url = ''https://hooks.acme.org/in'', vt_host = ''hooks.acme.org'', vt_address = ''93.184.216.34'', vt_port = 443\<rparr>"
    by code_simp
  from vetted_target_is_safe [OF this] this show ?thesis by auto
qed

text \<open>
  Two ways to a private host the ranges do not cover: an IPv4-compatible IPv6 address and the
  NAT64 prefix, whose low 32 bits are an IPv4 address.
\<close>

lemma unblocked_embeddings:
  "\<not> is_blocked ''::127.0.0.1''" "\<not> is_blocked ''64:ff9b::7f00:1''" "is_blocked ''::ffff:127.0.0.1''"
  by code_simp+

end
