(* ===== verification/Webhooks.thy ===== *)
theory Webhooks
  imports Ssrf Repo
begin

text \<open>
  \<open>src/src/lightr/webhooks/delivery.py\<close> and \<open>src/src/lightr/webhooks/emitter.py\<close>: signing, one
  delivery attempt, the stored webhooks with their log, and which of them an event goes to.
  HMAC-SHA256 is the parameter \<open>hmac\<close> (key, message); the HTTP exchange is the parameter \<open>post\<close>;
  the clock, fresh ids and generated secrets are arguments.
\<close>

section \<open>Events and attempts\<close>

definition VALID_EVENTS :: "string list" where
  "VALID_EVENTS = [''mail.received'', ''mail.delivered'', ''mail.rejected'', ''mail.sent'', ''mail.bounced'',
    ''account.created'', ''account.deleted'', ''domain.verified'', ''*'']"

datatype delivery_status = PENDING_DELIVERY | DELIVERED | FAILED_DELIVERY | DEFERRED_DELIVERY

record attempt =
  at_ok :: bool
  at_status_code :: "int option"
  at_body :: string
  at_error :: string
  at_duration_ms :: int

definition retryable :: "attempt \<Rightarrow> bool" where
  "retryable a =
    (case at_status_code a of
       None \<Rightarrow> True
     | Some c \<Rightarrow> if 200 \<le> c \<and> c < 300 then False else 500 \<le> c \<or> c = 429)"

definition WEBHOOK_RETRY_DELAYS :: "int list" where
  "WEBHOOK_RETRY_DELAYS = [seconds 30, minutes 5, minutes 30, hours 2, hours 12]"

definition webhook_next_retry_at :: "int \<Rightarrow> instant \<Rightarrow> instant" where
  "webhook_next_retry_at attempts moment =
    (let index = min (max (attempts - 1) 0) (int (length WEBHOOK_RETRY_DELAYS) - 1)
     in moment + WEBHOOK_RETRY_DELAYS ! nat index)"

interpretation webhook_backoff: retry_schedule webhook_next_retry_at WEBHOOK_RETRY_DELAYS
  by unfold_locales
     (auto simp: WEBHOOK_RETRY_DELAYS_def duration_defs webhook_next_retry_at_def retry_index_def)

section \<open>Signatures\<close>

definition SIGNATURE_TOLERANCE :: int where "SIGNATURE_TOLERANCE = minutes 5"

definition sign_payload :: "(string \<Rightarrow> string \<Rightarrow> string) \<Rightarrow> string \<Rightarrow> string \<Rightarrow> string \<Rightarrow> string" where
  "sign_payload hmac secret timestamp payload =
    ''sha256='' @ hmac secret (timestamp @ ''.'' @ payload)"

text \<open>The timestamp is in the range \<open>datetime.fromtimestamp\<close> takes.\<close>

definition sent_at :: "string \<Rightarrow> instant option" where
  "sent_at timestamp =
    (case int_base10 timestamp of
       None \<Rightarrow> None
     | Some t \<Rightarrow> if -62135596800 \<le> t \<and> t \<le> 253402300799 then Some (seconds t) else None)"

definition verify_signature ::
  "(string \<Rightarrow> string \<Rightarrow> string) \<Rightarrow> string \<Rightarrow> string \<Rightarrow> string \<Rightarrow> string \<Rightarrow> int \<Rightarrow> instant \<Rightarrow> bool" where
  "verify_signature hmac secret signature timestamp payload tolerance now =
    (case sent_at timestamp of
       None \<Rightarrow> False
     | Some t \<Rightarrow> if abs (now - t) > tolerance then False
                 else sign_payload hmac secret timestamp payload = signature)"

section \<open>Webhooks\<close>

record webhook =
  w_id :: uuid
  w_name :: string
  w_url :: string
  w_secret :: string
  w_events :: "string list"
  w_active :: bool
  w_max_retries :: int
  w_timeout :: int
  w_organization_id :: "uuid option"
  w_domain_filter :: "string option"
  w_description :: "string option"
  w_failure_count :: int
  w_last_success :: "instant option"
  w_last_failure :: "instant option"
  w_created_at :: instant
  w_updated_at :: instant

record webhook_event =
  we_id :: uuid
  we_webhook_id :: uuid
  we_event_type :: string
  we_payload :: string
  we_status :: delivery_status
  we_attempts :: int
  we_next_retry :: "instant option"
  we_response_code :: "int option"
  we_response_body :: "string option"
  we_error :: "string option"
  we_created_at :: instant
  we_delivered_at :: "instant option"
  we_duration_ms :: int

record webhook_db =
  wd_webhooks :: "webhook list"
  wd_events :: "webhook_event list"

definition wants :: "webhook \<Rightarrow> string \<Rightarrow> bool" where
  "wants w event \<longleftrightarrow>
    w_active w \<and> (w_events w = [] \<or> event \<in> set (w_events w) \<or> ''*'' \<in> set (w_events w))"

text \<open>
  One attempt. \<open>post\<close> is given the target, the timeout and the signature headers' inputs and
  answers a status and body, or the text of an exception.
\<close>

definition failed_attempt :: "int option \<Rightarrow> string \<Rightarrow> int \<Rightarrow> attempt" where
  "failed_attempt code err ms = \<lparr>at_ok = False, at_status_code = code, at_body = [], at_error = err, at_duration_ms = ms\<rparr>"

definition deliver_webhook ::
  "(string \<Rightarrow> nat \<Rightarrow> string list option) \<Rightarrow> bool \<Rightarrow> (ssrf_error \<Rightarrow> string) \<Rightarrow>
   (vetted_target \<Rightarrow> int \<Rightarrow> string \<Rightarrow> string \<Rightarrow> string \<Rightarrow> string + int \<times> string) \<Rightarrow>
   (string \<Rightarrow> string \<Rightarrow> string) \<Rightarrow> string \<Rightarrow> string \<Rightarrow> int \<Rightarrow> webhook \<Rightarrow> attempt" where
  "deliver_webhook resolve allow_private show_error post hmac timestamp body ms w =
    (case vet resolve (w_url w) allow_private of
       Inl e \<Rightarrow> failed_attempt (Some 400) (show_error e) 0
     | Inr target \<Rightarrow>
       (case post target (w_timeout w) (sign_payload hmac (w_secret w) timestamp body) timestamp body of
          Inl err \<Rightarrow> failed_attempt None err ms
        | Inr (code, text) \<Rightarrow>
          \<lparr>at_ok = (200 \<le> code \<and> code < 300), at_status_code = Some code, at_body = take 500 text,
           at_error = [], at_duration_ms = ms\<rparr>))"

datatype webhook_error = BadWebhookUrl ssrf_error | UnknownEvents "string list" | WebhookConflict

definition validate_events :: "string list option \<Rightarrow> webhook_error + string list" where
  "validate_events events =
    (case events of
       None \<Rightarrow> Inr [''*'']
     | Some es \<Rightarrow>
       if es = [] then Inr [''*'']
       else let unknown = filter (\<lambda>e. e \<notin> set VALID_EVENTS) es
            in if unknown \<noteq> [] then Inl (UnknownEvents unknown) else Inr (fromkeys es))"

text \<open>\<open>_to_model\<close>: a stored zero reads as the default.\<close>

definition webhook_model :: "webhook \<Rightarrow> webhook" where
  "webhook_model w = w\<lparr>w_max_retries := (if w_max_retries w = 0 then 5 else w_max_retries w),
     w_timeout := (if w_timeout w = 0 then 30 else w_timeout w)\<rparr>"

definition list_for :: "string \<Rightarrow> uuid option \<Rightarrow> webhook_db \<Rightarrow> webhook list" where
  "list_for event org db =
    filter (\<lambda>w. wants w event) (map webhook_model
      (filter (\<lambda>w. w_active w \<and> (org = None \<or> w_organization_id w = org \<or> w_organization_id w = None)) (wd_webhooks db)))"

definition attempt_status :: "attempt \<Rightarrow> delivery_status" where
  "attempt_status a = (if at_ok a then DELIVERED else if retryable a then DEFERRED_DELIVERY else FAILED_DELIVERY)"

definition none_if_empty :: "string \<Rightarrow> string option" where
  "none_if_empty s = (if s = [] then None else Some s)"

definition record_attempt :: "uuid \<Rightarrow> instant \<Rightarrow> uuid \<Rightarrow> string \<Rightarrow> string \<Rightarrow> attempt \<Rightarrow> webhook_db \<Rightarrow> webhook_db" where
  "record_attempt fresh now webhook_id event payload a db =
    db\<lparr>wd_events := wd_events db @ [\<lparr>we_id = fresh, we_webhook_id = webhook_id, we_event_type = event,
         we_payload = take 10000 payload, we_status = attempt_status a, we_attempts = 1,
         we_next_retry = (if at_ok a then None else Some (webhook_next_retry_at 1 now)),
         we_response_code = at_status_code a, we_response_body = none_if_empty (at_body a),
         we_error = none_if_empty (at_error a), we_created_at = now,
         we_delivered_at = (if at_ok a then Some now else None), we_duration_ms = at_duration_ms a\<rparr>],
       wd_webhooks := update_where (\<lambda>w. w_id w = webhook_id)
         (\<lambda>w. if at_ok a then w\<lparr>w_last_success := Some now, w_failure_count := 0, w_updated_at := now\<rparr>
              else w\<lparr>w_last_failure := Some now, w_failure_count := w_failure_count w + 1, w_updated_at := now\<rparr>)
         (wd_webhooks db)\<rparr>"

definition webhook_create ::
  "uuid \<Rightarrow> string \<Rightarrow> instant \<Rightarrow> string \<Rightarrow> string \<Rightarrow> string list option \<Rightarrow> string option \<Rightarrow> uuid option \<Rightarrow>
   string option \<Rightarrow> string option \<Rightarrow> int \<Rightarrow> int \<Rightarrow> bool \<Rightarrow> webhook_db \<Rightarrow> webhook_error + webhook \<times> webhook_db" where
  "webhook_create fresh generated now name url events secret org descr domain_filter timeout max_retries active db =
    (case check_url url of
       Inl e \<Rightarrow> Inl (BadWebhookUrl e)
     | Inr _ \<Rightarrow> bind_res (validate_events events) (\<lambda>chosen.
       let w = \<lparr>w_id = fresh, w_name = name, w_url = strip url, w_secret = (case secret of None \<Rightarrow> generated | Some s \<Rightarrow> if s = [] then generated else s),
             w_events = chosen, w_active = active, w_max_retries = max_retries, w_timeout = timeout,
             w_organization_id = org, w_domain_filter = domain_filter, w_description = descr,
             w_failure_count = 0, w_last_success = None, w_last_failure = None, w_created_at = now,
             w_updated_at = now\<rparr>
       in if fresh \<in> w_id ` set (wd_webhooks db) then Inl WebhookConflict
          else Inr (w, db\<lparr>wd_webhooks := wd_webhooks db @ [w]\<rparr>)))"

definition webhook_list :: "uuid option \<Rightarrow> nat \<Rightarrow> webhook_db \<Rightarrow> webhook list" where
  "webhook_list org limit db =
    map webhook_model (take limit (sort_key w_name
      (filter (\<lambda>w. org = None \<or> w_organization_id w = org \<or> w_organization_id w = None) (wd_webhooks db))))"

definition webhook_resolve :: "string \<Rightarrow> webhook_db \<Rightarrow> repo_error + webhook" where
  "webhook_resolve ref db =
    (case as_uuid ref of
       Some i \<Rightarrow> (case first_row (filter (\<lambda>w. w_id w = i) (wd_webhooks db)) of
                  None \<Rightarrow> Inl (NotFoundError ''webhook'' ref) | Some w \<Rightarrow> Inr (webhook_model w))
     | None \<Rightarrow> (case filter (\<lambda>w. w_name w = ref) (wd_webhooks db) of
                  [] \<Rightarrow> Inl (NotFoundError ''webhook'' ref)
                | [w] \<Rightarrow> Inr (webhook_model w)
                | ws \<Rightarrow> Inl (AmbiguousReferenceError ''webhook'' ref (map (uuid_str \<circ> w_id) ws))))"

text \<open>The keyword arguments of \<open>update\<close>; \<open>None\<close> is an argument not given.\<close>

record webhook_change =
  wc_name :: "string option"
  wc_description :: "string option option"
  wc_url :: "string option"
  wc_secret :: "string option"
  wc_events :: "string list option option"
  wc_domain_filter :: "string option option"
  wc_max_retries :: "int option"
  wc_timeout :: "int option"
  wc_active :: "bool option"

definition no_change :: webhook_change where
  "no_change = \<lparr>wc_name = None, wc_description = None, wc_url = None, wc_secret = None, wc_events = None,
     wc_domain_filter = None, wc_max_retries = None, wc_timeout = None, wc_active = None\<rparr>"

definition given :: "'a option \<Rightarrow> 'a \<Rightarrow> 'a" where
  "given v old = (case v of None \<Rightarrow> old | Some x \<Rightarrow> x)"

definition apply_change :: "webhook_change \<Rightarrow> string list option \<Rightarrow> instant \<Rightarrow> webhook \<Rightarrow> webhook" where
  "apply_change c events now w = w\<lparr>w_name := given (wc_name c) (w_name w),
     w_description := given (wc_description c) (w_description w), w_url := given (wc_url c) (w_url w),
     w_secret := given (wc_secret c) (w_secret w), w_events := given events (w_events w),
     w_domain_filter := given (wc_domain_filter c) (w_domain_filter w),
     w_max_retries := given (wc_max_retries c) (w_max_retries w),
     w_timeout := given (wc_timeout c) (w_timeout w), w_active := given (wc_active c) (w_active w),
     w_updated_at := now\<rparr>"

definition webhook_update :: "uuid \<Rightarrow> webhook_change \<Rightarrow> instant \<Rightarrow> webhook_db \<Rightarrow> webhook_error + webhook_db" where
  "webhook_update i c now db =
    (case (case wc_url c of None \<Rightarrow> None | Some u \<Rightarrow>
             if u = [] then None else (case check_url u of Inl e \<Rightarrow> Some e | Inr _ \<Rightarrow> None)) of
       Some e \<Rightarrow> Inl (BadWebhookUrl e)
     | None \<Rightarrow>
       bind_res (case wc_events c of None \<Rightarrow> Inr None
                 | Some es \<Rightarrow> bind_res (validate_events es) (\<lambda>v. Inr (Some v)))
         (\<lambda>events. if c = no_change then Inr db
           else Inr (db\<lparr>wd_webhooks := update_where (\<lambda>w. w_id w = i) (apply_change c events now) (wd_webhooks db)\<rparr>)))"

definition rotate_webhook_secret :: "uuid \<Rightarrow> string \<Rightarrow> instant \<Rightarrow> webhook_db \<Rightarrow> webhook_error + string \<times> webhook_db" where
  "rotate_webhook_secret i generated now db =
    bind_res (webhook_update i (no_change\<lparr>wc_secret := Some generated\<rparr>) now db) (\<lambda>db'. Inr (generated, db'))"

definition webhook_delete :: "uuid \<Rightarrow> webhook_db \<Rightarrow> webhook_db" where
  "webhook_delete i db = db\<lparr>wd_events := delete_where (\<lambda>e. we_webhook_id e = i) (wd_events db),
     wd_webhooks := delete_where (\<lambda>w. w_id w = i) (wd_webhooks db)\<rparr>"

definition deliveries :: "uuid \<Rightarrow> nat \<Rightarrow> webhook_db \<Rightarrow> webhook_event list" where
  "deliveries i limit db =
    take limit (sort_key (\<lambda>e. - we_created_at e) (filter (\<lambda>e. we_webhook_id e = i) (wd_events db)))"

definition webhook_stats :: "uuid \<Rightarrow> webhook_db \<Rightarrow> (delivery_status, nat) dict" where
  "webhook_stats i db =
    (let es = filter (\<lambda>e. we_webhook_id e = i) (wd_events db)
     in map (\<lambda>s. (s, rowcount (\<lambda>e. we_status e = s) es)) (fromkeys (map we_status es)))"

text \<open>
  \<open>Emitter._emit\<close>: the webhooks an event goes to, and the log after every attempt is recorded.
  \<open>run\<close> is one delivery (\<open>deliver_webhook\<close> with its surroundings), \<open>ids\<close> the fresh ids.
\<close>

definition emit_targets :: "string \<Rightarrow> webhook_db \<Rightarrow> webhook list" where
  "emit_targets event db = list_for event None db"

definition emit_event ::
  "(webhook \<Rightarrow> attempt) \<Rightarrow> uuid list \<Rightarrow> instant \<Rightarrow> string \<Rightarrow> string \<Rightarrow> webhook_db \<Rightarrow> webhook_db" where
  "emit_event run ids now event payload db =
    foldl (\<lambda>db (i, w). record_attempt i now (w_id w) event payload (run w) db) db (zip ids (emit_targets event db))"

section \<open>What is signed, and who is told\<close>

lemma append_dot_unique:
  "c \<notin> set a \<Longrightarrow> c \<notin> set a' \<Longrightarrow> a @ c # b = a' @ c # b' \<longleftrightarrow> a = a' \<and> b = b'"
  for c :: char
  by (metis prod.inject split_first_unique)

lemma sent_at_no_dot: "sent_at ts = Some t \<Longrightarrow> CHR ''.'' \<notin> set ts"
proof -
  assume "sent_at ts = Some t"
  then obtain k where k: "int_base10 ts = Some k" by (auto simp: sent_at_def split: option.splits)
  show ?thesis
  proof
    assume "CHR ''.'' \<in> set ts"
    then have "CHR ''.'' \<in> set (int_strip ts)" by (rule int_strip_keeps) (simp add: is_space_def)
    with k show False
      by (auto simp: int_base10_def is_digit_def split: list.splits if_splits dest!: dec_digits_no_dot)
  qed
qed

text \<open>
  A signature is bound to its time and body: it verifies for what was signed as long as the
  time is within the tolerance, and never outside it; and if the MAC tells messages apart, a
  signature made for one timestamp and body verifies for no other.
\<close>

theorem signature_binds_time_and_body:
  assumes "sent_at ts = Some t"
  shows "(verify_signature hmac secret (sign_payload hmac secret ts body) ts body tolerance now \<longleftrightarrow> abs (now - t) \<le> tolerance) \<and>
    (inj (hmac secret) \<longrightarrow>
      verify_signature hmac secret (sign_payload hmac secret ts body) ts' body' tolerance now \<longrightarrow> ts' = ts \<and> body' = body)"
proof (intro conjI impI)
  show "verify_signature hmac secret (sign_payload hmac secret ts body) ts body tolerance now \<longleftrightarrow> abs (now - t) \<le> tolerance"
    using assms by (auto simp: verify_signature_def)
next
  assume inj: "inj (hmac secret)"
    and v: "verify_signature hmac secret (sign_payload hmac secret ts body) ts' body' tolerance now"
  then obtain t' where "sent_at ts' = Some t'" by (auto simp: verify_signature_def split: option.splits)
  then have "CHR ''.'' \<notin> set ts'" "CHR ''.'' \<notin> set ts" using sent_at_no_dot assms by blast+
  moreover have "hmac secret (ts' @ ''.'' @ body') = hmac secret (ts @ ''.'' @ body)"
    using v by (auto simp: verify_signature_def sign_payload_def split: option.splits if_splits)
  then have "ts' @ CHR ''.'' # body' = ts @ CHR ''.'' # body" using inj by (simp add: inj_eq)
  ultimately show "ts' = ts" "body' = body" by (simp_all add: append_dot_unique)
qed

lemma signature_binds_time_and_body_witness:
  "\<not> verify_signature (\<lambda>k m. m) ''s'' (sign_payload (\<lambda>k m. m) ''s'' ''100'' ''a'') ''100'' ''b'' (minutes 5) (seconds 160)"
proof -
  have "sent_at ''100'' = Some (seconds 100)" by code_simp
  from signature_binds_time_and_body [OF this, of "\<lambda>k m. m" "''s''" "''a''" "minutes 5" "seconds 160" "''100''" "''b''"]
  show ?thesis by (auto simp: inj_on_def)
qed

lemma wants_model [simp]: "wants (webhook_model w) event = wants w event"
  by (simp add: wants_def webhook_model_def)

lemma in_list_for:
  "w \<in> set (list_for event org db) \<longleftrightarrow>
    (\<exists>row \<in> set (wd_webhooks db). w = webhook_model row \<and> w_active row \<and> wants row event \<and>
      (org = None \<or> w_organization_id row = org \<or> w_organization_id row = None))"
  unfolding list_for_def set_filter set_map using wants_model by blast

text \<open>
  An event goes to every active webhook on the server that subscribes to it, whatever
  organization the webhook belongs to and whatever its \<open>domain_filter\<close> is: the emitter never
  passes the organization \<open>list_for\<close> can filter by.
\<close>

theorem events_cross_organizations:
  "w \<in> set (emit_targets event db) \<longleftrightarrow>
    (\<exists>row \<in> set (wd_webhooks db). w = webhook_model row \<and> w_active row \<and>
      (w_events row = [] \<or> event \<in> set (w_events row) \<or> ''*'' \<in> set (w_events row)))"
  unfolding emit_targets_def in_list_for wants_def by blast

text \<open>
  With the organization given, \<open>list_for\<close> is confined: only that organization's webhooks and
  the operator's own.
\<close>

lemma list_for_confined:
  "w \<in> set (list_for event (Some org) db) \<Longrightarrow> w_organization_id w = Some org \<or> w_organization_id w = None"
  unfolding in_list_for by (auto simp: webhook_model_def)

text \<open>
  A webhook that \<open>create\<close> stores has a non-empty subscription to known events.
\<close>

definition webhook_ok :: "webhook \<Rightarrow> bool" where
  "webhook_ok w \<longleftrightarrow> w_events w \<noteq> [] \<and> set (w_events w) \<subseteq> set VALID_EVENTS"

definition webhooks_ok :: "webhook_db \<Rightarrow> bool" where
  "webhooks_ok db \<longleftrightarrow> unique_by w_id (wd_webhooks db) \<and> (\<forall>w \<in> set (wd_webhooks db). webhook_ok w)"

lemma star_valid: "''*'' \<in> set VALID_EVENTS"
  by (simp add: VALID_EVENTS_def)

lemma validate_events_Inr: "validate_events es = Inr v \<Longrightarrow> v \<noteq> [] \<and> set v \<subseteq> set VALID_EVENTS"
  using star_valid
  by (cases es) (auto simp: validate_events_def Let_def filter_empty_conv split: if_splits)

lemma webhook_create_ok:
  assumes "webhooks_ok db" and "webhook_create f g now n u es s org d df to mr act db = Inr (w, db')"
  shows "webhooks_ok db'"
proof -
  obtain chosen where c: "validate_events es = Inr chosen" "f \<notin> w_id ` set (wd_webhooks db)" "w_id w = f" "w_events w = chosen"
    "db' = db\<lparr>wd_webhooks := wd_webhooks db @ [w]\<rparr>"
    using assms(2) by (auto simp: webhook_create_def res_simps Let_def split: sum.splits if_splits)
  show ?thesis
    using assms(1) c(2-5) validate_events_Inr [OF c(1)] by (simp add: webhooks_ok_def webhook_ok_def)
qed

end
