(* ===== verification/Mime.thy ===== *)
theory Mime
  imports Py_Text
begin

text \<open>
  The part of Python's \<open>email\<close> package the mail modules use on a message that has been parsed: a
  message is its header fields in order, its content type with parameters, and a payload that is
  decoded text or a list of messages. Field names compare without case. Parsing bytes into this
  tree and writing it back are the library's and are not modelled.
\<close>

type_synonym header_fields = "(string \<times> string) list"

datatype mime = Mime (mime_fields: header_fields) (mime_type: string) (mime_params: "(string, string) dict")
    (mime_filename: "string option") (mime_payload: payload)
  and payload = Text string | Parts "mime list"

section \<open>Header fields\<close>

abbreviation same_name :: "string \<Rightarrow> string \<times> string \<Rightarrow> bool" where
  "same_name name f \<equiv> lower (fst f) = lower name"

text \<open>\<open>m.get(name)\<close>, \<open>m.get_all(name) or []\<close>, \<open>del m[name]\<close>, \<open>m[name] = value\<close> (which appends).\<close>

definition get_field :: "string \<Rightarrow> header_fields \<Rightarrow> string option" where
  "get_field name fs = map_option snd (first_row (filter (same_name name) fs))"

definition get_all_fields :: "string \<Rightarrow> header_fields \<Rightarrow> string list" where
  "get_all_fields name fs = map snd (filter (same_name name) fs)"

definition del_field :: "string \<Rightarrow> header_fields \<Rightarrow> header_fields" where
  "del_field name fs = filter (\<lambda>f. \<not> same_name name f) fs"

definition add_field :: "string \<Rightarrow> string \<Rightarrow> header_fields \<Rightarrow> header_fields" where
  "add_field name v fs = fs @ [(name, v)]"

lemma get_field_del [simp]:
  "get_field n (del_field m fs) = (if lower n = lower m then None else get_field n fs)"
proof (cases "lower n = lower m")
  case True
  then have "filter (same_name n) (del_field m fs) = []" by (simp add: del_field_def filter_empty_conv)
  with True show ?thesis by (simp add: get_field_def)
next
  case False
  then have "filter (same_name n) (del_field m fs) = filter (same_name n) fs"
    unfolding del_field_def by (induction fs) auto
  with False show ?thesis by (simp add: get_field_def)
qed

lemma get_all_fields_del:
  "get_all_fields n (del_field m fs) = (if lower n = lower m then [] else get_all_fields n fs)"
  by (auto simp: get_all_fields_def del_field_def filter_empty_conv intro!: arg_cong [of _ _ "map snd"] filter_cong)

lemma get_all_fields_add:
  "get_all_fields n (add_field m v fs) = get_all_fields n fs @ (if lower n = lower m then [v] else [])"
  by (simp add: get_all_fields_def add_field_def)

lemma get_field_add:
  "get_field n (add_field m v fs) =
    (case get_field n fs of Some x \<Rightarrow> Some x | None \<Rightarrow> if lower n = lower m then Some v else None)"
  by (auto simp: get_field_def add_field_def first_row_def split: list.splits)

lemma get_field_all: "get_field n fs = first_row (get_all_fields n fs)"
  by (auto simp: get_field_def get_all_fields_def first_row_def split: list.splits)

section \<open>Walking the tree\<close>

fun walk :: "mime \<Rightarrow> mime list" where
  "walk (Mime fs ty ps fname (Text t)) = [Mime fs ty ps fname (Text t)]"
| "walk (Mime fs ty ps fname (Parts ms)) = Mime fs ty ps fname (Parts ms) # concat (map walk ms)"

definition mime_get :: "string \<Rightarrow> mime \<Rightarrow> string option" where
  "mime_get name m = get_field name (mime_fields m)"

text \<open>\<open>v or d\<close> of an optional text.\<close>

definition or_else :: "string option \<Rightarrow> string \<Rightarrow> string" where
  "or_else v d = (case v of None \<Rightarrow> d | Some s \<Rightarrow> if s = [] then d else s)"

lemma walk_self: "m \<in> set (walk m)"
  by (cases m rule: walk.cases) simp_all

end
