(* ===== verification/Api_Scope.thy ===== *)
theory Api_Scope
  imports Apikeys Webhooks Mime
begin

text \<open>
  \<open>src/src/lightr/api/auth.py\<close> and the handlers of \<open>src/src/lightr/api/app.py\<close> that decide what a
  key may see: the principal's scope, \<open>authenticate\<close>, and the listings whose result depends on it. A request is the headers and path parts a handler reads; an
  \<open>AuthError\<close> is a left result with its status.
\<close>

section \<open>Principals\<close>

datatype api_error =
    AuthError int
  | RepoError repo_error
  | ValueFault               \<comment> \<open>a \<open>ValueError\<close>, Pydantic's \<open>ValidationError\<close> among them\<close>
  | KeyFault key_error
  | HookFault webhook_error
  | Unhandled                \<comment> \<open>any other exception: the server answers 500\<close>

text \<open>The status the middleware of \<open>create_app\<close> answers for an exception.\<close>

fun error_status :: "api_error \<Rightarrow> int" where
  "error_status (AuthError n) = n"
| "error_status (RepoError (NotFoundError _ _)) = 404"
| "error_status (RepoError _) = 409"
| "error_status ValueFault = 400"
| "error_status (KeyFault _) = 409"
| "error_status (HookFault WebhookConflict) = 409"
| "error_status (HookFault _) = 400"
| "error_status Unhandled = 500"

definition is_admin :: "api_key \<Rightarrow> bool" where
  "is_admin k \<longleftrightarrow> k_type k = ADMIN_KEY \<or> ADMIN \<in> set (k_permissions k)"

definition require_permission :: "permission \<Rightarrow> api_key \<Rightarrow> api_error + unit" where
  "require_permission p k = (if \<not> allows k p then Inl (AuthError 403) else Inr ())"

definition require_admin :: "api_key \<Rightarrow> api_error + unit" where
  "require_admin k = (if \<not> is_admin k then Inl (AuthError 403) else Inr ())"

definition scoped_org :: "api_key \<Rightarrow> uuid option" where
  "scoped_org k = (if is_admin k then None else k_organization_id k)"

definition may_reach_org :: "api_key \<Rightarrow> uuid \<Rightarrow> bool" where
  "may_reach_org k org = (if is_admin k then True else k_organization_id k = Some org)"

definition may_reach_domain :: "api_key \<Rightarrow> uuid \<Rightarrow> uuid \<Rightarrow> bool" where
  "may_reach_domain k did org =
    (if is_admin k then True
     else case k_domain_id k of Some d \<Rightarrow> d = did | None \<Rightarrow> k_organization_id k = Some org)"

definition may_reach_account :: "api_key \<Rightarrow> uuid \<Rightarrow> bool" where
  "may_reach_account k acc =
    (if is_admin k then True else case k_account_id k of Some a \<Rightarrow> a = acc | None \<Rightarrow> True)"

record http_request =
  rq_api_key :: "string option"
  rq_authorization :: string
  rq_forwarded_for :: "string option"
  rq_client_host :: "string option"

definition extract_secret :: "http_request \<Rightarrow> string option" where
  "extract_secret r =
    (case rq_api_key r of
       Some h \<Rightarrow> if h \<noteq> [] then Some (strip h) else
         (let (scheme, _, value) = partition_char CHR '' '' (rq_authorization r)
          in if lower scheme = ''bearer'' \<and> value \<noteq> [] then Some (strip value) else None)
     | None \<Rightarrow>
         (let (scheme, _, value) = partition_char CHR '' '' (rq_authorization r)
          in if lower scheme = ''bearer'' \<and> value \<noteq> [] then Some (strip value) else None))"

definition client_ip :: "http_request \<Rightarrow> string option" where
  "client_ip r =
    (case rq_forwarded_for r of
       Some f \<Rightarrow> if f \<noteq> [] then Some (strip (after_last CHR '','' f)) else rq_client_host r
     | None \<Rightarrow> rq_client_host r)"

definition authenticate_request :: "(string \<Rightarrow> string) \<Rightarrow> http_request \<Rightarrow> instant \<Rightarrow> key_table \<Rightarrow> api_error + api_key" where
  "authenticate_request sha r now keys =
    (case extract_secret r of
       None \<Rightarrow> Inl (AuthError 401)
     | Some secret \<Rightarrow>
       if secret = [] then Inl (AuthError 401)
       else case verify sha secret (client_ip r) now keys of
              None \<Rightarrow> Inl (AuthError 401) | Some k \<Rightarrow> Inr k)"

section \<open>Handlers\<close>

abbreviation lift_repo :: "repo_error + 'a \<Rightarrow> api_error + 'a" where
  "lift_repo r \<equiv> (case r of Inl e \<Rightarrow> Inl (RepoError e) | Inr x \<Rightarrow> Inr x)"

definition list_orgs :: "api_key \<Rightarrow> database \<Rightarrow> api_error + organization list" where
  "list_orgs k db =
    bind_res (require_permission READ k) (\<lambda>_.
      case scoped_org k of
        Some org \<Rightarrow> bind_res (lift_repo (org_resolve (uuid_str org) db)) (\<lambda>og. Inr [og])
      | None \<Rightarrow> if \<not> is_admin k then Inr [] else Inr (org_list 100 0 db))"

definition get_org :: "api_key \<Rightarrow> string \<Rightarrow> database \<Rightarrow> api_error + organization" where
  "get_org k ref db =
    bind_res (require_permission READ k) (\<lambda>_.
    bind_res (lift_repo (org_resolve ref db)) (\<lambda>og.
      if \<not> may_reach_org k (o_id og) then Inl (AuthError 403) else Inr og))"

definition list_domains :: "api_key \<Rightarrow> string option \<Rightarrow> database \<Rightarrow> api_error + domain list" where
  "list_domains k org_ref db =
    bind_res (require_permission READ k) (\<lambda>_.
      if truthy org_ref
      then bind_res (lift_repo (org_resolve (the org_ref) db)) (\<lambda>og.
             if \<not> may_reach_org k (o_id og) then Inl (AuthError 403)
             else Inr (domain_list (Some (o_id og)) 100 db))
      else if is_admin k then Inr (domain_list (scoped_org k) 100 db)
      else case k_domain_id k of
             Some did \<Rightarrow> bind_res (lift_repo (domain_resolve (uuid_str did) db)) (\<lambda>d. Inr [d])
           | None \<Rightarrow>
             (case k_account_id k of
                Some aid \<Rightarrow> bind_res (lift_repo (account_resolve (uuid_str aid) db)) (\<lambda>a.
                  bind_res (lift_repo (domain_resolve (uuid_str (a_domain_id a)) db)) (\<lambda>d. Inr [d]))
              | None \<Rightarrow> if scoped_org k = None then Inr [] else Inr (domain_list (scoped_org k) 100 db)))"

text \<open>
  \<open>create_domain\<close>: the organization the new domain goes to. (The database may gain the default
  organization.)
\<close>

definition create_domain_org ::
  "api_key \<Rightarrow> string option \<Rightarrow> uuid \<Rightarrow> instant \<Rightarrow> database \<Rightarrow> api_error + organization \<times> database" where
  "create_domain_org k org_ref fresh now db =
    bind_res (require_permission WRITE k) (\<lambda>_.
      if truthy org_ref
      then bind_res (lift_repo (org_resolve (the org_ref) db)) (\<lambda>og.
             if \<not> may_reach_org k (o_id og) then Inl (AuthError 403) else Inr (og, db))
      else case scoped_org k of
             Some org \<Rightarrow> bind_res (lift_repo (org_resolve (uuid_str org) db)) (\<lambda>og. Inr (og, db))
           | None \<Rightarrow> lift_repo (org_default fresh now db))"

definition get_domain :: "api_key \<Rightarrow> string \<Rightarrow> database \<Rightarrow> api_error + domain" where
  "get_domain k ref db =
    bind_res (require_permission READ k) (\<lambda>_.
    bind_res (lift_repo (domain_resolve ref db)) (\<lambda>d.
      if \<not> may_reach_domain k (d_id d) (d_org_id d) then Inl (AuthError 403) else Inr d))"

text \<open>
  A domain that still has accounts is answered with a 409 that the handler returns, so nothing is rolled back:
  the answer is the number of accounts left, or none for the 204 after a removal.
\<close>

definition delete_domain :: "api_key \<Rightarrow> string \<Rightarrow> database \<Rightarrow> api_error + nat option \<times> database" where
  "delete_domain k ref db =
    bind_res (require_permission WRITE k) (\<lambda>_.
    bind_res (lift_repo (domain_resolve ref db)) (\<lambda>d.
      if \<not> may_reach_domain k (d_id d) (d_org_id d) then Inl (AuthError 403)
      else let remaining = account_count (Some (d_id d)) db
           in if remaining \<noteq> 0 then Inr (Some remaining, db)
              else bind_res (lift_repo (domain_delete (d_id d) db)) (\<lambda>db'. Inr (None, db'))))"

definition visible_domains :: "api_key \<Rightarrow> string option \<Rightarrow> database \<Rightarrow> api_error + uuid list option" where
  "visible_domains k domain_ref db =
    (if truthy domain_ref
     then bind_res (lift_repo (domain_resolve (the domain_ref) db)) (\<lambda>d.
            if \<not> may_reach_domain k (d_id d) (d_org_id d) then Inl (AuthError 403) else Inr (Some [d_id d]))
     else if k_domain_id k \<noteq> None \<and> \<not> is_admin k then Inr (Some [the (k_domain_id k)])
     else case scoped_org k of
            Some org \<Rightarrow> Inr (Some (map d_id (domain_list (Some org) 100 db)))
          | None \<Rightarrow> if is_admin k then Inr None else Inr (Some []))"

definition reach_account :: "api_key \<Rightarrow> account \<Rightarrow> database \<Rightarrow> api_error + unit" where
  "reach_account k a db =
    bind_res (lift_repo (domain_resolve (uuid_str (a_domain_id a)) db)) (\<lambda>d.
      if \<not> (may_reach_account k (a_id a) \<and> may_reach_domain k (d_id d) (d_org_id d)) then Inl (AuthError 403)
      else Inr ())"

definition list_api_keys :: "api_key \<Rightarrow> key_table \<Rightarrow> api_error + api_key list" where
  "list_api_keys k keys =
    bind_res (require_permission READ k) (\<lambda>_. Inr (key_list (scoped_org k) 100 keys))"

definition list_webhooks :: "api_key \<Rightarrow> webhook_db \<Rightarrow> api_error + webhook list" where
  "list_webhooks k wdb =
    bind_res (require_permission READ k) (\<lambda>_.
      let hooks = webhook_list (scoped_org k) 100 wdb
      in Inr (if is_admin k then hooks else filter (\<lambda>w. w_organization_id w \<noteq> None) hooks))"

definition reachable_webhook :: "api_key \<Rightarrow> string \<Rightarrow> webhook_db \<Rightarrow> api_error + webhook" where
  "reachable_webhook k ref wdb =
    bind_res (lift_repo (webhook_resolve ref wdb)) (\<lambda>w.
      if is_admin k then Inr w
      else if w_organization_id w = None \<or> w_organization_id w \<noteq> k_organization_id k then Inl (AuthError 403)
      else Inr w)"

text \<open>\<open>create_webhook\<close>: the organization the new webhook belongs to.\<close>

definition create_webhook_org :: "api_key \<Rightarrow> string option \<Rightarrow> database \<Rightarrow> api_error + uuid option" where
  "create_webhook_org k org_ref db =
    bind_res (require_permission WRITE k) (\<lambda>_.
      case scoped_org k of
        Some org \<Rightarrow> Inr (Some org)
      | None \<Rightarrow> if truthy org_ref
                then bind_res (lift_repo (org_resolve (the org_ref) db)) (\<lambda>og. Inr (Some (o_id og)))
                else Inr None)"

section \<open>Confinement, and where it fails\<close>

lemma org_resolve_id:
  "valid_uuid i \<Longrightarrow> org_resolve (uuid_str i) db = Inr og \<Longrightarrow> o_id og = i \<and> og \<in> set (organizations db)"
  by (auto simp: org_resolve_def split: option.splits dest!: first_row_filterD)

lemma org_resolve_by_id:
  "db_ok db \<Longrightarrow> og \<in> set (organizations db) \<Longrightarrow> valid_uuid (o_id og) \<Longrightarrow> org_resolve (uuid_str (o_id og)) db = Inr og"
  using first_row_by_key [OF db_okD(1)] by (simp add: org_resolve_def)

lemma in_key_list: "k \<in> set (key_list org n t) \<Longrightarrow> k \<in> set t \<and> (org = None \<or> k_organization_id k = org)"
  by (auto simp: key_list_def dest!: in_set_takeD)

lemma in_domain_list: "d \<in> set (domain_list (Some o') n db) \<Longrightarrow> d \<in> set (domains db) \<and> d_org_id d = o'"
  by (auto simp: domain_list_def dest!: in_set_takeD)

lemma in_webhook_list:
  "w \<in> set (webhook_list org n db) \<Longrightarrow> org = None \<or> w_organization_id w = org \<or> w_organization_id w = None"
  by (auto simp: webhook_list_def webhook_model_def dest!: in_set_takeD)

lemma lift_repo_Inr [simp]: "lift_repo r = Inr x \<longleftrightarrow> r = Inr x"
  by (cases r) simp_all

text \<open>
  A key confined to one organization sees only that organization: whatever it lists of
  organizations, domains, API keys and webhooks belongs to it, and no reference it passes makes
  a difference.
\<close>

theorem org_key_sees_only_its_org:
  assumes "\<not> is_admin k" and "k_organization_id k = Some org" and "valid_uuid org"
    and "k_domain_id k = None" and "k_account_id k = None"
  shows "(\<forall>gs. list_orgs k db = Inr gs \<longrightarrow> (\<forall>g \<in> set gs. o_id g = org)) \<and>
    (\<forall>ds. list_domains k ref db = Inr ds \<longrightarrow> (\<forall>d \<in> set ds. d_org_id d = org)) \<and>
    (\<forall>ks. list_api_keys k keys = Inr ks \<longrightarrow> (\<forall>x \<in> set ks. k_organization_id x = Some org)) \<and>
    (\<forall>ws. list_webhooks k wdb = Inr ws \<longrightarrow> (\<forall>w \<in> set ws. w_organization_id w = Some org)) \<and>
    (\<forall>d. get_domain k ref2 db = Inr d \<longrightarrow> d_org_id d = org)"
proof (intro conjI allI impI ballI)
  have so: "scoped_org k = Some org" using assms by (simp add: scoped_org_def)
  show "o_id g = org" if "list_orgs k db = Inr gs" "g \<in> set gs" for gs g
    using that so org_resolve_id [OF assms(3)] by (auto simp: list_orgs_def res_simps)
  show "d_org_id d = org" if "list_domains k ref db = Inr ds" "d \<in> set ds" for ds d
    using that so assms by (auto simp: list_domains_def res_simps may_reach_org_def split: if_splits dest!: in_domain_list)
  show "k_organization_id x = Some org" if "list_api_keys k keys = Inr ks" "x \<in> set ks" for ks x
    using that so by (auto simp: list_api_keys_def res_simps dest!: in_key_list)
  show "w_organization_id w = Some org" if "list_webhooks k wdb = Inr ws" "w \<in> set ws" for ws w
    using that so assms(1) by (auto simp: list_webhooks_def res_simps Let_def dest!: in_webhook_list)
  show "d_org_id d = org" if "get_domain k ref2 db = Inr d" for d
    using that assms by (auto simp: get_domain_def res_simps may_reach_domain_def split: if_splits)
qed

definition org_key :: api_key where
  "org_key = (sample_key 1 ORG_KEY ''h1'')\<lparr>k_organization_id := Some 1, k_domain_id := None\<rparr>"

lemma org_key_sees_only_its_org_witness:
  "\<exists>x. list_api_keys org_key [org_key, sample_key 2 DOMAIN_KEY ''h2''] = Inr [x] \<and> k_organization_id x = Some 1"
proof -
  have k: "\<not> is_admin org_key" "k_organization_id org_key = Some 1" "valid_uuid 1"
    "k_domain_id org_key = None" "k_account_id org_key = None"
    by (simp_all add: org_key_def sample_key_def is_admin_def valid_uuid_def)
  have run: "list_api_keys org_key [org_key, sample_key 2 DOMAIN_KEY ''h2''] = Inr [org_key]" by code_simp
  with org_key_sees_only_its_org [OF k] have "k_organization_id org_key = Some 1" by (metis list.set_intros(1))
  with run show ?thesis by blast
qed

text \<open>
  A domain or account key recorded without an organization (what the command line and the
  session endpoint create) is not confined: with the read permission it lists every API key on
  the server and every tenant's webhooks, because \<open>scoped_org()\<close> is \<open>None\<close> for it as for an
  admin.
\<close>

theorem unscoped_key_lists_every_tenant:
  assumes "\<not> is_admin k" and "k_organization_id k = None" and "allows k READ"
  shows "list_api_keys k keys = Inr (key_list None 100 keys) \<and>
    (length keys \<le> 100 \<longrightarrow> set (key_list None 100 keys) = set keys) \<and>
    (length (wd_webhooks wdb) \<le> 100 \<longrightarrow>
      (\<exists>ws. list_webhooks k wdb = Inr ws \<and>
        (\<forall>w \<in> set (wd_webhooks wdb). w_organization_id w \<noteq> None \<longrightarrow> webhook_model w \<in> set ws)))"
proof -
  have so: "scoped_org k = None" using assms by (simp add: scoped_org_def)
  have keys: "set (key_list None 100 keys) = set keys" if "length keys \<le> 100"
    using that by (simp add: key_list_def)
  have hooks: "webhook_list None 100 wdb = map webhook_model (sort_key w_name (wd_webhooks wdb))"
    if "length (wd_webhooks wdb) \<le> 100" using that by (simp add: webhook_list_def)
  have m: "w_organization_id (webhook_model w) = w_organization_id w" for w by (simp add: webhook_model_def)
  show ?thesis
    using so assms keys hooks
    by (auto simp: list_api_keys_def list_webhooks_def require_permission_def Let_def m)
qed

lemma unscoped_key_lists_every_tenant_witness:
  "list_api_keys (sample_key 2 DOMAIN_KEY ''h2'') [org_key, sample_key 2 DOMAIN_KEY ''h2''] =
    Inr (key_list None 100 [org_key, sample_key 2 DOMAIN_KEY ''h2''])"
proof -
  have "\<not> is_admin (sample_key 2 DOMAIN_KEY ''h2'')" "k_organization_id (sample_key 2 DOMAIN_KEY ''h2'') = None"
    "allows (sample_key 2 DOMAIN_KEY ''h2'') READ"
    by (simp_all add: sample_key_def is_admin_def allows_def)
  from unscoped_key_lists_every_tenant [OF this, of "[org_key, sample_key 2 DOMAIN_KEY ''h2'']"] show ?thesis by blast
qed

text \<open>
  Such a key may also create: a webhook in any organization it names, or in none, which
  then hears the events of every tenant; and a domain in the default organization. The handlers
  that name one domain or account do check the key's scope.
\<close>

theorem unscoped_key_creates_anywhere:
  assumes "\<not> is_admin k" and "k_organization_id k = None" and "allows k WRITE"
    and "db_ok db" and "og \<in> set (organizations db)" and "valid_uuid (o_id og)"
  shows "create_webhook_org k (Some (uuid_str (o_id og))) db = Inr (Some (o_id og)) \<and>
    create_webhook_org k None db = Inr None \<and>
    create_domain_org k None fresh now db = lift_repo (org_default fresh now db)"
proof -
  have so: "scoped_org k = None" using assms by (simp add: scoped_org_def)
  have "uuid_str (o_id og) \<noteq> []" by (simp add: uuid_str_def Let_def)
  then show ?thesis
    using so assms(3) org_resolve_by_id [OF assms(4-6)]
    by (simp add: create_webhook_org_def create_domain_org_def require_permission_def truthy_def)
qed

lemma unscoped_key_creates_anywhere_witness:
  "create_webhook_org (sample_key 2 DOMAIN_KEY ''h2'') (Some (uuid_str 1)) sample_db = Inr (Some 1)"
proof -
  have k: "\<not> is_admin (sample_key 2 DOMAIN_KEY ''h2'')" "k_organization_id (sample_key 2 DOMAIN_KEY ''h2'') = None"
    "allows (sample_key 2 DOMAIN_KEY ''h2'') WRITE"
    by (simp_all add: sample_key_def is_admin_def allows_def)
  have g: "\<lparr>o_id = 1, o_name = ''acme'', o_created_at = 0\<rparr> \<in> set (organizations sample_db)"
    by (simp add: sample_db_def)
  show ?thesis using unscoped_key_creates_anywhere [OF k sample_db_ok g] by (simp add: valid_uuid_def)
qed

text \<open>
  The caller's address is what \<open>X-Forwarded-For\<close> says whenever the header is there, with or
  without a proxy: a request that connects from anywhere passes a key's address list by naming
  an address on it.
\<close>

lemma forwarded_for_is_trusted:
  assumes "f \<noteq> []" and "CHR '','' \<notin> set f"
  shows "client_ip \<lparr>rq_api_key = a, rq_authorization = z, rq_forwarded_for = Some f, rq_client_host = h\<rparr> = Some (strip f)"
proof -
  have "\<forall>x \<in> set (rev f). x \<noteq> CHR '',''" using assms(2) by auto
  then have "takeWhile (\<lambda>x. x \<noteq> CHR '','') (rev f) = rev f" unfolding takeWhile_eq_all_conv .
  then have "after_last CHR '','' f = f" by (simp only: after_last_def rev_rev_ident)
  then show ?thesis using assms(1) by (simp add: client_ip_def)
qed

end
