(* ===== verification/Json.thy ===== *)
theory Json
  imports Complex_Main Py_Text
begin

text \<open>
  A JSON document as Python reads it, an object as its dictionary, and the conversions the program
  applies to one: the truth of a value, \<open>str\<close> of it (\<open>shown\<close> gives the text of a value that is no
  string), and what Pydantic makes of it for a field of type \<open>str\<close>, \<open>str | None\<close> or \<open>int | None\<close>
  (\<open>read_int\<close> is its reading of a float or a text as an integer).
\<close>

datatype json =
    JNull
  | JBool bool
  | JInt int
  | JFloat rat
  | JStr string
  | JList "json list"
  | JObj "(string \<times> json) list"

type_synonym json_object = "(string, json) dict"

fun json_truthy :: "json \<Rightarrow> bool" where
  "json_truthy JNull = False"
| "json_truthy (JBool b) = b"
| "json_truthy (JInt n) = (n \<noteq> 0)"
| "json_truthy (JFloat x) = (x \<noteq> 0)"
| "json_truthy (JStr s) = (s \<noteq> [])"
| "json_truthy (JList xs) = (xs \<noteq> [])"
| "json_truthy (JObj d) = (d \<noteq> [])"

text \<open>\<open>d.get(k)\<close>: a missing key and a null look alike.\<close>

definition json_get :: "string \<Rightarrow> json_object \<Rightarrow> json" where
  "json_get k d = (case map_of d k of Some v \<Rightarrow> v | None \<Rightarrow> JNull)"

definition json_or :: "json \<Rightarrow> json \<Rightarrow> json" where
  "json_or v w = (if json_truthy v then v else w)"

definition json_text :: "(json \<Rightarrow> string) \<Rightarrow> json \<Rightarrow> string" where
  "json_text shown v = (case v of JStr s \<Rightarrow> s | _ \<Rightarrow> shown v)"

definition json_missing :: "string list \<Rightarrow> json_object \<Rightarrow> string list" where
  "json_missing names body = filter (\<lambda>n. \<not> json_truthy (json_get n body)) names"

definition json_unknown :: "string list \<Rightarrow> json_object \<Rightarrow> string list" where
  "json_unknown allowed body = filter (\<lambda>k. k \<notin> set allowed) (map fst body)"

definition is_json_bool :: "json \<Rightarrow> bool" where
  "is_json_bool v = (case v of JBool _ \<Rightarrow> True | _ \<Rightarrow> False)"

text \<open>Fields: the left result stands for a \<open>ValidationError\<close>.\<close>

definition str_field :: "json \<Rightarrow> unit + string" where
  "str_field v = (case v of JStr s \<Rightarrow> Inr s | _ \<Rightarrow> Inl ())"

definition opt_str_field :: "json \<Rightarrow> unit + string option" where
  "opt_str_field v = (case v of JNull \<Rightarrow> Inr None | JStr s \<Rightarrow> Inr (Some s) | _ \<Rightarrow> Inl ())"

definition opt_int_field :: "(json \<Rightarrow> int option) \<Rightarrow> json \<Rightarrow> unit + int option" where
  "opt_int_field read_int v =
    (case v of
       JNull \<Rightarrow> Inr None
     | JInt n \<Rightarrow> Inr (Some n)
     | JBool b \<Rightarrow> Inr (Some (if b then 1 else 0))
     | JFloat x \<Rightarrow> (case read_int v of Some n \<Rightarrow> Inr (Some n) | None \<Rightarrow> Inl ())
     | JStr s \<Rightarrow> (case read_int v of Some n \<Rightarrow> Inr (Some n) | None \<Rightarrow> Inl ())
     | _ \<Rightarrow> Inl ())"

lemma json_get_simps [simp]:
  "json_get k [] = JNull"
  "json_get k ((k', v) # d) = (if k' = k then v else json_get k d)"
  by (simp_all add: json_get_def)

lemma json_text_str [simp]: "json_text shown (JStr s) = s"
  by (simp add: json_text_def)

lemma json_missing_Nil: "json_missing names body = [] \<longleftrightarrow> (\<forall>n \<in> set names. json_truthy (json_get n body))"
  by (auto simp: json_missing_def filter_empty_conv)

lemma str_field_Inr [res_simps]: "str_field v = Inr s \<longleftrightarrow> v = JStr s"
  by (auto simp: str_field_def split: json.splits)

end
