(* ===== verification/Providers.thy ===== *)
theory Providers
  imports Json Webhooks
begin

text \<open>
  \<open>src/src/lightr/authproviders/\<close>: the three providers that answer for accounts whose credentials
  live elsewhere, the table they are configured in, and how they are asked. The network is the
  record \<open>outside_auth\<close>; whatever a provider raises, a \<open>ProviderError\<close> or not, is an answer \<open>Fails\<close>,
  because \<open>authenticate\<close> in \<open>registry.py\<close> catches both alike.
\<close>

section \<open>\<open>base.py\<close>\<close>

datatype provider_error =
    ConfigNeeds string
  | NotImplementedKind string
  | BadTimeout
  | NoAnswerInTime
  | UrlRefused ssrf_error
  | ProviderUnreachable
  | HttpStatus int
  | NotJson
  | NotAnObject
  | NoIdentifyingClaim
  | StartTlsFailed
  | ServiceBindFailed string
  | SearchFailed
  | ManyEntries nat
  | BindFailed string
  | Raised                    \<comment> \<open>any other exception\<close>

record identity =
  id_username :: string
  id_external_id :: "string option"
  id_display_name :: "string option"
  id_groups :: "string list"

datatype answer = Accepts identity | Refuses | Fails provider_error

record provider =
  pv_name :: string
  pv_kind :: string
  pv_config :: json_object
  pv_timeout :: rat

definition DEFAULT_TIMEOUT :: rat where "DEFAULT_TIMEOUT = 5"

definition SECRET_KEYS :: "string list" where
  "SECRET_KEYS = [''bind_password'', ''client_secret'', ''secret'', ''password'', ''api_key'', ''token'']"

record http_reply =
  hr_status :: int
  hr_json :: "json option"    \<comment> \<open>\<open>response.json()\<close>, \<open>None\<close> when it raises\<close>

record http_call =
  hc_method :: string
  hc_target :: vetted_target
  hc_headers :: "(string, string) dict"
  hc_data :: "(string, string) dict"
  hc_content :: string
  hc_auth :: "(string \<times> string) option"

datatype bind_result = Bound | NotBound string | BindRaises

record ldap_entry =
  le_dn :: string
  le_attributes :: json_object

text \<open>
  \<open>oa_late\<close> says that a provider did not answer within its timeout; \<open>oa_http\<close> is \<open>httpx\<close>, \<open>None\<close> for an
  exception; the last three are \<open>ldap3\<close>: \<open>start_tls\<close>, a bind as a user with a password, and a search
  (base, filter, attributes), \<open>None\<close> when it fails.
\<close>

record outside_auth =
  oa_shown :: "json \<Rightarrow> string"
  oa_late :: "provider \<Rightarrow> string \<Rightarrow> string \<Rightarrow> bool"
  oa_resolve :: "string \<Rightarrow> nat \<Rightarrow> string list option"
  oa_http :: "http_call \<Rightarrow> http_reply option"
  oa_hmac :: "string \<Rightarrow> string \<Rightarrow> string"
  oa_dumps :: "json \<Rightarrow> string"
  oa_timestamp :: string
  oa_start_tls :: "provider \<Rightarrow> bool"
  oa_bind :: "provider \<Rightarrow> string option \<Rightarrow> string option \<Rightarrow> bind_result"
  oa_search :: "provider \<Rightarrow> string \<Rightarrow> string \<Rightarrow> string list \<Rightarrow> ldap_entry list option"

definition required :: "(json \<Rightarrow> string) \<Rightarrow> provider \<Rightarrow> string \<Rightarrow> provider_error + string" where
  "required shown p key =
    (let value = json_get key (pv_config p)
     in if \<not> json_truthy value then Inl (ConfigNeeds key) else Inr (json_text shown value))"

definition optional :: "(json \<Rightarrow> string) \<Rightarrow> provider \<Rightarrow> string \<Rightarrow> string option" where
  "optional shown p key =
    (let value = json_get key (pv_config p)
     in if json_truthy value then Some (json_text shown value) else None)"

definition redact :: "json_object \<Rightarrow> json_object" where
  "redact config = map (\<lambda>(k, v). (k, if lower k \<in> set SECRET_KEYS \<and> json_truthy v then JStr ''(set)'' else v)) config"

text \<open>\<open>_string\<close>, and the elements of an iterable (\<open>None\<close>: not iterable).\<close>

definition opt_string :: "(json \<Rightarrow> string) \<Rightarrow> json \<Rightarrow> string option" where
  "opt_string shown v = (if v = JNull \<or> v = JStr [] then None else Some (json_text shown v))"

definition json_items :: "json \<Rightarrow> json list option" where
  "json_items v =
    (case v of
       JList xs \<Rightarrow> Some xs
     | JStr s \<Rightarrow> Some (map (\<lambda>c. JStr [c]) s)
     | JObj d \<Rightarrow> Some (map (JStr \<circ> fst) d)
     | _ \<Rightarrow> if json_truthy v then None else Some [])"

definition identity_of :: "(json \<Rightarrow> string) \<Rightarrow> string \<Rightarrow> json \<Rightarrow> json \<Rightarrow> json \<Rightarrow> answer" where
  "identity_of shown name ext display groups =
    (case json_items groups of
       None \<Rightarrow> Fails Raised
     | Some gs \<Rightarrow> Accepts \<lparr>id_username = name, id_external_id = opt_string shown ext,
         id_display_name = opt_string shown display, id_groups = map (json_text shown) gs\<rparr>)"

section \<open>\<open>webhook.py\<close>\<close>

definition webhook_read :: "(json \<Rightarrow> string) \<Rightarrow> string \<Rightarrow> http_reply \<Rightarrow> answer" where
  "webhook_read shown username r =
    (if hr_status r = 401 \<or> hr_status r = 403 then Refuses
     else if 300 \<le> hr_status r \<or> hr_status r < 200 then Fails (HttpStatus (hr_status r))
     else case hr_json r of
            None \<Rightarrow> Fails NotJson
          | Some (JObj payload) \<Rightarrow>
            let ok = json_get ''ok'' payload;
                status = (case map_of payload ''status'' of None \<Rightarrow> [] | Some v \<Rightarrow> json_text shown v);
                accepted = (if ok = JNull then lower status \<in> {''ok'', ''success''} else json_truthy ok)
            in if \<not> accepted then Refuses
               else identity_of shown
                 (json_text shown (json_or (json_get ''username'' payload) (JStr username)))
                 (json_or (json_get ''id'' payload) (json_get ''external_id'' payload))
                 (json_or (json_get ''display_name'' payload) (json_get ''name'' payload))
                 (json_get ''groups'' payload)
          | Some _ \<Rightarrow> Fails NotAnObject)"

definition webhook_ask :: "outside_auth \<Rightarrow> provider \<Rightarrow> string \<Rightarrow> string \<Rightarrow> answer" where
  "webhook_ask out p username password =
    (case required (oa_shown out) p ''url'' of
       Inl e \<Rightarrow> Fails e
     | Inr url \<Rightarrow>
       case vet (oa_resolve out) url (json_truthy (json_get ''allow_private'' (pv_config p))) of
         Inl e \<Rightarrow> Fails (UrlRefused e)
       | Inr target \<Rightarrow>
         let body = oa_dumps out (JObj [(''username'', JStr username), (''password'', JStr password)]);
             headers = [(''Content-Type'', ''application/json''), (''User-Agent'', ''lightr-auth/1''),
               (''X-Lightr-Timestamp'', oa_timestamp out), (''Host'', vt_host target)];
             signature = (case optional (oa_shown out) p ''secret'' of
                 None \<Rightarrow> []
               | Some s \<Rightarrow> [(''X-Lightr-Signature'', sign_payload (oa_hmac out) s (oa_timestamp out) body)])
         in case oa_http out \<lparr>hc_method = ''POST'', hc_target = target, hc_headers = headers @ signature,
                   hc_data = [], hc_content = body, hc_auth = None\<rparr> of
              None \<Rightarrow> Fails ProviderUnreachable
            | Some r \<Rightarrow> webhook_read (oa_shown out) username r)"

section \<open>\<open>oidc.py\<close>\<close>

definition IDENTITY_CLAIMS :: "string list" where
  "IDENTITY_CLAIMS = [''email'', ''preferred_username'', ''username'', ''upn'', ''sub'']"

text \<open>\<open>_request\<close>: the left result is an answer already, the right one the payload.\<close>

definition oidc_request ::
  "outside_auth \<Rightarrow> provider \<Rightarrow> string \<Rightarrow> string \<Rightarrow> bool \<Rightarrow> (string, string) dict \<Rightarrow> (string, string) dict \<Rightarrow>
   (string \<times> string) option \<Rightarrow> answer + json_object" where
  "oidc_request out p method url unauthorized_is_refusal headers data auth =
    (case vet (oa_resolve out) url (json_truthy (json_get ''allow_private'' (pv_config p))) of
       Inl e \<Rightarrow> Inl (Fails (UrlRefused e))
     | Inr target \<Rightarrow>
       (case oa_http out \<lparr>hc_method = method, hc_target = target,
               hc_headers = AList.update ''Host'' (vt_host target) headers @ [(''Accept'', ''application/json'')],
               hc_data = data, hc_content = [], hc_auth = auth\<rparr> of
          None \<Rightarrow> Inl (Fails ProviderUnreachable)
        | Some r \<Rightarrow>
          if hr_status r = 401 \<and> unauthorized_is_refusal then Inl Refuses
          else if 300 \<le> hr_status r then Inl (Fails (HttpStatus (hr_status r)))
          else (case hr_json r of
                  None \<Rightarrow> Inl (Fails NotJson)
                | Some (JObj payload) \<Rightarrow> Inr payload
                | Some _ \<Rightarrow> Inl (Fails NotAnObject))))"

definition lift_config :: "provider_error + 'a \<Rightarrow> answer + 'a" where
  "lift_config r = (case r of Inl e \<Rightarrow> Inl (Fails e) | Inr x \<Rightarrow> Inr x)"

definition oidc_introspect :: "outside_auth \<Rightarrow> provider \<Rightarrow> string \<Rightarrow> answer + json_object" where
  "oidc_introspect out p token =
    bind_res (lift_config (required (oa_shown out) p ''introspection_url'')) (\<lambda>url.
    bind_res (lift_config (required (oa_shown out) p ''client_id'')) (\<lambda>client_id.
    bind_res (lift_config (required (oa_shown out) p ''client_secret'')) (\<lambda>client_secret.
    bind_res (oidc_request out p ''POST'' url False []
        [(''token'', token), (''token_type_hint'', ''access_token'')] (Some (client_id, client_secret))) (\<lambda>payload.
      if \<not> json_truthy (json_get ''active'' payload) then Inl Refuses else Inr payload))))"

definition oidc_userinfo :: "outside_auth \<Rightarrow> provider \<Rightarrow> string \<Rightarrow> answer + json_object" where
  "oidc_userinfo out p token =
    bind_res (lift_config (required (oa_shown out) p ''userinfo_url'')) (\<lambda>url.
      oidc_request out p ''GET'' url True [(''Authorization'', ''Bearer '' @ token)] [] None)"

definition oidc_claims :: "outside_auth \<Rightarrow> provider \<Rightarrow> string \<Rightarrow> answer + json_object" where
  "oidc_claims out p token =
    (if json_truthy (json_get ''introspection_url'' (pv_config p)) then oidc_introspect out p token
     else if json_truthy (json_get ''userinfo_url'' (pv_config p)) then oidc_userinfo out p token
     else Inl (Fails (ConfigNeeds ''userinfo_url'')))"

definition oidc_match :: "(json \<Rightarrow> string) \<Rightarrow> provider \<Rightarrow> string \<Rightarrow> json_object \<Rightarrow> answer" where
  "oidc_match shown p username claims =
    (let names = (case optional shown p ''username_claim'' of Some n \<Rightarrow> if n = [] then IDENTITY_CLAIMS else [n]
                  | None \<Rightarrow> IDENTITY_CLAIMS);
         found = map (\<lambda>n. lower (strip (json_text shown (json_get n claims))))
                   (filter (\<lambda>n. n \<noteq> [] \<and> json_truthy (json_get n claims)) names)
     in if found = [] then Fails NoIdentifyingClaim
        else if lower (strip username) \<notin> set found then Refuses
        else identity_of shown username (json_get ''sub'' claims)
               (json_or (json_get ''name'' claims) (json_get ''given_name'' claims)) (json_get ''groups'' claims))"

definition oidc_validate :: "outside_auth \<Rightarrow> provider \<Rightarrow> string \<Rightarrow> string \<Rightarrow> answer" where
  "oidc_validate out p username token =
    (case oidc_claims out p token of
       Inl a \<Rightarrow> a | Inr claims \<Rightarrow> oidc_match (oa_shown out) p username claims)"

section \<open>\<open>ldap.py\<close>\<close>

text \<open>
  \<open>str.format\<close> with named fields and doubled braces; \<open>None\<close> stands for the exception of any other
  template (attribute access, conversions and format specifications are not modelled).
\<close>

function format_fields :: "(string \<times> string) list \<Rightarrow> string \<Rightarrow> string option" where
  "format_fields fs s =
    (case s of
       [] \<Rightarrow> Some []
     | c # r \<Rightarrow>
       if c = CHR ''{'' then
         (case r of
            [] \<Rightarrow> None
          | c' # r' \<Rightarrow>
            if c' = CHR ''{'' then map_option ((#) c) (format_fields fs r')
            else (case dropWhile (\<lambda>x. x \<noteq> CHR ''}'') r of
                    [] \<Rightarrow> None
                  | _ # rest \<Rightarrow>
                    (case map_of fs (takeWhile (\<lambda>x. x \<noteq> CHR ''}'') r) of
                       None \<Rightarrow> None
                     | Some v \<Rightarrow> map_option ((@) v) (format_fields fs rest))))
       else if c = CHR ''}'' then
         (case r of
            c' # r' \<Rightarrow> if c' = CHR ''}'' then map_option ((#) c) (format_fields fs r') else None
          | [] \<Rightarrow> None)
       else map_option ((#) c) (format_fields fs r))"
  by pat_completeness auto
termination
proof (relation "measure (length \<circ> snd)", goal_cases)
  case (3 fs s c r c' r' x rest)
  have "length (dropWhile (\<lambda>x. x \<noteq> CHR ''}'') r) \<le> length r" by (rule length_dropWhile_le)
  then show ?case using 3 by simp
qed simp_all

declare format_fields.simps [simp del]

definition hex2 :: "nat \<Rightarrow> string" where
  "hex2 n = [hex_char (n div 16), hex_char (n mod 16)]"

definition ldap_special :: "char \<Rightarrow> bool" where
  "ldap_special c \<longleftrightarrow> c \<in> {CHR 0x5C, CHR ''*'', CHR ''('', CHR '')'', CHR 0x00}"

definition ldap_escape :: "string \<Rightarrow> string" where
  "ldap_escape value =
    concat (map (\<lambda>c. if ldap_special c then CHR 0x5C # hex2 (of_char c) else [c]) value)"

text \<open>\<open>_attr\<close> and \<open>_attr_list\<close>: the value of an attribute, \<open>JNull\<close> when there is none.\<close>

definition ldap_attr :: "(json \<Rightarrow> string) \<Rightarrow> ldap_entry option \<Rightarrow> string \<Rightarrow> string option" where
  "ldap_attr shown entry name =
    (case entry of
       None \<Rightarrow> None
     | Some e \<Rightarrow>
       if name = [] then None
       else let v = (case json_get name (le_attributes e) of JList [] \<Rightarrow> JNull | JList (x # _) \<Rightarrow> x | x \<Rightarrow> x)
            in if json_truthy v then Some (json_text shown v) else None)"

definition ldap_attr_list :: "(json \<Rightarrow> string) \<Rightarrow> ldap_entry option \<Rightarrow> string \<Rightarrow> string list" where
  "ldap_attr_list shown entry name =
    (case entry of
       None \<Rightarrow> []
     | Some e \<Rightarrow> (case json_get name (le_attributes e) of
                    JNull \<Rightarrow> [] | JList xs \<Rightarrow> map (json_text shown) xs | v \<Rightarrow> [json_text shown v]))"

text \<open>\<open>config.get("attributes") or {}\<close>; a value that is no object is left out of the model.\<close>

definition attribute_mapping :: "provider \<Rightarrow> json_object" where
  "attribute_mapping p = (case json_get ''attributes'' (pv_config p) of JObj m \<Rightarrow> m | _ \<Rightarrow> [])"

definition wanted_attributes :: "(json \<Rightarrow> string) \<Rightarrow> provider \<Rightarrow> string list" where
  "wanted_attributes shown p =
    map (json_text shown \<circ> snd) (filter (\<lambda>(k, v). json_truthy v) (attribute_mapping p)) @ [''cn'', ''displayName'', ''mail'']"

definition mapped :: "(json \<Rightarrow> string) \<Rightarrow> provider \<Rightarrow> string \<Rightarrow> string \<Rightarrow> string" where
  "mapped shown p key default_name = json_text shown (json_or (json_get key (attribute_mapping p)) (JStr default_name))"

definition or_opt :: "string option \<Rightarrow> string option \<Rightarrow> string option" where
  "or_opt a b = (if truthy a then a else b)"

definition ldap_identity :: "(json \<Rightarrow> string) \<Rightarrow> provider \<Rightarrow> string \<Rightarrow> string \<Rightarrow> ldap_entry option \<Rightarrow> identity" where
  "ldap_identity shown p username dn entry =
    \<lparr>id_username = username,
     id_external_id = or_opt (ldap_attr shown entry (mapped shown p ''external_id'' ''entryUUID'')) (Some dn),
     id_display_name = or_opt (ldap_attr shown entry (mapped shown p ''display_name'' ''displayName''))
       (ldap_attr shown entry ''cn''),
     id_groups = (if entry \<noteq> None \<and> json_truthy (json_get ''sync_groups'' (pv_config p))
       then ldap_attr_list shown entry ''memberOf'' else [])\<rparr>"

text \<open>\<open>_connect\<close>.\<close>

definition ldap_connect :: "outside_auth \<Rightarrow> provider \<Rightarrow> answer + unit" where
  "ldap_connect out p =
    bind_res (lift_config (required (oa_shown out) p ''uri'')) (\<lambda>_.
      if json_truthy (json_get ''start_tls'' (pv_config p)) \<and> \<not> oa_start_tls out p then Inl (Fails StartTlsFailed)
      else Inr ())"

definition search_dn :: "outside_auth \<Rightarrow> provider \<Rightarrow> string \<Rightarrow> answer + (string \<times> ldap_entry option) option" where
  "search_dn out p username =
    (let shown = oa_shown out in
     bind_res (lift_config (required shown p ''base_dn'')) (\<lambda>base_dn.
     case format_fields [(''username'', ldap_escape username), (''local'', ldap_escape (fst (partition_char CHR ''@'' username)))]
            (case optional shown p ''user_filter'' of Some f \<Rightarrow> f | None \<Rightarrow> ''(mail={username})'') of
       None \<Rightarrow> Inl (Fails Raised)
     | Some query \<Rightarrow>
       bind_res (ldap_connect out p) (\<lambda>_.
       case oa_bind out p (optional shown p ''bind_dn'') (optional shown p ''bind_password'') of
         NotBound text \<Rightarrow> Inl (Fails (ServiceBindFailed text))
       | BindRaises \<Rightarrow> Inl (Fails Raised)
       | Bound \<Rightarrow>
         (case oa_search out p base_dn query (wanted_attributes shown p) of
            None \<Rightarrow> Inl (Fails SearchFailed)
          | Some [] \<Rightarrow> Inr None
          | Some [e] \<Rightarrow> Inr (Some (le_dn e, Some e))
          | Some es \<Rightarrow> Inl (Fails (ManyEntries (length es)))))))"

definition resolve_dn :: "outside_auth \<Rightarrow> provider \<Rightarrow> string \<Rightarrow> answer + (string \<times> ldap_entry option) option" where
  "resolve_dn out p username =
    (case optional (oa_shown out) p ''user_dn_template'' of
       Some t \<Rightarrow>
         (let (local, _, domain_name) = partition_char CHR ''@'' username
          in case format_fields [(''username'', username), (''local'', local), (''domain'', domain_name)] t of
               None \<Rightarrow> Inl (Fails Raised) | Some dn \<Rightarrow> Inr (Some (dn, None)))
     | None \<Rightarrow> search_dn out p username)"

definition ldap_authenticate :: "outside_auth \<Rightarrow> provider \<Rightarrow> string \<Rightarrow> string \<Rightarrow> answer" where
  "ldap_authenticate out p username password =
    (case resolve_dn out p username of
       Inl a \<Rightarrow> a
     | Inr None \<Rightarrow> Refuses
     | Inr (Some (dn, entry)) \<Rightarrow>
       (case ldap_connect out p of
          Inl a \<Rightarrow> a
        | Inr _ \<Rightarrow>
          (case oa_bind out p (Some dn) (Some password) of
             BindRaises \<Rightarrow> Fails ProviderUnreachable
           | NotBound result \<Rightarrow>
               if result = ''invalidCredentials'' \<or> result = ''insufficientAccessRights'' then Refuses
               else Fails (BindFailed result)
           | Bound \<Rightarrow> Accepts (ldap_identity (oa_shown out) p username dn entry))))"

section \<open>Asking one provider\<close>

definition bounded :: "outside_auth \<Rightarrow> provider \<Rightarrow> string \<Rightarrow> string \<Rightarrow> answer \<Rightarrow> answer" where
  "bounded out p username password a = (if oa_late out p username password then Fails NoAnswerInTime else a)"

definition ask :: "outside_auth \<Rightarrow> provider \<Rightarrow> string \<Rightarrow> string \<Rightarrow> answer" where
  "ask out p username password =
    (if pv_kind p = ''ldap'' then
       (if password = [] then Refuses else bounded out p username password (ldap_authenticate out p username password))
     else if pv_kind p = ''oidc'' \<or> pv_kind p = ''oauth2'' then
       (if password = [] then Refuses else bounded out p username password (oidc_validate out p username password))
     else bounded out p username password (webhook_ask out p username password))"

section \<open>\<open>registry.py\<close>\<close>

definition KINDS :: "string list" where "KINDS = [''ldap'', ''oidc'', ''oauth2'', ''webhook'']"

record provider_row =
  pr_id :: uuid
  pr_org_id :: "uuid option"
  pr_name :: string
  pr_kind :: string
  pr_enabled :: bool
  pr_priority :: int
  pr_config :: json_object
  pr_domains :: "string list"
  pr_is_default :: bool
  pr_auto_provision :: bool
  pr_sync_groups :: bool
  pr_sync_profile :: bool

type_synonym provider_table = "provider_row list"

definition covers :: "provider_row \<Rightarrow> string \<Rightarrow> bool" where
  "covers r domain_name \<longleftrightarrow> lower domain_name \<in> lower ` set (pr_domains r)"

text \<open>\<open>read_float\<close> is \<open>float\<close> of a text.\<close>

definition timeout_of :: "(string \<Rightarrow> rat option) \<Rightarrow> json \<Rightarrow> rat option" where
  "timeout_of read_float v =
    (if \<not> json_truthy v then Some DEFAULT_TIMEOUT
     else case v of
            JInt n \<Rightarrow> Some (of_int n) | JFloat x \<Rightarrow> Some x | JBool _ \<Rightarrow> Some 1 | JStr s \<Rightarrow> read_float s | _ \<Rightarrow> None)"

definition build :: "(string \<Rightarrow> rat option) \<Rightarrow> provider_row \<Rightarrow> provider_error + provider" where
  "build read_float r =
    (if pr_kind r \<notin> set KINDS then Inl (NotImplementedKind (pr_kind r))
     else let config = (if ''sync_groups'' \<in> fst ` set (pr_config r) then pr_config r
                        else pr_config r @ [(''sync_groups'', JBool (pr_sync_groups r))])
          in case timeout_of read_float (json_get ''timeout'' config) of
               None \<Rightarrow> Inl BadTimeout
             | Some t \<Rightarrow> Inr \<lparr>pv_name = pr_name r, pv_kind = pr_kind r, pv_config = config, pv_timeout = t\<rparr>)"

datatype registry_error = ProviderFault provider_error | RegistryConflict

definition provider_create ::
  "(string \<Rightarrow> rat option) \<Rightarrow> uuid \<Rightarrow> string \<Rightarrow> string \<Rightarrow> json_object \<Rightarrow> uuid option \<Rightarrow> string list \<Rightarrow> int \<Rightarrow> bool \<Rightarrow>
   bool \<Rightarrow> bool \<Rightarrow> bool \<Rightarrow> provider_table \<Rightarrow> registry_error + provider_row \<times> provider_table" where
  "provider_create read_float fresh name kind config org domain_names priority is_default enabled auto_provision sync_groups t =
    (if kind \<notin> set KINDS then Inl (ProviderFault (NotImplementedKind kind))
     else let r = \<lparr>pr_id = fresh, pr_org_id = org, pr_name = name, pr_kind = kind, pr_enabled = enabled,
                   pr_priority = priority, pr_config = config, pr_domains = map lower domain_names,
                   pr_is_default = is_default, pr_auto_provision = auto_provision, pr_sync_groups = sync_groups,
                   pr_sync_profile = False\<rparr>
          in case build read_float r of
               Inl e \<Rightarrow> Inl (ProviderFault e)
             | Inr _ \<Rightarrow>
               if fresh \<in> pr_id ` set t \<or> (org, name) \<in> (\<lambda>x. (pr_org_id x, pr_name x)) ` set t then Inl RegistryConflict
               else Inr (r, t @ [r]))"

text \<open>\<open>_to_record\<close>: a stored priority of zero reads as the default.\<close>

definition provider_model :: "provider_row \<Rightarrow> provider_row" where
  "provider_model r = r\<lparr>pr_priority := (if pr_priority r = 0 then 100 else pr_priority r)\<rparr>"

definition provider_list :: "uuid option \<Rightarrow> provider_table \<Rightarrow> provider_row list" where
  "provider_list org t =
    map provider_model (sort_key pr_priority (sort_key pr_name (filter (\<lambda>r. org = None \<or> pr_org_id r = org) t)))"

definition provider_resolve :: "string \<Rightarrow> provider_table \<Rightarrow> repo_error + provider_row" where
  "provider_resolve ref t =
    (case as_uuid ref of
       Some i \<Rightarrow> (case first_row (filter (\<lambda>r. pr_id r = i) t) of
                  None \<Rightarrow> Inl (NotFoundError ''auth provider'' ref) | Some r \<Rightarrow> Inr (provider_model r))
     | None \<Rightarrow> (case filter (\<lambda>r. pr_name r = ref) t of
                  [] \<Rightarrow> Inl (NotFoundError ''auth provider'' ref)
                | [r] \<Rightarrow> Inr (provider_model r)
                | rs \<Rightarrow> Inl (AmbiguousReferenceError ''auth provider'' ref (map (uuid_str \<circ> pr_id) rs))))"

text \<open>The keyword arguments of \<open>update\<close>; \<open>None\<close> is an argument not given.\<close>

record provider_change =
  prc_name :: "string option"
  prc_enabled :: "bool option"
  prc_priority :: "int option"
  prc_is_default :: "bool option"
  prc_auto_provision :: "bool option"
  prc_sync_groups :: "bool option"
  prc_config :: "json_object option"
  prc_domains :: "string list option"

definition provider_update :: "uuid \<Rightarrow> provider_change \<Rightarrow> provider_table \<Rightarrow> registry_error + provider_table" where
  "provider_update i c t =
    (let f = (\<lambda>r. r\<lparr>pr_name := given (prc_name c) (pr_name r), pr_enabled := given (prc_enabled c) (pr_enabled r),
                pr_priority := given (prc_priority c) (pr_priority r),
                pr_is_default := given (prc_is_default c) (pr_is_default r),
                pr_auto_provision := given (prc_auto_provision c) (pr_auto_provision r),
                pr_sync_groups := given (prc_sync_groups c) (pr_sync_groups r),
                pr_config := given (prc_config c) (pr_config r),
                pr_domains := given (map_option (map lower) (prc_domains c)) (pr_domains r)\<rparr>)
     in if \<exists>r \<in> set t. pr_id r = i \<and>
             (\<exists>r' \<in> set t. pr_id r' \<noteq> i \<and> pr_org_id r' = pr_org_id r \<and> pr_name r' = pr_name (f r))
        then Inl RegistryConflict
        else Inr (update_where (\<lambda>r. pr_id r = i) f t))"

definition provider_delete :: "uuid \<Rightarrow> provider_table \<Rightarrow> provider_table" where
  "provider_delete i t = delete_where (\<lambda>r. pr_id r = i) t"

definition for_domain :: "string \<Rightarrow> provider_table \<Rightarrow> provider_row list" where
  "for_domain domain_name t =
    (let records = map provider_model (sort_key pr_priority (filter pr_enabled t));
         named = filter (\<lambda>r. covers r domain_name) records
     in if named \<noteq> [] then named else filter pr_is_default records)"

definition legacy_domain_webhook :: "uuid \<Rightarrow> database \<Rightarrow> provider list" where
  "legacy_domain_webhook i db =
    (case first_row (filter (\<lambda>d. d_id d = i) (domains db)) of
       None \<Rightarrow> []
     | Some d \<Rightarrow>
       if \<not> truthy (d_auth_webhook_url d) \<or> \<not> d_auth_webhook_verified d then []
       else [\<lparr>pv_name = d_name d @ '' (domain webhook)'', pv_kind = ''webhook'',
              pv_config = [(''url'', JStr (the (d_auth_webhook_url d))),
                (''secret'', JStr (case d_auth_webhook_secret d of Some s \<Rightarrow> s | None \<Rightarrow> []))],
              pv_timeout = DEFAULT_TIMEOUT\<rparr>])"

definition providers_for ::
  "(string \<Rightarrow> rat option) \<Rightarrow> uuid \<Rightarrow> string \<Rightarrow> provider_table \<Rightarrow> database \<Rightarrow> provider_error + provider list" where
  "providers_for read_float i domain_name t db =
    (let records = for_domain domain_name t
     in if records \<noteq> [] then map_res (build read_float) records else Inr (legacy_domain_webhook i db))"

record outcome =
  oc_identity :: "identity option"
  oc_provider :: "string option"
  oc_unavailable :: "(string \<times> provider_error) list"
  oc_refused :: "string list"

fun ask_providers ::
  "(provider \<Rightarrow> answer) \<Rightarrow> provider list \<Rightarrow> (string \<times> provider_error) list \<Rightarrow> string list \<Rightarrow> outcome" where
  "ask_providers put [] unavailable refused =
    \<lparr>oc_identity = None, oc_provider = None, oc_unavailable = unavailable, oc_refused = refused\<rparr>"
| "ask_providers put (p # ps) unavailable refused =
    (case put p of
       Fails e \<Rightarrow> ask_providers put ps (unavailable @ [(pv_name p, e)]) refused
     | Accepts i \<Rightarrow> \<lparr>oc_identity = Some i, oc_provider = Some (pv_name p), oc_unavailable = unavailable,
                    oc_refused = refused\<rparr>
     | Refuses \<Rightarrow> ask_providers put ps unavailable (refused @ [pv_name p]))"

section \<open>What a provider may accept\<close>

lemma identity_of_username: "identity_of shown u e d g = Accepts i \<Longrightarrow> id_username i = u"
  by (auto simp: identity_of_def split: option.splits)

lemma identity_of_not_Refuses: "identity_of shown u e d g \<noteq> Refuses"
  by (simp add: identity_of_def split: option.splits)

lemma no_empty_password: "pv_kind p \<in> {''ldap'', ''oidc'', ''oauth2''} \<Longrightarrow> ask out p username [] = Refuses"
  by (auto simp: ask_def)

lemma oidc_match_accepts:
  assumes "oidc_match shown p username claims = Accepts i" and "optional shown p ''username_claim'' \<noteq> Some []"
  shows "id_username i = username \<and>
    (\<exists>n. json_truthy (json_get n claims) \<and> lower (strip (json_text shown (json_get n claims))) = lower (strip username) \<and>
      (optional shown p ''username_claim'' = Some n \<or> optional shown p ''username_claim'' = None \<and> n \<in> set IDENTITY_CLAIMS))"
  using assms by (auto simp: oidc_match_def Let_def split: if_splits option.splits dest: identity_of_username)

text \<open>
  A token opens only the account it names: an OpenID provider accepts only when the claims it
  read came from the provider's own answer, and some claim that may identify the account (the
  configured one alone, when there is one) is the account's address up to case and spacing; the
  identity it gives is the address that was asked about. Without a token it never accepts.
\<close>

theorem token_must_name_the_account:
  assumes "pv_kind p \<in> {''oidc'', ''oauth2''}" and "ask out p username token = Accepts i"
    and "optional (oa_shown out) p ''username_claim'' \<noteq> Some []"
  shows "token \<noteq> [] \<and> id_username i = username \<and>
    (\<exists>claims n. oidc_claims out p token = Inr claims \<and> json_truthy (json_get n claims) \<and>
      lower (strip (json_text (oa_shown out) (json_get n claims))) = lower (strip username) \<and>
      (optional (oa_shown out) p ''username_claim'' = Some n \<or>
       optional (oa_shown out) p ''username_claim'' = None \<and> n \<in> set IDENTITY_CLAIMS))"
proof -
  have k: "pv_kind p = ''oidc'' \<or> pv_kind p = ''oauth2''" using assms(1) by simp
  then have ldap: "pv_kind p \<noteq> ''ldap''" by auto
  have token: "token \<noteq> []" using assms(2) k ldap by (auto simp: ask_def)
  then have "oidc_validate out p username token = Accepts i"
    using assms(2) k ldap by (auto simp: ask_def bounded_def split: if_splits)
  moreover have "oidc_claims out p token \<noteq> Inl (Accepts i)" for i
    by (auto simp: oidc_claims_def oidc_introspect_def oidc_userinfo_def oidc_request_def lift_config_def
        bind_res_def split: sum.splits option.splits if_splits json.splits)
  ultimately obtain claims where c: "oidc_claims out p token = Inr claims"
    "oidc_match (oa_shown out) p username claims = Accepts i"
    by (auto simp: oidc_validate_def split: sum.splits)
  from oidc_match_accepts [OF c(2) assms(3)] c(1) token show ?thesis by blast
qed

definition sample_oidc :: provider where
  "sample_oidc = \<lparr>pv_name = ''corp'', pv_kind = ''oidc'', pv_config = [(''userinfo_url'', JStr ''https://id.corp/me'')],
     pv_timeout = 5\<rparr>"

definition sample_net :: "json \<Rightarrow> outside_auth" where
  "sample_net reply = \<lparr>oa_shown = (\<lambda>v. []), oa_late = (\<lambda>p u t. False), oa_resolve = (\<lambda>h n. Some [''93.184.216.34'']),
     oa_http = (\<lambda>c. Some \<lparr>hr_status = 200, hr_json = Some reply\<rparr>), oa_hmac = (\<lambda>k m. []), oa_dumps = (\<lambda>v. []),
     oa_timestamp = ''0'', oa_start_tls = (\<lambda>p. True), oa_bind = (\<lambda>p u pw. Bound), oa_search = (\<lambda>p b f a. Some [])\<rparr>"

lemma token_must_name_the_account_witness:
  "\<exists>i. ask (sample_net (JObj [(''email'', JStr ''Ann@Acme.org'')])) sample_oidc ''ann@acme.org'' ''t'' = Accepts i \<and>
     id_username i = ''ann@acme.org''"
proof -
  let ?out = "sample_net (JObj [(''email'', JStr ''Ann@Acme.org'')])"
  have "case ask ?out sample_oidc ''ann@acme.org'' ''t'' of Accepts i \<Rightarrow> True | _ \<Rightarrow> False" by code_simp
  then obtain i where i: "ask ?out sample_oidc ''ann@acme.org'' ''t'' = Accepts i" by (auto split: answer.splits)
  have "pv_kind sample_oidc \<in> {''oidc'', ''oauth2''}" "optional (oa_shown ?out) sample_oidc ''username_claim'' \<noteq> Some []"
    by (simp_all add: sample_oidc_def optional_def)
  from token_must_name_the_account [OF this(1) i this(2)] i show ?thesis by blast
qed

section \<open>A search filter cannot be rewritten\<close>

text \<open>A filter value as an LDAP server reads it back (RFC 4515).\<close>

fun ldap_unescape :: "string \<Rightarrow> string" where
  "ldap_unescape (c # a # b # s) =
    (if c = CHR 0x5C then
       (case (hex_value a, hex_value b) of
          (Some m, Some n) \<Rightarrow> char_of (16 * m + n) # ldap_unescape s
        | _ \<Rightarrow> c # ldap_unescape (a # b # s))
     else c # ldap_unescape (a # b # s))"
| "ldap_unescape s = s"

definition escape_char :: "char \<Rightarrow> string" where
  "escape_char c = (if ldap_special c then CHR 0x5C # hex2 (of_char c) else [c])"

lemma ldap_escape_Cons: "ldap_escape (c # s) = escape_char c @ ldap_escape s"
  by (simp add: ldap_escape_def escape_char_def)

lemma special_hex:
  "hex2 92 = ''5c''" "hex2 42 = ''2a''" "hex2 40 = ''28''" "hex2 41 = ''29''" "hex2 0 = ''00''"
  by (simp_all add: hex2_def hex_char_def) code_simp+

lemma hex_values:
  "hex_value CHR ''0'' = Some 0" "hex_value CHR ''2'' = Some 2" "hex_value CHR ''5'' = Some 5" "hex_value CHR ''8'' = Some 8"
  "hex_value CHR ''9'' = Some 9" "hex_value CHR ''a'' = Some 10" "hex_value CHR ''c'' = Some 12"
  by (simp_all add: hex_value_def)

lemma special_codes: "char_of (92 :: nat) = CHR 0x5C" "char_of (42 :: nat) = CHR ''*''" "char_of (40 :: nat) = CHR ''(''"
  "char_of (41 :: nat) = CHR '')''" "char_of (0 :: nat) = CHR 0x00"
  by code_simp+

lemma special_facts:
  assumes "ldap_special c"
  shows "\<exists>a b m n. hex2 (of_char c) = [a, b] \<and> hex_value a = Some m \<and> hex_value b = Some n \<and> char_of (16 * m + n) = c \<and>
    \<not> ldap_special a \<and> \<not> ldap_special b"
proof -
  consider "c = CHR 0x5C" | "c = CHR ''*''" | "c = CHR ''(''" | "c = CHR '')''" | "c = CHR 0x00"
    using assms by (auto simp: ldap_special_def)
  then show ?thesis
    by cases (simp_all add: special_hex hex_values special_codes ldap_special_def)
qed

lemma unescape_char: "ldap_unescape (escape_char c @ s) = c # ldap_unescape s"
proof (cases "ldap_special c")
  case True
  from special_facts [OF this] show ?thesis by (auto simp: escape_char_def True)
next
  case False
  then have "c \<noteq> CHR 0x5C" by (auto simp: ldap_special_def)
  then have "ldap_unescape (c # s) = c # ldap_unescape s" by (cases s rule: ldap_unescape.cases) simp_all
  then show ?thesis by (simp add: escape_char_def False)
qed

text \<open>
  A name cannot rewrite the search filter: what \<open>_escape\<close> makes of it contains none of the
  characters that structure a filter (an asterisk, a parenthesis, a NUL), and a server that reads
  it back by RFC 4515 reads exactly the name; so two names never make the same filter value.
\<close>

theorem ldap_escape_roundtrip:
  "ldap_unescape (ldap_escape s) = s \<and> set (ldap_escape s) \<inter> {CHR ''*'', CHR ''('', CHR '')'', CHR 0x00} = {} \<and>
   (ldap_escape s = ldap_escape t \<longleftrightarrow> s = t)"
proof -
  have read_back: "ldap_unescape (ldap_escape x) = x" for x
  proof (induction x)
    case Nil
    then show ?case by (simp add: ldap_escape_def)
  next
    case (Cons c x)
    then show ?case by (simp add: ldap_escape_Cons unescape_char)
  qed
  have "x \<in> set (escape_char c) \<Longrightarrow> x \<notin> {CHR ''*'', CHR ''('', CHR '')'', CHR 0x00}" for x c
  proof (cases "ldap_special c")
    case True
    assume "x \<in> set (escape_char c)"
    with special_facts [OF True] have "x = CHR 0x5C \<or> \<not> ldap_special x" by (auto simp: escape_char_def True)
    then show ?thesis by (auto simp: ldap_special_def)
  next
    case False
    assume "x \<in> set (escape_char c)"
    with False show ?thesis by (auto simp: escape_char_def ldap_special_def)
  qed
  then have "set (ldap_escape s) \<inter> {CHR ''*'', CHR ''('', CHR '')'', CHR 0x00} = {}"
    by (auto simp: ldap_escape_def escape_char_def [symmetric])
  moreover have "ldap_escape s = ldap_escape t \<longleftrightarrow> s = t" using read_back by metis
  ultimately show ?thesis using read_back by blast
qed

end
