(* ===== verification/Maildir.thy ===== *)
theory Maildir
  imports Py_Text
begin

text \<open>
  \<open>src/src/lightr/dovecot/maildir.py\<close>: where a mailbox and its folders live. A path is the list of
  its components below the configured root; \<open>p / c\<close> drops a component \<open>.\<close>, as \<open>pathlib\<close> does, and
  keeps \<open>..\<close>.
\<close>

type_synonym path = "string list"

definition FOLDER_PREFIX :: string where "FOLDER_PREFIX = ''.''"

definition DEFAULT_FOLDERS :: "string list" where
  "DEFAULT_FOLDERS = [''Sent'', ''Drafts'', ''Trash'', ''Junk'', ''Archive'']"

datatype maildir_error = UnsafeComponent string | EmptyFolderName | NotAnAddress string

definition path_join :: "path \<Rightarrow> string \<Rightarrow> path" where
  "path_join p c = (if c = ''.'' then p else p @ [c])"

text \<open>\<open>_UNSAFE\<close>: a separator of either kind, a NUL or two dots.\<close>

definition unsafe_component :: "string \<Rightarrow> bool" where
  "unsafe_component c \<longleftrightarrow> CHR ''/'' \<in> set c \<or> CHR 0x5C \<in> set c \<or> CHR 0x00 \<in> set c \<or> contains ''..'' c"

definition reject_unsafe :: "string \<Rightarrow> maildir_error + unit" where
  "reject_unsafe c = (if c = [] \<or> unsafe_component c then Inl (UnsafeComponent c) else Inr ())"

definition upper_is_inbox :: "string \<Rightarrow> bool" where
  "upper_is_inbox name \<longleftrightarrow> lower name = ''inbox''"

definition folder :: "path \<Rightarrow> string \<Rightarrow> maildir_error + path" where
  "folder root name =
    (if upper_is_inbox name then Inr root
     else let parts = filter (\<lambda>p. p \<noteq> []) (split_char CHR ''/'' name)
          in if parts = [] then Inl EmptyFolderName
             else bind_res (map_res reject_unsafe parts)
                    (\<lambda>_. Inr (path_join root (FOLDER_PREFIX @ join ''.'' parts))))"

definition subdirs :: "path \<Rightarrow> path list" where
  "subdirs root = map (path_join root) [''cur'', ''new'', ''tmp'']"

text \<open>The directories \<open>create\<close> makes, in order.\<close>

definition created_dirs :: "path \<Rightarrow> string list \<Rightarrow> maildir_error + path list" where
  "created_dirs root names =
    bind_res (map_res (folder root) names) (\<lambda>fs.
      Inr (subdirs root @ concat (map (\<lambda>f. map (path_join f) [''cur'', ''new'', ''tmp'']) fs)))"

definition layout_for :: "path \<Rightarrow> string \<Rightarrow> maildir_error + path" where
  "layout_for maildir_root addr =
    (if CHR ''@'' \<notin> set addr then Inl (NotAnAddress addr)
     else let local = lower (fst (split_first CHR ''@'' addr)); domain_name = lower (snd (split_first CHR ''@'' addr))
          in bind_res (reject_unsafe local) (\<lambda>_. bind_res (reject_unsafe domain_name) (\<lambda>_.
               Inr (path_join (path_join maildir_root domain_name) local))))"

section \<open>A mailbox stays in its place\<close>

text \<open>A component that neither leaves the directory it is put in nor names it.\<close>

definition proper_component :: "string \<Rightarrow> bool" where
  "proper_component c \<longleftrightarrow> c \<noteq> [] \<and> c \<noteq> ''.'' \<and> c \<noteq> ''..'' \<and> CHR ''/'' \<notin> set c \<and> CHR 0x00 \<notin> set c"

lemma reject_unsafe_Inr [res_simps]: "reject_unsafe c = Inr u \<longleftrightarrow> c \<noteq> [] \<and> \<not> unsafe_component c"
  by (simp add: reject_unsafe_def)

lemma two_dots_unsafe: "unsafe_component ''..''"
  unfolding unsafe_component_def contains_iff by (rule disjI2)+ (intro exI [of _ "[]"], simp)

lemma safe_is_proper: "c \<noteq> [] \<Longrightarrow> \<not> unsafe_component c \<Longrightarrow> c \<noteq> ''.'' \<Longrightarrow> proper_component c"
  using two_dots_unsafe by (auto simp: proper_component_def unsafe_component_def)

lemma path_join_proper: "proper_component c \<Longrightarrow> path_join p c = p @ [c]"
  by (simp add: path_join_def proper_component_def)

lemma layout_for_spec:
  assumes "layout_for root addr = Inr p"
  shows "\<exists>l d. split_first CHR ''@'' (lower addr) = (l, d) \<and> CHR ''@'' \<in> set addr \<and>
    l \<noteq> [] \<and> d \<noteq> [] \<and> \<not> unsafe_component l \<and> \<not> unsafe_component d \<and> p = path_join (path_join root d) l"
proof -
  obtain l d where s: "split_first CHR ''@'' addr = (l, d)" by (cases "split_first CHR ''@'' addr")
  have at: "CHR ''@'' \<in> set addr" using assms by (auto simp: layout_for_def split: if_splits)
  then have "addr = l @ CHR ''@'' # d \<and> CHR ''@'' \<notin> set l"
    using s split_first_append [of "CHR ''@''" addr] split_first_fst [of "CHR ''@''" addr] by simp
  moreover have "lower (l @ CHR ''@'' # d) = lower l @ CHR ''@'' # lower d" by (simp add: lower_def lower_char_def)
  ultimately have "split_first CHR ''@'' (lower addr) = (lower l, lower d)"
    by (simp add: split_first_unique del: lower_append)
  then show ?thesis using assms at s by (auto simp: layout_for_def Let_def res_simps)
qed

lemma join_dots_proper:
  assumes "parts \<noteq> []" and "\<forall>p \<in> set parts. p \<noteq> [] \<and> \<not> unsafe_component p" and "parts \<noteq> [''.'']"
  shows "proper_component (CHR ''.'' # join ''.'' parts)"
proof -
  have chars: "c \<in> set (join ''.'' ps) \<Longrightarrow> c = CHR ''.'' \<or> (\<exists>p \<in> set ps. c \<in> set p)" for c ps
    by (induction "''.'' :: string" ps rule: join.induct) auto
  have "CHR ''/'' \<notin> set (join ''.'' parts)" "CHR 0x00 \<notin> set (join ''.'' parts)"
    using chars assms(2) by (fastforce simp: unsafe_component_def)+
  moreover have "join ''.'' parts \<noteq> [] \<and> join ''.'' parts \<noteq> ''.''"
  proof (cases parts)
    case (Cons p ps)
    show ?thesis
    proof (cases ps)
      case Nil
      then show ?thesis using Cons assms by auto
    next
      case (Cons q qs)
      then show ?thesis using \<open>parts = p # ps\<close> assms(2) by (cases p) (auto simp: Cons_eq_append_conv)
    qed
  qed (use assms in simp)
  ultimately show ?thesis by (auto simp: proper_component_def)
qed

lemma layout_place:
  assumes "layout_for root x = Inr r"
    and "fst (split_first CHR ''@'' (lower x)) \<noteq> ''.''" and "snd (split_first CHR ''@'' (lower x)) \<noteq> ''.''"
  shows "\<exists>l d. proper_component l \<and> proper_component d \<and> r = root @ [d, l] \<and>
    split_first CHR ''@'' (lower x) = (l, d) \<and> lower x = l @ ''@'' @ d"
proof -
  obtain l d where ld: "split_first CHR ''@'' (lower x) = (l, d)" "l \<noteq> []" "d \<noteq> []" "CHR ''@'' \<in> set x"
    "\<not> unsafe_component l" "\<not> unsafe_component d" "r = path_join (path_join root d) l"
    using layout_for_spec [OF assms(1)] by blast
  then have "proper_component l" "proper_component d" using assms(2,3) by (simp_all add: safe_is_proper)
  moreover have "lower x = l @ CHR ''@'' # d"
    using split_first_append [of "CHR ''@''" "lower x"] ld(1,4) by simp
  ultimately show ?thesis using ld(1,7) by (simp add: path_join_proper)
qed

lemma folder_confined:
  assumes "folder p name = Inr f" and "filter (\<lambda>c. c \<noteq> []) (split_char CHR ''/'' name) \<noteq> [''.'']"
  shows "f = p \<or> (\<exists>c. proper_component c \<and> f = p @ [c])"
proof (cases "upper_is_inbox name")
  case True
  then show ?thesis using assms(1) by (simp add: folder_def)
next
  case False
  let ?parts = "filter (\<lambda>c. c \<noteq> []) (split_char CHR ''/'' name)"
  have ne: "?parts \<noteq> []" using assms(1) False by (auto simp: folder_def Let_def)
  then obtain us where us: "map_res reject_unsafe ?parts = Inr us"
    and fp: "f = path_join p (CHR ''.'' # join ''.'' ?parts)"
    using assms(1) False by (auto simp: folder_def Let_def FOLDER_PREFIX_def bind_res_Inr_iff)
  have "\<exists>u. reject_unsafe c = Inr u" if "c \<in> set ?parts" for c
    using us map_res_Inl_iff [of reject_unsafe ?parts] that by (cases "reject_unsafe c") auto
  then have "\<forall>c \<in> set ?parts. c \<noteq> [] \<and> \<not> unsafe_component c" by (simp add: reject_unsafe_Inr)
  from join_dots_proper [OF ne this assms(2)] show ?thesis using fp path_join_proper by blast
qed

text \<open>
  A mailbox keeps to its own place: an address whose local part is not a lone dot (nor its
  domain) has the directory \<open>root/domain/local\<close>; two such addresses have the same directory
  exactly when they are the same up to case, and neither directory lies in the other; and a
  folder of the mailbox, unless its name is a lone dot, is the mailbox itself or one directory
  directly in it.
\<close>

theorem mailboxes_are_apart:
  assumes "layout_for root a = Inr p" and "layout_for root b = Inr q"
    and "\<forall>x \<in> {a, b}. fst (split_first CHR ''@'' (lower x)) \<noteq> ''.'' \<and> snd (split_first CHR ''@'' (lower x)) \<noteq> ''.''"
  shows "(\<exists>l d. proper_component l \<and> proper_component d \<and> p = root @ [d, l] \<and> lower a = l @ ''@'' @ d) \<and>
    (p = q \<longleftrightarrow> lower a = lower b) \<and> (p = q \<or> \<not> (\<exists>r. q = p @ r)) \<and>
    (\<forall>name f. folder p name = Inr f \<longrightarrow> filter (\<lambda>c. c \<noteq> []) (split_char CHR ''/'' name) \<noteq> [''.''] \<longrightarrow>
       f = p \<or> (\<exists>c. proper_component c \<and> f = p @ [c]))"
proof -
  obtain l d where p: "proper_component l" "proper_component d" "p = root @ [d, l]"
    "split_first CHR ''@'' (lower a) = (l, d)" "lower a = l @ ''@'' @ d"
    using layout_place [OF assms(1)] assms(3) by auto
  obtain l' d' where q: "q = root @ [d', l']" "split_first CHR ''@'' (lower b) = (l', d')" "lower b = l' @ ''@'' @ d'"
    using layout_place [OF assms(2)] assms(3) by auto
  have same: "p = q \<longleftrightarrow> lower a = lower b"
  proof
    assume "p = q"
    then show "lower a = lower b" using p(3,5) q(1,3) by simp
  next
    assume "lower a = lower b"
    then show "p = q" using p(3,4) q(1,2) by simp
  qed
  moreover have "p = q \<or> \<not> (\<exists>r. q = p @ r)" using p(3) q(1) by auto
  moreover have "\<exists>l d. proper_component l \<and> proper_component d \<and> p = root @ [d, l] \<and> lower a = l @ ''@'' @ d"
    using p by blast
  ultimately show ?thesis using folder_confined by blast
qed

lemma mailboxes_are_apart_witness:
  "\<exists>p q. layout_for [''mail''] ''Ann@Acme.org'' = Inr p \<and> layout_for [''mail''] ''bob@acme.org'' = Inr q \<and> p \<noteq> q"
proof -
  have a: "layout_for [''mail''] ''Ann@Acme.org'' = Inr [''mail'', ''acme.org'', ''ann'']"
    and b: "layout_for [''mail''] ''bob@acme.org'' = Inr [''mail'', ''acme.org'', ''bob'']"
    and dots: "fst (split_first CHR ''@'' (lower ''Ann@Acme.org'')) = ''ann''" "snd (split_first CHR ''@'' (lower ''Ann@Acme.org'')) = ''acme.org''"
      "fst (split_first CHR ''@'' (lower ''bob@acme.org'')) = ''bob''" "snd (split_first CHR ''@'' (lower ''bob@acme.org'')) = ''acme.org''"
      "lower ''Ann@Acme.org'' = ''ann@acme.org''" "lower ''bob@acme.org'' = ''bob@acme.org''"
    by code_simp+
  have "\<forall>x \<in> {''Ann@Acme.org'', ''bob@acme.org''}. fst (split_first CHR ''@'' (lower x)) \<noteq> ''.'' \<and> snd (split_first CHR ''@'' (lower x)) \<noteq> ''.''"
    using dots(1-4) by simp
  from mailboxes_are_apart [OF a b this] have "[''mail'', ''acme.org'', ''ann''] \<noteq> [''mail'', ''acme.org'', ''bob'']"
    unfolding dots(5,6) by simp
  with a b show ?thesis by blast
qed

text \<open>
  The lone dot: the mailbox of \<open>.@acme.org\<close> is the directory of the domain, with everybody's
  mailboxes in it, and the folder named \<open>.\<close> is the directory above the mailbox.
\<close>

lemma dot_escapes:
  "layout_for [''mail''] ''.@acme.org'' = Inr [''mail'', ''acme.org'']"
  "folder [''mail'', ''acme.org'', ''ann''] ''.'' = Inr [''mail'', ''acme.org'', ''ann'', ''..'']"
  by code_simp+

end
