(* ===== verification/Auth.thy ===== *)
theory Auth
  imports Providers Maildir
begin

text \<open>
  \<open>src/src/lightr/auth.py\<close>: passwords and the one \<open>authenticate\<close> that SMTP submission, the API and
  Dovecot share, and \<open>src/src/lightr/api/internal.py\<close>, the two endpoints Dovecot calls. bcrypt is two
  parameters: the hash of a password, and \<open>checkpw\<close>, \<open>None\<close> when it raises \<open>ValueError\<close> or the hash
  is not ASCII.
\<close>

section \<open>Passwords\<close>

definition MAX_PASSWORD_BYTES :: nat where "MAX_PASSWORD_BYTES = 72"

definition MIN_PASSWORD_LENGTH :: nat where "MIN_PASSWORD_LENGTH = 8"

datatype password_error = TooShort | TooManyBytes nat

text \<open>The length of the UTF-8 form of a text of characters below 256.\<close>

definition utf8_length :: "string \<Rightarrow> nat" where
  "utf8_length s = sum_list (map (\<lambda>c. if (of_char c :: nat) < 128 then 1 else 2) s)"

definition validate_password :: "string \<Rightarrow> password_error + unit" where
  "validate_password password =
    (if length password < MIN_PASSWORD_LENGTH then Inl TooShort
     else if MAX_PASSWORD_BYTES < utf8_length password then Inl (TooManyBytes (utf8_length password))
     else Inr ())"

definition hash_password :: "(string \<Rightarrow> string) \<Rightarrow> string \<Rightarrow> password_error + string" where
  "hash_password hashpw password = bind_res (validate_password password) (\<lambda>_. Inr (hashpw password))"

definition verify_password :: "(string \<Rightarrow> string \<Rightarrow> bool option) \<Rightarrow> string \<Rightarrow> string \<Rightarrow> bool" where
  "verify_password checkpw password password_hash =
    (if password_hash = [] then False
     else case checkpw password password_hash of None \<Rightarrow> False | Some b \<Rightarrow> b)"

text \<open>\<open>generate_password\<close>: the characters it may use, and the password the drawn numbers give.\<close>

definition password_pool :: string where
  "password_pool = filter (\<lambda>c. c \<notin> set ''lI1O0'')
     ''abcdefghijklmnopqrstuvwxyzABCDEFGHIJKLMNOPQRSTUVWXYZ0123456789-_.@+''"

definition generate_password :: "nat list \<Rightarrow> string" where
  "generate_password draws = map (\<lambda>n. password_pool ! (n mod length password_pool)) draws"

section \<open>\<open>Authenticator\<close>\<close>

datatype auth_failure =
    NO_SUCH_ACCOUNT | BAD_PASSWORD | AUTH_ACCOUNT_DISABLED | NO_PASSWORD_SET | PROVIDER_UNAVAILABLE | NO_PROVIDER

datatype auth_detail =
    NoDetail
  | NoProviderCovers string
  | UnavailableProviders "(string \<times> provider_error) list"
  | RefusedBy "string list"

record auth_result =
  ar_ok :: bool
  ar_account :: "account option"
  ar_failure :: "auth_failure option"
  ar_provider :: "string option"
  ar_detail :: auth_detail

definition TEMPORARY_FAILURES :: "auth_failure list" where
  "TEMPORARY_FAILURES = [PROVIDER_UNAVAILABLE, NO_PROVIDER]"

definition auth_success :: "account \<Rightarrow> string option \<Rightarrow> auth_result" where
  "auth_success a p = \<lparr>ar_ok = True, ar_account = Some a, ar_failure = None, ar_provider = p, ar_detail = NoDetail\<rparr>"

definition auth_failed :: "auth_failure \<Rightarrow> account option \<Rightarrow> auth_detail \<Rightarrow> auth_result" where
  "auth_failed f a d = \<lparr>ar_ok = False, ar_account = a, ar_failure = Some f, ar_provider = None, ar_detail = d\<rparr>"

definition result_email :: "auth_result \<Rightarrow> string option" where
  "result_email r = Option.bind (ar_account r) email"

definition auth_temporary :: "auth_result \<Rightarrow> bool" where
  "auth_temporary r \<longleftrightarrow> (\<exists>f \<in> set TEMPORARY_FAILURES. ar_failure r = Some f)"

text \<open>What an \<open>Authenticator\<close> reads: the directory, the providers, and how each is asked.\<close>

record auth_world =
  au_db :: database
  au_providers :: provider_table
  au_ask :: "provider \<Rightarrow> string \<Rightarrow> string \<Rightarrow> answer"
  au_checkpw :: "string \<Rightarrow> string \<Rightarrow> bool option"
  au_read_float :: "string \<Rightarrow> rat option"

definition or_blank :: "string option \<Rightarrow> string" where
  "or_blank s = (case s of Some x \<Rightarrow> x | None \<Rightarrow> [])"

definition account_domain :: "account \<Rightarrow> string" where
  "account_domain a = (if truthy (a_domain_name a) then the (a_domain_name a) else after_last CHR ''@'' (or_blank (email a)))"

definition authenticate_external :: "auth_world \<Rightarrow> account \<Rightarrow> string \<Rightarrow> provider_error + auth_result" where
  "authenticate_external w a password =
    bind_res (providers_for (au_read_float w) (a_domain_id a) (account_domain a) (au_providers w) (au_db w)) (\<lambda>ps.
      if ps = [] then Inr (auth_failed NO_PROVIDER (Some a) (NoProviderCovers (account_domain a)))
      else let out = ask_providers (\<lambda>p. au_ask w p (or_blank (email a)) password) ps [] []
           in if oc_identity out \<noteq> None then Inr (auth_success a (oc_provider out))
              else if oc_unavailable out \<noteq> []
                   then Inr (auth_failed PROVIDER_UNAVAILABLE (Some a) (UnavailableProviders (oc_unavailable out)))
              else Inr (auth_failed BAD_PASSWORD (Some a) (RefusedBy (oc_refused out))))"

definition authenticate :: "auth_world \<Rightarrow> string \<Rightarrow> string \<Rightarrow> provider_error + auth_result" where
  "authenticate w username password =
    (case account_find username (au_db w) of
       None \<Rightarrow> Inr (auth_failed NO_SUCH_ACCOUNT None NoDetail)
     | Some a \<Rightarrow>
       if a_auth_mode a = DISABLED then Inr (auth_failed AUTH_ACCOUNT_DISABLED (Some a) NoDetail)
       else if a_auth_mode a = EXTERNAL_AUTH then authenticate_external w a password
       else if \<not> truthy (a_password_hash a) then Inr (auth_failed NO_PASSWORD_SET (Some a) NoDetail)
       else if verify_password (au_checkpw w) password (the (a_password_hash a)) then Inr (auth_success a None)
       else Inr (auth_failed BAD_PASSWORD (Some a) NoDetail))"

section \<open>Dovecot's endpoints\<close>

definition failure_text :: "auth_failure \<Rightarrow> string" where
  "failure_text f =
    (case f of NO_SUCH_ACCOUNT \<Rightarrow> ''no_such_account'' | BAD_PASSWORD \<Rightarrow> ''bad_password''
     | AUTH_ACCOUNT_DISABLED \<Rightarrow> ''account_disabled'' | NO_PASSWORD_SET \<Rightarrow> ''no_password_set''
     | PROVIDER_UNAVAILABLE \<Rightarrow> ''provider_unavailable'' | NO_PROVIDER \<Rightarrow> ''no_provider'')"

datatype internal_answer =
    InternalRefusal int string
  | PassdbOk "string option" "string option"                       \<comment> \<open>user, home\<close>
  | UserdbOk string string string "string option"                   \<comment> \<open>user, home, mail, quota rule\<close>

definition check_internal_secret :: "string \<Rightarrow> string \<Rightarrow> internal_answer option" where
  "check_internal_secret expected presented =
    (if expected = [] then Some (InternalRefusal 503 ''internal auth is not configured'')
     else if presented \<noteq> expected then Some (InternalRefusal 403 ''bad internal key'') else None)"

text \<open>\<open>str(body.get(k, ""))\<close>; a body that is no JSON object reads as an empty one.\<close>

definition body_text :: "(json \<Rightarrow> string) \<Rightarrow> string \<Rightarrow> json_object \<Rightarrow> string" where
  "body_text shown k body = (case map_of body k of None \<Rightarrow> [] | Some v \<Rightarrow> json_text shown v)"

definition passdb :: "(json \<Rightarrow> string) \<Rightarrow> auth_world \<Rightarrow> string \<Rightarrow> string \<Rightarrow> json_object \<Rightarrow> provider_error + internal_answer" where
  "passdb shown w expected presented body =
    (case check_internal_secret expected presented of
       Some r \<Rightarrow> Inr r
     | None \<Rightarrow>
       let username = strip (body_text shown ''username'' body); password = body_text shown ''password'' body
       in if username = [] \<or> password = [] then Inr (InternalRefusal 400 ''username and password are required'')
          else bind_res (authenticate w username password) (\<lambda>result.
            if \<not> ar_ok result
            then Inr (InternalRefusal (if auth_temporary result then 503 else 401) (failure_text (the (ar_failure result))))
            else Inr (PassdbOk (result_email result) (Option.bind (ar_account result) a_maildir_path))))"

text \<open>A path as text: the configured root as given, then the components.\<close>

definition posix :: "string \<Rightarrow> path \<Rightarrow> string" where
  "posix base p = join ''/'' (base # p)"

definition userdb ::
  "(json \<Rightarrow> string) \<Rightarrow> database \<Rightarrow> string \<Rightarrow> string \<Rightarrow> string \<Rightarrow> string \<Rightarrow> json_object \<Rightarrow> maildir_error + internal_answer" where
  "userdb shown db maildir_root expected presented query_user body =
    (case check_internal_secret expected presented of
       Some r \<Rightarrow> Inr r
     | None \<Rightarrow>
       let u = strip (body_text shown ''username'' body); username = (if u = [] then strip query_user else u)
       in if username = [] then Inr (InternalRefusal 400 ''username is required'')
          else case account_find username db of
                 None \<Rightarrow> Inr (InternalRefusal 404 (failure_text NO_SUCH_ACCOUNT))
               | Some a \<Rightarrow>
                 let user = (if truthy (email a) then the (email a) else username)
                 in bind_res (if truthy (a_maildir_path a) then Inr (the (a_maildir_path a))
                              else bind_res (layout_for [] user) (\<lambda>p. Inr (posix maildir_root p))) (\<lambda>home.
                      Inr (UserdbOk user home (''maildir:'' @ home)
                        (case a_quota_bytes a of
                           Some q \<Rightarrow> if q = 0 then None else Some (''*:bytes='' @ dec_str q)
                         | None \<Rightarrow> None))))"

section \<open>Who gets in\<close>

definition says :: "auth_world \<Rightarrow> account \<Rightarrow> string \<Rightarrow> provider \<Rightarrow> answer" where
  "says w a password p = au_ask w p (or_blank (email a)) password"

lemma ask_accepts: "oc_identity (ask_providers put ps u r) \<noteq> None \<longleftrightarrow> (\<exists>p \<in> set ps. \<exists>i. put p = Accepts i)"
  by (induction ps arbitrary: u r) (auto split: answer.splits)

lemma ask_unavailable:
  "\<forall>p \<in> set ps. \<forall>i. put p \<noteq> Accepts i \<Longrightarrow>
   oc_unavailable (ask_providers put ps u r) = [] \<longleftrightarrow> u = [] \<and> (\<forall>p \<in> set ps. put p = Refuses)"
  by (induction ps arbitrary: u r) (auto split: answer.splits)

lemma answer_refuses: "x = Refuses \<longleftrightarrow> (\<forall>i. x \<noteq> Accepts i) \<and> (\<forall>e. x \<noteq> Fails e)"
  by (cases x) auto

lemma authenticate_external_ok:
  assumes "providers_for (au_read_float w) (a_domain_id a) (account_domain a) (au_providers w) (au_db w) = Inr ps"
  shows "\<exists>r. authenticate_external w a password = Inr r \<and> ar_account r = Some a \<and>
    (ar_ok r \<longleftrightarrow> (\<exists>p \<in> set ps. \<exists>i. says w a password p = Accepts i)) \<and>
    (ar_failure r = Some BAD_PASSWORD \<longleftrightarrow> ps \<noteq> [] \<and> (\<forall>p \<in> set ps. says w a password p = Refuses)) \<and>
    (auth_temporary r \<longleftrightarrow> ps = [] \<or> (\<forall>p \<in> set ps. \<forall>i. says w a password p \<noteq> Accepts i) \<and>
       (\<exists>p \<in> set ps. \<exists>e. says w a password p = Fails e))"
proof -
  let ?put = "\<lambda>p. au_ask w p (or_blank (email a)) password"
  let ?out = "ask_providers ?put ps [] []"
  have ok: "oc_identity ?out \<noteq> None \<longleftrightarrow> (\<exists>p \<in> set ps. \<exists>i. ?put p = Accepts i)" by (rule ask_accepts)
  have un: "oc_unavailable ?out = [] \<longleftrightarrow> (\<forall>p \<in> set ps. ?put p = Refuses)" if "\<forall>p \<in> set ps. \<forall>i. ?put p \<noteq> Accepts i"
    using ask_unavailable [OF that] by simp
  consider "ps = []" | (yes) "ps \<noteq> []" "oc_identity ?out \<noteq> None"
    | (down) "ps \<noteq> []" "oc_identity ?out = None" "oc_unavailable ?out \<noteq> []"
    | (no) "ps \<noteq> []" "oc_identity ?out = None" "oc_unavailable ?out = []" by blast
  then show ?thesis
  proof cases
    case 1
    then show ?thesis using assms
      by (simp add: authenticate_external_def auth_failed_def auth_temporary_def TEMPORARY_FAILURES_def)
  next
    case yes
    then obtain p i where p: "p \<in> set ps" "?put p = Accepts i" using ok by blast
    then have "\<not> (\<forall>p \<in> set ps. ?put p = Refuses)" by force
    then show ?thesis using yes p assms
      by (auto simp: authenticate_external_def auth_success_def auth_temporary_def TEMPORARY_FAILURES_def says_def)
  next
    case down
    then have na: "\<forall>p \<in> set ps. \<forall>i. ?put p \<noteq> Accepts i" using ok by blast
    then obtain p where p: "p \<in> set ps" "?put p \<noteq> Refuses" using un down(3) by blast
    then have failed: "\<exists>p \<in> set ps. \<exists>e. ?put p = Fails e" "\<exists>p \<in> set ps. ?put p \<noteq> Refuses"
      using na by (metis answer_refuses)+
    then show ?thesis using down na assms
      by (auto simp: authenticate_external_def auth_failed_def auth_temporary_def TEMPORARY_FAILURES_def says_def)
  next
    case no
    then have na: "\<forall>p \<in> set ps. \<forall>i. ?put p \<noteq> Accepts i" using ok by blast
    then have "\<forall>p \<in> set ps. ?put p = Refuses" using un no(3) by blast
    then show ?thesis using no assms
      by (auto simp: authenticate_external_def auth_failed_def auth_temporary_def TEMPORARY_FAILURES_def says_def)
  qed
qed

text \<open>
  C37. Who gets in: an attempt succeeds exactly when the name finds an account that is not disabled
  and either its password hash is here, is not empty and bcrypt accepts the password, or the
  account is an external one and one of the providers for its domain accepts. So the hash an
  external account may still have never opens it, and a missing or malformed hash opens nothing.
\<close>

theorem login_needs_its_own_credentials:
  assumes "\<And>a. account_find username (au_db w) = Some a \<Longrightarrow> a_auth_mode a = EXTERNAL_AUTH \<Longrightarrow>
    \<exists>ps. providers_for (au_read_float w) (a_domain_id a) (account_domain a) (au_providers w) (au_db w) = Inr ps"
  shows "\<exists>r. authenticate w username password = Inr r \<and>
    (ar_ok r \<longleftrightarrow> (\<exists>a. account_find username (au_db w) = Some a \<and> ar_account r = Some a \<and>
       (a_auth_mode a = NATIVE \<and> (\<exists>h. a_password_hash a = Some h \<and> h \<noteq> [] \<and> au_checkpw w password h = Some True) \<or>
        a_auth_mode a = EXTERNAL_AUTH \<and>
        (\<exists>ps. providers_for (au_read_float w) (a_domain_id a) (account_domain a) (au_providers w) (au_db w) = Inr ps \<and>
           (\<exists>p \<in> set ps. \<exists>i. says w a password p = Accepts i)))))"
proof (cases "account_find username (au_db w)")
  case None
  then show ?thesis by (simp add: authenticate_def auth_failed_def)
next
  case (Some a)
  show ?thesis
  proof (cases "a_auth_mode a")
    case EXTERNAL_AUTH
    then obtain ps where ps: "providers_for (au_read_float w) (a_domain_id a) (account_domain a) (au_providers w) (au_db w) = Inr ps"
      using assms Some by blast
    show ?thesis using authenticate_external_ok [OF ps, of password] Some EXTERNAL_AUTH ps
      by (auto simp: authenticate_def)
  next
    case NATIVE
    then show ?thesis using Some
      by (auto simp: authenticate_def auth_failed_def auth_success_def verify_password_def truthy_def split: option.splits)
  qed (use Some in \<open>simp add: authenticate_def auth_failed_def\<close>)
qed

text \<open>
  An outage is not a wrong password: for an external account, \<open>BAD_PASSWORD\<close> is reported exactly
  when there is a provider and every provider was reached and refused; when nobody accepts and
  some provider could not answer, or there is no provider, the failure is a temporary one, which
  Dovecot is told with a 503.
\<close>

theorem outage_is_no_wrong_password:
  assumes "account_find username (au_db w) = Some a" and "a_auth_mode a = EXTERNAL_AUTH"
    and "providers_for (au_read_float w) (a_domain_id a) (account_domain a) (au_providers w) (au_db w) = Inr ps"
  shows "\<exists>r. authenticate w username password = Inr r \<and>
    (ar_failure r = Some BAD_PASSWORD \<longleftrightarrow> ps \<noteq> [] \<and> (\<forall>p \<in> set ps. says w a password p = Refuses)) \<and>
    (auth_temporary r \<longleftrightarrow> ps = [] \<or> (\<forall>p \<in> set ps. \<forall>i. says w a password p \<noteq> Accepts i) \<and>
       (\<exists>p \<in> set ps. \<exists>e. says w a password p = Fails e))"
  using authenticate_external_ok [OF assms(3), of password] assms(1,2) by (auto simp: authenticate_def)

definition sample_world :: "answer \<Rightarrow> auth_world" where
  "sample_world a = \<lparr>au_db = sample_db\<lparr>accounts := [(sample_account 4 2 ''ann'')\<lparr>a_auth_mode := EXTERNAL_AUTH,
       a_password_hash := Some ''stale''\<rparr>, (sample_account 5 3 ''bob'')\<lparr>a_password_hash := Some ''good''\<rparr>]\<rparr>,
     au_providers = [\<lparr>pr_id = 9, pr_org_id = Some 1, pr_name = ''corp'', pr_kind = ''ldap'', pr_enabled = True,
       pr_priority = 10, pr_config = [], pr_domains = [''acme.org''], pr_is_default = False,
       pr_auto_provision = False, pr_sync_groups = False, pr_sync_profile = False\<rparr>],
     au_ask = (\<lambda>p u pw. a), au_checkpw = (\<lambda>pw h. Some (pw = h)), au_read_float = (\<lambda>s. None)\<rparr>"

lemma sample_external:
  "\<exists>a ps. account_find ''ann@acme.org'' (au_db (sample_world x)) = Some a \<and> a_auth_mode a = EXTERNAL_AUTH \<and>
    providers_for (au_read_float (sample_world x)) (a_domain_id a) (account_domain a) (au_providers (sample_world x))
      (au_db (sample_world x)) = Inr ps \<and> length ps = 1"
proof -
  have "map_option (\<lambda>a. (a_auth_mode a, map_option length (case providers_for (au_read_float (sample_world x)) (a_domain_id a)
      (account_domain a) (au_providers (sample_world x)) (au_db (sample_world x)) of Inr ps \<Rightarrow> Some ps | Inl _ \<Rightarrow> None)))
    (account_find ''ann@acme.org'' (au_db (sample_world x))) = Some (EXTERNAL_AUTH, Some 1)"
    by code_simp
  then obtain a where a: "account_find ''ann@acme.org'' (au_db (sample_world x)) = Some a" "a_auth_mode a = EXTERNAL_AUTH"
    "map_option length (case providers_for (au_read_float (sample_world x)) (a_domain_id a)
      (account_domain a) (au_providers (sample_world x)) (au_db (sample_world x)) of Inr ps \<Rightarrow> Some ps | Inl _ \<Rightarrow> None) = Some 1"
    by (auto simp: map_option_eq_Some)
  then show ?thesis
    by (cases "providers_for (au_read_float (sample_world x)) (a_domain_id a) (account_domain a)
        (au_providers (sample_world x)) (au_db (sample_world x))") auto
qed

lemma outage_is_no_wrong_password_witness:
  "\<exists>r. authenticate (sample_world (Fails NoAnswerInTime)) ''ann@acme.org'' ''stale'' = Inr r \<and>
     ar_failure r \<noteq> Some BAD_PASSWORD \<and> auth_temporary r"
proof -
  let ?w = "sample_world (Fails NoAnswerInTime)"
  obtain a ps where a: "account_find ''ann@acme.org'' (au_db ?w) = Some a" "a_auth_mode a = EXTERNAL_AUTH"
    "providers_for (au_read_float ?w) (a_domain_id a) (account_domain a) (au_providers ?w) (au_db ?w) = Inr ps" "length ps = 1"
    using sample_external by blast
  have "says ?w a pw p = Fails NoAnswerInTime" for pw p by (simp add: says_def sample_world_def)
  moreover obtain p where "ps = [p]" using a(4) by (auto simp: length_Suc_conv)
  ultimately show ?thesis using outage_is_no_wrong_password [OF a(1-3), of "''stale''"] by auto
qed

lemma login_needs_its_own_credentials_witness:
  "\<exists>r. authenticate (sample_world Refuses) ''ann@acme.org'' ''stale'' = Inr r \<and> \<not> ar_ok r"
proof -
  let ?w = "sample_world Refuses"
  obtain a ps where a: "account_find ''ann@acme.org'' (au_db ?w) = Some a" "a_auth_mode a = EXTERNAL_AUTH"
    "providers_for (au_read_float ?w) (a_domain_id a) (account_domain a) (au_providers ?w) (au_db ?w) = Inr ps"
    using sample_external by blast
  have "says ?w x pw p = Refuses" for x pw p by (simp add: says_def sample_world_def)
  then show ?thesis using login_needs_its_own_credentials [of "''ann@acme.org''" ?w "''stale''"] a by auto
qed

text \<open>
  A provider answers for a domain by its name alone: the organization its row belongs to is not
  asked, so a tenant that lists another tenant's domain is asked for that tenant's logins. And a
  row of a kind that is not implemented, as an older installation may hold, makes every login of
  the domain raise instead of failing temporarily.
\<close>

lemma any_tenant_may_answer:
  "for_domain dn (map (\<lambda>r. r\<lparr>pr_org_id := org\<rparr>) t) = map (\<lambda>r. r\<lparr>pr_org_id := org\<rparr>) (for_domain dn t)"
proof -
  let ?f = "\<lambda>r :: provider_row. r\<lparr>pr_org_id := org\<rparr>"
  have fields: "pr_enabled (?f r) = pr_enabled r" "pr_priority (?f r) = pr_priority r"
    "covers (?f r) dn = covers r dn" "pr_is_default (?f r) = pr_is_default r" "provider_model (?f r) = ?f (provider_model r)" for r
    by (simp_all add: covers_def provider_model_def)
  have sorted: "sort_key pr_priority (map ?f xs) = map ?f (sort_key pr_priority xs)" for xs
  proof -
    have "insort_key pr_priority (?f x) (map ?f ys) = map ?f (insort_key pr_priority x ys)" for x ys
      by (induction ys) simp_all
    then show ?thesis by (induction xs) simp_all
  qed
  show ?thesis
    by (simp add: for_domain_def Let_def filter_map comp_def fields sorted)
qed

lemma unknown_kind_raises:
  "for_domain dn t = r # rs \<Longrightarrow> pr_kind r \<notin> set KINDS \<Longrightarrow>
   providers_for rf i dn t db = Inl (NotImplementedKind (pr_kind r))"
  by (simp add: providers_for_def Let_def build_def)

end
