(* ===== verification/Api_Directory.thy ===== *)
theory Api_Directory
  imports Api_Scope Relay Auth
begin

text \<open>
  The handlers of \<open>src/src/lightr/api/app.py\<close> that write the directory: organizations, domains,
  accounts and aliases. A body is the JSON object of the request, \<open>None\<close> when it is not one. What the
  request takes from outside, the fresh id, the clock, bcrypt and Pydantic's reading of numbers, is an
  argument.
\<close>

section \<open>Bodies\<close>

record api_env =
  ae_shown :: "json \<Rightarrow> string"
  ae_read_int :: "json \<Rightarrow> int option"
  ae_hashpw :: "string \<Rightarrow> string"

definition bad :: "'a + 'b \<Rightarrow> api_error + 'b" where
  "bad r = (case r of Inl _ \<Rightarrow> Inl ValueFault | Inr x \<Rightarrow> Inr x)"

definition parse_body :: "json_object option \<Rightarrow> api_error + json_object" where
  "parse_body body = (case body of None \<Rightarrow> Inl (AuthError 400) | Some d \<Rightarrow> Inr d)"

definition require_fields :: "string list \<Rightarrow> json_object \<Rightarrow> api_error + unit" where
  "require_fields names body = (if json_missing names body \<noteq> [] then Inl (AuthError 400) else Inr ())"

definition check_fields :: "string list \<Rightarrow> string list \<Rightarrow> json_object \<Rightarrow> api_error + unit" where
  "check_fields allowed flags body =
    (if json_unknown allowed body \<noteq> [] then Inl (AuthError 400)
     else if \<exists>f \<in> set flags. (case map_of body f of None \<Rightarrow> False | Some v \<Rightarrow> \<not> is_json_bool v) then Inl (AuthError 400)
     else Inr ())"

text \<open>A flag of the body after \<open>check_fields\<close>.\<close>

definition flag_of :: "string \<Rightarrow> json_object \<Rightarrow> bool option" where
  "flag_of f body = (case map_of body f of Some (JBool b) \<Rightarrow> Some b | _ \<Rightarrow> None)"

lemma bad_Inr [res_simps]: "bad r = Inr x \<longleftrightarrow> r = Inr x"
  by (cases r) (simp_all add: bad_def)

lemma parse_body_Inr [res_simps]: "parse_body b = Inr d \<longleftrightarrow> b = Some d"
  by (cases b) (simp_all add: parse_body_def)

section \<open>Organizations and domains\<close>

definition create_org :: "api_key \<Rightarrow> json_object option \<Rightarrow> uuid \<Rightarrow> instant \<Rightarrow> database \<Rightarrow> api_error + organization \<times> database" where
  "create_org k b fresh now db =
    bind_res (require_admin k) (\<lambda>_.
    bind_res (parse_body b) (\<lambda>body.
    bind_res (require_fields [''name''] body) (\<lambda>_.
    bind_res (bad (str_field (json_get ''name'' body))) (\<lambda>name.
      let og = \<lparr>o_id = fresh, o_name = name, o_created_at = now\<rparr>
      in bind_res (lift_repo (org_create og db)) (\<lambda>db'. Inr (og, db'))))))"

definition new_domain :: "uuid \<Rightarrow> uuid \<Rightarrow> string \<Rightarrow> string option \<Rightarrow> instant \<Rightarrow> domain" where
  "new_domain fresh org name mail_host now =
    \<lparr>d_id = fresh, d_org_id = org, d_name = name, d_mail_hostname = mail_host, d_dkim_private_key = None,
     d_dkim_selector = Some ''default'', d_webhook_url = None, d_auth_webhook_url = None,
     d_auth_webhook_secret = None, d_auth_webhook_verified = False, d_auth_webhook_verified_at = None,
     d_tls_cert_file = None, d_tls_key_file = None, d_relay_enabled = False, d_relay_host = None,
     d_relay_port = None, d_relay_username = None, d_relay_password = None, d_relay_use_tls = False,
     d_relay_tls_skip_verify = False, d_spam_policy = JUNK, d_is_verified = False, d_created_at = now\<rparr>"

definition create_domain ::
  "api_env \<Rightarrow> api_key \<Rightarrow> json_object option \<Rightarrow> uuid \<Rightarrow> uuid \<Rightarrow> instant \<Rightarrow> database \<Rightarrow> api_error + domain \<times> database" where
  "create_domain env k b fresh_org fresh now db0 =
    bind_res (require_permission WRITE k) (\<lambda>_.
    bind_res (parse_body b) (\<lambda>body.
    bind_res (require_fields [''name''] body) (\<lambda>_.
    let org_ref = json_get ''org_id'' body in
    bind_res
      (create_domain_org k (if json_truthy org_ref then Some (json_text (ae_shown env) org_ref) else None) fresh_org now db0)
      (\<lambda>(og, db).
    bind_res (bad (str_field (json_get ''name'' body))) (\<lambda>v.
    bind_res (bad (normalise_name v)) (\<lambda>name.
    bind_res (bad (opt_str_field (json_get ''mail_hostname'' body))) (\<lambda>mail_host.
      let d = new_domain fresh (o_id og) name mail_host now
      in bind_res (lift_repo (domain_create d db)) (\<lambda>db'. Inr (d, db')))))))))"

definition RELAY_FIELDS :: "string list" where
  "RELAY_FIELDS = [''relay_enabled'', ''relay_host'', ''relay_port'', ''relay_username'', ''relay_password'',
     ''relay_use_tls'', ''relay_tls_skip_verify'']"

definition RELAY_FLAGS :: "string list" where
  "RELAY_FLAGS = [''relay_enabled'', ''relay_use_tls'', ''relay_tls_skip_verify'']"

definition RELAY_TEXTS :: "string list" where
  "RELAY_TEXTS = [''relay_host'', ''relay_username'', ''relay_password'']"

text \<open>A text setting: a null clears it, a missing one is left alone.\<close>

definition text_setting :: "string \<Rightarrow> json_object \<Rightarrow> string option" where
  "text_setting f body = (case map_of body f of None \<Rightarrow> None | Some (JStr s) \<Rightarrow> Some s | Some _ \<Rightarrow> Some [])"

text \<open>The port: \<open>check_port\<close> refuses everything that is no integer.\<close>

definition port_setting :: "json_object \<Rightarrow> api_error + int option" where
  "port_setting body =
    (case json_get ''relay_port'' body of JNull \<Rightarrow> Inr None | JInt n \<Rightarrow> Inr (Some n) | _ \<Rightarrow> Inl (AuthError 400))"

definition relay_body :: "json_object \<Rightarrow> int option \<Rightarrow> relay_change" where
  "relay_body body p = \<lparr>rc_enabled = flag_of ''relay_enabled'' body, rc_host = text_setting ''relay_host'' body,
     rc_port = p, rc_username = text_setting ''relay_username'' body, rc_password = text_setting ''relay_password'' body,
     rc_use_tls = flag_of ''relay_use_tls'' body, rc_skip_verify = flag_of ''relay_tls_skip_verify'' body, rc_clear = False\<rparr>"

definition port_cleared :: "json_object \<Rightarrow> domain \<Rightarrow> domain" where
  "port_cleared body d = (if map_of body ''relay_port'' = Some JNull then d\<lparr>d_relay_port := None\<rparr> else d)"

definition update_domain :: "api_key \<Rightarrow> string \<Rightarrow> json_object option \<Rightarrow> database \<Rightarrow> api_error + domain \<times> database" where
  "update_domain k ref b db =
    bind_res (require_permission WRITE k) (\<lambda>_.
    bind_res (parse_body b) (\<lambda>body.
    bind_res (lift_repo (domain_resolve ref db)) (\<lambda>d.
      if \<not> may_reach_domain k (d_id d) (d_org_id d) then Inl (AuthError 403)
      else if k_domain_id k \<noteq> None \<or> k_account_id k \<noteq> None then Inl (AuthError 403)
      else bind_res (check_fields RELAY_FIELDS RELAY_FLAGS body) (\<lambda>_.
        if \<exists>f \<in> set RELAY_TEXTS. (case json_get f body of JNull \<Rightarrow> False | JStr _ \<Rightarrow> False | _ \<Rightarrow> True)
        then Inl (AuthError 400)
        else
          bind_res (port_setting body) (\<lambda>p.
             case relay_apply (relay_body body p) (port_cleared body d) of
               Inl _ \<Rightarrow> Inl (AuthError 400)
             | Inr d' \<Rightarrow> bind_res (lift_repo (domain_update d' db)) (\<lambda>db'. Inr (d', db')))))))"

section \<open>Accounts\<close>

definition auth_mode_of :: "json \<Rightarrow> api_error + auth_mode" where
  "auth_mode_of v =
    (if v = JStr ''native'' then Inr NATIVE else if v = JStr ''external'' then Inr EXTERNAL_AUTH
     else if v = JStr ''disabled'' then Inr DISABLED else Inl ValueFault)"

definition listed :: "(uuid option \<Rightarrow> 'a list) \<Rightarrow> uuid list option \<Rightarrow> 'a list" where
  "listed rows domain_ids = (case domain_ids of None \<Rightarrow> rows None | Some ds \<Rightarrow> concat (map (\<lambda>d. rows (Some d)) ds))"

definition list_accounts :: "api_key \<Rightarrow> string option \<Rightarrow> database \<Rightarrow> api_error + account list" where
  "list_accounts k domain_ref db =
    bind_res (require_permission READ k) (\<lambda>_.
    bind_res (visible_domains k domain_ref db) (\<lambda>ds. Inr (listed (\<lambda>d. account_list d 100 0 db) ds)))"

definition new_account ::
  "uuid \<Rightarrow> uuid \<Rightarrow> string \<Rightarrow> string option \<Rightarrow> int option \<Rightarrow> auth_mode \<Rightarrow> string option \<Rightarrow> instant \<Rightarrow> account" where
  "new_account fresh did local display quota mode h now =
    \<lparr>a_id = fresh, a_domain_id = did, a_local_part = local, a_display_name = display, a_auth_mode = mode,
     a_password_hash = h, a_external_id = None, a_quota_bytes = quota, a_maildir_path = None,
     a_can_send = True, a_can_receive = True, a_created_at = now, a_domain_name = None\<rparr>"

definition create_account ::
  "api_env \<Rightarrow> api_key \<Rightarrow> json_object option \<Rightarrow> uuid \<Rightarrow> instant \<Rightarrow> database \<Rightarrow> api_error + account \<times> database" where
  "create_account env k b fresh now db =
    bind_res (require_permission WRITE k) (\<lambda>_.
    bind_res (parse_body b) (\<lambda>body.
    bind_res (require_fields [''email''] body) (\<lambda>_.
    let addr = json_text (ae_shown env) (json_get ''email'' body) in
    if CHR ''@'' \<notin> set addr then Inl (AuthError 400)
    else
      let (local_part, domain_name) = split_first CHR ''@'' addr
      in bind_res (lift_repo (domain_resolve domain_name db)) (\<lambda>d.
        if \<not> may_reach_domain k (d_id d) (d_org_id d) then Inl (AuthError 403)
        else
          bind_res (auth_mode_of (case map_of body ''auth_mode'' of None \<Rightarrow> JStr ''native'' | Some v \<Rightarrow> v)) (\<lambda>mode.
          bind_res (bad (normalise_local_part local_part)) (\<lambda>local.
          bind_res (bad (opt_str_field (json_get ''display_name'' body))) (\<lambda>display.
          bind_res (bad (opt_int_field (ae_read_int env) (json_get ''quota_bytes'' body))) (\<lambda>quota.
          bind_res (if json_truthy (json_get ''password'' body)
                    then bind_res (bad (hash_password (ae_hashpw env) (json_text (ae_shown env) (json_get ''password'' body))))
                           (\<lambda>h. Inr (Some h))
                    else Inr None) (\<lambda>h.
            let a = new_account fresh (d_id d) local display quota mode h now
            in bind_res (lift_repo (account_create a db)) (\<lambda>db'. Inr (with_domain a d, db')))))))))))"

definition get_account :: "api_key \<Rightarrow> string \<Rightarrow> database \<Rightarrow> api_error + account" where
  "get_account k ref db =
    bind_res (require_permission READ k) (\<lambda>_.
    bind_res (lift_repo (account_resolve ref db)) (\<lambda>a.
    bind_res (reach_account k a db) (\<lambda>_. Inr a)))"

definition ACCOUNT_FLAGS :: "string list" where "ACCOUNT_FLAGS = [''can_send'', ''can_receive'', ''disabled'']"

definition quota_setting :: "json \<Rightarrow> api_error + int option" where
  "quota_setting v =
    (case v of
       JNull \<Rightarrow> Inr None
     | JInt n \<Rightarrow> if n < 0 then Inl (AuthError 400) else Inr (Some n)
     | JBool b \<Rightarrow> Inr (Some (if b then 1 else 0))
     | _ \<Rightarrow> Inl (AuthError 400))"

definition account_settings :: "json_object \<Rightarrow> account \<Rightarrow> api_error + account" where
  "account_settings body a0 =
    bind_res (case map_of body ''display_name'' of
        None \<Rightarrow> Inr a0
      | Some v \<Rightarrow> bind_res (bad (opt_str_field v)) (\<lambda>s. Inr (a0\<lparr>a_display_name := s\<rparr>))) (\<lambda>a1.
    bind_res (case map_of body ''quota_bytes'' of
        None \<Rightarrow> Inr a1
      | Some v \<Rightarrow> bind_res (quota_setting v) (\<lambda>q. Inr (a1\<lparr>a_quota_bytes := q\<rparr>))) (\<lambda>a2.
      let a3 = (case flag_of ''can_send'' body of None \<Rightarrow> a2 | Some x \<Rightarrow> a2\<lparr>a_can_send := x\<rparr>);
          a4 = (case flag_of ''can_receive'' body of None \<Rightarrow> a3 | Some x \<Rightarrow> a3\<lparr>a_can_receive := x\<rparr>)
      in Inr (case flag_of ''disabled'' body of
           None \<Rightarrow> a4
         | Some True \<Rightarrow> a4\<lparr>a_auth_mode := DISABLED\<rparr>
         | Some False \<Rightarrow> a4\<lparr>a_auth_mode := (if truthy (a_external_id a4) then EXTERNAL_AUTH else NATIVE)\<rparr>)))"

definition update_account :: "api_key \<Rightarrow> string \<Rightarrow> json_object option \<Rightarrow> database \<Rightarrow> api_error + account \<times> database" where
  "update_account k ref b db =
    bind_res (require_permission WRITE k) (\<lambda>_.
    bind_res (parse_body b) (\<lambda>body.
    bind_res (lift_repo (account_resolve ref db)) (\<lambda>a.
    bind_res (reach_account k a db) (\<lambda>_.
    bind_res (check_fields ([''display_name'', ''quota_bytes''] @ ACCOUNT_FLAGS) ACCOUNT_FLAGS body) (\<lambda>_.
    bind_res (account_settings body a) (\<lambda>a'.
    bind_res (lift_repo (account_update a' db)) (\<lambda>db'. Inr (a', db'))))))))"

definition delete_account :: "api_key \<Rightarrow> string \<Rightarrow> database \<Rightarrow> api_error + database" where
  "delete_account k ref db =
    bind_res (require_permission WRITE k) (\<lambda>_.
    bind_res (lift_repo (account_resolve ref db)) (\<lambda>a.
    bind_res (reach_account k a db) (\<lambda>_. Inr (account_delete (a_id a) db))))"

section \<open>Aliases\<close>

definition list_aliases :: "api_key \<Rightarrow> string option \<Rightarrow> database \<Rightarrow> api_error + mail_alias list" where
  "list_aliases k domain_ref db =
    bind_res (require_permission READ k) (\<lambda>_.
    bind_res (visible_domains k domain_ref db) (\<lambda>ds. Inr (listed (\<lambda>d. alias_list d 100 db) ds)))"

definition reachable_alias :: "api_key \<Rightarrow> string \<Rightarrow> database \<Rightarrow> api_error + mail_alias" where
  "reachable_alias k ref db =
    bind_res (lift_repo (alias_resolve ref None db)) (\<lambda>l.
    bind_res (lift_repo (domain_resolve (uuid_str (al_domain_id l)) db)) (\<lambda>d.
      if \<not> may_reach_domain k (d_id d) (d_org_id d) then Inl (AuthError 403) else Inr l))"

definition MAX_ALIAS_DESTINATIONS :: nat where "MAX_ALIAS_DESTINATIONS = 50"

definition address_like :: "string \<Rightarrow> bool" where
  "address_like s \<longleftrightarrow> length (filter (\<lambda>c. c = CHR ''@'') s) = 1 \<and> (\<forall>p \<in> set (split_char CHR ''@'' s). p \<noteq> []) \<and>
     \<not> (\<exists>c \<in> set s. is_space c \<or> c \<in> set '',;<>'')"

definition destination_of :: "json \<Rightarrow> api_error + string" where
  "destination_of v =
    (case v of JStr s \<Rightarrow> if address_like s then Inr (lower (strip s)) else Inl (AuthError 400) | _ \<Rightarrow> Inl (AuthError 400))"

definition destinations_of :: "json \<Rightarrow> api_error + string list" where
  "destinations_of v =
    (case v of
       JList xs \<Rightarrow>
         if xs = [] then Inl (AuthError 400)
         else if MAX_ALIAS_DESTINATIONS < length xs then Inl (AuthError 400)
         else bind_res (map_res destination_of xs) (\<lambda>cleaned. Inr (fromkeys cleaned))
     | _ \<Rightarrow> Inl (AuthError 400))"

definition alias_type_of :: "json \<Rightarrow> api_error + alias_type" where
  "alias_type_of v =
    (if v = JStr ''forward'' then Inr FORWARD else if v = JStr ''bridge'' then Inr BRIDGE else Inl (AuthError 400))"

definition alias_settings :: "json_object \<Rightarrow> mail_alias \<Rightarrow> api_error + mail_alias" where
  "alias_settings body l0 =
    bind_res (case map_of body ''destinations'' of
        None \<Rightarrow> Inr l0
      | Some v \<Rightarrow> bind_res (destinations_of v) (\<lambda>ds. Inr (l0\<lparr>al_destinations := ds\<rparr>))) (\<lambda>l1.
    bind_res (case map_of body ''type'' of
        None \<Rightarrow> Inr l1
      | Some v \<Rightarrow> bind_res (alias_type_of v) (\<lambda>t. Inr (l1\<lparr>al_type := t\<rparr>))) (\<lambda>l2.
      case map_of body ''is_active'' of
        None \<Rightarrow> Inr l2
      | Some (JBool x) \<Rightarrow> Inr (l2\<lparr>al_is_active := x\<rparr>)
      | Some _ \<Rightarrow> Inl (AuthError 400)))"

definition update_alias :: "api_key \<Rightarrow> string \<Rightarrow> json_object option \<Rightarrow> instant \<Rightarrow> database \<Rightarrow> api_error + mail_alias \<times> database" where
  "update_alias k ref b now db =
    bind_res (require_permission WRITE k) (\<lambda>_.
    bind_res (parse_body b) (\<lambda>body.
    bind_res (reachable_alias k ref db) (\<lambda>l.
    bind_res (check_fields [''destinations'', ''type'', ''is_active''] [] body) (\<lambda>_.
    bind_res (alias_settings body l) (\<lambda>l'.
    bind_res (lift_repo (alias_update l' now db)) (\<lambda>db'. Inr (l', db')))))))"

definition create_alias ::
  "api_env \<Rightarrow> api_key \<Rightarrow> json_object option \<Rightarrow> uuid \<Rightarrow> instant \<Rightarrow> database \<Rightarrow> api_error + mail_alias \<times> database" where
  "create_alias env k b fresh now db =
    bind_res (require_permission WRITE k) (\<lambda>_.
    bind_res (parse_body b) (\<lambda>body.
    bind_res (require_fields [''source'', ''destinations''] body) (\<lambda>_.
    let source = json_text (ae_shown env) (json_get ''source'' body) in
    if CHR ''@'' \<notin> set source then Inl (AuthError 400)
    else bind_res (lift_repo (domain_resolve (snd (split_first CHR ''@'' source)) db)) (\<lambda>d.
      if \<not> may_reach_domain k (d_id d) (d_org_id d) then Inl (AuthError 403)
      else
        bind_res (destinations_of (json_get ''destinations'' body)) (\<lambda>ds.
        bind_res (alias_type_of (case map_of body ''type'' of None \<Rightarrow> JStr ''forward'' | Some v \<Rightarrow> v)) (\<lambda>t.
        bind_res (bad (normalise_source source)) (\<lambda>src.
          let l = \<lparr>al_id = fresh, al_domain_id = d_id d, al_source = src, al_destinations = ds, al_type = t,
                   al_is_active = True, al_created_at = now, al_updated_at = now\<rparr>
          in bind_res (lift_repo (alias_create l db)) (\<lambda>db'. Inr (l, db')))))))))"

definition delete_alias :: "api_key \<Rightarrow> string \<Rightarrow> database \<Rightarrow> api_error + database" where
  "delete_alias k ref db =
    bind_res (require_permission WRITE k) (\<lambda>_.
    bind_res (reachable_alias k ref db) (\<lambda>l. Inr (alias_delete (al_id l) db)))"

section \<open>Every write, as one request\<close>

datatype directory_request =
    CreateOrg "json_object option"
  | CreateDomain "json_object option"
  | UpdateDomain string "json_object option"
  | DeleteDomain string
  | CreateAccount "json_object option"
  | UpdateAccount string "json_object option"
  | DeleteAccount string
  | CreateAlias "json_object option"
  | UpdateAlias string "json_object option"
  | DeleteAlias string

abbreviation written :: "api_error + 'a \<times> database \<Rightarrow> api_error + database" where
  "written r \<equiv> bind_res r (\<lambda>x. Inr (snd x))"

fun directory_exec ::
  "api_env \<Rightarrow> uuid \<Rightarrow> uuid \<Rightarrow> instant \<Rightarrow> api_key \<Rightarrow> directory_request \<Rightarrow> database \<Rightarrow> api_error + database" where
  "directory_exec env fresh_org fresh now k (CreateOrg b) db = written (create_org k b fresh now db)"
| "directory_exec env fresh_org fresh now k (CreateDomain b) db = written (create_domain env k b fresh_org fresh now db)"
| "directory_exec env fresh_org fresh now k (UpdateDomain ref b) db = written (update_domain k ref b db)"
| "directory_exec env fresh_org fresh now k (DeleteDomain ref) db = written (delete_domain k ref db)"
| "directory_exec env fresh_org fresh now k (CreateAccount b) db = written (create_account env k b fresh now db)"
| "directory_exec env fresh_org fresh now k (UpdateAccount ref b) db = written (update_account k ref b db)"
| "directory_exec env fresh_org fresh now k (DeleteAccount ref) db = delete_account k ref db"
| "directory_exec env fresh_org fresh now k (CreateAlias b) db = written (create_alias env k b fresh now db)"
| "directory_exec env fresh_org fresh now k (UpdateAlias ref b) db = written (update_alias k ref b now db)"
| "directory_exec env fresh_org fresh now k (DeleteAlias ref) db = delete_alias k ref db"

subsection \<open>What a lookup hands to a handler\<close>

lemma account_resolve_joined: "account_resolve ref db = Inr a \<Longrightarrow> a \<in> set (joined db)"
  by (auto simp: account_resolve_def Let_def split_beta split: option.splits if_splits list.splits
      dest!: first_row_filterD filter_singletonD)

lemma account_resolve_row:
  assumes "account_resolve ref db = Inr a"
  obtains r d where "r \<in> set (accounts db)" "d \<in> set (domains db)" "d_id d = a_domain_id r" "a = with_domain r d"
  using account_resolve_joined [OF assms] by (auto simp: in_joined)

lemma alias_resolve_row: "alias_resolve ref did db = Inr l \<Longrightarrow> l \<in> set (aliases db)"
  by (auto simp: alias_resolve_def Let_def split: option.splits if_splits list.splits
      dest!: first_row_filterD filter_singletonD)

lemma create_domain_org_rows:
  "create_domain_org k ref fresh now db = Inr (og, db') \<Longrightarrow>
    domains db' = domains db \<and> accounts db' = accounts db \<and> aliases db' = aliases db"
  by (auto simp: create_domain_org_def org_default_def org_create_def res_simps Let_def
      split: if_splits option.splits list.splits)

lemma account_settings_keep:
  assumes "account_settings body a = Inr a'"
  shows "a_id a' = a_id a \<and> a_domain_id a' = a_domain_id a \<and> a_local_part a' = a_local_part a"
proof -
  obtain a1 a2 where 1: "(case map_of body ''display_name'' of None \<Rightarrow> Inr a
      | Some v \<Rightarrow> bind_res (bad (opt_str_field v)) (\<lambda>s. Inr (a\<lparr>a_display_name := s\<rparr>))) = Inr a1"
    and 2: "(case map_of body ''quota_bytes'' of None \<Rightarrow> Inr a1
      | Some v \<Rightarrow> bind_res (quota_setting v) (\<lambda>q. Inr (a1\<lparr>a_quota_bytes := q\<rparr>))) = Inr a2"
    and 3: "a' = (let a3 = (case flag_of ''can_send'' body of None \<Rightarrow> a2 | Some x \<Rightarrow> a2\<lparr>a_can_send := x\<rparr>);
          a4 = (case flag_of ''can_receive'' body of None \<Rightarrow> a3 | Some x \<Rightarrow> a3\<lparr>a_can_receive := x\<rparr>)
      in case flag_of ''disabled'' body of
           None \<Rightarrow> a4
         | Some True \<Rightarrow> a4\<lparr>a_auth_mode := DISABLED\<rparr>
         | Some False \<Rightarrow> a4\<lparr>a_auth_mode := (if truthy (a_external_id a4) then EXTERNAL_AUTH else NATIVE)\<rparr>)"
    using assms unfolding account_settings_def bind_res_Inr_iff Let_def by (metis sum.inject(2))
  have "a_id a1 = a_id a \<and> a_domain_id a1 = a_domain_id a \<and> a_local_part a1 = a_local_part a"
    using 1 by (cases "map_of body ''display_name''") (auto simp: res_simps)
  moreover have "a_id a2 = a_id a1 \<and> a_domain_id a2 = a_domain_id a1 \<and> a_local_part a2 = a_local_part a1"
    using 2 by (cases "map_of body ''quota_bytes''") (auto simp: res_simps)
  moreover have "a_id a' = a_id a2 \<and> a_domain_id a' = a_domain_id a2 \<and> a_local_part a' = a_local_part a2"
    unfolding 3 by (simp add: Let_def split: option.split bool.split)
  ultimately show ?thesis by simp
qed

lemma alias_settings_keep:
  assumes "alias_settings body l = Inr l'"
  shows "al_id l' = al_id l"
proof -
  obtain l1 l2 where 1: "(case map_of body ''destinations'' of None \<Rightarrow> Inr l
      | Some v \<Rightarrow> bind_res (destinations_of v) (\<lambda>ds. Inr (l\<lparr>al_destinations := ds\<rparr>))) = Inr l1"
    and 2: "(case map_of body ''type'' of None \<Rightarrow> Inr l1
      | Some v \<Rightarrow> bind_res (alias_type_of v) (\<lambda>t. Inr (l1\<lparr>al_type := t\<rparr>))) = Inr l2"
    and 3: "(case map_of body ''is_active'' of None \<Rightarrow> Inr l2
      | Some (JBool x) \<Rightarrow> Inr (l2\<lparr>al_is_active := x\<rparr>) | Some _ \<Rightarrow> Inl (AuthError 400)) = Inr l'"
    using assms unfolding alias_settings_def bind_res_Inr_iff by metis
  have "al_id l1 = al_id l" using 1 by (cases "map_of body ''destinations''") (auto simp: res_simps)
  moreover have "al_id l2 = al_id l1" using 2 by (cases "map_of body ''type''") (auto simp: res_simps)
  moreover have "al_id l' = al_id l2" using 3 by (auto split: option.splits json.splits)
  ultimately show ?thesis by simp
qed

subsection \<open>A request is at most one write, inside the key's scope\<close>

definition reaches :: "api_key \<Rightarrow> database \<Rightarrow> uuid \<Rightarrow> bool" where
  "reaches k db i \<longleftrightarrow> (\<forall>d \<in> set (domains db). d_id d = i \<longrightarrow> may_reach_domain k (d_id d) (d_org_id d))"

definition in_scope :: "api_key \<Rightarrow> database \<Rightarrow> repo_op \<Rightarrow> bool" where
  "in_scope k db op \<longleftrightarrow> (\<forall>i \<in> op_touches op db. reaches k db i)"

lemma reachesI:
  assumes "db_ok db" and "d \<in> set (domains db)" and "may_reach_domain k (d_id d) (d_org_id d)"
  shows "reaches k db (d_id d)"
  unfolding reaches_def using unique_byD [OF db_okD(2) [OF assms(1)] _ assms(2)] assms(3) by blast

lemma reaches_stored:
  assumes "db_ok db" and "domain_resolve (uuid_str i) db = Inr d" and "may_reach_domain k (d_id d) (d_org_id d)"
  shows "reaches k db i"
  unfolding reaches_def using domain_resolve_by_id [OF assms(1)] assms(2,3) by (metis sum.inject(2))

lemma resolved_reach:
  "db_ok db \<Longrightarrow> domain_resolve ref db = Inr d \<Longrightarrow> may_reach_domain k (d_id d) (d_org_id d) \<Longrightarrow> reaches k db (d_id d)"
  by (blast intro: reachesI domain_resolve_Inr)

lemma account_in_scope:
  assumes ok: "db_ok db" and "account_resolve ref db = Inr a" and "reach_account k a db = Inr ()"
  shows "in_scope k db (AccountDelete (a_id a))"
    and "a_id a' = a_id a \<Longrightarrow> a_domain_id a' = a_domain_id a \<Longrightarrow> in_scope k db (AccountUpdate a')"
    and "canonical_local_part (a_local_part a) \<and> valid_uuid (a_id a)"
proof -
  obtain r d where r: "r \<in> set (accounts db)" "a = with_domain r d"
    by (rule account_resolve_row [OF assms(2)])
  have "reaches k db (a_domain_id a)"
    using assms(3) reaches_stored [OF ok] by (auto simp: reach_account_def res_simps split: if_splits)
  moreover have "a_domain_id r' = a_domain_id a" if "r' \<in> set (accounts db)" "a_id r' = a_id a" for r'
    using unique_byD [OF db_okD(4) [OF ok] that(1) r(1)] that(2) r(2) by (simp add: with_domain_def)
  ultimately show "in_scope k db (AccountDelete (a_id a))"
    and "a_id a' = a_id a \<Longrightarrow> a_domain_id a' = a_domain_id a \<Longrightarrow> in_scope k db (AccountUpdate a')"
    by (auto simp: in_scope_def)
  show "canonical_local_part (a_local_part a) \<and> valid_uuid (a_id a)"
    using db_okD(10,11) [OF ok r(1)] r(2) by (simp add: with_domain_def)
qed

lemma alias_in_scope:
  assumes ok: "db_ok db" and "reachable_alias k ref db = Inr l" and l': "al_id l' = al_id l"
  shows "in_scope k db (AliasDelete (al_id l))" and "in_scope k db (AliasUpdate l' now)"
proof -
  have l: "l \<in> set (aliases db)" and reach: "reaches k db (al_domain_id l)"
    using assms(2) reaches_stored [OF ok]
    by (auto simp: reachable_alias_def res_simps split: if_splits dest: alias_resolve_row)
  have "al_domain_id x = al_domain_id l" if "x \<in> set (aliases db)" "al_id x = al_id l" for x
    using unique_byD [OF db_okD(6) [OF ok] that(1) l] that(2) by simp
  then show "in_scope k db (AliasDelete (al_id l))" and "in_scope k db (AliasUpdate l' now)"
    using reach l' by (auto simp: in_scope_def)
qed

lemma db_ok_create_domain_org:
  assumes "db_ok db" and "create_domain_org k ref fresh now db = Inr (og, db')"
  shows "db_ok db'"
  using assms db_ok_org_create [OF assms(1)]
  by (auto simp: create_domain_org_def org_default_def res_simps Let_def split: if_splits option.splits list.splits)

text \<open>A name whose only whitespace is around it: what \<open>normalise_name\<close> leaves is then stable.\<close>

fun plain_name :: "directory_request \<Rightarrow> bool" where
  "plain_name (CreateDomain (Some body)) =
    (case json_get ''name'' body of JStr v \<Rightarrow> (\<forall>c \<in> set (strip v). \<not> is_space c) | _ \<Rightarrow> True)"
| "plain_name _ = True"

text \<open>
  Every request that is answered is one repository write on the database (which may have
  gained its default organization first), that touches only domains the key reaches and writes
  what the validators let through. Only the removal of a domain that has accounts is answered
  without one.
\<close>

definition one_write :: "uuid \<Rightarrow> api_key \<Rightarrow> directory_request \<Rightarrow> database \<Rightarrow> database \<Rightarrow> bool" where
  "one_write fresh k rq db db' \<longleftrightarrow>
    (\<exists>op db0. repo_exec op db0 = Inr db' \<and> db_ok db0 \<and> in_scope k db0 op \<and>
      domains db0 = domains db \<and> accounts db0 = accounts db \<and> aliases db0 = aliases db \<and>
      (valid_uuid fresh \<and> plain_name rq \<longrightarrow> validated op))"

lemma one_writeI:
  "repo_exec op db = Inr db' \<Longrightarrow> db_ok db \<Longrightarrow> in_scope k db op \<Longrightarrow> (valid_uuid fresh \<Longrightarrow> plain_name rq \<Longrightarrow> validated op) \<Longrightarrow>
    one_write fresh k rq db db'"
  unfolding one_write_def by blast

lemma create_domain_writes:
  assumes ok: "db_ok db" and r: "create_domain env k b fresh_org fresh now db = Inr (d, db')"
  shows "one_write fresh k (CreateDomain b) db db'"
proof -
  obtain body og db0 v name mail_host ref where b: "b = Some body"
    and org: "create_domain_org k ref fresh_org now db = Inr (og, db0)"
    and v: "json_get ''name'' body = JStr v" and name: "normalise_name v = Inr name"
    and w: "domain_create (new_domain fresh (o_id og) name mail_host now) db0 = Inr db'"
    using r by (auto simp: create_domain_def res_simps Let_def)
  have "plain_name (CreateDomain b) \<Longrightarrow> canonical_name name"
    using normalise_name_idem [OF name] by (simp add: b v)
  moreover have "in_scope k db0 (DomainCreate x)" for x by (simp add: in_scope_def)
  ultimately show ?thesis unfolding one_write_def
    using db_ok_create_domain_org [OF ok org] create_domain_org_rows [OF org] w
    by (intro exI [of _ "DomainCreate (new_domain fresh (o_id og) name mail_host now)"] exI [of _ db0])
       (simp add: new_domain_def)
qed

lemma update_domain_writes:
  assumes ok: "db_ok db" and r: "update_domain k ref b db = Inr (d', db')"
  shows "one_write fresh k (UpdateDomain ref b) db db'"
proof -
  obtain body d p where d: "domain_resolve ref db = Inr d" "may_reach_domain k (d_id d) (d_org_id d)"
    and c: "relay_apply (relay_body body p) (port_cleared body d) = Inr d'" and w: "domain_update d' db = Inr db'"
    using r by (auto simp: update_domain_def res_simps handled_Inr split: if_splits)
  have d0: "d_id (port_cleared body d) = d_id d" "d_name (port_cleared body d) = d_name d" by (simp_all add: port_cleared_def)
  note keep = relay_apply_keeps [OF c]
  have "in_scope k db (DomainUpdate d')"
    using resolved_reach [OF ok d] keep d0 by (simp add: in_scope_def)
  moreover have "validated (DomainUpdate d')"
    using db_okD(8,9) [OF ok domain_resolve_Inr [OF d(1)]] keep d0 by simp
  ultimately show ?thesis using w ok by (intro one_writeI [of "DomainUpdate d'"]) simp_all
qed

lemma create_account_writes:
  assumes ok: "db_ok db" and r: "create_account env k b fresh now db = Inr (a', db')"
  shows "one_write fresh k (CreateAccount b) db db'"
proof -
  obtain d local_part ref local display quota mode h where d: "domain_resolve ref db = Inr d" "may_reach_domain k (d_id d) (d_org_id d)"
    and local: "normalise_local_part local_part = Inr local"
    and w: "account_create (new_account fresh (d_id d) local display quota mode h now) db = Inr db'"
    using r by (auto simp: create_account_def res_simps Let_def split_beta split: if_splits)
  let ?a = "new_account fresh (d_id d) local display quota mode h now"
  have "in_scope k db (AccountCreate ?a)"
    using resolved_reach [OF ok d] by (simp add: in_scope_def new_account_def)
  moreover have "valid_uuid fresh \<Longrightarrow> validated (AccountCreate ?a)"
    using normalise_local_part_idem [OF local] by (simp add: new_account_def)
  ultimately show ?thesis using w ok by (intro one_writeI [of "AccountCreate ?a"]) simp_all
qed

lemma update_account_writes:
  assumes ok: "db_ok db" and r: "update_account k ref b db = Inr (a', db')"
  shows "one_write fresh k (UpdateAccount ref b) db db'"
proof -
  obtain a body where a: "account_resolve ref db = Inr a" "reach_account k a db = Inr ()"
    and s: "account_settings body a = Inr a'" and w: "account_update a' db = Inr db'"
    using r by (auto simp: update_account_def res_simps)
  note keep = account_settings_keep [OF s] and scope = account_in_scope [OF ok a]
  have "in_scope k db (AccountUpdate a')" using scope(2) keep by simp
  moreover have "validated (AccountUpdate a')" using scope(3) keep by simp
  ultimately show ?thesis using w ok by (intro one_writeI [of "AccountUpdate a'"]) simp_all
qed

lemma create_alias_writes:
  assumes ok: "db_ok db" and r: "create_alias env k b fresh now db = Inr (l, db')"
  shows "one_write fresh k (CreateAlias b) db db'"
proof -
  obtain d ref where d: "domain_resolve ref db = Inr d" "may_reach_domain k (d_id d) (d_org_id d)"
    and l: "al_domain_id l = d_id d" and w: "alias_create l db = Inr db'"
    using r by (auto simp: create_alias_def res_simps Let_def split: if_splits)
  then show ?thesis using ok resolved_reach [OF ok d]
    by (intro one_writeI [of "AliasCreate l"]) (simp_all add: in_scope_def)
qed

lemma update_alias_writes:
  assumes ok: "db_ok db" and r: "update_alias k ref b now db = Inr (l', db')"
  shows "one_write fresh k (UpdateAlias ref b) db db'"
proof -
  obtain l body where l: "reachable_alias k ref db = Inr l" and s: "alias_settings body l = Inr l'"
    and w: "alias_update l' now db = Inr db'"
    using r by (auto simp: update_alias_def res_simps)
  show ?thesis using w ok alias_in_scope(2) [OF ok l alias_settings_keep [OF s]]
    by (intro one_writeI [of "AliasUpdate l' now"]) simp_all
qed

lemma deletes_write:
  assumes ok: "db_ok db"
  shows "delete_domain k ref db = Inr (left, db') \<Longrightarrow> db' = db \<or> one_write fresh k (DeleteDomain ref) db db'"
    and "delete_account k ref db = Inr db' \<Longrightarrow> one_write fresh k (DeleteAccount ref) db db'"
    and "delete_alias k ref db = Inr db' \<Longrightarrow> one_write fresh k (DeleteAlias ref) db db'"
proof -
  assume "delete_domain k ref db = Inr (left, db')"
  then consider "db' = db"
    | d where "domain_resolve ref db = Inr d" "may_reach_domain k (d_id d) (d_org_id d)" "domain_delete (d_id d) db = Inr db'"
    by (auto simp: delete_domain_def res_simps Let_def split: if_splits)
  then show "db' = db \<or> one_write fresh k (DeleteDomain ref) db db'"
  proof cases
    case (2 d)
    then have "one_write fresh k (DeleteDomain ref) db db'" using ok resolved_reach [OF ok]
      by (intro one_writeI [of "DomainDelete (d_id d)"]) (simp_all add: in_scope_def)
    then show ?thesis ..
  qed simp
next
  assume "delete_account k ref db = Inr db'"
  then obtain a where a: "account_resolve ref db = Inr a" "reach_account k a db = Inr ()" "db' = account_delete (a_id a) db"
    by (auto simp: delete_account_def res_simps)
  then show "one_write fresh k (DeleteAccount ref) db db'" using ok account_in_scope(1) [OF ok a(1,2)]
    by (intro one_writeI [of "AccountDelete (a_id a)"]) simp_all
next
  assume "delete_alias k ref db = Inr db'"
  then obtain l where l: "reachable_alias k ref db = Inr l" "db' = alias_delete (al_id l) db"
    by (auto simp: delete_alias_def res_simps)
  then show "one_write fresh k (DeleteAlias ref) db db'" using ok alias_in_scope(1) [OF ok l(1) refl]
    by (intro one_writeI [of "AliasDelete (al_id l)"]) simp_all
qed

lemma create_org_writes:
  assumes "db_ok db" and "create_org k b fresh now db = Inr (og, db')"
  shows "one_write fresh k (CreateOrg b) db db'"
  using assms by (auto simp: create_org_def res_simps Let_def in_scope_def intro!: one_writeI [of "OrgCreate og"])

lemma directory_exec_writes:
  assumes "db_ok db" and "directory_exec env fresh_org fresh now k rq db = Inr db'"
  shows "db' = db \<or> one_write fresh k rq db db'"
  using assms
  by (cases rq) (auto simp: res_simps intro: create_org_writes create_domain_writes update_domain_writes create_account_writes
      update_account_writes create_alias_writes update_alias_writes deletes_write(2,3) dest: deletes_write(1))

text \<open>
  C26. Whatever write of the directory a key without admin rights sends, with whatever body, when
  it is answered the domains the key may not reach are as they were, and so is every account and
  alias in them.
\<close>

theorem writes_stay_in_scope:
  assumes "db_ok db" and "directory_exec env fresh_org fresh now k rq db = Inr db'"
    and "d \<in> set (domains db)" and "\<not> may_reach_domain k (d_id d) (d_org_id d)"
  shows "same_domain d db db'"
proof (cases "db' = db")
  case True
  then show ?thesis using assms(3) by (simp add: same_domain_def)
next
  case False
  then obtain op db0 where w: "repo_exec op db0 = Inr db'" and s: "in_scope k db0 op"
    and rows: "domains db0 = domains db" "accounts db0 = accounts db" "aliases db0 = aliases db"
    using directory_exec_writes [OF assms(1,2)] by (auto simp: one_write_def)
  have "d_id d \<notin> op_touches op db0"
    using s assms(3,4) rows by (auto simp: in_scope_def reaches_def)
  from write_frame [OF w _ this] show ?thesis using assms(3) rows by (simp add: same_domain_def)
qed

definition acme_key :: api_key where
  "acme_key = (sample_key 2 DOMAIN_KEY ''h2'')\<lparr>k_domain_id := Some 2\<rparr>"

definition sample_env :: api_env where
  "sample_env = \<lparr>ae_shown = (\<lambda>_. ''?''), ae_read_int = (\<lambda>_. None), ae_hashpw = (\<lambda>p. ''$'' @ p)\<rparr>"

definition new_bob :: directory_request where
  "new_bob = CreateAccount (Some [(''email'', JStr ''Bob@acme.org''), (''password'', JStr ''long-secret'')])"

lemma new_bob_answered: "\<exists>db'. directory_exec sample_env 20 21 0 acme_key new_bob sample_db = Inr db'"
proof -
  have "isl (directory_exec sample_env 20 21 0 acme_key new_bob sample_db) = False" by code_simp
  then show ?thesis by (cases "directory_exec sample_env 20 21 0 acme_key new_bob sample_db") simp_all
qed

lemma writes_stay_in_scope_witness:
  "\<exists>db'. directory_exec sample_env 20 21 0 acme_key new_bob sample_db = Inr db' \<and>
    same_domain (sample_domain 3 ''b.net'') sample_db db'"
proof -
  have "sample_domain 3 ''b.net'' \<in> set (domains sample_db)" by (simp add: sample_db_def)
  moreover have "\<not> may_reach_domain acme_key (d_id (sample_domain 3 ''b.net'')) (d_org_id (sample_domain 3 ''b.net''))"
    by (simp add: may_reach_domain_def is_admin_def acme_key_def sample_key_def sample_domain_def)
  ultimately show ?thesis
    using new_bob_answered writes_stay_in_scope [OF sample_db_ok, of sample_env 20 21 0 acme_key new_bob] by blast
qed

text \<open>
  C29. Every answered write of a well-formed directory leaves it well formed: ids, domain names and addresses
  unique, every domain in a stored organization and every account in a stored domain, names and local
  parts normalised. The body may hold anything but a domain name with whitespace inside it (a tab
  before a final dot survives the validator); of aliases only the ids and addresses are part of this.
\<close>

theorem handlers_keep_db_ok:
  assumes "db_ok db" and "directory_exec env fresh_org fresh now k rq db = Inr db'"
    and "valid_uuid fresh" and "plain_name rq"
  shows "db_ok db'"
  using directory_exec_writes [OF assms(1,2)] assms(1,3,4) db_ok_exec by (auto simp: one_write_def)

lemma handlers_keep_db_ok_witness:
  "\<exists>db'. directory_exec sample_env 20 21 0 acme_key new_bob sample_db = Inr db' \<and> db_ok db'"
  using new_bob_answered handlers_keep_db_ok [OF sample_db_ok, of sample_env 20 21 0 acme_key new_bob]
  by (auto simp: new_bob_def valid_uuid_def)

end
