(* ===== verification/Ratelimit.thy ===== *)
theory Ratelimit
  imports Prelude Complex_Main
begin

text \<open>
  \<open>src/src/lightr/ratelimit.py\<close>: token buckets, the address-keyed \<open>Limiter\<close> of the SMTP
  listeners and the API, and the per-key \<open>KeyLimiter\<close>. Python's floats are rationals here
  (no rounding), a reading of \<open>time.monotonic()\<close> is an argument, one per call the code
  makes, and a bucket shared by reference is an entry of the table that is written back.
  The locale \<open>token_gate\<close> states what the limiters rely on; the bucket is its model.
\<close>

section \<open>\<open>Bucket\<close>\<close>

record bucket =
  capacity :: rat
  period :: rat
  tokens :: rat
  updated :: rat

definition new_bucket :: "rat \<Rightarrow> rat \<Rightarrow> rat \<Rightarrow> bucket" where
  "new_bucket cap per now = \<lparr>capacity = cap, period = per, tokens = cap, updated = now\<rparr>"

definition bucket_take :: "bucket \<Rightarrow> rat \<Rightarrow> bool \<times> bucket" where
  "bucket_take b now =
    (let elapsed = max 0 (now - updated b);
         b = b\<lparr>updated := now\<rparr>;
         b = b\<lparr>tokens := min (capacity b) (tokens b + elapsed * (capacity b / period b))\<rparr>
     in if tokens b < 1 then (False, b)
        else (True, b\<lparr>tokens := tokens b - 1\<rparr>))"

definition bucket_retry_after :: "bucket \<Rightarrow> int" where
  "bucket_retry_after b =
    (let missing = max 0 (1 - tokens b)
     in max 1 (\<lfloor>missing / (capacity b / period b)\<rfloor> + 1))"

section \<open>\<open>Limiter\<close>\<close>

record limiter =
  l_capacity :: rat
  l_period :: rat
  l_buckets :: "(string, bucket) dict"

definition mk_limiter :: "int \<Rightarrow> rat \<Rightarrow> limiter option" where
  "mk_limiter cap per =
    (if cap > 0 then Some \<lparr>l_capacity = of_int cap, l_period = per, l_buckets = []\<rparr> else None)"

definition SWEEP_AT :: nat where "SWEEP_AT = 4096"

definition limiter_sweep :: "limiter \<Rightarrow> rat \<Rightarrow> limiter" where
  "limiter_sweep L now =
    L\<lparr>l_buckets := filter (\<lambda>(k, b). \<not> now - updated b > l_period L) (l_buckets L)\<rparr>"

text \<open>\<open>bucket(key)\<close>; \<open>ts\<close> is the sweep's clock reading, \<open>tn\<close> the new bucket's.\<close>

definition limiter_bucket :: "limiter \<Rightarrow> string \<Rightarrow> rat \<Rightarrow> rat \<Rightarrow> bucket \<times> limiter" where
  "limiter_bucket L key ts tn =
    (case map_of (l_buckets L) key of
       Some found \<Rightarrow> (found, L)
     | None \<Rightarrow>
         let L = (if length (l_buckets L) \<ge> SWEEP_AT then limiter_sweep L ts else L);
             found = new_bucket (l_capacity L) (l_period L) tn
         in (found, L\<lparr>l_buckets := AList.update key found (l_buckets L)\<rparr>))"

definition limiter_allow :: "limiter \<Rightarrow> string \<Rightarrow> rat \<Rightarrow> rat \<Rightarrow> rat \<Rightarrow> bool \<times> limiter" where
  "limiter_allow L key ts tn tt =
    (let (found, L) = limiter_bucket L key ts tn;
         (ok, found) = bucket_take found tt
     in (ok, L\<lparr>l_buckets := AList.update key found (l_buckets L)\<rparr>))"

definition limiter_retry_after :: "limiter \<Rightarrow> string \<Rightarrow> rat \<Rightarrow> rat \<Rightarrow> int \<times> limiter" where
  "limiter_retry_after L key ts tn =
    (let (found, L) = limiter_bucket L key ts tn in (bucket_retry_after found, L))"

definition limiter_forget :: "limiter \<Rightarrow> string \<Rightarrow> limiter" where
  "limiter_forget L key = L\<lparr>l_buckets := AList.delete key (l_buckets L)\<rparr>"

section \<open>\<open>KeyLimiter\<close>\<close>

record key_limiter =
  minute_buckets :: "(string, bucket) dict"
  day_buckets :: "(string, bucket) dict"

definition new_key_limiter :: key_limiter where
  "new_key_limiter = \<lparr>minute_buckets = [], day_buckets = []\<rparr>"

text \<open>One turn of the loop over the two tables: the wait, if refused, and the table.\<close>

definition check_table ::
  "(string, bucket) dict \<Rightarrow> string \<Rightarrow> int \<Rightarrow> rat \<Rightarrow> rat \<Rightarrow> rat \<Rightarrow> int option \<times> (string, bucket) dict" where
  "check_table table key limit per tn tt =
    (if limit \<le> 0 then (None, table)
     else
       let b = (case map_of table key of
                  None \<Rightarrow> new_bucket (of_int limit) per tn
                | Some b \<Rightarrow> if capacity b \<noteq> of_int limit then new_bucket (of_int limit) per tn else b);
           (ok, b) = bucket_take b tt;
           table = AList.update key b table
       in if \<not> ok then (Some (bucket_retry_after b), table) else (None, table))"

definition key_check ::
  "key_limiter \<Rightarrow> string \<Rightarrow> int \<Rightarrow> int \<Rightarrow> rat \<times> rat \<Rightarrow> rat \<times> rat \<Rightarrow> int option \<times> key_limiter" where
  "key_check K key rate_limit daily_limit t1 t2 =
    (case check_table (minute_buckets K) key rate_limit 60 (fst t1) (snd t1) of
       (Some wait, table) \<Rightarrow> (Some wait, K\<lparr>minute_buckets := table\<rparr>)
     | (None, table) \<Rightarrow>
         let K = K\<lparr>minute_buckets := table\<rparr>;
             (w, table) = check_table (day_buckets K) key daily_limit 86400 (fst t2) (snd t2)
         in (w, K\<lparr>day_buckets := table\<rparr>))"

definition key_forget :: "key_limiter \<Rightarrow> string \<Rightarrow> key_limiter" where
  "key_forget K key =
    K\<lparr>minute_buckets := AList.delete key (minute_buckets K),
      day_buckets := AList.delete key (day_buckets K)\<rparr>"

section \<open>What a limiter needs of a bucket\<close>

text \<open>A run of requests at given instants: which were admitted, and the bucket after.\<close>

fun admit_run :: "('b \<Rightarrow> rat \<Rightarrow> bool \<times> 'b) \<Rightarrow> 'b \<Rightarrow> rat list \<Rightarrow> bool list \<times> 'b" where
  "admit_run grant b [] = ([], b)"
| "admit_run grant b (t # ts) =
    (let (ok, b') = grant b t; (oks, b'') = admit_run grant b' ts in (ok # oks, b''))"

definition admitted :: "bool list \<Rightarrow> nat" where
  "admitted oks = length (filter (\<lambda>x. x) oks)"

lemma admitted_simps [simp]:
  "admitted [] = 0" "admitted (ok # oks) = (if ok then 1 else 0) + admitted oks"
  by (simp_all add: admitted_def)

locale token_gate =
  fixes grant :: "'b \<Rightarrow> rat \<Rightarrow> bool \<times> 'b"
    and level :: "'b \<Rightarrow> rat \<Rightarrow> rat"
    and rate :: "'b \<Rightarrow> rat"
    and burst :: "'b \<Rightarrow> rat"
    and since :: "'b \<Rightarrow> rat"
    and invar :: "'b \<Rightarrow> bool"
  assumes take_iff: "invar b \<Longrightarrow> fst (grant b t) \<longleftrightarrow> 1 \<le> level b t"
    and take_invar: "invar b \<Longrightarrow> since b \<le> t \<Longrightarrow> invar (snd (grant b t))"
    and take_since: "since (snd (grant b t)) = t"
    and take_rate: "rate (snd (grant b t)) = rate b"
    and take_burst: "burst (snd (grant b t)) = burst b"
    and take_level: "invar b \<Longrightarrow> since b \<le> t \<Longrightarrow>
          level (snd (grant b t)) t = level b t - (if fst (grant b t) then 1 else 0)"
    and refill: "invar b \<Longrightarrow> since b \<le> t \<Longrightarrow> t \<le> t' \<Longrightarrow>
          level b t' = min (burst b) (level b t + (t' - t) * rate b)"
    and level_nonneg: "invar b \<Longrightarrow> 0 \<le> level b t"
    and rate_pos: "invar b \<Longrightarrow> 0 < rate b"
begin

text \<open>Over any run, no more is admitted than the level at its start plus what refills.\<close>

lemma run_bound:
  assumes "invar b" and "since b \<le> t0" and "sorted (t0 # ts)"
  shows "of_nat (admitted (fst (admit_run grant b ts)))
    \<le> level b t0 + (last (t0 # ts) - t0) * rate b"
  using assms
proof (induction ts arbitrary: b t0)
  case Nil
  then show ?case by (simp add: level_nonneg)
next
  case (Cons t ts)
  obtain ok b' where tk: "grant b t = (ok, b')" by (cases "grant b t")
  have t: "t0 \<le> t" "since b \<le> t" using Cons.prems by auto
  have b': "invar b'" "since b' = t" "rate b' = rate b"
    using take_invar [OF Cons.prems(1) t(2)] take_since [of b t] take_rate [of b t] tk by simp_all
  have lv: "level b' t = level b t - (if ok then 1 else 0)"
    using take_level [OF Cons.prems(1) t(2)] tk by simp
  have "level b t \<le> level b t0 + (t - t0) * rate b"
    using refill [OF Cons.prems(1,2) t(1)] by simp
  moreover have "of_nat (admitted (fst (admit_run grant b' ts))) \<le> level b' t + (last (t # ts) - t) * rate b"
    using Cons.IH [of b' t] b' Cons.prems(3) by simp
  ultimately have "of_nat (admitted (fst (admit_run grant b' ts))) + (if ok then 1 else 0)
    \<le> level b t0 + (t - t0) * rate b + (last (t # ts) - t) * rate b"
    using lv by simp
  also have "\<dots> = level b t0 + (last (t # ts) - t0) * rate b"
    by (simp add: algebra_simps)
  finally show ?case using tk by (auto simp: split_beta)
qed

text \<open>After a refusal, waiting until the missing part has refilled is enough.\<close>

lemma wait_enough:
  assumes "invar b" and "since b \<le> t" and "\<not> fst (grant b t)" and "1 \<le> burst b"
    and "0 \<le> d" and "1 - level b t \<le> d * rate b"
  shows "fst (grant (snd (grant b t)) (t + d))"
proof -
  let ?b = "snd (grant b t)"
  have inv: "invar ?b" and s: "since ?b = t"
    using assms(1,2) by (simp_all add: take_invar take_since)
  have "level ?b (t + d) = min (burst b) (level b t + d * rate b)"
    using refill [OF inv, of t "t + d"] s assms(1,2,3,5) take_level [OF assms(1,2)]
    by (simp add: take_burst take_rate)
  with assms(4,6) have "1 \<le> level ?b (t + d)" by (simp add: min_def)
  then show ?thesis using take_iff [OF inv] by simp
qed

end

section \<open>The bucket is such a gate\<close>

definition bucket_ok :: "bucket \<Rightarrow> bool" where
  "bucket_ok b \<longleftrightarrow> 0 < capacity b \<and> 0 < period b \<and> 0 \<le> tokens b \<and> tokens b \<le> capacity b"

definition bucket_rate :: "bucket \<Rightarrow> rat" where
  "bucket_rate b = capacity b / period b"

definition bucket_level :: "bucket \<Rightarrow> rat \<Rightarrow> rat" where
  "bucket_level b t = min (capacity b) (tokens b + max 0 (t - updated b) * bucket_rate b)"

lemma bucket_take_eq:
  "bucket_take b t = (1 \<le> bucket_level b t,
     b\<lparr>updated := t, tokens := bucket_level b t - (if 1 \<le> bucket_level b t then 1 else 0)\<rparr>)"
  by (auto simp: bucket_take_def bucket_level_def bucket_rate_def Let_def)

lemma bucket_rate_pos: "bucket_ok b \<Longrightarrow> 0 < bucket_rate b"
  by (simp add: bucket_ok_def bucket_rate_def)

lemma bucket_level_range: "bucket_ok b \<Longrightarrow> 0 \<le> bucket_level b t \<and> bucket_level b t \<le> capacity b"
  using bucket_rate_pos [of b] by (auto simp: bucket_level_def bucket_ok_def)

lemma bucket_ok_new: "0 < cap \<Longrightarrow> 0 < per \<Longrightarrow> bucket_ok (new_bucket cap per t)"
  by (simp add: bucket_ok_def new_bucket_def)

lemma bucket_ok_take: "bucket_ok b \<Longrightarrow> bucket_ok (snd (bucket_take b t))"
  using bucket_level_range [of b t] by (auto simp: bucket_take_eq bucket_ok_def)

lemma bucket_level_refill:
  assumes "bucket_ok b" and "updated b \<le> t" and "t \<le> t'"
  shows "bucket_level b t' = min (capacity b) (bucket_level b t + (t' - t) * bucket_rate b)"
proof -
  have "(t' - updated b) * bucket_rate b = (t - updated b) * bucket_rate b + (t' - t) * bucket_rate b"
    by (simp add: algebra_simps)
  moreover have "0 \<le> (t' - t) * bucket_rate b"
    using assms(3) bucket_rate_pos [OF assms(1)] by simp
  ultimately show ?thesis
    using assms(2,3) by (auto simp: bucket_level_def min_def max_def)
qed

lemma bucket_level_at_update:
  "tokens b \<le> capacity b \<Longrightarrow> bucket_level (b\<lparr>updated := t, tokens := x\<rparr>) t = min (capacity b) x"
  by (simp add: bucket_level_def bucket_rate_def)

interpretation bucket_gate: token_gate bucket_take bucket_level bucket_rate capacity updated bucket_ok
proof unfold_locales
  fix b :: bucket and t t' :: rat
  assume ok: "bucket_ok b"
  show "fst (bucket_take b t) = (1 \<le> bucket_level b t)"
    by (simp add: bucket_take_eq)
  show "0 \<le> bucket_level b t" "0 < bucket_rate b"
    using ok bucket_level_range bucket_rate_pos by auto
  assume "updated b \<le> t"
  show "bucket_ok (snd (bucket_take b t))" using ok by (rule bucket_ok_take)
  show "bucket_level (snd (bucket_take b t)) t = bucket_level b t - (if fst (bucket_take b t) then 1 else 0)"
    using bucket_level_range [OF ok, of t] ok
    by (auto simp: bucket_take_eq bucket_level_at_update bucket_ok_def)
  assume "t \<le> t'"
  show "bucket_level b t' = min (capacity b) (bucket_level b t + (t' - t) * bucket_rate b)"
    by (rule bucket_level_refill) fact+
qed (simp_all add: bucket_take_eq bucket_rate_def)

section \<open>Sweeping forgets nothing\<close>

text \<open>
  The specification of the limiter is one that keeps every bucket for ever. A swept bucket
  has been idle for more than its period, so it is full again, and a full bucket answers
  like the fresh one that replaces it.
\<close>

definition ideal_allow ::
  "rat \<Rightarrow> rat \<Rightarrow> (string \<rightharpoonup> bucket) \<Rightarrow> string \<Rightarrow> rat \<Rightarrow> rat \<Rightarrow> bool \<times> (string \<rightharpoonup> bucket)" where
  "ideal_allow cap per I key tn tt =
    (let b = (case I key of Some b \<Rightarrow> b | None \<Rightarrow> new_bucket cap per tn);
         (ok, b) = bucket_take b tt
     in (ok, I(key \<mapsto> b)))"

text \<open>A request: the key, and the three clock readings its call makes.\<close>

type_synonym request = "string \<times> rat \<times> rat \<times> rat"

fun limiter_run :: "limiter \<Rightarrow> request list \<Rightarrow> bool list" where
  "limiter_run L [] = []"
| "limiter_run L ((key, ts, tn, tt) # rs) =
    (let (ok, L') = limiter_allow L key ts tn tt in ok # limiter_run L' rs)"

fun ideal_run :: "rat \<Rightarrow> rat \<Rightarrow> (string \<rightharpoonup> bucket) \<Rightarrow> request list \<Rightarrow> bool list" where
  "ideal_run cap per I [] = []"
| "ideal_run cap per I ((key, ts, tn, tt) # rs) =
    (let (ok, I') = ideal_allow cap per I key tn tt in ok # ideal_run cap per I' rs)"

fun clock_ordered :: "rat \<Rightarrow> request list \<Rightarrow> bool" where
  "clock_ordered T [] = True"
| "clock_ordered T ((key, ts, tn, tt) # rs) \<longleftrightarrow> T \<le> ts \<and> ts \<le> tn \<and> tn \<le> tt \<and> clock_ordered tt rs"

definition entry_ok :: "limiter \<Rightarrow> bucket \<Rightarrow> bool" where
  "entry_ok L b \<longleftrightarrow> bucket_ok b \<and> capacity b = l_capacity L \<and> period b = l_period L"

definition sweep_sim :: "rat \<Rightarrow> limiter \<Rightarrow> (string \<rightharpoonup> bucket) \<Rightarrow> bool" where
  "sweep_sim T L I \<longleftrightarrow>
    0 < l_capacity L \<and> 0 < l_period L \<and> distinct (map fst (l_buckets L)) \<and>
    (\<forall>k b. I k = Some b \<longrightarrow> entry_ok L b) \<and>
    (\<forall>k b. map_of (l_buckets L) k = Some b \<longrightarrow> I k = Some b) \<and>
    (\<forall>k b. map_of (l_buckets L) k = None \<longrightarrow> I k = Some b \<longrightarrow> T - updated b > l_period L)"

lemma stale_level:
  assumes "bucket_ok b" and "t - updated b > period b"
  shows "bucket_level b t = capacity b"
proof -
  have "period b * bucket_rate b = capacity b"
    using assms(1) by (simp add: bucket_rate_def bucket_ok_def)
  moreover have "period b * bucket_rate b \<le> (t - updated b) * bucket_rate b"
    using assms bucket_rate_pos [OF assms(1)] by (intro mult_right_mono) auto
  ultimately have "capacity b \<le> tokens b + max 0 (t - updated b) * bucket_rate b"
    using assms by (auto simp: bucket_ok_def max_def)
  then show ?thesis by (simp add: bucket_level_def)
qed

lemma fresh_level: "tn \<le> t \<Longrightarrow> 0 < cap \<Longrightarrow> 0 < per \<Longrightarrow> bucket_level (new_bucket cap per tn) t = cap"
  by (simp add: bucket_level_def new_bucket_def bucket_rate_def)

lemma stale_take:
  assumes "bucket_ok b" and "t - updated b > period b" and "tn \<le> t"
  shows "bucket_take b t = bucket_take (new_bucket (capacity b) (period b) tn) t"
proof -
  have "0 < capacity b" "0 < period b" using assms(1) by (simp_all add: bucket_ok_def)
  then show ?thesis
    using assms by (simp add: bucket_take_eq stale_level fresh_level) (simp add: new_bucket_def)
qed

lemma entry_ok_take: "entry_ok L b \<Longrightarrow> entry_ok L (snd (bucket_take b t))"
  by (simp add: entry_ok_def bucket_ok_take) (simp add: bucket_take_eq)

lemma sweep_sim_sweep:
  assumes "sweep_sim T L I" and "T \<le> now"
  shows "sweep_sim now (limiter_sweep L now) I"
proof -
  have d: "distinct (map fst (l_buckets L))" using assms(1) by (simp add: sweep_sim_def)
  have m: "map_of (l_buckets (limiter_sweep L now)) k =
      (case map_of (l_buckets L) k of None \<Rightarrow> None
       | Some b \<Rightarrow> if \<not> now - updated b > l_period L then Some b else None)" for k
    by (simp add: limiter_sweep_def map_of_filter_keys [OF d] split: option.splits)
  have d': "distinct (map fst (l_buckets (limiter_sweep L now)))"
    using d by (simp add: limiter_sweep_def distinct_map_filter)
  have c: "l_capacity (limiter_sweep L now) = l_capacity L" "l_period (limiter_sweep L now) = l_period L"
    by (simp_all add: limiter_sweep_def)
  from assms d' show ?thesis
    unfolding sweep_sim_def entry_ok_def m c
    by (fastforce split: option.splits if_splits)
qed

lemma sweep_sim_later: "sweep_sim T L I \<Longrightarrow> T \<le> T' \<Longrightarrow> sweep_sim T' L I"
  unfolding sweep_sim_def by fastforce

lemma sweep_sim_store:
  assumes "sweep_sim T L I" and "entry_ok L b"
  shows "sweep_sim T (L\<lparr>l_buckets := AList.update k b (l_buckets L)\<rparr>) (I(k \<mapsto> b))"
proof -
  have "distinct (map fst (AList.update k b (l_buckets L)))"
    using assms(1) by (simp add: sweep_sim_def distinct_update)
  moreover have "map_of (AList.update k b (l_buckets L)) = (map_of (l_buckets L))(k \<mapsto> b)"
    by (rule update_conv')
  moreover have "\<forall>k b. map_of (l_buckets L) k = Some b \<longrightarrow> I k = Some b"
      "\<forall>k b. map_of (l_buckets L) k = None \<longrightarrow> I k = Some b \<longrightarrow> T - updated b > l_period L"
    using assms(1) unfolding sweep_sim_def by blast+
  ultimately show ?thesis
    using assms unfolding sweep_sim_def by (auto simp: entry_ok_def)
qed

lemma update_again [simp]:
  "AList.update k v (AList.update k w d) = AList.update k v d"
  by (induction d) auto

lemma sweep_sim_allow:
  assumes sim: "sweep_sim T L I" and t: "T \<le> ts" "ts \<le> tn" "tn \<le> tt"
  shows "fst (limiter_allow L key ts tn tt) = fst (ideal_allow (l_capacity L) (l_period L) I key tn tt)
    \<and> sweep_sim tt (snd (limiter_allow L key ts tn tt))
         (snd (ideal_allow (l_capacity L) (l_period L) I key tn tt))
    \<and> l_capacity (snd (limiter_allow L key ts tn tt)) = l_capacity L
    \<and> l_period (snd (limiter_allow L key ts tn tt)) = l_period L"
proof (cases "map_of (l_buckets L) key")
  case (Some b)
  then have I: "I key = Some b" using sim unfolding sweep_sim_def by blast
  then have "entry_ok L b" using sim unfolding sweep_sim_def by blast
  moreover have "sweep_sim tt L I" using sweep_sim_later [OF sim] t by simp
  ultimately have "sweep_sim tt (L\<lparr>l_buckets := AList.update key (snd (bucket_take b tt)) (l_buckets L)\<rparr>)
      (I(key \<mapsto> snd (bucket_take b tt)))"
    by (intro sweep_sim_store entry_ok_take)
  with Some I show ?thesis
    by (simp add: limiter_allow_def limiter_bucket_def ideal_allow_def split_beta Let_def)
next
  case None
  let ?L = "if length (l_buckets L) \<ge> SWEEP_AT then limiter_sweep L ts else L"
  let ?new = "new_bucket (l_capacity L) (l_period L) tn"
  have L: "sweep_sim tt ?L I"
    using sweep_sim_sweep [OF sim t(1)] sweep_sim_later [OF sim] t
    by (auto intro: sweep_sim_later)
  have c: "l_capacity ?L = l_capacity L" "l_period ?L = l_period L"
    by (simp_all add: limiter_sweep_def)
  have pos: "0 < l_capacity L" "0 < l_period L" using sim by (auto simp: sweep_sim_def)
  have new: "entry_ok ?L ?new"
    using pos by (simp add: entry_ok_def c bucket_ok_new) (simp add: new_bucket_def)
  have "bucket_take (case I key of Some b \<Rightarrow> b | None \<Rightarrow> ?new) tt = bucket_take ?new tt"
  proof (cases "I key")
    case (Some b)
    then have b: "entry_ok L b" "T - updated b > l_period L"
      using sim None by (auto simp: sweep_sim_def)
    then have "bucket_take b tt = bucket_take (new_bucket (capacity b) (period b) tn) tt"
      using t by (intro stale_take) (auto simp: entry_ok_def)
    with Some b show ?thesis by (simp add: entry_ok_def)
  qed simp
  then show ?thesis
    using None sweep_sim_store [OF L entry_ok_take [OF new, of tt], of key]
    by (simp add: limiter_allow_def limiter_bucket_def ideal_allow_def split_beta Let_def c)
qed

lemma sweep_sim_run:
  "sweep_sim T L I \<Longrightarrow> clock_ordered T rs \<Longrightarrow>
   limiter_run L rs = ideal_run (l_capacity L) (l_period L) I rs"
proof (induction rs arbitrary: T L I)
  case Nil
  then show ?case by simp
next
  case (Cons r rs)
  obtain key ts tn tt where r: "r = (key, ts, tn, tt)" by (cases r)
  with Cons.prems have t: "T \<le> ts" "ts \<le> tn" "tn \<le> tt" "clock_ordered tt rs" by simp_all
  let ?L = "snd (limiter_allow L key ts tn tt)"
  let ?I = "snd (ideal_allow (l_capacity L) (l_period L) I key tn tt)"
  note step = sweep_sim_allow [OF Cons.prems(1) t(1-3), of key]
  then have "limiter_run ?L rs = ideal_run (l_capacity ?L) (l_period ?L) ?I rs"
    using t(4) by (intro Cons.IH [of tt]) simp_all
  with step show ?case by (simp add: r split_beta Let_def)
qed

section \<open>A key's budget over a run of requests\<close>

text \<open>
  A request to the API: the key, its two limits, and the clock readings of the two tables
  (new bucket and take, for each). The answer is \<open>None\<close> when it may proceed.
\<close>

type_synonym key_request = "string \<times> int \<times> int \<times> (rat \<times> rat) \<times> (rat \<times> rat)"

fun key_run :: "key_limiter \<Rightarrow> key_request list \<Rightarrow> (string \<times> bool) list" where
  "key_run K [] = []"
| "key_run K ((key, rl, dl, t1, t2) # rs) =
    (let (w, K') = key_check K key rl dl t1 t2 in (key, w = None) # key_run K' rs)"

fun key_clock :: "rat \<Rightarrow> key_request list \<Rightarrow> bool" where
  "key_clock T [] = True"
| "key_clock T ((key, rl, dl, t1, t2) # rs) \<longleftrightarrow>
    T \<le> fst t1 \<and> fst t1 \<le> snd t1 \<and> snd t1 \<le> fst t2 \<and> fst t2 \<le> snd t2 \<and> key_clock (snd t2) rs"

fun key_last :: "rat \<Rightarrow> key_request list \<Rightarrow> rat" where
  "key_last T [] = T"
| "key_last T ((key, rl, dl, t1, t2) # rs) = key_last (snd t2) rs"

definition served :: "string \<Rightarrow> (string \<times> bool) list \<Rightarrow> nat" where
  "served key answers = length (filter (\<lambda>(k, ok). k = key \<and> ok) answers)"

definition minute_level :: "key_limiter \<Rightarrow> string \<Rightarrow> int \<Rightarrow> rat \<Rightarrow> rat" where
  "minute_level K key R T =
    (case map_of (minute_buckets K) key of None \<Rightarrow> of_int R | Some b \<Rightarrow> bucket_level b T)"

definition minute_ok :: "key_limiter \<Rightarrow> string \<Rightarrow> int \<Rightarrow> rat \<Rightarrow> bool" where
  "minute_ok K key R T \<longleftrightarrow> (\<forall>b. map_of (minute_buckets K) key = Some b \<longrightarrow>
     bucket_ok b \<and> capacity b = of_int R \<and> period b = 60 \<and> updated b \<le> T)"

lemma key_check_minute:
  "minute_buckets (snd (key_check K key rl dl t1 t2)) =
     snd (check_table (minute_buckets K) key rl 60 (fst t1) (snd t1))"
  by (auto simp: key_check_def Let_def split: prod.splits option.splits)

lemma key_check_admits_minute:
  "fst (key_check K key rl dl t1 t2) = None \<Longrightarrow>
   fst (check_table (minute_buckets K) key rl 60 (fst t1) (snd t1)) = None"
  by (auto simp: key_check_def split: prod.splits option.splits)

lemma check_table_other:
  "k \<noteq> key \<Longrightarrow> map_of (snd (check_table table key limit per tn tt)) k = map_of table k"
  by (auto simp: check_table_def Let_def split_beta)

lemma minute_level_later:
  assumes "minute_ok K key R T" and "T \<le> T'" and "0 < R"
  shows "minute_level K key R T' \<le> minute_level K key R T + (T' - T) * (of_int R / 60)"
proof (cases "map_of (minute_buckets K) key")
  case None
  with assms show ?thesis by (simp add: minute_level_def)
next
  case (Some b)
  with assms have b: "bucket_ok b" "updated b \<le> T" and rate: "bucket_rate b = of_int R / 60"
    by (auto simp: minute_ok_def bucket_rate_def)
  have "bucket_level b T' \<le> bucket_level b T + (T' - T) * bucket_rate b"
    using bucket_level_refill [OF b assms(2)] by simp
  then show ?thesis unfolding rate by (simp add: minute_level_def Some)
qed

lemma check_table_own:
  assumes "minute_ok K key R T" and "T \<le> tn" and "tn \<le> tt" and "0 < R"
    and c: "check_table (minute_buckets K) key R 60 tn tt = (w, table)"
  shows "minute_ok (K\<lparr>minute_buckets := table\<rparr>) key R tt
    \<and> minute_level (K\<lparr>minute_buckets := table\<rparr>) key R tt + (if w = None then 1 else 0)
        \<le> minute_level K key R tt"
proof -
  define b where "b = (case map_of (minute_buckets K) key of
     None \<Rightarrow> new_bucket (of_int R) 60 tn
   | Some b \<Rightarrow> if capacity b \<noteq> of_int R then new_bucket (of_int R) 60 tn else b)"
  have b: "bucket_ok b" "capacity b = of_int R" "period b = 60" "updated b \<le> tt"
      "bucket_level b tt = minute_level K key R tt"
    using assms(1-4)
    by (auto simp: b_def minute_ok_def minute_level_def bucket_ok_new fresh_level split: option.splits)
      (auto simp: new_bucket_def)
  have t: "table = AList.update key (snd (bucket_take b tt)) (minute_buckets K)"
    and w: "w = None \<longleftrightarrow> fst (bucket_take b tt)"
    using c \<open>0 < R\<close> by (auto simp: check_table_def Let_def b_def [symmetric] split: prod.splits if_splits)
  have "bucket_level (snd (bucket_take b tt)) tt + (if w = None then 1 else 0) = bucket_level b tt"
    using bucket_gate.take_level [OF b(1,4)] w by simp
  moreover have "bucket_ok (snd (bucket_take b tt))" using b(1) by (rule bucket_ok_take)
  ultimately show ?thesis
    using b t by (simp add: minute_ok_def minute_level_def) (simp add: bucket_take_eq)
qed

lemma rate_chain: "(b - a) * q + (c - b) * q = (c - a) * (q :: rat)"
  by (simp add: algebra_simps)

lemma key_check_step:
  assumes inv: "minute_ok K key R T" and R: "0 < R"
    and t: "T \<le> fst t1" "fst t1 \<le> snd t1" "snd t1 \<le> fst t2" "fst t2 \<le> snd t2"
    and own: "key' = key \<longrightarrow> rl = R"
    and c: "key_check K key' rl dl t1 t2 = (w, K')"
  shows "minute_ok K' key R (snd t2)
    \<and> minute_level K' key R (snd t2) + (if key' = key \<and> w = None then 1 else 0)
        \<le> minute_level K key R T + (snd t2 - T) * (of_int R / 60)"
proof (cases "key' = key")
  case False
  have "map_of (minute_buckets K') key = map_of (minute_buckets K) key"
    using key_check_minute [of K key' rl dl t1 t2] False c by (simp add: check_table_other)
  moreover have "minute_level K key R (snd t2) \<le> minute_level K key R T + (snd t2 - T) * (of_int R / 60)"
    using t by (intro minute_level_later [OF inv _ R]) simp
  ultimately show ?thesis
    using False inv t by (auto simp: minute_ok_def minute_level_def)
next
  case True
  obtain w1 table where ct: "check_table (minute_buckets K) key R 60 (fst t1) (snd t1) = (w1, table)"
    by fastforce
  note step = check_table_own [OF inv t(1,2) R ct]
  have m: "minute_buckets K' = table"
    using key_check_minute [of K key' rl dl t1 t2] True own c ct by simp
  have ok: "minute_ok K' key R (snd t1)" and lv: "minute_level K' key R (snd t1) + (if w1 = None then 1 else 0)
      \<le> minute_level K key R (snd t1)"
    using step m by (simp_all add: minute_ok_def minute_level_def)
  have "w = None \<longrightarrow> w1 = None"
    using key_check_admits_minute [of K key' rl dl t1 t2] True own c ct by simp
  then have "minute_level K' key R (snd t2) + (if key' = key \<and> w = None then 1 else 0)
      \<le> minute_level K' key R (snd t1) + (if w1 = None then 1 else 0) + (snd t2 - snd t1) * (of_int R / 60)"
    using minute_level_later [OF ok _ R, of "snd t2"] t by auto
  also have "\<dots> \<le> minute_level K key R T + (snd t1 - T) * (of_int R / 60) + (snd t2 - snd t1) * (of_int R / 60)"
    using lv minute_level_later [OF inv _ R, of "snd t1"] t by simp
  finally have "minute_level K' key R (snd t2) + (if key' = key \<and> w = None then 1 else 0)
      \<le> minute_level K key R T + (snd t2 - T) * (of_int R / 60)"
    by (simp only: add.assoc rate_chain)
  moreover have "minute_ok K' key R (snd t2)"
    using ok t by (fastforce simp: minute_ok_def)
  ultimately show ?thesis by blast
qed

lemma key_run_bound:
  assumes "minute_ok K key R T" and "0 < R" and "key_clock T rs"
    and "\<forall>(k, rl, dl, t1, t2) \<in> set rs. k = key \<longrightarrow> rl = R"
  shows "of_nat (served key (key_run K rs)) \<le> minute_level K key R T + (key_last T rs - T) * (of_int R / 60)"
  using assms
proof (induction rs arbitrary: K T)
  case Nil
  then show ?case
    using bucket_level_range by (auto simp: served_def minute_level_def minute_ok_def split: option.splits)
next
  case (Cons r rs)
  obtain k rl dl t1 t2 where r: "r = (k, rl, dl, t1, t2)" by (cases r)
  obtain w K' where c: "key_check K k rl dl t1 t2 = (w, K')" by fastforce
  have own: "k = key \<longrightarrow> rl = R" using Cons.prems(4) r by auto
  have t: "T \<le> fst t1" "fst t1 \<le> snd t1" "snd t1 \<le> fst t2" "fst t2 \<le> snd t2" "key_clock (snd t2) rs"
    using Cons.prems(3) r by auto
  note step = key_check_step [OF Cons.prems(1,2) t(1-4) own c]
  have "of_nat (served key (key_run K' rs))
      \<le> minute_level K' key R (snd t2) + (key_last (snd t2) rs - snd t2) * (of_int R / 60)"
    using step Cons.prems(2,4) t(5) by (intro Cons.IH) auto
  with step have "of_nat (served key (key_run K (r # rs)))
      \<le> minute_level K key R T + (snd t2 - T) * (of_int R / 60)
         + (key_last (snd t2) rs - snd t2) * (of_int R / 60)"
    by (auto simp: r c served_def)
  then show ?case by (simp only: r key_last.simps add.assoc rate_chain)
qed

section \<open>Properties\<close>

text \<open>
  A rate limit holds: over any run of requests at non-decreasing instants, a fresh
  bucket admits at most its capacity plus what refills in the elapsed time.
\<close>

theorem bucket_admits_at_most:
  assumes "0 < cap" and "0 < per" and "sorted (t0 # ts)"
  shows "of_nat (admitted (fst (admit_run bucket_take (new_bucket cap per t0) ts)))
    \<le> cap + (last (t0 # ts) - t0) * (cap / per)"
proof -
  have "updated (new_bucket cap per t0) \<le> t0" by (simp add: new_bucket_def)
  moreover have "bucket_level (new_bucket cap per t0) t0 = cap"
    using assms(1,2) by (simp add: fresh_level)
  moreover have "bucket_rate (new_bucket cap per t0) = cap / per"
    by (simp add: new_bucket_def bucket_rate_def)
  ultimately show ?thesis
    using bucket_gate.run_bound [OF bucket_ok_new [OF assms(1,2)] _ assms(3)] by metis
qed

theorem bucket_admits_at_most_witness:
  "of_nat (admitted (fst (admit_run bucket_take (new_bucket 2 60 0) [0, 1, 1, 30]))) \<le> 2 + (30 - 0) * (2 / (60 :: rat))"
  using bucket_admits_at_most [of 2 60 0 "[0, 1, 1, 30]"] by simp

text \<open>
  \<open>retry_after\<close> tells the truth: a caller that was refused and waits that many whole
  seconds is admitted.
\<close>

theorem retry_after_is_enough:
  assumes "bucket_ok b" and "1 \<le> capacity b" and "updated b \<le> now"
    and "\<not> fst (bucket_take b now)"
  shows "fst (bucket_take (snd (bucket_take b now))
           (now + of_int (bucket_retry_after (snd (bucket_take b now)))))"
proof -
  let ?b = "snd (bucket_take b now)"
  let ?d = "of_int (bucket_retry_after ?b) :: rat"
  have rate: "0 < bucket_rate b" using assms(1) by (rule bucket_rate_pos)
  have tok: "tokens ?b = bucket_level b now" "bucket_rate ?b = bucket_rate b" "bucket_level b now < 1"
    using assms(4) by (simp_all add: bucket_take_eq bucket_rate_def)
  have "(1 - bucket_level b now) / bucket_rate b
      < of_int (\<lfloor>(1 - bucket_level b now) / bucket_rate b\<rfloor> + 1)"
    by linarith
  also have "\<dots> \<le> ?d"
    using tok by (simp add: bucket_retry_after_def Let_def bucket_rate_def [symmetric])
  finally have "1 - bucket_level b now \<le> ?d * bucket_rate b"
    using rate by (simp add: pos_divide_less_eq less_imp_le)
  moreover have "0 \<le> ?d" by (simp add: bucket_retry_after_def Let_def)
  ultimately show ?thesis
    using bucket_gate.wait_enough [OF assms(1,3,4,2)] by blast
qed

theorem retry_after_is_enough_witness:
  "fst (bucket_take (snd (bucket_take (new_bucket 1 60 0\<lparr>tokens := 0\<rparr>) 6))
     (6 + of_int (bucket_retry_after (snd (bucket_take (new_bucket 1 60 0\<lparr>tokens := 0\<rparr>) 6)))))"
  by (rule retry_after_is_enough)
    (simp_all add: bucket_ok_def new_bucket_def bucket_take_def)

text \<open>
  C30. Dropping idle buckets changes no decision: on every sequence of requests under a
  monotonic clock the limiter answers exactly as one that never forgets a bucket.
\<close>

theorem limiter_sweep_unobservable:
  assumes "mk_limiter cap per = Some L" and "0 < per" and "clock_ordered T rs"
  shows "limiter_run L rs = ideal_run (of_int cap) per Map.empty rs"
proof -
  have "sweep_sim T L Map.empty" and "l_capacity L = of_int cap" "l_period L = per"
    using assms(1,2) by (auto simp: mk_limiter_def sweep_sim_def split: if_splits)
  with sweep_sim_run [OF _ assms(3)] show ?thesis by metis
qed

theorem limiter_sweep_unobservable_witness:
  "limiter_run \<lparr>l_capacity = 1, l_period = 60, l_buckets = []\<rparr>
     [(''a'', 0, 0, 0), (''a'', 1, 1, 1), (''b'', 2, 2, 3)]
   = ideal_run 1 60 Map.empty [(''a'', 0, 0, 0), (''a'', 1, 1, 1), (''b'', 2, 2, 3)]"
  using limiter_sweep_unobservable [of 1 60 "\<lparr>l_capacity = 1, l_period = 60, l_buckets = []\<rparr>" 0
      "[(''a'', 0, 0, 0), (''a'', 1, 1, 1), (''b'', 2, 2, 3)]"]
  by (simp add: mk_limiter_def)

text \<open>
  An API key cannot spend more than its budget: with a positive per-minute limit, the
  requests served to a key are at most the limit plus what refills in the elapsed time,
  whatever its daily limit is and however other keys' requests are interleaved.
\<close>

theorem key_limiter_budget:
  assumes "0 < R" and "key_clock T rs"
    and "\<forall>(k, rl, dl, t1, t2) \<in> set rs. k = key \<longrightarrow> rl = R"
  shows "of_nat (served key (key_run new_key_limiter rs))
    \<le> of_int R + (key_last T rs - T) * (of_int R / 60)"
proof -
  have "minute_ok new_key_limiter key R T" and "minute_level new_key_limiter key R T = of_int R"
    by (simp_all add: minute_ok_def minute_level_def new_key_limiter_def)
  with key_run_bound [OF _ assms] show ?thesis by metis
qed

theorem key_limiter_budget_witness:
  "of_nat (served ''k'' (key_run new_key_limiter
     [(''k'', 1, 0, (0, 0), (0, 0)), (''k'', 1, 0, (1, 1), (1, 1)), (''j'', 5, 9, (2, 2), (2, 2))]))
   \<le> of_int 1 + (2 - 0) * (of_int 1 / (60 :: rat))"
  using key_limiter_budget [of 1 0
      "[(''k'', 1, 0, (0, 0), (0, 0)), (''k'', 1, 0, (1, 1), (1, 1)), (''j'', 5, 9, (2, 2), (2, 2))]" "''k''"]
  by simp

end
