(* ===== verification/Numbers.thy ===== *)
theory Numbers
  imports Complex_Main Py_Text
begin

text \<open>
  Python's floats as rational numbers: rounding half to even, and the formats \<open>.1f\<close> and \<open>+.1f\<close>.
\<close>

definition round_half_even :: "rat \<Rightarrow> int" where
  "round_half_even y = (let f = floor y; r = y - of_int f
     in if r < 1 / 2 \<or> (r = 1 / 2 \<and> even f) then f else f + 1)"

definition fixed1 :: "rat \<Rightarrow> string" where
  "fixed1 y =
    (let n = round_half_even (abs y * 10)
     in (if y < 0 then ''-'' else []) @ dec_str (n div 10) @ ''.'' @ dec_str (n mod 10))"

definition fixed1_signed :: "rat \<Rightarrow> string" where
  "fixed1_signed y = (if y < 0 then [] else ''+'') @ fixed1 y"

lemma fixed1_examples:
  "fixed1 (5 / 2) = ''2.5''" "fixed1 (- 1 / 4) = ''-0.2''" "fixed1_signed 3 = ''+3.0''"
  by code_simp+

end
