(* ===== verification/Api_Admin.thy ===== *)
theory Api_Admin
  imports Api_Directory Ratelimit Numbers
begin

text \<open>
  The handlers of \<open>src/src/lightr/api/app.py\<close> for API keys and webhooks, and the middleware every
  request goes through: one transaction, the three limits, authentication, and the status of an
  exception. What SQLAlchemy stores for a JSON value in a column is a parameter.
\<close>

section \<open>What an answer shows of a record\<close>

definition masked :: "string option \<Rightarrow> string option" where
  "masked v = (if truthy v then Some ''(set)'' else v)"

definition dump_account :: "account \<Rightarrow> account" where
  "dump_account a = a\<lparr>a_password_hash := masked (a_password_hash a)\<rparr>"

definition dump_domain :: "domain \<Rightarrow> domain" where
  "dump_domain d = d\<lparr>d_dkim_private_key := masked (d_dkim_private_key d),
     d_relay_password := masked (d_relay_password d), d_auth_webhook_secret := masked (d_auth_webhook_secret d)\<rparr>"

definition dump_key :: "api_key \<Rightarrow> api_key" where
  "dump_key k = k\<lparr>k_key_hash := (if k_key_hash k = [] then [] else ''(set)'')\<rparr>"

definition dump_webhook :: "webhook \<Rightarrow> webhook" where
  "dump_webhook w = w\<lparr>w_secret := (if w_secret w = [] then [] else ''(set)'')\<rparr>"

section \<open>API keys\<close>

definition key_type_of :: "json \<Rightarrow> api_error + key_type" where
  "key_type_of v =
    (if v = JStr ''admin'' then Inr ADMIN_KEY else if v = JStr ''org'' then Inr ORG_KEY
     else if v = JStr ''domain'' then Inr DOMAIN_KEY else if v = JStr ''account'' then Inr ACCOUNT_KEY
     else Inl ValueFault)"

definition lift_key :: "key_error + 'a \<Rightarrow> api_error + 'a" where
  "lift_key r = (case r of Inl e \<Rightarrow> Inl (KeyFault e) | Inr x \<Rightarrow> Inr x)"

definition lift_hook :: "webhook_error + 'a \<Rightarrow> api_error + 'a" where
  "lift_hook r = (case r of Inl e \<Rightarrow> Inl (HookFault e) | Inr x \<Rightarrow> Inr x)"

text \<open>
  \<open>expires_in_days\<close>: a number of days, or with a fraction the moment itself, to the nearest
  microsecond. Anything else that is
  not null does not compare with zero.
\<close>

definition expires_given :: "json \<Rightarrow> instant \<Rightarrow> api_error + int option \<times> instant option" where
  "expires_given v now =
    (case v of
       JNull \<Rightarrow> Inr (None, None)
     | JInt n \<Rightarrow> Inr (Some n, None)
     | JBool b \<Rightarrow> Inr (Some (if b then 1 else 0), None)
     | JFloat x \<Rightarrow> if x \<le> 0 then Inl (KeyFault NotPositiveDays)
                   else Inr (None, Some (now + round_half_even (x * of_int (days 1))))
     | _ \<Rightarrow> Inl Unhandled)"

definition str_of :: "json \<Rightarrow> string option" where
  "str_of v = (case v of JStr s \<Rightarrow> Some s | _ \<Rightarrow> None)"

definition strings_field :: "json \<Rightarrow> api_error + string list" where
  "strings_field v =
    (if \<not> json_truthy v then Inr []
     else case v of
            JList xs \<Rightarrow> if \<exists>x \<in> set xs. str_of x = None then Inl ValueFault else Inr (map (the \<circ> str_of) xs)
          | _ \<Rightarrow> Inl ValueFault)"

definition key_organization ::
  "api_env \<Rightarrow> json_object \<Rightarrow> key_type \<Rightarrow> uuid \<Rightarrow> instant \<Rightarrow> database \<Rightarrow> api_error + uuid option \<times> database" where
  "key_organization env body ty fresh_org now db =
    (let org_ref = json_get ''org_id'' body
     in if json_truthy org_ref
        then bind_res (lift_repo (org_resolve (json_text (ae_shown env) org_ref) db)) (\<lambda>og. Inr (Some (o_id og), db))
        else if ty = ORG_KEY then bind_res (lift_repo (org_default fresh_org now db)) (\<lambda>(og, db'). Inr (Some (o_id og), db'))
        else Inr (None, db))"

definition create_api_key ::
  "api_env \<Rightarrow> (string \<Rightarrow> string) \<Rightarrow> string \<Rightarrow> api_key \<Rightarrow> json_object option \<Rightarrow> uuid \<Rightarrow> uuid \<Rightarrow> instant \<Rightarrow>
   database \<times> key_table \<Rightarrow> api_error + (api_key \<times> string) \<times> database \<times> key_table" where
  "create_api_key env sha random k b fresh_org fresh now s =
    bind_res (require_admin k) (\<lambda>_.
    bind_res (parse_body b) (\<lambda>body.
    bind_res (require_fields [''name''] body) (\<lambda>_.
    bind_res (key_type_of (case map_of body ''type'' of None \<Rightarrow> JStr ''org'' | Some v \<Rightarrow> v)) (\<lambda>ty.
    bind_res (key_organization env body ty fresh_org now (fst s)) (\<lambda>(org, db).
    bind_res (case check_scope ty org None None of Some e \<Rightarrow> Inl (KeyFault e) | None \<Rightarrow> Inr ()) (\<lambda>_.
    bind_res (expires_given (json_get ''expires_in_days'' body) now) (\<lambda>(in_days, moment).
    bind_res (case in_days of Some n \<Rightarrow> if n \<le> 0 then Inl (KeyFault NotPositiveDays) else Inr () | None \<Rightarrow> Inr ()) (\<lambda>_.
    bind_res (bad (opt_str_field (json_get ''description'' body))) (\<lambda>descr.
    bind_res (strings_field (json_get ''allowed_ips'' body)) (\<lambda>ips.
    bind_res (lift_key (key_create sha random fresh now (json_text (ae_shown env) (json_get ''name'' body)) ty org None None
        None ips in_days descr moment (snd s))) (\<lambda>(key, secret, t).
      Inr ((dump_key key, secret), db, t))))))))))))"

definition revoke_api_key :: "api_key \<Rightarrow> string \<Rightarrow> instant \<Rightarrow> key_table \<Rightarrow> api_error + uuid \<times> key_table" where
  "revoke_api_key k ref now t =
    bind_res (require_admin k) (\<lambda>_.
    bind_res (lift_repo (key_resolve ref t)) (\<lambda>x. Inr (k_id x, revoke (k_id x) now t)))"

definition rotate_api_key ::
  "(string \<Rightarrow> string) \<Rightarrow> string \<Rightarrow> api_key \<Rightarrow> string \<Rightarrow> instant \<Rightarrow> key_table \<Rightarrow> api_error + (uuid \<times> string) \<times> key_table" where
  "rotate_api_key sha random k ref now t =
    bind_res (require_admin k) (\<lambda>_.
    bind_res (lift_repo (key_resolve ref t)) (\<lambda>x.
    bind_res (lift_key (rotate sha random (k_id x) now t)) (\<lambda>(secret, t'). Inr ((k_id x, secret), t'))))"

definition delete_api_key :: "api_key \<Rightarrow> string \<Rightarrow> key_table \<Rightarrow> api_error + key_table" where
  "delete_api_key k ref t =
    bind_res (require_admin k) (\<lambda>_.
    bind_res (lift_repo (key_resolve ref t)) (\<lambda>x. Inr (key_delete (k_id x) t)))"

section \<open>Webhooks\<close>

text \<open>
  What the driver stores for a JSON value in a text, integer or boolean column, \<open>None\<close> when it
  refuses the value; a stored null is the inner \<open>None\<close>.
\<close>

record column_binding =
  cb_text :: "json \<Rightarrow> string option option"
  cb_int :: "json \<Rightarrow> int option option"
  cb_bool :: "json \<Rightarrow> bool option option"

definition bound :: "'a option \<Rightarrow> api_error + 'a" where
  "bound v = (case v of None \<Rightarrow> Inl Unhandled | Some x \<Rightarrow> Inr x)"

text \<open>\<open>validate_events\<close> on a JSON value: a text is a list of its characters, an object one of its keys.\<close>

definition events_arg :: "json \<Rightarrow> api_error + string list option" where
  "events_arg v =
    (if \<not> json_truthy v then Inr None
     else case v of
            JList xs \<Rightarrow> if \<exists>x \<in> set xs. str_of x = None then Inl Unhandled else Inr (Some (map (the \<circ> str_of) xs))
          | JStr s \<Rightarrow> Inr (Some (map (\<lambda>c. [c]) s))
          | JObj d \<Rightarrow> Inr (Some (map fst d))
          | _ \<Rightarrow> Inl Unhandled)"

text \<open>\<open>int(v)\<close>; a float that is no number is none of these.\<close>

definition int_of_json :: "json \<Rightarrow> api_error + int" where
  "int_of_json v =
    (case v of
       JInt n \<Rightarrow> Inr n
     | JBool b \<Rightarrow> Inr (if b then 1 else 0)
     | JFloat x \<Rightarrow> Inr (if 0 \<le> x then floor x else ceiling x)
     | JStr s \<Rightarrow> (case int_base10 s of None \<Rightarrow> Inl ValueFault | Some n \<Rightarrow> Inr n)
     | _ \<Rightarrow> Inl Unhandled)"

definition or_json :: "string \<Rightarrow> json \<Rightarrow> json_object \<Rightarrow> json" where
  "or_json f v0 body = (case map_of body f of None \<Rightarrow> v0 | Some v \<Rightarrow> v)"

definition create_webhook ::
  "api_env \<Rightarrow> column_binding \<Rightarrow> string \<Rightarrow> api_key \<Rightarrow> json_object option \<Rightarrow> uuid \<Rightarrow> instant \<Rightarrow> database \<Rightarrow> webhook_db \<Rightarrow>
   api_error + (webhook \<times> string) \<times> webhook_db" where
  "create_webhook env cb generated k b fresh now db wdb =
    bind_res (require_permission WRITE k) (\<lambda>_.
    bind_res (parse_body b) (\<lambda>body.
    bind_res (require_fields [''name'', ''url''] body) (\<lambda>_.
    let org_ref = json_get ''org_id'' body; url = json_text (ae_shown env) (json_get ''url'' body) in
    bind_res (create_webhook_org k (if json_truthy org_ref then Some (json_text (ae_shown env) org_ref) else None) db) (\<lambda>org.
    bind_res (int_of_json (or_json ''timeout'' (JInt 30) body)) (\<lambda>timeout.
    bind_res (int_of_json (or_json ''max_retries'' (JInt 5) body)) (\<lambda>max_retries.
    bind_res (case check_url url of Inl e \<Rightarrow> Inl (HookFault (BadWebhookUrl e)) | Inr _ \<Rightarrow> Inr ()) (\<lambda>_.
    bind_res (events_arg (json_get ''events'' body)) (\<lambda>events.
    bind_res (lift_hook (validate_events events)) (\<lambda>_.
    bind_res (if json_truthy (json_get ''secret'' body) then bound (cb_text cb (json_get ''secret'' body)) else Inr None) (\<lambda>secret.
    bind_res (bound (cb_text cb (json_get ''description'' body))) (\<lambda>descr.
    bind_res (bound (cb_text cb (json_get ''domain_filter'' body))) (\<lambda>domain_filter.
    bind_res (lift_hook (webhook_create fresh generated now (json_text (ae_shown env) (json_get ''name'' body)) url events secret
        org descr domain_filter timeout max_retries True wdb)) (\<lambda>(w, wdb').
      Inr ((dump_webhook w, w_secret w), wdb'))))))))))))))"

definition get_webhook :: "api_key \<Rightarrow> string \<Rightarrow> webhook_db \<Rightarrow> api_error + webhook" where
  "get_webhook k ref wdb =
    bind_res (require_permission READ k) (\<lambda>_.
    bind_res (reachable_webhook k ref wdb) (\<lambda>w. Inr (dump_webhook w)))"

text \<open>The columns of one \<open>PATCH\<close>; a null name, address or event list breaks \<open>NOT NULL\<close>.\<close>

definition patched :: "string \<Rightarrow> json_object \<Rightarrow> (json \<Rightarrow> 'a option) \<Rightarrow> api_error + 'a option" where
  "patched f body bind =
    (case map_of body f of None \<Rightarrow> Inr None | Some v \<Rightarrow> bind_res (bound (bind v)) (\<lambda>x. Inr (Some x)))"

definition not_null :: "'a option option \<Rightarrow> api_error + 'a option" where
  "not_null v = (case v of Some None \<Rightarrow> Inl (RepoError IntegrityError) | Some (Some x) \<Rightarrow> Inr (Some x) | None \<Rightarrow> Inr None)"

definition null_as :: "'a \<Rightarrow> 'a option option \<Rightarrow> 'a option" where
  "null_as d v = map_option (\<lambda>x. case x of None \<Rightarrow> d | Some y \<Rightarrow> y) v"

definition hook_change :: "column_binding \<Rightarrow> json_object \<Rightarrow> string list option option \<Rightarrow> api_error + webhook_change" where
  "hook_change cb body events =
    bind_res (patched ''name'' body (cb_text cb)) (\<lambda>name0.
    bind_res (patched ''description'' body (cb_text cb)) (\<lambda>descr.
    bind_res (patched ''url'' body (cb_text cb)) (\<lambda>url0.
    bind_res (patched ''secret'' body (cb_text cb)) (\<lambda>secret.
    bind_res (patched ''domain_filter'' body (cb_text cb)) (\<lambda>domain_filter.
    bind_res (patched ''max_retries'' body (cb_int cb)) (\<lambda>retries.
    bind_res (patched ''timeout'' body (cb_int cb)) (\<lambda>timeout.
    bind_res (patched ''active'' body (cb_bool cb)) (\<lambda>active.
    bind_res (not_null name0) (\<lambda>name.
    bind_res (not_null url0) (\<lambda>url.
      Inr \<lparr>wc_name = name, wc_description = descr, wc_url = url, wc_secret = null_as [] secret, wc_events = events,
           wc_domain_filter = domain_filter, wc_max_retries = null_as 0 retries, wc_timeout = null_as 0 timeout,
           wc_active = null_as False active\<rparr>))))))))))"

definition update_webhook ::
  "column_binding \<Rightarrow> api_key \<Rightarrow> string \<Rightarrow> json_object option \<Rightarrow> instant \<Rightarrow> webhook_db \<Rightarrow> api_error + webhook \<times> webhook_db" where
  "update_webhook cb k ref b now wdb =
    bind_res (require_permission WRITE k) (\<lambda>_.
    bind_res (reachable_webhook k ref wdb) (\<lambda>w.
    bind_res (parse_body b) (\<lambda>body.
    if ''webhook_id'' \<in> fst ` set body \<or> ''self'' \<in> fst ` set body then Inl Unhandled
    else
      bind_res (let u = json_get ''url'' body in
          if json_truthy u
          then (case u of JStr s \<Rightarrow> (case check_url s of Inl e \<Rightarrow> Inl (HookFault (BadWebhookUrl e)) | Inr _ \<Rightarrow> Inr ())
                | _ \<Rightarrow> Inl Unhandled)
          else Inr ()) (\<lambda>_.
      bind_res (case map_of body ''events'' of
          None \<Rightarrow> Inr None
        | Some v \<Rightarrow> bind_res (events_arg v) (\<lambda>es. bind_res (lift_hook (validate_events es)) (\<lambda>_. Inr (Some es)))) (\<lambda>events.
      bind_res (hook_change cb body events) (\<lambda>c.
      bind_res (lift_hook (webhook_update (w_id w) c now wdb)) (\<lambda>wdb'.
      bind_res (lift_repo (webhook_resolve (uuid_str (w_id w)) wdb')) (\<lambda>w'. Inr (dump_webhook w', wdb')))))))))"

definition delete_webhook :: "api_key \<Rightarrow> string \<Rightarrow> webhook_db \<Rightarrow> api_error + webhook_db" where
  "delete_webhook k ref wdb =
    bind_res (require_permission WRITE k) (\<lambda>_.
    bind_res (reachable_webhook k ref wdb) (\<lambda>w. Inr (webhook_delete (w_id w) wdb)))"

definition rotate_webhook :: "string \<Rightarrow> api_key \<Rightarrow> string \<Rightarrow> instant \<Rightarrow> webhook_db \<Rightarrow> api_error + (uuid \<times> string) \<times> webhook_db" where
  "rotate_webhook generated k ref now wdb =
    bind_res (require_permission WRITE k) (\<lambda>_.
    bind_res (reachable_webhook k ref wdb) (\<lambda>w.
    bind_res (lift_hook (rotate_webhook_secret (w_id w) generated now wdb)) (\<lambda>(secret, wdb'). Inr ((w_id w, secret), wdb'))))"

text \<open>\<open>run\<close> is the delivery of the ping; the answer is its outcome with 200, or 502.\<close>

definition test_webhook ::
  "(webhook \<Rightarrow> attempt) \<Rightarrow> api_key \<Rightarrow> string \<Rightarrow> uuid \<Rightarrow> instant \<Rightarrow> webhook_db \<Rightarrow> api_error + (attempt \<times> int) \<times> webhook_db" where
  "test_webhook run k ref fresh now wdb =
    bind_res (require_permission WRITE k) (\<lambda>_.
    bind_res (reachable_webhook k ref wdb) (\<lambda>w.
      let a = run w in Inr ((a, if at_ok a then 200 else 502), record_attempt fresh now (w_id w) ''ping'' ''{}'' a wdb)))"

text \<open>A negative \<open>LIMIT\<close> is no limit.\<close>

definition list_webhook_deliveries ::
  "api_key \<Rightarrow> string \<Rightarrow> string option \<Rightarrow> webhook_db \<Rightarrow> api_error + (delivery_status, nat) dict \<times> webhook_event list" where
  "list_webhook_deliveries k ref limit_param wdb =
    bind_res (require_permission READ k) (\<lambda>_.
    bind_res (reachable_webhook k ref wdb) (\<lambda>w.
    bind_res (case limit_param of None \<Rightarrow> Inr 50
              | Some s \<Rightarrow> (case int_base10 s of None \<Rightarrow> Inl ValueFault | Some n \<Rightarrow> Inr n)) (\<lambda>n.
      let limit = min n 500
      in Inr (webhook_stats (w_id w) wdb,
              deliveries (w_id w) (if limit < 0 then length (wd_events wdb) else nat limit) wdb))))"

section \<open>The middleware\<close>

record tables =
  tb_db :: database
  tb_keys :: key_table
  tb_hooks :: webhook_db

record server =
  sv_tables :: tables
  sv_anonymous :: "limiter option"
  sv_failures :: "limiter option"
  sv_per_key :: key_limiter

text \<open>The readings of the clock each limit takes while one request is served.\<close>

record readings =
  cr_allow :: "rat \<times> rat \<times> rat"
  cr_retry :: "rat \<times> rat"
  cr_fail_allow :: "rat \<times> rat \<times> rat"
  cr_fail_retry :: "rat \<times> rat"
  cr_minute :: "rat \<times> rat"
  cr_day :: "rat \<times> rat"

datatype 'r response =
    Answer 'r
  | Refused int          \<comment> \<open>the status of an exception\<close>
  | TooMany int          \<comment> \<open>429 and \<open>Retry-After\<close>\<close>

type_synonym 'r handler = "api_key option \<Rightarrow> tables \<Rightarrow> api_error + 'r \<times> tables"

definition caller :: "http_request \<Rightarrow> string" where
  "caller r = (case client_ip r of None \<Rightarrow> ''unknown'' | Some a \<Rightarrow> if a = [] then ''unknown'' else a)"

text \<open>\<open>L.allow(key)\<close>, and \<open>L.retry_after(key)\<close> for a caller it refused; no limiter allows all.\<close>

definition admit :: "limiter option \<Rightarrow> string \<Rightarrow> rat \<times> rat \<times> rat \<Rightarrow> rat \<times> rat \<Rightarrow> int option \<times> limiter option" where
  "admit L key at_allow at_retry =
    (case L of
       None \<Rightarrow> (None, None)
     | Some L0 \<Rightarrow>
       let (ts, tn, tt) = at_allow; (ok, L1) = limiter_allow L0 key ts tn tt
       in if ok then (None, Some L1)
          else let (wait, L2) = limiter_retry_after L1 key (fst at_retry) (snd at_retry) in (Some wait, Some L2))"

text \<open>The call of the handler: an exception rolls the transaction back.\<close>

definition run_handler :: "'r handler \<Rightarrow> api_key option \<Rightarrow> tables \<Rightarrow> tables \<Rightarrow> 'r response \<times> tables" where
  "run_handler h k before t =
    (case h k t of Inl e \<Rightarrow> (Refused (error_status e), before) | Inr (x, t') \<Rightarrow> (Answer x, t'))"

definition middleware ::
  "(string \<Rightarrow> string) \<Rightarrow> http_request \<Rightarrow> instant \<Rightarrow> readings \<Rightarrow> bool \<Rightarrow> 'r handler \<Rightarrow> server \<Rightarrow> 'r response \<times> server" where
  "middleware sha r now c is_public h sv =
    (let before = sv_tables sv; address = caller r in
     if is_public then (let (x, t) = run_handler h None before before in (x, sv\<lparr>sv_tables := t\<rparr>))
     else
       case admit (sv_anonymous sv) address (cr_allow c) (cr_retry c) of
         (Some wait, L) \<Rightarrow> (TooMany wait, sv\<lparr>sv_anonymous := L\<rparr>)
       | (None, L) \<Rightarrow>
         (case authenticate_request sha r now (tb_keys before) of
            Inl e \<Rightarrow>
              (case admit (sv_failures sv) address (cr_fail_allow c) (cr_fail_retry c) of
                 (Some wait, F) \<Rightarrow> (TooMany wait, sv\<lparr>sv_anonymous := L, sv_failures := F\<rparr>)
               | (None, F) \<Rightarrow> (Refused (error_status e), sv\<lparr>sv_anonymous := L, sv_failures := F\<rparr>))
          | Inr k \<Rightarrow>
              (case key_check (sv_per_key sv) (uuid_str (k_id k)) (k_rate_limit k) (k_daily_limit k) (cr_minute c) (cr_day c) of
                 (Some wait, K) \<Rightarrow> (TooMany wait, sv\<lparr>sv_anonymous := L, sv_per_key := K\<rparr>)
               | (None, K) \<Rightarrow>
                 let used = before\<lparr>tb_keys := record_use (k_id k) (rq_forwarded_for r) now (tb_keys before)\<rparr>;
                     (x, t) = run_handler h (Some k) before used
                 in (x, sv\<lparr>sv_anonymous := L, sv_failures := map_option (\<lambda>F. limiter_forget F address) (sv_failures sv),
                           sv_per_key := K, sv_tables := t\<rparr>))))"

section \<open>What the middleware guarantees\<close>

text \<open>
  C25. A request that is not answered by its handler, because a limit or a refusal or an exception
  got in the way, leaves the database as it was; and one that is answered on a guarded path
  carried the secret of a stored key that is active, not expired and allowed from the address.
\<close>

theorem answered_requests_carry_a_key:
  assumes "keys_ok (tb_keys (sv_tables sv))"
  shows "case fst (middleware sha r now c False h sv) of
      Answer x \<Rightarrow> (\<exists>k secret. extract_secret r = Some secret \<and> k \<in> set (tb_keys (sv_tables sv)) \<and>
          k_key_hash k = sha secret \<and> k_active k \<and> \<not> key_expired now k \<and> allows_ip k (client_ip r) \<and>
          h (Some k) ((sv_tables sv)\<lparr>tb_keys := record_use (k_id k) (rq_forwarded_for r) now (tb_keys (sv_tables sv))\<rparr>)
            = Inr (x, sv_tables (snd (middleware sha r now c False h sv))))
    | _ \<Rightarrow> sv_tables (snd (middleware sha r now c False h sv)) = sv_tables sv"
proof -
  have auth: "\<exists>secret. extract_secret r = Some secret \<and> k \<in> set (tb_keys (sv_tables sv)) \<and> k_key_hash k = sha secret \<and>
      k_active k \<and> \<not> key_expired now k \<and> allows_ip k (client_ip r)"
    if "authenticate_request sha r now (tb_keys (sv_tables sv)) = Inr k" for k
    using that verify_iff_row [OF assms] by (auto simp: authenticate_request_def split: option.splits if_splits)
  show ?thesis
    using auth unfolding middleware_def run_handler_def Let_def
    by (auto split: prod.splits option.splits sum.splits response.splits) blast
qed

definition sample_server :: server where
  "sample_server = \<lparr>sv_tables = \<lparr>tb_db = sample_db, tb_keys = [acme_key\<lparr>k_key_hash := ''lk_one''\<rparr>],
       tb_hooks = \<lparr>wd_webhooks = [], wd_events = []\<rparr>\<rparr>,
     sv_anonymous = mk_limiter 10 60, sv_failures = mk_limiter 5 60, sv_per_key = new_key_limiter\<rparr>"

definition sample_request :: http_request where
  "sample_request = \<lparr>rq_api_key = Some ''lk_one'', rq_authorization = [], rq_forwarded_for = None,
     rq_client_host = Some ''10.1.2.3''\<rparr>"

definition sample_readings :: readings where
  "sample_readings = \<lparr>cr_allow = (1, 1, 1), cr_retry = (1, 1), cr_fail_allow = (1, 1, 1), cr_fail_retry = (1, 1),
     cr_minute = (1, 1), cr_day = (1, 1)\<rparr>"

definition stranger_request :: http_request where
  "stranger_request = sample_request\<lparr>rq_api_key := Some ''lk_two''\<rparr>"

lemma answered_requests_carry_a_key_witness:
  "sv_tables (snd (middleware id stranger_request 0 sample_readings False (\<lambda>k t. Inr ((), t\<lparr>tb_keys := []\<rparr>)) sample_server))
    = sv_tables sample_server"
proof -
  let ?h = "\<lambda>k t. Inr ((), t\<lparr>tb_keys := []\<rparr>)"
  have "keys_ok (tb_keys (sv_tables sample_server))"
    by (simp add: keys_ok_def sample_server_def)
  note guard = answered_requests_carry_a_key [OF this, where sha = id and r = stranger_request and now = 0
    and c = sample_readings and h = ?h]
  have "extract_secret stranger_request = Some ''lk_two''" by code_simp
  moreover have "k \<in> set (tb_keys (sv_tables sample_server)) \<Longrightarrow> k_key_hash k = ''lk_one''" for k
    by (simp add: sample_server_def)
  ultimately show ?thesis
    using guard by (cases "fst (middleware id stranger_request 0 sample_readings False ?h sample_server)") auto
qed

section \<open>Webhooks stay with their organization\<close>

datatype hook_request =
    CreateHook "json_object option"
  | UpdateHook string "json_object option"
  | DeleteHook string
  | RotateHook string
  | TestHook string

fun hook_exec ::
  "api_env \<Rightarrow> column_binding \<Rightarrow> (webhook \<Rightarrow> attempt) \<Rightarrow> string \<Rightarrow> uuid \<Rightarrow> instant \<Rightarrow> database \<Rightarrow> api_key \<Rightarrow>
   hook_request \<Rightarrow> webhook_db \<Rightarrow> api_error + webhook_db" where
  "hook_exec env cb run g fresh now db k (CreateHook b) wdb =
    bind_res (create_webhook env cb g k b fresh now db wdb) (\<lambda>x. Inr (snd x))"
| "hook_exec env cb run g fresh now db k (UpdateHook ref b) wdb =
    bind_res (update_webhook cb k ref b now wdb) (\<lambda>x. Inr (snd x))"
| "hook_exec env cb run g fresh now db k (DeleteHook ref) wdb = delete_webhook k ref wdb"
| "hook_exec env cb run g fresh now db k (RotateHook ref) wdb =
    bind_res (rotate_webhook g k ref now wdb) (\<lambda>x. Inr (snd x))"
| "hook_exec env cb run g fresh now db k (TestHook ref) wdb =
    bind_res (test_webhook run k ref fresh now wdb) (\<lambda>x. Inr (snd x))"

lemma lift_hook_Inr [res_simps]: "lift_hook r = Inr x \<longleftrightarrow> r = Inr x"
  by (cases r) (simp_all add: lift_hook_def)

lemma webhook_resolve_row:
  assumes "webhook_resolve ref wdb = Inr w"
  obtains row where "row \<in> set (wd_webhooks wdb)" "w_id w = w_id row" "w_organization_id w = w_organization_id row"
proof -
  from assms obtain row where "row \<in> set (wd_webhooks wdb)" "w = webhook_model row"
    by (auto simp: webhook_resolve_def split: option.splits list.splits dest!: first_row_filterD filter_singletonD)
  then show ?thesis using that by (simp add: webhook_model_def)
qed

lemma reachable_webhook_own:
  assumes "reachable_webhook k ref wdb = Inr w" and "\<not> is_admin k"
  shows "w_organization_id w \<noteq> None \<and> w_organization_id w = k_organization_id k" and "webhook_resolve ref wdb = Inr w"
  using assms by (auto simp: reachable_webhook_def res_simps split: if_splits)

definition same_hook :: "webhook \<Rightarrow> webhook_db \<Rightarrow> webhook_db \<Rightarrow> bool" where
  "same_hook w wdb wdb' \<longleftrightarrow> w \<in> set (wd_webhooks wdb') \<and>
    filter (\<lambda>e. we_webhook_id e = w_id w) (wd_events wdb') = filter (\<lambda>e. we_webhook_id e = w_id w) (wd_events wdb)"

lemma webhook_create_appends:
  "webhook_create f g now n u es sec org d df to mr act wdb = Inr (v, wdb') \<Longrightarrow>
    wdb' = wdb\<lparr>wd_webhooks := wd_webhooks wdb @ [v]\<rparr>"
  by (auto simp: webhook_create_def res_simps Let_def split: sum.splits if_splits)

lemma hook_writes_frame:
  assumes "w \<in> set (wd_webhooks wdb)" and "w_id w \<noteq> i"
  shows "webhook_update i c now wdb = Inr wdb' \<Longrightarrow> same_hook w wdb wdb'"
    and "rotate_webhook_secret i g now wdb = Inr (s, wdb') \<Longrightarrow> same_hook w wdb wdb'"
    and "same_hook w wdb (webhook_delete i wdb)"
    and "same_hook w wdb (record_attempt fresh now i event payload a wdb)"
  using assms
  by (auto simp: same_hook_def webhook_update_def rotate_webhook_secret_def res_simps webhook_delete_def record_attempt_def
      set_update_where set_delete_where image_iff split: if_splits option.splits sum.splits intro!: filter_delete_where)

text \<open>
  Whatever webhook request a key without admin rights sends, the webhooks of other
  organizations and the operator's own, which have none, keep their settings, their secrets and
  their logs.
\<close>

theorem hooks_stay_with_their_organization:
  assumes "\<not> is_admin k" and "unique_by w_id (wd_webhooks wdb)" and "hook_exec env cb run g fresh now db k rq wdb = Inr wdb'"
    and "w \<in> set (wd_webhooks wdb)" and "w_organization_id w = None \<or> w_organization_id w \<noteq> k_organization_id k"
  shows "same_hook w wdb wdb'"
proof -
  have other: "w_id w \<noteq> w_id v" if r: "reachable_webhook k ref wdb = Inr v" for ref v
  proof -
    note own = reachable_webhook_own [OF r assms(1)]
    obtain row where "row \<in> set (wd_webhooks wdb)" "w_id v = w_id row" "w_organization_id v = w_organization_id row"
      by (rule webhook_resolve_row [OF own(2)])
    then show ?thesis using unique_byD [OF assms(2,4)] own(1) assms(5) by metis
  qed
  show ?thesis
  proof (cases rq)
    case (CreateHook b)
    then obtain f n u es sec org d df to mr act v where
      "webhook_create f g now n u es sec org d df to mr act wdb = Inr (v, wdb')"
      using assms(3) by (simp add: create_webhook_def res_simps Let_def split_beta) blast
    from webhook_create_appends [OF this] show ?thesis using assms(4) by (simp add: same_hook_def)
  qed (use assms(3,4) other hook_writes_frame in \<open>fastforce simp: update_webhook_def delete_webhook_def rotate_webhook_def
      test_webhook_def res_simps Let_def split: if_splits\<close>)+
qed

definition sample_hook :: "uuid \<Rightarrow> uuid option \<Rightarrow> webhook" where
  "sample_hook i org = \<lparr>w_id = i, w_name = (if i = 30 then ''ops'' else ''acme''), w_url = ''https://a.example/'', w_secret = ''s'',
     w_events = [''*''], w_active = True, w_max_retries = 5, w_timeout = 30, w_organization_id = org,
     w_domain_filter = None, w_description = None, w_failure_count = 0, w_last_success = None,
     w_last_failure = None, w_created_at = 0, w_updated_at = 0\<rparr>"

definition sample_hooks :: webhook_db where
  "sample_hooks = \<lparr>wd_webhooks = [sample_hook 30 None, sample_hook 31 (Some 1)], wd_events = []\<rparr>"

definition sample_binding :: column_binding where
  "sample_binding = \<lparr>cb_text = (\<lambda>v. case v of JStr s \<Rightarrow> Some (Some s) | JNull \<Rightarrow> Some None | _ \<Rightarrow> None),
     cb_int = (\<lambda>v. case v of JInt n \<Rightarrow> Some (Some n) | JNull \<Rightarrow> Some None | _ \<Rightarrow> None),
     cb_bool = (\<lambda>v. case v of JBool b \<Rightarrow> Some (Some b) | JNull \<Rightarrow> Some None | _ \<Rightarrow> None)\<rparr>"

lemma hooks_stay_with_their_organization_witness:
  "\<exists>wdb'. delete_webhook org_key ''acme'' sample_hooks = Inr wdb' \<and> same_hook (sample_hook 30 None) sample_hooks wdb'"
proof -
  have "as_uuid ''acme'' = None" by code_simp
  then obtain wdb' where r: "delete_webhook org_key ''acme'' sample_hooks = Inr wdb'"
    by (simp add: delete_webhook_def reachable_webhook_def webhook_resolve_def sample_hooks_def sample_hook_def webhook_model_def
        require_permission_def allows_def is_admin_def org_key_def sample_key_def)
  have "\<not> is_admin org_key" by (simp add: org_key_def sample_key_def is_admin_def)
  moreover have "unique_by w_id (wd_webhooks sample_hooks)" by (simp add: sample_hooks_def sample_hook_def)
  moreover have "hook_exec sample_env sample_binding (\<lambda>_. failed_attempt None [] 0) [] 32 0 sample_db org_key (DeleteHook ''acme'') sample_hooks
      = Inr wdb'" using r by simp
  moreover have "sample_hook 30 None \<in> set (wd_webhooks sample_hooks)" by (simp add: sample_hooks_def)
  moreover have "w_organization_id (sample_hook 30 None) = None \<or> w_organization_id (sample_hook 30 None) \<noteq> k_organization_id org_key"
    by (simp add: sample_hook_def)
  ultimately have "same_hook (sample_hook 30 None) sample_hooks wdb'" by (rule hooks_stay_with_their_organization)
  with r show ?thesis by blast
qed

section \<open>Keys are the administrator's\<close>

text \<open>
  The endpoint that creates a key never passes a domain or an account, so of the four types it
  offers two can never be created.
\<close>

lemma narrow_keys_are_refused:
  "create_api_key env sha rnd k (Some ((''type'', JStr ty) # body)) f1 f2 now s = Inr r \<Longrightarrow> ty \<noteq> ''domain'' \<and> ty \<noteq> ''account''"
  by (auto simp: create_api_key_def res_simps key_type_of_def check_scope_def split: option.splits)

text \<open>The masked record does not depend on the secret that is masked.\<close>

lemma dumps_hide_secrets:
  "dump_account (a\<lparr>a_password_hash := Some (c # s)\<rparr>) = dump_account (a\<lparr>a_password_hash := Some (c' # s')\<rparr>)"
  "dump_webhook (w\<lparr>w_secret := c # s\<rparr>) = dump_webhook (w\<lparr>w_secret := c' # s'\<rparr>)"
  "dump_key (k\<lparr>k_key_hash := c # s\<rparr>) = dump_key (k\<lparr>k_key_hash := c' # s'\<rparr>)"
  "dump_domain (d\<lparr>d_relay_password := Some (c # s)\<rparr>) = dump_domain (d\<lparr>d_relay_password := Some (c' # s')\<rparr>)"
  by (simp_all add: dump_account_def dump_webhook_def dump_key_def dump_domain_def masked_def truthy_def)

text \<open>A key that is no administrator's neither makes, revokes, rotates nor deletes a key.\<close>

lemma keys_need_an_administrator:
  assumes "\<not> is_admin k"
  shows "create_api_key env sha rnd k b f1 f2 now s = Inl (AuthError 403)" "revoke_api_key k ref now t = Inl (AuthError 403)"
    "rotate_api_key sha rnd k ref now t = Inl (AuthError 403)" "delete_api_key k ref t = Inl (AuthError 403)"
  using assms by (simp_all add: create_api_key_def revoke_api_key_def rotate_api_key_def delete_api_key_def require_admin_def)

text \<open>A negative \<open>limit\<close> is below the cap and lists the whole log.\<close>

lemma negative_limit_lists_all:
  assumes "list_webhook_deliveries k ref (Some ''-1'') wdb = Inr (stats, es)" and "reachable_webhook k ref wdb = Inr w"
  shows "set es = {e \<in> set (wd_events wdb). we_webhook_id e = w_id w}"
proof -
  have "int_base10 ''-1'' = Some (- 1)" by code_simp
  then have "es = deliveries (w_id w) (length (wd_events wdb)) wdb"
    using assms by (auto simp: list_webhook_deliveries_def res_simps)
  then show ?thesis by (auto simp: deliveries_def)
qed

end
