(* ===== verification/Bounce.thy ===== *)
theory Bounce
  imports Mime Models Routing
begin

text \<open>
  \<open>src/src/lightr/mail/bounce.py\<close>: classifying a delivery failure, reading failures and
  complaints out of a parsed report, and the suppression list (the list \<open>Router\<close> reads).
\<close>

section \<open>Classification\<close>

datatype bounce_type = HARD | SOFT | COMPLAINT | UNKNOWN

definition should_suppress :: "bounce_type \<Rightarrow> bool" where
  "should_suppress b \<longleftrightarrow> b \<in> {HARD, COMPLAINT}"

definition HARD_STATUS :: "string list" where
  "HARD_STATUS = [''5.1.1'', ''5.1.2'', ''5.1.3'', ''5.1.6'', ''5.2.1'', ''5.4.4'']"

definition SOFT_STATUS :: "string list" where
  "SOFT_STATUS = [''4.2.2'', ''5.2.2'', ''4.4.1'', ''4.4.7'', ''4.7.1'', ''4.2.0'']"

definition HARD_PHRASES :: "string list" where
  "HARD_PHRASES = [''user unknown'', ''no such user'', ''no such recipient'', ''recipient not found'',
    ''unknown recipient'', ''does not exist'', ''invalid recipient'', ''address rejected'',
    ''mailbox unavailable'', ''no mailbox here'', ''unrouteable address'']"

definition SOFT_PHRASES :: "string list" where
  "SOFT_PHRASES = [''mailbox full'', ''over quota'', ''quota exceeded'', ''insufficient storage'',
    ''try again later'', ''greylist'', ''temporarily deferred'', ''temporary failure'',
    ''connection timed out'']"

text \<open>
  \<open>\b([45]\d{2})\b\<close> and \<open>\b([45]\.\d{1,3}\.\d{1,3})\b\<close>, searched from the left; the flag says the
  character before the current position is a word character.
\<close>

definition at_boundary :: "string \<Rightarrow> bool" where
  "at_boundary s \<longleftrightarrow> s = [] \<or> \<not> is_word (hd s)"

definition smtp_code_at :: "string \<Rightarrow> string option" where
  "smtp_code_at s =
    (case s of
       a # b # c # r \<Rightarrow> if a \<in> {CHR ''4'', CHR ''5''} \<and> is_digit b \<and> is_digit c \<and> at_boundary r
                        then Some [a, b, c] else None
     | _ \<Rightarrow> None)"

definition status_at :: "string \<Rightarrow> string option" where
  "status_at s =
    (case s of
       a # r \<Rightarrow>
         let r = (if starts_with ''.'' r then Some (tl r) else None);
             d1 = takeWhile is_digit (the r); r1 = dropWhile is_digit (the r);
             d2 = takeWhile is_digit (tl r1); r2 = dropWhile is_digit (tl r1)
         in if a \<in> {CHR ''4'', CHR ''5''} \<and> r \<noteq> None \<and> 1 \<le> length d1 \<and> length d1 \<le> 3
               \<and> starts_with ''.'' r1 \<and> 1 \<le> length d2 \<and> length d2 \<le> 3 \<and> at_boundary r2
            then Some (a # ''.'' @ d1 @ ''.'' @ d2) else None
     | [] \<Rightarrow> None)"

fun search_at :: "(string \<Rightarrow> string option) \<Rightarrow> bool \<Rightarrow> string \<Rightarrow> string option" where
  "search_at f after_word [] = None"
| "search_at f after_word (c # s) =
    (case (if after_word then None else f (c # s)) of
       Some m \<Rightarrow> Some m | None \<Rightarrow> search_at f (is_word c) s)"

definition smtp_code_search :: "string \<Rightarrow> string option" where
  "smtp_code_search s = search_at smtp_code_at False s"

definition status_search :: "string \<Rightarrow> string option" where
  "status_search s = search_at status_at False s"

definition classify :: "string option \<Rightarrow> string option \<Rightarrow> bounce_type" where
  "classify status diagnostic =
    (let st = (case status of Some s \<Rightarrow> s | None \<Rightarrow> [])
     in if st \<noteq> [] \<and> st \<in> set SOFT_STATUS then SOFT
        else if st \<noteq> [] \<and> st \<in> set HARD_STATUS then HARD
        else if starts_with ''4'' st then SOFT
        else if starts_with ''5'' st then HARD
        else case diagnostic of
               None \<Rightarrow> UNKNOWN
             | Some d \<Rightarrow>
               if d = [] then UNKNOWN
               else if \<exists>p \<in> set SOFT_PHRASES. contains p (lower d) then SOFT
               else if \<exists>p \<in> set HARD_PHRASES. contains p (lower d) then HARD
               else case smtp_code_search d of
                      Some code \<Rightarrow> if starts_with ''4'' code then SOFT else HARD
                    | None \<Rightarrow> UNKNOWN)"

section \<open>Reading a report\<close>

record bounce =
  b_recipient :: string
  b_type :: bounce_type
  b_status :: "string option"
  b_diagnostic :: "string option"
  b_remote_mta :: "string option"
  b_original_message_id :: "string option"

definition clean_address :: "string \<Rightarrow> string" where
  "clean_address value =
    (let text = strip value;
         text = (if CHR '';'' \<in> set text then snd (split_first CHR '';'' text) else text)
     in lower (strip (strip_chars ''<>'' (strip text))))"

definition strip_type :: "string option \<Rightarrow> string option" where
  "strip_type value =
    (case value of
       None \<Rightarrow> None
     | Some v \<Rightarrow>
       if v = [] then None
       else let s = strip (if CHR '';'' \<in> set v then snd (split_first CHR '';'' v) else v)
            in if s = [] then None else Some s)"

text \<open>\<open>_fields\<close>: the accumulator is the mapping so far and the name a folded line continues.\<close>

fun fields_acc :: "(string, string) dict \<Rightarrow> string option \<Rightarrow> string list \<Rightarrow> (string, string) dict" where
  "fields_acc out current [] = out"
| "fields_acc out current (line # lines) =
    (if (starts_with '' '' line \<or> starts_with [CHR 0x09] line) \<and> truthy current
     then fields_acc (AList.update (the current) (the (map_of out (the current)) @ '' '' @ strip line) out) current lines
     else let (name, sep, value) = partition_char CHR '':'' line
          in if \<not> sep then fields_acc out current lines
             else let key = lower (strip name)
                  in fields_acc (AList.update key (strip value) out) (Some key) lines)"

definition report_fields :: "string \<Rightarrow> (string, string) dict" where
  "report_fields block = fields_acc [] None (splitlines block)"

text \<open>\<open>payload.split("\n\n")\<close>.\<close>

fun split_blank_acc :: "string \<Rightarrow> string \<Rightarrow> string list" where
  "split_blank_acc w [] = [rev w]"
| "split_blank_acc w [c] = [rev (c # w)]"
| "split_blank_acc w (c # d # s) =
    (if c = CHR 0x0A \<and> d = CHR 0x0A then rev w # split_blank_acc [] s
     else split_blank_acc (c # w) (d # s))"

definition status_blocks :: "mime \<Rightarrow> (string, string) dict list" where
  "status_blocks part =
    (case mime_payload part of
       Parts subs \<Rightarrow> filter (\<lambda>b. b \<noteq> [])
         (map (\<lambda>sub. foldl (\<lambda>d (k, v). AList.update (lower k) (strip v) d) [] (mime_fields sub)) subs)
     | Text t \<Rightarrow> filter (\<lambda>b. b \<noteq> []) (map report_fields (split_blank_acc [] t)))"

function part_text :: "mime \<Rightarrow> string" where
  "part_text (Mime fs ty ps fname (Text t)) = t"
| "part_text (Mime fs ty ps fname (Parts ms)) = join [CHR 0x0A, CHR 0x0A] (map part_text ms)"
  by pat_completeness auto
termination
  by (relation "measure size") (auto dest!: size_list_estimation' [of _ _ _ size, OF _ order_refl] simp: less_Suc_eq_le)

definition original_message_id :: "mime \<Rightarrow> string option" where
  "original_message_id message =
    (let originals = concat (map walk (filter (\<lambda>p. mime_type p \<in> {''message/rfc822'', ''text/rfc822-headers''}) (walk message)))
     in map_option (\<lambda>sub. strip (the (mime_get ''Message-ID'' sub)))
          (first_row (filter (\<lambda>sub. truthy (mime_get ''Message-ID'' sub)) originals)))"

definition is_complaint :: "mime \<Rightarrow> bool" where
  "is_complaint message \<longleftrightarrow>
    (mime_type message = ''multipart/report'' \<and>
       lower (or_else (map_of (mime_params message) ''report-type'') []) = ''feedback-report'') \<or>
    (\<exists>part \<in> set (walk message). mime_type part = ''message/feedback-report'')"

definition complaint_of :: "string \<Rightarrow> bounce" where
  "complaint_of address = \<lparr>b_recipient = address, b_type = COMPLAINT, b_status = None,
     b_diagnostic = None, b_remote_mta = None, b_original_message_id = None\<rparr>"

definition reported_recipients :: "mime \<Rightarrow> string list" where
  "reported_recipients part =
    concat (map (\<lambda>f. if truthy (map_of f ''original-rcpt-to'')
                     then [clean_address (the (map_of f ''original-rcpt-to''))] else []) (status_blocks part))
    @ concat (map (\<lambda>line. let (name, _, value) = partition_char CHR '':'' line
                          in if lower (strip name) = ''original-rcpt-to'' then [clean_address value] else [])
        (splitlines (part_text part)))"

definition parse_complaint :: "mime \<Rightarrow> bounce list" where
  "parse_complaint message =
    (let recipients = concat (map reported_recipients
           (filter (\<lambda>p. mime_type p = ''message/feedback-report'') (walk message)));
         recipients = (if recipients \<noteq> [] then recipients
           else concat (map (\<lambda>part.
                  case first_row (filter (\<lambda>sub. truthy (mime_get ''To'' sub)) (walk part)) of
                    None \<Rightarrow> [] | Some sub \<Rightarrow> [clean_address (the (mime_get ''To'' sub))])
                (filter (\<lambda>p. mime_type p = ''message/rfc822'') (walk message))))
     in map complaint_of (fromkeys (filter (\<lambda>a. a \<noteq> []) recipients)))"

definition bounce_of_fields :: "string option \<Rightarrow> (string, string) dict \<Rightarrow> bounce list" where
  "bounce_of_fields original_id flds =
    (let recipient = clean_address (or_else (map_of flds ''final-recipient'')
           (or_else (map_of flds ''original-recipient'') []))
     in if recipient = [] then []
        else if starts_with ''deliver'' (lower (or_else (map_of flds ''action'') [])) then []
        else [\<lparr>b_recipient = recipient,
               b_type = classify (map_of flds ''status'') (map_of flds ''diagnostic-code''),
               b_status = map_of flds ''status'', b_diagnostic = map_of flds ''diagnostic-code'',
               b_remote_mta = strip_type (map_of flds ''remote-mta''),
               b_original_message_id = original_id\<rparr>])"

definition parse_delivery_status :: "mime \<Rightarrow> bounce list" where
  "parse_delivery_status message =
    concat (map (\<lambda>part. concat (map (bounce_of_fields (original_message_id message)) (status_blocks part)))
      (filter (\<lambda>p. mime_type p = ''message/delivery-status'') (walk message)))"

text \<open>\<open>findall\<close> of \<open><([^<>@\s]+@[^<>@\s]+)>\<close>; the fuel is the length of the text.\<close>

definition addr_char :: "char \<Rightarrow> bool" where
  "addr_char c \<longleftrightarrow> c \<notin> set ''<>@'' \<and> \<not> is_space c"

definition angle_at :: "string \<Rightarrow> (string \<times> string) option" where
  "angle_at s =
    (let l = takeWhile addr_char s; r = dropWhile addr_char s;
         d = takeWhile addr_char (tl r); r2 = dropWhile addr_char (tl r)
     in if l \<noteq> [] \<and> starts_with ''@'' r \<and> d \<noteq> [] \<and> starts_with ''>'' r2
        then Some (l @ ''@'' @ d, tl r2) else None)"

fun angle_addresses :: "nat \<Rightarrow> string \<Rightarrow> string list" where
  "angle_addresses skip [] = []"
| "angle_addresses skip (c # s) =
    (if 0 < skip then angle_addresses (skip - 1) s
     else if c = CHR ''<'' then
       (case angle_at s of
          Some (a, r) \<Rightarrow> a # angle_addresses (length s - length r) s
        | None \<Rightarrow> angle_addresses 0 s)
     else angle_addresses 0 s)"

definition parse_prose :: "mime \<Rightarrow> bounce list" where
  "parse_prose message =
    (let body = (case first_row (filter (\<lambda>p. mime_type p = ''text/plain'') (walk message)) of
           None \<Rightarrow> [] | Some p \<Rightarrow> part_text p);
         addresses = angle_addresses 0 body;
         status = status_search body
     in if body = [] \<or> addresses = [] then []
        else map (\<lambda>a. \<lparr>b_recipient = lower a, b_type = classify status (Some body), b_status = status,
               b_diagnostic = Some (strip (take 500 body)), b_remote_mta = None,
               b_original_message_id = original_message_id message\<rparr>) (fromkeys addresses))"

definition parse_report :: "mime \<Rightarrow> bounce list" where
  "parse_report message =
    (if is_complaint message then parse_complaint message
     else let bounces = parse_delivery_status message
          in if bounces \<noteq> [] then bounces else parse_prose message)"

section \<open>Recording and suppressing\<close>

record bounce_row =
  br_id :: uuid
  br_org_id :: uuid
  br_domain_id :: uuid
  br_original_msg_id :: "string option"
  br_recipient_email :: string
  br_bounce_type :: bounce_type
  br_diagnostic_code :: "string option"
  br_remote_mta :: "string option"
  br_created_at :: instant

record bounce_db =
  bd_bounces :: "bounce_row list"
  bd_suppressed :: "suppression list"

definition bounce_type_str :: "bounce_type \<Rightarrow> string" where
  "bounce_type_str b = (case b of HARD \<Rightarrow> ''hard'' | SOFT \<Rightarrow> ''soft'' | COMPLAINT \<Rightarrow> ''complaint'' | UNKNOWN \<Rightarrow> ''unknown'')"

definition suppressed_now :: "string \<Rightarrow> bounce_db \<Rightarrow> bool" where
  "suppressed_now addr db \<longleftrightarrow> lower (strip addr) \<in> sup_email ` set (bd_suppressed db)"

definition suppress :: "string \<Rightarrow> string \<Rightarrow> uuid option \<Rightarrow> instant \<Rightarrow> bounce_db \<Rightarrow> bounce_db" where
  "suppress addr reason org now db =
    (let address = lower (strip addr)
     in if suppressed_now address db then db
        else db\<lparr>bd_suppressed := bd_suppressed db @
          [\<lparr>sup_email = address, sup_reason = take 255 reason, sup_org_id = org, sup_created_at = now\<rparr>]\<rparr>)"

definition unsuppress :: "string \<Rightarrow> bounce_db \<Rightarrow> bool \<times> bounce_db" where
  "unsuppress addr db =
    (let p = (\<lambda>s. sup_email s = lower (strip addr))
     in (0 < rowcount p (bd_suppressed db), db\<lparr>bd_suppressed := delete_where p (bd_suppressed db)\<rparr>))"

definition record_bounce :: "uuid \<Rightarrow> bounce \<Rightarrow> uuid \<Rightarrow> uuid \<Rightarrow> instant \<Rightarrow> bounce_db \<Rightarrow> bool \<times> bounce_db" where
  "record_bounce fresh b org_id domain_id now db =
    (let diag = take 1000 (or_else (b_diagnostic b) []);
         db' = db\<lparr>bd_bounces := bd_bounces db @ [\<lparr>br_id = fresh, br_org_id = org_id,
           br_domain_id = domain_id, br_original_msg_id = b_original_message_id b,
           br_recipient_email = b_recipient b, br_bounce_type = b_type b,
           br_diagnostic_code = (if diag = [] then None else Some diag),
           br_remote_mta = b_remote_mta b, br_created_at = now\<rparr>]\<rparr>
     in if \<not> should_suppress (b_type b) then (False, db')
        else (True, suppress (b_recipient b)
          (bounce_type_str (b_type b) @ '': '' @ or_else (b_status b) ''no status'') (Some org_id) now db'))"

definition list_suppressed :: "nat \<Rightarrow> bounce_db \<Rightarrow> suppression list" where
  "list_suppressed limit db = take limit (sort_key (\<lambda>s. - sup_created_at s) (bd_suppressed db))"

definition list_bounces :: "string option \<Rightarrow> nat \<Rightarrow> bounce_db \<Rightarrow> bounce_row list" where
  "list_bounces recipient limit db =
    take limit (sort_key (\<lambda>r. - br_created_at r)
      (filter (\<lambda>r. \<not> truthy recipient \<or> br_recipient_email r = lower (strip (the recipient))) (bd_bounces db)))"

section \<open>What is suppressed\<close>

text \<open>The contract of a suppression list: what every operation does to what it answers.\<close>

locale suppression_store =
  fixes suppressed :: "'s \<Rightarrow> string \<Rightarrow> bool"
    and add :: "string \<Rightarrow> 's \<Rightarrow> 's"
    and remove :: "string \<Rightarrow> 's \<Rightarrow> 's"
    and inv :: "'s \<Rightarrow> bool"
  assumes add_spec: "inv s \<Longrightarrow> suppressed (add a s) b \<longleftrightarrow> norm_addr b = norm_addr a \<or> suppressed s b"
    and remove_spec: "inv s \<Longrightarrow> suppressed (remove a s) b \<longleftrightarrow> norm_addr b \<noteq> norm_addr a \<and> suppressed s b"
    and add_inv: "inv s \<Longrightarrow> inv (add a s)"
    and remove_inv: "inv s \<Longrightarrow> inv (remove a s)"
begin

lemma add_twice: "inv s \<Longrightarrow> suppressed (add a (add a s)) b = suppressed (add a s) b"
  by (simp add: add_spec add_inv)

lemma remove_added: "inv s \<Longrightarrow> \<not> suppressed s a \<Longrightarrow> suppressed (remove a (add a s)) b = (suppressed s b \<and> norm_addr b \<noteq> norm_addr a)"
  by (auto simp: add_spec remove_spec add_inv)

lemma add_all: "inv s \<Longrightarrow> inv (fold add as s) \<and>
    (suppressed (fold add as s) b \<longleftrightarrow> suppressed s b \<or> norm_addr b \<in> norm_addr ` set as)"
  by (induction as arbitrary: s) (auto simp: add_spec add_inv)

end

definition suppressions_ok :: "bounce_db \<Rightarrow> bool" where
  "suppressions_ok db \<longleftrightarrow> unique_by sup_email (bd_suppressed db)"

lemma suppressed_now_suppress:
  "suppressed_now b (suppress a reason org now db) \<longleftrightarrow> norm_addr b = norm_addr a \<or> suppressed_now b db"
  by (auto simp: suppress_def suppressed_now_def Let_def norm_addr_def strip_lower)

lemma suppressed_now_unsuppress:
  "suppressed_now b (snd (unsuppress a db)) \<longleftrightarrow> norm_addr b \<noteq> norm_addr a \<and> suppressed_now b db"
  by (auto simp: unsuppress_def suppressed_now_def Let_def norm_addr_def set_delete_where)

lemma suppressions_ok_suppress: "suppressions_ok db \<Longrightarrow> suppressions_ok (suppress a reason org now db)"
  by (auto simp: suppressions_ok_def suppress_def suppressed_now_def Let_def strip_lower)

lemma suppressions_ok_unsuppress: "suppressions_ok db \<Longrightarrow> suppressions_ok (snd (unsuppress a db))"
  by (simp add: suppressions_ok_def unsuppress_def Let_def unique_by_delete)

interpretation bounce_suppression: suppression_store
  "\<lambda>db a. suppressed_now a db" "\<lambda>a. suppress a reason org now" "\<lambda>a db. snd (unsuppress a db)" suppressions_ok
  for reason org now
  by unfold_locales
     (simp_all add: suppressed_now_suppress suppressed_now_unsuppress suppressions_ok_suppress suppressions_ok_unsuppress)

definition record_all :: "(uuid \<times> bounce) list \<Rightarrow> uuid \<Rightarrow> uuid \<Rightarrow> instant \<Rightarrow> bounce_db \<Rightarrow> bounce_db" where
  "record_all bs org_id domain_id now db =
    foldl (\<lambda>db (i, b). snd (record_bounce i b org_id domain_id now db)) db bs"

lemma suppressed_now_record:
  "suppressed_now a (snd (record_bounce i b org_id domain_id now db)) \<longleftrightarrow>
    should_suppress (b_type b) \<and> norm_addr a = norm_addr (b_recipient b) \<or> suppressed_now a db"
proof -
  have same: "suppressed_now a (db\<lparr>bd_bounces := x\<rparr>) = suppressed_now a db" for x
    by (simp add: suppressed_now_def)
  show ?thesis
    by (auto simp: record_bounce_def Let_def suppressed_now_suppress same)
qed

lemma suppressed_now_record_all:
  "suppressed_now a (record_all bs org_id domain_id now db) \<longleftrightarrow>
    suppressed_now a db \<or>
    (\<exists>(i, b) \<in> set bs. b_type b \<in> {HARD, COMPLAINT} \<and> norm_addr a = norm_addr (b_recipient b))"
  unfolding record_all_def
proof (induction bs rule: rev_induct)
  case Nil
  then show ?case by simp
next
  case (snoc ib bs)
  then show ?case
    by (cases ib) (auto simp: suppressed_now_record should_suppress_def)
qed

text \<open>
  Recording the failures of a report suppresses exactly the addresses that failed for good
  or complained, in whatever case and spacing they were written; a soft or unrecognised failure
  suppresses nobody, and nothing is taken off the list.
\<close>

theorem recording_suppresses_hard_only:
  "suppressed_now a (record_all bs org_id domain_id now db) \<longleftrightarrow>
    suppressed_now a db \<or>
    (\<exists>(i, b) \<in> set bs. b_type b \<in> {HARD, COMPLAINT} \<and> norm_addr a = norm_addr (b_recipient b))"
  by (rule suppressed_now_record_all)

text \<open>
  An address is judged dead only on positive evidence: an enhanced status of class 5 that
  is not one of the known temporary ones, or, when there is no status of class 4 or 5, a
  diagnostic with no temporary phrase in it and with a permanent phrase or a 5xx code. Anything
  else, in particular a full mailbox and a text nobody recognises, does not suppress.
\<close>

theorem classify_suppresses_only_on_evidence:
  assumes "should_suppress (classify status diagnostic)"
  shows "(\<exists>s. status = Some s \<and> starts_with ''5'' s \<and> s \<notin> set SOFT_STATUS) \<or>
    (\<exists>d. diagnostic = Some d \<and> \<not> starts_with ''4'' (or_else status []) \<and> \<not> starts_with ''5'' (or_else status []) \<and>
      (\<forall>p \<in> set SOFT_PHRASES. \<not> contains p (lower d)) \<and>
      ((\<exists>p \<in> set HARD_PHRASES. contains p (lower d)) \<or>
       (\<exists>code. smtp_code_search d = Some code \<and> \<not> starts_with ''4'' code)))"
proof -
  have hard5: "s \<in> set HARD_STATUS \<Longrightarrow> starts_with ''5'' s" for s
    by (auto simp: HARD_STATUS_def starts_with_def)
  define st where "st = (case status of Some s \<Rightarrow> s | None \<Rightarrow> [])"
  have st: "or_else status [] = st" by (simp add: or_else_def st_def split: option.splits)
  have c: "classify status diagnostic = HARD"
    using assms by (auto simp: should_suppress_def classify_def Let_def split: if_splits option.splits)
  show ?thesis
  proof (cases "starts_with ''5'' st")
    case True
    then have "st \<notin> set SOFT_STATUS" using c
      by (auto simp: classify_def Let_def st_def [symmetric] starts_with_def split: if_splits)
    moreover have "status = Some st" using True by (cases status) (auto simp: st_def starts_with_def)
    ultimately show ?thesis using True by blast
  next
    case False
    then have ns: "\<not> (st \<noteq> [] \<and> st \<in> set HARD_STATUS)" using hard5 by blast
    then have *: "\<not> (st \<noteq> [] \<and> st \<in> set SOFT_STATUS)" "\<not> starts_with ''4'' st"
      "(case diagnostic of None \<Rightarrow> UNKNOWN
             | Some d \<Rightarrow>
               if d = [] then UNKNOWN
               else if \<exists>p \<in> set SOFT_PHRASES. contains p (lower d) then SOFT
               else if \<exists>p \<in> set HARD_PHRASES. contains p (lower d) then HARD
               else case smtp_code_search d of
                      Some code \<Rightarrow> if starts_with ''4'' code then SOFT else HARD
                    | None \<Rightarrow> UNKNOWN) = HARD"
      using c False unfolding classify_def Let_def st_def [symmetric] by (simp_all split: if_splits)
    then show ?thesis using False unfolding st
      by (auto split: option.splits if_splits)
  qed
qed

lemma classify_suppresses_only_on_evidence_witness:
  "classify None (Some ''550 5.1.1 User unknown'') = HARD \<and>
   \<not> contains ''mailbox full'' (lower ''550 5.1.1 User unknown'')"
proof -
  have c: "classify None (Some ''550 5.1.1 User unknown'') = HARD" by code_simp
  then have "should_suppress (classify None (Some ''550 5.1.1 User unknown''))" by (simp add: should_suppress_def)
  from classify_suppresses_only_on_evidence [OF this] c show ?thesis by (simp add: SOFT_PHRASES_def)
qed

text \<open>
  A report that only says \<open>delivered\<close> yields no failures from its status part, and its text is
  then read as a bounce.
\<close>

definition delivered_report :: mime where
  "delivered_report = Mime [] ''multipart/report'' [] None (Parts
     [Mime [] ''text/plain'' [] None (Text ''<bob@b.net>: delivered to host 550''),
      Mime [] ''message/delivery-status'' [] None (Parts
        [Mime [(''Final-Recipient'', ''rfc822; bob@b.net''), (''Action'', ''delivered''), (''Status'', ''2.0.0'')]
           ''text/plain'' [] None (Text [])])])"

lemma delivered_report_is_a_bounce:
  "map b_recipient (parse_report delivered_report) = [''bob@b.net''] \<and>
   map b_type (parse_report delivered_report) = [HARD]"
  by code_simp

end
