(* ===== verification/Lmtp.thy ===== *)
theory Lmtp
  imports Py_Text "HOL-Library.Multiset"
begin

text \<open>
  \<open>src/src/lightr/dovecot/lmtp.py\<close>: one LMTP transaction with Dovecot. The connection is the lines
  Dovecot will send and the bytes written so far; the time limit around the transaction is not
  modelled. Bytes are characters.
\<close>

section \<open>Statuses\<close>

record recipient_status =
  rs_recipient :: string
  rs_code :: int
  rs_message :: string

definition status_ok :: "recipient_status \<Rightarrow> bool" where
  "status_ok s \<longleftrightarrow> 200 \<le> rs_code s \<and> rs_code s < 300"

definition status_retryable :: "recipient_status \<Rightarrow> bool" where
  "status_retryable s \<longleftrightarrow> starts_with ''4'' (dec_str (rs_code s))"

definition delivered :: "recipient_status list \<Rightarrow> string list" where
  "delivered statuses = map rs_recipient (filter status_ok statuses)"

definition failed :: "recipient_status list \<Rightarrow> recipient_status list" where
  "failed statuses = filter (\<lambda>s. \<not> status_ok s) statuses"

definition retryable_statuses :: "recipient_status list \<Rightarrow> recipient_status list" where
  "retryable_statuses statuses = filter status_retryable statuses"

definition all_ok :: "recipient_status list \<Rightarrow> bool" where
  "all_ok statuses \<longleftrightarrow> statuses \<noteq> [] \<and> list_all status_ok statuses"

section \<open>The transaction\<close>

record lmtp_conn =
  lc_in :: "string list"
  lc_out :: string

datatype lmtp_error =
    LMTPError string
  | BadNumber            \<comment> \<open>the \<open>ValueError\<close> of an LHLO line that starts with no number\<close>

definition CRLF :: string where "CRLF = [CHR 0x0D, CHR 0x0A]"

definition command :: "string \<Rightarrow> lmtp_conn \<Rightarrow> lmtp_conn" where
  "command line c = c\<lparr>lc_out := lc_out c @ line @ CRLF\<rparr>"

text \<open>\<open>readline\<close> gives nothing at the end of the stream.\<close>

definition read_line :: "lmtp_conn \<Rightarrow> string \<times> lmtp_conn" where
  "read_line c = (case lc_in c of [] \<Rightarrow> ([], c) | l # ls \<Rightarrow> (l, c\<lparr>lc_in := ls\<rparr>))"

definition read_response :: "lmtp_conn \<Rightarrow> lmtp_error + (int \<times> string) \<times> lmtp_conn" where
  "read_response c =
    (let (line, c') = read_line c
     in if line = [] then Inl (LMTPError ''Dovecot closed the connection unexpectedly'')
        else let text = strip line
             in case int_base10 (take 3 text) of
                  None \<Rightarrow> Inl (LMTPError ''malformed LMTP response'')
                | Some n \<Rightarrow> Inr ((n, drop 4 text), c'))"

definition expect :: "int \<Rightarrow> lmtp_conn \<Rightarrow> lmtp_error + lmtp_conn" where
  "expect code c =
    bind_res (read_response c) (\<lambda>((got, text), c').
      if got \<noteq> code then Inl (LMTPError ''unexpected code'') else Inr c')"

text \<open>The LHLO capability list. The loop ends because every round takes a line.\<close>

fun read_multiline :: "int \<Rightarrow> string list \<Rightarrow> lmtp_error + string list" where
  "read_multiline code [] = Inl (LMTPError ''Dovecot closed the connection during LHLO'')"
| "read_multiline code (line # rest) =
    (if line = [] then Inl (LMTPError ''Dovecot closed the connection during LHLO'')
     else let text = strip line
          in case int_base10 (take 3 text) of
               None \<Rightarrow> Inl BadNumber
             | Some n \<Rightarrow>
               if n \<noteq> code then Inl (LMTPError ''LHLO refused'')
               else if length text < 4 \<or> text ! 3 \<noteq> CHR ''-'' then Inr rest
               else read_multiline code rest)"

text \<open>\<open>RCPT\<close> for every recipient: who was accepted, and the statuses of the rest.\<close>

fun offer_all :: "string list \<Rightarrow> lmtp_conn \<Rightarrow> lmtp_error + (string list \<times> recipient_status list) \<times> lmtp_conn" where
  "offer_all [] c = Inr (([], []), c)"
| "offer_all (rcpt # rest) c =
    bind_res (read_response (command (''RCPT TO:<'' @ rcpt @ ''>'') c)) (\<lambda>((code, text), c1).
    bind_res (offer_all rest c1) (\<lambda>((accepted, refused), c2).
      Inr (if 200 \<le> code \<and> code < 300 then (rcpt # accepted, refused)
           else (accepted, \<lparr>rs_recipient = rcpt, rs_code = code, rs_message = text\<rparr> # refused), c2)))"

text \<open>One response for each accepted recipient, in order.\<close>

fun read_statuses :: "string list \<Rightarrow> lmtp_conn \<Rightarrow> lmtp_error + recipient_status list \<times> lmtp_conn" where
  "read_statuses [] c = Inr ([], c)"
| "read_statuses (rcpt # rest) c =
    bind_res (read_response c) (\<lambda>((code, text), c1).
    bind_res (read_statuses rest c1) (\<lambda>(ss, c2).
      Inr (\<lparr>rs_recipient = rcpt, rs_code = code, rs_message = text\<rparr> # ss, c2)))"

text \<open>\<open>_dot_stuff\<close>: CRLF and CR become LF, a leading dot is doubled, lines end in CRLF.\<close>

definition normalise_newlines :: "string \<Rightarrow> string" where
  "normalise_newlines payload = replace [CHR 0x0D] [CHR 0x0A] (replace CRLF [CHR 0x0A] payload)"

definition stuff_line :: "string \<Rightarrow> string" where
  "stuff_line line = (if starts_with ''.'' line then CHR ''.'' # line else line)"

definition dot_stuff :: "string \<Rightarrow> string" where
  "dot_stuff payload = join CRLF (map stuff_line (split_char CHR 0x0A (normalise_newlines payload)))"

text \<open>What follows the recipients: the message for those accepted, if any.\<close>

definition data_phase ::
  "string \<Rightarrow> string list \<Rightarrow> recipient_status list \<Rightarrow> lmtp_conn \<Rightarrow> lmtp_error + recipient_status list \<times> lmtp_conn" where
  "data_phase payload accepted refused c =
    (if accepted = [] then Inr (refused, command ''QUIT'' c)
     else
       bind_res (expect 354 (command ''DATA'' c)) (\<lambda>c.
       bind_res (read_statuses accepted (c\<lparr>lc_out := lc_out c @ dot_stuff payload @ CRLF @ ''.'' @ CRLF\<rparr>)) (\<lambda>(ss, c).
         Inr (refused @ ss, command ''QUIT'' c))))"

definition transaction ::
  "string \<Rightarrow> string \<Rightarrow> string list \<Rightarrow> string \<Rightarrow> lmtp_conn \<Rightarrow> lmtp_error + recipient_status list \<times> lmtp_conn" where
  "transaction imap_host sender recipients payload c =
    bind_res (expect 220 c) (\<lambda>c.
    let c = command (''LHLO '' @ imap_host) c in
    bind_res (read_multiline 250 (lc_in c)) (\<lambda>rest.
    bind_res (expect 250 (command (''MAIL FROM:<'' @ sender @ ''>'') (c\<lparr>lc_in := rest\<rparr>))) (\<lambda>c.
    bind_res (offer_all recipients c) (\<lambda>((accepted, refused), c). data_phase payload accepted refused c))))"

definition lmtp_deliver ::
  "string \<Rightarrow> (unit \<Rightarrow> lmtp_error + lmtp_conn) \<Rightarrow> string \<Rightarrow> string list \<Rightarrow> string \<Rightarrow> lmtp_error + recipient_status list" where
  "lmtp_deliver imap_host connect sender recipients payload =
    (if recipients = [] then Inl (LMTPError ''no recipients'')
     else bind_res (connect ()) (\<lambda>c. bind_res (transaction imap_host sender recipients payload c) (\<lambda>(ss, _). Inr ss)))"

section \<open>Everyone is accounted for\<close>

lemma offer_all_partition:
  "offer_all rcpts c = Inr ((accepted, refused), c') \<Longrightarrow>
    mset rcpts = mset accepted + mset (map rs_recipient refused) \<and> list_all (\<lambda>s. \<not> status_ok s) refused"
  by (induction rcpts arbitrary: c accepted refused)
     (auto simp: res_simps split_beta status_ok_def split: if_splits)

lemma read_statuses_recipients:
  "read_statuses rcpts c = Inr (ss, c') \<Longrightarrow> map rs_recipient ss = rcpts"
  by (induction rcpts arbitrary: c ss) (auto simp: res_simps split_beta)

lemma transaction_statuses:
  assumes "transaction h sender recipients payload c = Inr (ss, c')"
  shows "mset (map rs_recipient ss) = mset recipients"
proof -
  obtain c1 accepted refused c2 where o: "offer_all recipients c1 = Inr ((accepted, refused), c2)"
    and d: "data_phase payload accepted refused c2 = Inr (ss, c')"
    using assms by (auto simp: transaction_def res_simps Let_def split_beta)
  note p = offer_all_partition [OF o]
  show ?thesis
  proof (cases "accepted = []")
    case True
    then show ?thesis using d p by (simp add: data_phase_def)
  next
    case False
    then obtain c3 ss' c4 where "read_statuses accepted c3 = Inr (ss', c4)" "ss = refused @ ss'"
      using d by (auto simp: data_phase_def res_simps split_beta)
    then show ?thesis using p read_statuses_recipients [of accepted c3 ss' c4] by simp
  qed
qed

text \<open>
  C38. An LMTP transaction that completes reports one status for every recipient, however Dovecot
  splits its answers between \<open>RCPT\<close> and the end of the data, so every mailbox is either in
  \<open>delivered\<close> or in \<open>failed\<close>, as often as it was named.
\<close>

theorem every_recipient_has_a_status:
  assumes "lmtp_deliver h connect sender recipients payload = Inr ss"
  shows "mset (delivered ss) + mset (map rs_recipient (failed ss)) = mset recipients"
proof -
  have "mset (map rs_recipient ss) = mset recipients"
    using assms transaction_statuses by (auto simp: lmtp_deliver_def res_simps split_beta split: if_splits)
  moreover have "mset (delivered ss) + mset (map rs_recipient (failed ss)) = mset (map rs_recipient ss)"
    unfolding delivered_def failed_def by (induction ss) auto
  ultimately show ?thesis by simp
qed

definition dovecot_says :: lmtp_conn where
  "dovecot_says = \<lparr>lc_in = [''220 ready'', ''250-dovecot'', ''250 PIPELINING'', ''250 ok'', ''250 ok'', ''550 no such user'',
     ''354 go'', ''452 over quota''], lc_out = []\<rparr>"

lemma every_recipient_has_a_status_witness:
  "\<exists>ss. lmtp_deliver ''mail'' (\<lambda>_. Inr dovecot_says) ''a@b.org'' [''x@c.org'', ''y@c.org''] ''hello'' = Inr ss \<and>
    mset (delivered ss) + mset (map rs_recipient (failed ss)) = {#''x@c.org'', ''y@c.org''#}"
proof -
  let ?r = "lmtp_deliver ''mail'' (\<lambda>_. Inr dovecot_says) ''a@b.org'' [''x@c.org'', ''y@c.org''] ''hello''"
  have "\<not> isl ?r" by code_simp
  then obtain ss where r: "?r = Inr ss" by (cases ?r) simp_all
  from every_recipient_has_a_status [OF this] r show ?thesis by simp
qed

section \<open>What Dovecot reads of the data\<close>

text \<open>What CRLF separates.\<close>

fun crlf_lines :: "string \<Rightarrow> string list" where
  "crlf_lines [] = [[]]"
| "crlf_lines [c] = [[c]]"
| "crlf_lines (c # d # s) =
    (if c = CHR 0x0D \<and> d = CHR 0x0A then [] # crlf_lines s
     else case crlf_lines (d # s) of [] \<Rightarrow> [[c]] | l # ls \<Rightarrow> (c # l) # ls)"

definition unstuff_line :: "string \<Rightarrow> string" where
  "unstuff_line line = (if starts_with ''.'' line then tl line else line)"

lemma crlf_lines_line:
  "CHR 0x0D \<notin> set l \<Longrightarrow> crlf_lines (l @ CRLF @ s) = l # crlf_lines s"
proof (induction l)
  case Nil
  then show ?case by (simp add: CRLF_def)
next
  case (Cons c l)
  then have "c \<noteq> CHR 0x0D" "crlf_lines (l @ CRLF @ s) = l # crlf_lines s" by auto
  then show ?case by (cases "l @ CRLF @ s") (auto simp: CRLF_def)
qed

lemma crlf_lines_join:
  "ls \<noteq> [] \<Longrightarrow> \<forall>l \<in> set ls. CHR 0x0D \<notin> set l \<Longrightarrow> crlf_lines (join CRLF ls @ CRLF @ s) = ls @ crlf_lines s"
proof (induction CRLF ls rule: join.induct)
  case (3 x y xs)
  then show ?case using crlf_lines_line [of x "join CRLF (y # xs) @ CRLF @ s"] by simp
qed (simp_all add: crlf_lines_line)

lemma replace_removes: "c \<notin> set r \<Longrightarrow> c \<notin> set (replace [c] r s)"
proof (induction "[c]" r s rule: replace.induct)
  case (1 r s)
  then show ?case
    by (cases s) (auto simp: replace.simps [of "[c]"] starts_with_def)
qed

lemma split_char_no_sep: "l \<in> set (split_char c s) \<Longrightarrow> set l \<subseteq> set s - {c}"
proof (induction s arbitrary: l)
  case Nil
  then show ?case by simp
next
  case (Cons x s)
  show ?case
  proof (cases "x = c")
    case True
    then show ?thesis using Cons by (auto dest: Cons.IH)
  next
    case False
    obtain w ws where w: "split_char c s = w # ws" by (cases "split_char c s") simp_all
    then have "l = x # w \<or> l \<in> set ws" using Cons.prems False by simp
    moreover have "set w \<subseteq> set s - {c}" "l \<in> set ws \<Longrightarrow> set l \<subseteq> set s - {c}"
      using Cons.IH [of w] Cons.IH [of l] w by simp_all
    ultimately show ?thesis using False by auto
  qed
qed

lemma stuff_line_facts:
  "stuff_line l \<noteq> ''.''" "unstuff_line (stuff_line l) = l" "set (stuff_line l) \<subseteq> insert CHR ''.'' (set l)"
  by (cases l; auto simp: stuff_line_def unstuff_line_def starts_with_def)+

lemma crlf_lines_nonempty [simp]: "crlf_lines s \<noteq> []"
  by (induction s rule: crlf_lines.induct) (auto split: list.splits)

lemma crlf_lines_append: "crlf_lines (a @ CRLF @ r) = crlf_lines a @ crlf_lines r"
proof (induction a rule: crlf_lines.induct)
  case (3 c d s)
  obtain l ls where "crlf_lines (d # s) = l # ls" by (cases "crlf_lines (d # s)") simp_all
  with 3 show ?case by (auto simp: CRLF_def)
qed (simp_all add: CRLF_def)

lemma join_crlf_lines: "join CRLF (crlf_lines s) = s"
proof (induction s rule: crlf_lines.induct)
  case (3 c d s)
  obtain l ls where l: "crlf_lines (d # s) = l # ls" by (cases "crlf_lines (d # s)") simp_all
  obtain k ks where k: "crlf_lines s = k # ks" by (cases "crlf_lines s") simp_all
  show ?case using 3 l k by (cases ls; cases ks) (auto simp: CRLF_def)
qed simp_all

text \<open>What is written after \<open>DATA\<close> was accepted, as \<open>data_phase\<close> writes it.\<close>

definition end_mark :: string where "end_mark = CRLF @ ''.'' @ CRLF"

lemma stuffed_lines:
  "crlf_lines (dot_stuff payload @ CRLF @ r) = map stuff_line (split_char CHR 0x0A (normalise_newlines payload)) @ crlf_lines r"
proof -
  have "CHR 0x0D \<notin> set (normalise_newlines payload)"
    unfolding normalise_newlines_def by (rule replace_removes) simp
  then have "\<forall>l \<in> set (map stuff_line (split_char CHR 0x0A (normalise_newlines payload))). CHR 0x0D \<notin> set l"
    using stuff_line_facts(3) split_char_no_sep [of _ "CHR 0x0A" "normalise_newlines payload"] by fastforce
  then show ?thesis unfolding dot_stuff_def by (intro crlf_lines_join) simp_all
qed

lemma append_once: "x \<notin> set u \<Longrightarrow> x \<notin> set v \<Longrightarrow> a @ x # b = u @ x # v \<Longrightarrow> b = v"
  by (induction a arbitrary: u) (auto simp: append_eq_Cons_conv Cons_eq_append_conv)

text \<open>
  C39. What goes to Dovecot as the message ends once: after the line break of \<open>DATA\<close>, the mark that ends the
  data occurs at the very end and nowhere else, whatever dots and line endings the message holds, so no
  content ends it early or smuggles commands after it. And nothing but the kind of line ending is
  lost: two messages are written alike only when they are the same with every line ending a newline.
\<close>

theorem data_ends_once:
  "\<not> (\<exists>before after. CRLF @ dot_stuff payload @ end_mark = before @ end_mark @ after \<and> after \<noteq> []) \<and>
   (dot_stuff payload = dot_stuff other \<longleftrightarrow> normalise_newlines payload = normalise_newlines other)"
proof (intro conjI notI)
  assume "\<exists>before after. CRLF @ dot_stuff payload @ end_mark = before @ end_mark @ after \<and> after \<noteq> []"
  then obtain before after where sent: "CRLF @ dot_stuff payload @ end_mark = before @ end_mark @ after" and more: "after \<noteq> []" by blast
  let ?ls = "map stuff_line (split_char CHR 0x0A (normalise_newlines payload))"
  have dot: "crlf_lines (''.'' @ CRLF @ r) = ''.'' # crlf_lines r" for r by (rule crlf_lines_line) simp
  have "crlf_lines (CRLF @ dot_stuff payload @ end_mark) = ([] # ?ls) @ ''.'' # [[]]"
    using crlf_lines_append [of "[]" "dot_stuff payload @ end_mark"] dot [of "[]"]
    by (simp add: end_mark_def stuffed_lines)
  moreover have "crlf_lines (before @ end_mark @ after) = crlf_lines before @ ''.'' # crlf_lines after"
    using crlf_lines_append [of before "''.'' @ CRLF @ after"] dot [of after] by (simp add: end_mark_def)
  ultimately have "crlf_lines before @ ''.'' # crlf_lines after = ([] # ?ls) @ ''.'' # [[]]" using sent by simp
  moreover have "''.'' \<notin> set ([] # ?ls)" by (simp add: image_iff) (metis stuff_line_facts(1))
  ultimately have "crlf_lines after = [[]]" by (intro append_once [of "''.''" "[] # ?ls" "[[]]"]) simp_all
  then show False using join_crlf_lines [of after] more by simp
next
  show "dot_stuff payload = dot_stuff other \<longleftrightarrow> normalise_newlines payload = normalise_newlines other"
  proof
    assume "dot_stuff payload = dot_stuff other"
    then have "map stuff_line (split_char CHR 0x0A (normalise_newlines payload)) = map stuff_line (split_char CHR 0x0A (normalise_newlines other))"
      using stuffed_lines [of payload "[]"] stuffed_lines [of other "[]"] by simp
    moreover have "inj stuff_line" using stuff_line_facts(2) by (rule inj_on_inverseI)
    ultimately show "normalise_newlines payload = normalise_newlines other"
      using split_char_join [of "CHR 0x0A"] by (metis inj_map_eq_map)
  qed (simp add: dot_stuff_def)
qed

text \<open>
  The line break before the mark is written even when the message ends in one, as every message that
  came by SMTP does: what Dovecot is given has one empty line more.
\<close>

lemma last_line_break_is_doubled:
  assumes "normalise_newlines payload = text @ [CHR 0x0A]"
  shows "\<exists>u. dot_stuff payload @ end_mark = u @ CRLF @ CRLF @ ''.'' @ CRLF"
proof -
  have "split_char c (t @ [c]) = split_char c t @ [[]]" for c t
    by (induction c t rule: split_char.induct) (auto split: list.splits)
  moreover have "join CRLF (xs @ [[]]) = join CRLF xs @ CRLF" if "xs \<noteq> []" for xs
    using that by (induction CRLF xs rule: join.induct) simp_all
  ultimately show ?thesis using assms by (simp add: dot_stuff_def end_mark_def stuff_line_def starts_with_def)
qed

end
