(* ===== verification/Mail_Auth.thy ===== *)
theory Mail_Auth
  imports Mime
begin

text \<open>
  \<open>src/src/lightr/mail/authentication.py\<close>: SPF, DKIM and DMARC. The SPF and DKIM libraries and DNS
  are parameters that answer, time out or fail. Bytes are characters; a byte above ASCII decodes to
  the replacement character, here \<open>CHR 0x1A\<close>.
\<close>

section \<open>Results\<close>

datatype result = PASS | FAIL | SOFTFAIL | NEUTRAL | NONE | TEMPERROR | PERMERROR

fun result_str :: "result \<Rightarrow> string" where
  "result_str PASS = ''pass''"
| "result_str FAIL = ''fail''"
| "result_str SOFTFAIL = ''softfail''"
| "result_str NEUTRAL = ''neutral''"
| "result_str NONE = ''none''"
| "result_str TEMPERROR = ''temperror''"
| "result_str PERMERROR = ''permerror''"

definition is_failure :: "result \<Rightarrow> bool" where
  "is_failure r \<longleftrightarrow> r = FAIL"

definition is_inconclusive :: "result \<Rightarrow> bool" where
  "is_inconclusive r \<longleftrightarrow> r \<in> {NONE, TEMPERROR, PERMERROR, NEUTRAL}"

record spf_result =
  spf_verdict :: result
  spf_domain :: string
  spf_explanation :: string

record dkim_result =
  dkim_verdict :: result
  dkim_domain :: string
  dkim_selector :: string

record dmarc_result =
  dmarc_verdict :: result
  dmarc_p :: string
  aligned_spf :: bool
  aligned_dkim :: bool

definition dmarc_should_reject :: "dmarc_result \<Rightarrow> bool" where
  "dmarc_should_reject r \<longleftrightarrow> dmarc_verdict r = FAIL \<and> dmarc_p r = ''reject''"

definition dmarc_should_quarantine :: "dmarc_result \<Rightarrow> bool" where
  "dmarc_should_quarantine r \<longleftrightarrow> dmarc_verdict r = FAIL \<and> dmarc_p r = ''quarantine''"

text \<open>What a library call came to.\<close>

datatype 'a lookup = Answered 'a | TimedOut | Raised string | NotInstalled

section \<open>SPF\<close>

definition spf_plain :: "result \<Rightarrow> string \<Rightarrow> string \<Rightarrow> spf_result" where
  "spf_plain r d e = \<lparr>spf_verdict = r, spf_domain = d, spf_explanation = e\<rparr>"

definition result_of :: "string \<Rightarrow> result option" where
  "result_of s = find (\<lambda>r. result_str r = s) [PASS, FAIL, SOFTFAIL, NEUTRAL, NONE, TEMPERROR, PERMERROR]"

definition check_spf ::
  "(string \<Rightarrow> string \<Rightarrow> string \<Rightarrow> (string \<times> string) lookup) \<Rightarrow> string \<Rightarrow> string \<Rightarrow> string \<Rightarrow> spf_result" where
  "check_spf check2 ip mail_from helo =
    (if ip = [] then spf_plain NONE [] ''no client address''
     else
       let d = (if CHR ''@'' \<in> set mail_from then lower (snd (split_first CHR ''@'' mail_from)) else lower helo)
       in if d = [] then spf_plain NONE [] ''no domain to check''
          else case check2 ip (if mail_from = [] then ''postmaster@'' @ d else mail_from) (if helo = [] then d else helo) of
                 NotInstalled \<Rightarrow> spf_plain NONE d ''pyspf not installed''
               | TimedOut \<Rightarrow> spf_plain TEMPERROR d ''DNS timeout''
               | Raised e \<Rightarrow> spf_plain TEMPERROR d e
               | Answered (verdict, explanation) \<Rightarrow>
                   spf_plain (case result_of verdict of None \<Rightarrow> NEUTRAL | Some r \<Rightarrow> r) d explanation)"

section \<open>DKIM\<close>

definition byte_space :: "char \<Rightarrow> bool" where
  "byte_space c \<longleftrightarrow> c \<in> {CHR '' '', CHR 0x09, CHR 0x0A, CHR 0x0B, CHR 0x0C, CHR 0x0D}"

text \<open>The group of the first match of \<open>[;\s]t=([^;\s]+)\<close>.\<close>

fun tag_value :: "char \<Rightarrow> string \<Rightarrow> string option" where
  "tag_value t [] = None"
| "tag_value t (c # s) =
    (let v = takeWhile (\<lambda>x. x \<noteq> CHR '';'' \<and> \<not> byte_space x) (drop 2 s)
     in if (c = CHR '';'' \<or> byte_space c) \<and> starts_with [t, CHR ''=''] s \<and> v \<noteq> [] then Some v else tag_value t s)"

definition ascii_replace :: "string \<Rightarrow> string" where
  "ascii_replace s = map (\<lambda>c. if (of_char c :: nat) < 128 then c else CHR 0x1A) s"

definition DKIM_FIELD :: string where "DKIM_FIELD = ''DKIM-Signature:''"

definition signature_identity :: "string \<Rightarrow> string \<times> string" where
  "signature_identity raw =
    (let header = CHR '';'' # take 2000 (before_str [CHR 0x0D, CHR 0x0A, CHR 0x0D, CHR 0x0A] (after_str DKIM_FIELD raw));
         value = (\<lambda>t. case tag_value t header of None \<Rightarrow> [] | Some v \<Rightarrow> ascii_replace v)
     in (value CHR ''d'', value CHR ''s''))"

definition check_dkim :: "(string \<Rightarrow> bool lookup) \<Rightarrow> string \<Rightarrow> dkim_result" where
  "check_dkim verify raw =
    (if \<not> contains DKIM_FIELD raw then \<lparr>dkim_verdict = NONE, dkim_domain = [], dkim_selector = []\<rparr>
     else
       let (d, s) = signature_identity raw;
           r = (case verify raw of NotInstalled \<Rightarrow> NONE | TimedOut \<Rightarrow> TEMPERROR | Raised _ \<Rightarrow> PERMERROR
                | Answered ok \<Rightarrow> if ok then PASS else FAIL)
       in \<lparr>dkim_verdict = r, dkim_domain = d, dkim_selector = s\<rparr>)"

section \<open>DMARC\<close>

definition aligned :: "string \<Rightarrow> string \<Rightarrow> bool" where
  "aligned candidate from_domain =
    (if candidate = [] then False
     else let c = rstrip_chars ''.'' (lower candidate); f = rstrip_chars ''.'' (lower from_domain)
          in c = f \<or> ends_with (''.'' @ f) c \<or> ends_with (''.'' @ c) f)"

text \<open>The \<open>p=\<close> of the first record that is DMARC; \<open>txt\<close> is the answer for \<open>_dmarc.\<close> and the domain.\<close>

fun policy_tag :: "string list \<Rightarrow> string option" where
  "policy_tag [] = None"
| "policy_tag (tag # tags) =
    (let (name, _, value) = partition_char CHR ''='' tag
     in if lower (strip name) = ''p''
        then Some (let v = lower (strip value) in if v = [] then ''none'' else v)
        else policy_tag tags)"

fun policy_of_records :: "string list \<Rightarrow> string option" where
  "policy_of_records [] = None"
| "policy_of_records (r # rs) =
    (let text = ascii_replace r
     in if \<not> starts_with ''v=dmarc1'' (lower text) then policy_of_records rs
        else case policy_tag (split_char CHR '';'' text) of Some p \<Rightarrow> Some p | None \<Rightarrow> Some ''none'')"

definition dmarc_policy :: "(string \<Rightarrow> string list lookup) \<Rightarrow> string \<Rightarrow> string option" where
  "dmarc_policy txt d = (case txt (''_dmarc.'' @ d) of Answered rs \<Rightarrow> policy_of_records rs | _ \<Rightarrow> None)"

definition check_dmarc ::
  "(string \<Rightarrow> string list lookup) \<Rightarrow> string \<Rightarrow> spf_result \<Rightarrow> dkim_result \<Rightarrow> dmarc_result" where
  "check_dmarc txt from_domain spf dkim =
    (let nothing = \<lparr>dmarc_verdict = NONE, dmarc_p = ''none'', aligned_spf = False, aligned_dkim = False\<rparr>
     in if from_domain = [] then nothing
        else case dmarc_policy txt from_domain of
               None \<Rightarrow> nothing
             | Some policy \<Rightarrow>
               let as = (spf_verdict spf = PASS \<and> aligned (spf_domain spf) from_domain);
                   ad = (dkim_verdict dkim = PASS \<and> aligned (dkim_domain dkim) from_domain);
                   r = (if as \<or> ad then PASS
                        else if spf_verdict spf = TEMPERROR \<or> dkim_verdict dkim = TEMPERROR then TEMPERROR else FAIL)
               in \<lparr>dmarc_verdict = r, dmarc_p = policy, aligned_spf = as, aligned_dkim = ad\<rparr>)"

text \<open>The \<open>From\<close> field of the parsed message; \<open>parseaddr\<close> is the email package's.\<close>

definition from_domain_of :: "(string \<Rightarrow> string \<times> string) \<Rightarrow> mime \<Rightarrow> string" where
  "from_domain_of parseaddr m =
    (let addr = snd (parseaddr (case mime_get ''From'' m of None \<Rightarrow> [] | Some v \<Rightarrow> v))
     in if CHR ''@'' \<in> set addr then lower (snd (split_first CHR ''@'' addr)) else [])"

section \<open>What a failure means\<close>

lemma result_of_FAIL: "result_of s = Some FAIL \<longleftrightarrow> s = ''fail''"
  by (auto simp: result_of_def)

text \<open>
  A lookup that fails is not a verification that failed: SPF fails only when the library
  answered \<open>fail\<close>, DKIM only when it looked at the signature and refused it, and DMARC only for a
  domain that publishes a policy, when neither check was cut short and neither passed for an aligned
  domain.
\<close>

theorem outage_is_no_forgery:
  "(spf_verdict (check_spf check2 ip mail_from helo) = FAIL \<longrightarrow> (\<exists>i s h e. check2 i s h = Answered (''fail'', e))) \<and>
   (dkim_verdict (check_dkim verify raw) = FAIL \<longrightarrow> verify raw = Answered False) \<and>
   (dmarc_verdict (check_dmarc txt d spf dkim) = FAIL \<longrightarrow>
      (\<exists>records. txt (''_dmarc.'' @ d) = Answered records \<and> policy_of_records records \<noteq> None) \<and>
      spf_verdict spf \<noteq> TEMPERROR \<and> dkim_verdict dkim \<noteq> TEMPERROR \<and>
      \<not> (spf_verdict spf = PASS \<and> aligned (spf_domain spf) d) \<and>
      \<not> (dkim_verdict dkim = PASS \<and> aligned (dkim_domain dkim) d))"
proof (intro conjI impI)
  assume "spf_verdict (check_spf check2 ip mail_from helo) = FAIL"
  then show "\<exists>i s h e. check2 i s h = Answered (''fail'', e)"
    by (auto simp: check_spf_def Let_def spf_plain_def result_of_FAIL split: if_splits lookup.splits option.splits) blast+
next
  assume "dkim_verdict (check_dkim verify raw) = FAIL"
  then show "verify raw = Answered False"
    by (auto simp: check_dkim_def Let_def split_beta split: if_splits lookup.splits)
next
  assume f: "dmarc_verdict (check_dmarc txt d spf dkim) = FAIL"
  then have "dmarc_policy txt d \<noteq> None" by (cases "dmarc_policy txt d") (auto simp: check_dmarc_def Let_def split: if_splits)
  then show "\<exists>records. txt (''_dmarc.'' @ d) = Answered records \<and> policy_of_records records \<noteq> None"
    by (auto simp: dmarc_policy_def split: lookup.splits)
qed (auto simp: check_dmarc_def Let_def split: if_splits option.splits)

lemma outage_is_no_forgery_witness:
  "dkim_verdict (check_dkim (\<lambda>_. TimedOut) ''DKIM-Signature: d=a.org'') \<noteq> FAIL"
proof -
  have "(\<lambda>_. TimedOut :: bool lookup) ''DKIM-Signature: d=a.org'' \<noteq> Answered False" by simp
  then show ?thesis using outage_is_no_forgery [of "\<lambda>_ _ _. NotInstalled" "[]" "[]" "[]" "\<lambda>_. TimedOut" "''DKIM-Signature: d=a.org''"]
    by blast
qed

section \<open>Whose signature it was\<close>

lemma before_str_prefix:
  assumes "c \<notin> set u"
  shows "before_str (c # p) (u @ v) = u @ before_str (c # p) v"
proof -
  have "split_once (c # p) (u @ v) = map_option (\<lambda>(a, b). (u @ a, b)) (split_once (c # p) v)"
    using assms by (induction u; cases "split_once (c # p) v") (auto simp: starts_with_def)
  then show ?thesis by (simp add: before_str_def split: option.split)
qed

lemma takeWhile_stop: "list_all p u \<Longrightarrow> \<not> p c \<Longrightarrow> takeWhile p (u @ c # v) = u"
  by (induction u) auto

lemma first_signature_text:
  assumes "v \<noteq> []" and "list_all (\<lambda>c. c \<noteq> CHR '';'' \<and> \<not> byte_space c \<and> (of_char c :: nat) < 128) v" and "length v \<le> 1000"
  shows "fst (signature_identity (''X-DKIM-Signature: d='' @ v @ '';'' @ rest)) = v"
proof -
  let ?u = "'' d='' @ v @ '';''"
  have after: "after_str DKIM_FIELD (''X-DKIM-Signature: d='' @ v @ '';'' @ rest) = ?u @ rest"
    by (simp add: after_str_def DKIM_FIELD_def starts_with_def)
  have "\<not> byte_space CHR 0x0D \<Longrightarrow> False" by (simp add: byte_space_def)
  then have "CHR 0x0D \<notin> set ?u" using assms(2) by (auto simp: list_all_iff)
  from before_str_prefix [OF this] obtain w
    where before: "before_str [CHR 0x0D, CHR 0x0A, CHR 0x0D, CHR 0x0A] (?u @ rest) = ?u @ w" by metis
  have header: "take 2000 (?u @ w) = ?u @ take (2000 - length ?u) w"
  proof -
    have "length ?u \<le> 2000" using assms(3) by simp
    then show ?thesis by (metis take_all take_append)
  qed
  have stop: "takeWhile (\<lambda>x. x \<noteq> CHR '';'' \<and> \<not> byte_space x) (v @ CHR '';'' # z) = v" for z
    by (rule takeWhile_stop) (use assms(2) in \<open>auto simp: list_all_iff\<close>)
  have "tag_value CHR ''d'' (CHR '';'' # ?u @ z) = Some v" for z
    using assms(1) stop by (simp add: starts_with_def byte_space_def Let_def)
  moreover have "ascii_replace v = v"
    unfolding ascii_replace_def by (rule map_idI) (use assms(2) in \<open>auto simp: list_all_iff\<close>)
  ultimately show ?thesis
    unfolding signature_identity_def after before header Let_def by simp
qed

text \<open>
  The domain a signature is credited to is not the one that signed. The text
  \<open>DKIM-Signature:\<close> is looked for anywhere, so an \<open>X-DKIM-Signature\<close> field in front of a valid
  signature of any domain at all makes the message pass DMARC for the domain that field names.
\<close>

theorem signature_domain_is_forgeable:
  assumes "v \<noteq> []" and "list_all (\<lambda>c. c \<noteq> CHR '';'' \<and> \<not> byte_space c \<and> (of_char c :: nat) < 128) v" and "length v \<le> 1000"
    and "verify (''X-DKIM-Signature: d='' @ v @ '';'' @ rest) = Answered True"
    and "dmarc_policy txt (lower v) \<noteq> None"
  shows "dmarc_verdict (check_dmarc txt (lower v) spf (check_dkim verify (''X-DKIM-Signature: d='' @ v @ '';'' @ rest))) = PASS"
proof -
  let ?raw = "''X-DKIM-Signature: d='' @ v @ '';'' @ rest"
  have "contains DKIM_FIELD ?raw" by (simp add: DKIM_FIELD_def starts_with_def)
  then have "dkim_verdict (check_dkim verify ?raw) = PASS" "dkim_domain (check_dkim verify ?raw) = v"
    using assms(4) first_signature_text [OF assms(1-3), of rest] by (simp_all add: check_dkim_def split_beta Let_def)
  moreover have "aligned v (lower v)" using assms(1) by (simp add: aligned_def Let_def)
  moreover have "lower v \<noteq> []" using assms(1) by (simp add: lower_def)
  ultimately show ?thesis using assms(5) by (auto simp: check_dmarc_def Let_def)
qed

lemma signature_domain_is_forgeable_witness:
  "dmarc_verdict (check_dmarc (\<lambda>_. Answered [''v=DMARC1; p=reject'']) ''bank.com'' (spf_plain NONE [] [])
     (check_dkim (\<lambda>_. Answered True) (''X-DKIM-Signature: d='' @ ''bank.com'' @ '';'' @ ''DKIM-Signature: d=evil.net''))) = PASS"
proof -
  have p: "dmarc_policy (\<lambda>_. Answered [''v=DMARC1; p=reject'']) (lower ''bank.com'') \<noteq> None" by code_simp
  have l: "lower ''bank.com'' = ''bank.com''" by code_simp
  have a: "list_all (\<lambda>c. c \<noteq> CHR '';'' \<and> \<not> byte_space c \<and> (of_char c :: nat) < 128) ''bank.com''" by code_simp
  show ?thesis
    using signature_domain_is_forgeable [OF _ a _ refl p, of "spf_plain NONE [] []" "''DKIM-Signature: d=evil.net''"]
    unfolding l by simp
qed

end
