(* ===== verification/Reputation.thy ===== *)
theory Reputation
  imports Mail_Auth Ip
begin

text \<open>
  \<open>src/src/lightr/mail/reputation.py\<close>: DNS blocklists. The resolver is a parameter; so are the IDNA
  encoding of a name and \<open>is_global\<close>, whose table depends on the Python release. The log lines
  (\<open>_warn_once\<close>) are not modelled, and a text part holds the text of its bytes.
\<close>

section \<open>Names to ask for\<close>

definition zone_name :: "string \<Rightarrow> string" where
  "zone_name zone = lower (strip_chars ''.'' (strip zone))"

record listing =
  ls_zone :: string
  ls_subject :: string
  ls_kind :: string
  ls_codes :: "string list"

definition is_address :: "listing \<Rightarrow> bool" where
  "is_address l \<longleftrightarrow> ls_kind l = ''address''"

definition listing_reason :: "listing \<Rightarrow> string" where
  "listing_reason l = ls_kind l @ '' '' @ ls_subject l @ '' listed on '' @ ls_zone l"

definition v4_octets :: "32 word \<Rightarrow> int list" where
  "v4_octets w = map (\<lambda>k. uint (drop_bit (8 * k) w AND 0xFF)) [3, 2, 1, 0]"

definition v6_nibbles :: "128 word \<Rightarrow> int list" where
  "v6_nibbles w = map (\<lambda>k. uint (drop_bit (4 * k) w AND 0xF)) (rev [0..<32])"

definition ip_query :: "(ip \<Rightarrow> bool) \<Rightarrow> string \<Rightarrow> string \<Rightarrow> string option" where
  "ip_query is_global ip zone =
    (let z = zone_name zone
     in case ip_address (strip ip) of
          None \<Rightarrow> None
        | Some parsed \<Rightarrow>
          let a = unmap parsed
          in if z = [] \<or> \<not> is_global a then None
             else Some (join ''.'' (case a of
                    V4 w \<Rightarrow> map dec_str (rev (v4_octets w))
                  | V6 w _ \<Rightarrow> map (\<lambda>n. [hex_char (nat n)]) (rev (v6_nibbles w))) @ ''.'' @ z))"

text \<open>\<open>^[a-z0-9](?:[a-z0-9-]{0,61}[a-z0-9])?$\<close>; \<open>$\<close> also matches before a final newline.\<close>

definition alnum_lower :: "char \<Rightarrow> bool" where
  "alnum_lower c \<longleftrightarrow> (let n = (of_char c :: nat) in (97 \<le> n \<and> n \<le> 122) \<or> (48 \<le> n \<and> n \<le> 57))"

definition dns_label :: "string \<Rightarrow> bool" where
  "dns_label s0 =
    (let s = (if ends_with [CHR 0x0A] s0 then butlast s0 else s0)
     in s \<noteq> [] \<and> alnum_lower (hd s) \<and> alnum_lower (last s) \<and> length s \<le> 63 \<and>
        list_all (\<lambda>c. alnum_lower c \<or> c = CHR ''-'') s)"

definition drop_www :: "string \<Rightarrow> string" where
  "drop_www s = (if starts_with ''www.'' s then drop 4 s else s)"

definition domain_query :: "(string \<Rightarrow> string option) \<Rightarrow> string \<Rightarrow> string \<Rightarrow> string option" where
  "domain_query idna d zone =
    (let z = zone_name zone
     in case idna (drop_www (lower (strip_chars ''.'' (strip d)))) of
          None \<Rightarrow> None
        | Some name \<Rightarrow>
          let labels = split_char CHR ''.'' name
          in if z = [] \<or> length labels < 2 \<or> \<not> list_all dns_label labels then None
             else if last labels \<noteq> [] \<and> list_all is_digit (last labels) then None
             else Some (name @ ''.'' @ z))"

section \<open>Links in a message\<close>

definition MAX_LINK_DOMAINS :: nat where "MAX_LINK_DOMAINS = 10"

definition MAX_BODY_SCAN :: nat where "MAX_BODY_SCAN = 200000"

text \<open>The link at the front of a text (\<open>https?://([^/\s"'<>?#\\]+)\<close>): its host part and its length.\<close>

definition host_char :: "char \<Rightarrow> bool" where
  "host_char c \<longleftrightarrow> \<not> is_space c \<and>
     c \<notin> {CHR ''/'', CHR 0x22, CHR 0x27, CHR ''<'', CHR ''>'', CHR ''?'', CHR ''#'', CHR 0x5C}"

definition link_at :: "string \<Rightarrow> (string \<times> nat) option" where
  "link_at s =
    (let k = (if lower (take 5 s) = ''https'' then 5 else 4); r = drop k s; h = takeWhile host_char (drop 3 r)
     in if lower (take 4 s) = ''http'' \<and> starts_with ''://'' r \<and> h \<noteq> [] then Some (h, k + 3 + length h) else None)"

fun links :: "nat \<Rightarrow> string \<Rightarrow> string list" where
  "links skip [] = []"
| "links skip (c # s) =
    (if 0 < skip then links (skip - 1) s
     else case link_at (c # s) of None \<Rightarrow> links 0 s | Some (h, n) \<Rightarrow> h # links (n - 1) s)"

definition link_host :: "string \<Rightarrow> string" where
  "link_host h = drop_www (lower (fst (split_first CHR '':'' (after_last CHR ''@'' h))))"

definition link_domains :: "nat \<Rightarrow> mime \<Rightarrow> string list" where
  "link_domains limit m =
    take limit (fromkeys (filter (\<lambda>h. h \<noteq> []) (concat (map (\<lambda>part.
      if mime_type part \<in> {''text/plain'', ''text/html''}
      then (case mime_payload part of Text t \<Rightarrow> map link_host (links 0 (take MAX_BODY_SCAN t)) | Parts _ \<Rightarrow> [])
      else []) (walk m)))))"

section \<open>Asking\<close>

datatype answer_class = Listed | AnswerRefused | Invalid

definition REFUSALS :: ip_net where "REFUSALS = Net4 0x7FFFFF00 24"

definition NEVER_LISTED :: "32 word" where "NEVER_LISTED = 0x7F000001"

definition LISTING_RANGE :: ip_net where "LISTING_RANGE = Net4 0x7F000000 8"

definition classify_answer :: "string \<Rightarrow> answer_class" where
  "classify_answer a =
    (case v4_address a of
       None \<Rightarrow> Invalid
     | Some w \<Rightarrow> if w = NEVER_LISTED \<or> in_network (V4 w) REFUSALS then AnswerRefused
                 else if in_network (V4 w) LISTING_RANGE then Listed else Invalid)"

record blocklists =
  bl_address_zones :: "string list"
  bl_domain_zones :: "string list"

definition lookup_listing ::
  "(string \<Rightarrow> string list lookup) \<Rightarrow> string \<Rightarrow> string \<Rightarrow> string \<Rightarrow> string \<Rightarrow> listing option" where
  "lookup_listing resolver name zone subject kind =
    (case resolver name of
       Answered answers \<Rightarrow>
         (let codes = filter (\<lambda>a. classify_answer a = Listed) answers
          in if codes = [] then None
             else Some \<lparr>ls_zone = zone, ls_subject = subject, ls_kind = kind, ls_codes = codes\<rparr>)
     | _ \<Rightarrow> None)"

text \<open>\<open>dict.setdefault\<close> for each key in turn: the first kind of a subject stays.\<close>

definition set_default :: "(string, string) dict \<Rightarrow> string \<times> string \<Rightarrow> (string, string) dict" where
  "set_default d kv = (if fst kv \<in> fst ` set d then d else d @ [kv])"

definition subjects_of :: "string list \<Rightarrow> mime option \<Rightarrow> (string, string) dict" where
  "subjects_of sender_domains message =
    foldl set_default []
      (map (\<lambda>d. (strip_chars ''.'' (lower d), ''sender domain'')) (filter (\<lambda>d. d \<noteq> []) sender_domains) @
       (case message of None \<Rightarrow> [] | Some m \<Rightarrow> map (\<lambda>d. (d, ''link domain'')) (link_domains MAX_LINK_DOMAINS m)))"

definition lookups ::
  "(ip \<Rightarrow> bool) \<Rightarrow> (string \<Rightarrow> string option) \<Rightarrow> blocklists \<Rightarrow> string \<Rightarrow> string list \<Rightarrow> mime option \<Rightarrow>
   (string \<times> string \<times> string \<times> string) list" where
  "lookups is_global idna bl remote_ip sender_domains message =
    (let az = filter (\<lambda>z. z \<noteq> []) (map zone_name (bl_address_zones bl));
         dz = filter (\<lambda>z. z \<noteq> []) (map zone_name (bl_domain_zones bl));
         subjects = (if dz = [] then [] else subjects_of sender_domains message)
     in concat (map (\<lambda>z. case ip_query is_global remote_ip z of None \<Rightarrow> [] | Some n \<Rightarrow> [(n, z, remote_ip, ''address'')]) az) @
        concat (map (\<lambda>z. concat (map (\<lambda>(d, kind). case domain_query idna d z of None \<Rightarrow> [] | Some n \<Rightarrow> [(n, z, d, kind)]) subjects)) dz))"

definition check_reputation ::
  "(ip \<Rightarrow> bool) \<Rightarrow> (string \<Rightarrow> string option) \<Rightarrow> (string \<Rightarrow> string list lookup) \<Rightarrow> blocklists \<Rightarrow> string \<Rightarrow>
   string list \<Rightarrow> mime option \<Rightarrow> listing list" where
  "check_reputation is_global idna resolver bl remote_ip sender_domains message =
    concat (map (\<lambda>(n, z, s, k). case lookup_listing resolver n z s k of None \<Rightarrow> [] | Some l \<Rightarrow> [l])
      (lookups is_global idna bl remote_ip sender_domains message))"

section \<open>Probing a list\<close>

datatype zone_status = Working | ZoneRefused | NoAnswer | ListsEverything | ZoneError

definition probe_zone :: "(string \<Rightarrow> string list lookup) \<Rightarrow> string \<Rightarrow> string \<Rightarrow> string \<times> zone_status" where
  "probe_zone resolver zone kind =
    (let z = zone_name zone;
         (listed_name, clean_name) = (if kind = ''address'' then (''2.0.0.127.'' @ z, ''1.0.0.127.'' @ z)
                                      else (''test.'' @ z, ''invalid.'' @ z))
     in (z, case resolver listed_name of
              Answered listed \<Rightarrow>
                (case resolver clean_name of
                   Answered clean \<Rightarrow>
                     let verdicts = map classify_answer listed
                     in if AnswerRefused \<in> set verdicts then ZoneRefused
                        else if Listed \<notin> set verdicts then NoAnswer
                        else if clean \<noteq> [] then ListsEverything else Working
                 | TimedOut \<Rightarrow> NoAnswer | _ \<Rightarrow> ZoneError)
            | TimedOut \<Rightarrow> NoAnswer | _ \<Rightarrow> ZoneError))"

section \<open>What a listing is\<close>

lemma ends_with_zone: "ends_with (''.'' @ z) (x @ ''.'' @ z)"
  by (simp add: ends_with_def starts_with_def)

lemma query_ends:
  "ip_query g ip z = Some n \<Longrightarrow> ends_with (''.'' @ zone_name z) n"
  "domain_query idna d z = Some n \<Longrightarrow> ends_with (''.'' @ zone_name z) n"
proof -
  assume "ip_query g ip z = Some n"
  then obtain x where "n = x @ ''.'' @ zone_name z"
    by (auto simp: ip_query_def Let_def split: option.splits if_splits)
  then show "ends_with (''.'' @ zone_name z) n" using ends_with_zone by simp
next
  assume "domain_query idna d z = Some n"
  then obtain x where "n = x @ ''.'' @ zone_name z"
    by (auto simp: domain_query_def Let_def split: option.splits if_splits)
  then show "ends_with (''.'' @ zone_name z) n" using ends_with_zone by simp
qed

lemma lookups_zone:
  assumes "(n, z, s, k) \<in> set (lookups g idna bl ip ds m)"
  shows "z \<in> zone_name ` (set (bl_address_zones bl) \<union> set (bl_domain_zones bl)) \<and> ends_with (''.'' @ zone_name z) n"
proof -
  from assms consider
    (addr) "z \<in> zone_name ` set (bl_address_zones bl)" "ip_query g ip z = Some n"
  | (dom) d where "z \<in> zone_name ` set (bl_domain_zones bl)" "domain_query idna d z = Some n"
    unfolding lookups_def Let_def set_append set_concat set_map Un_iff
    by (auto split: option.splits)
  then show ?thesis using query_ends by cases blast+
qed

text \<open>
  A listing is never made out of a refusal, a rewritten answer or an outage: every one of them
  comes from a name under a configured zone that was answered with an address in 127.0.0.0/8 other
  than 127.0.0.1 and the refusal block 127.255.255.0/24.
\<close>

theorem listings_are_answers:
  assumes "l \<in> set (check_reputation is_global idna resolver bl remote_ip sender_domains message)"
  shows "ls_zone l \<in> zone_name ` (set (bl_address_zones bl) \<union> set (bl_domain_zones bl)) \<and>
    (\<exists>name answers c w. resolver name = Answered answers \<and> ends_with (''.'' @ zone_name (ls_zone l)) name \<and>
      c \<in> set answers \<and> v4_address c = Some w \<and> in_network (V4 w) LISTING_RANGE \<and>
      w \<noteq> NEVER_LISTED \<and> \<not> in_network (V4 w) REFUSALS)"
proof -
  obtain n z s k where q: "(n, z, s, k) \<in> set (lookups is_global idna bl remote_ip sender_domains message)"
    and l: "lookup_listing resolver n z s k = Some l"
    using assms by (auto simp: check_reputation_def split: option.splits)
  obtain answers where a: "resolver n = Answered answers" and codes: "filter (\<lambda>a. classify_answer a = Listed) answers \<noteq> []"
    and z: "ls_zone l = z"
    using l by (auto simp: lookup_listing_def Let_def split: lookup.splits if_splits)
  then obtain c where c: "c \<in> set answers" "classify_answer c = Listed" by (auto simp: filter_empty_conv)
  then obtain w where w: "v4_address c = Some w" "in_network (V4 w) LISTING_RANGE" "w \<noteq> NEVER_LISTED" "\<not> in_network (V4 w) REFUSALS"
    unfolding classify_answer_def by (auto simp del: in_network.simps split: option.splits if_splits)
  have "ends_with (''.'' @ zone_name (ls_zone l)) n" "ls_zone l \<in> zone_name ` (set (bl_address_zones bl) \<union> set (bl_domain_zones bl))"
    using lookups_zone [OF q] z by simp_all
  with a c(1) w show ?thesis by (intro conjI exI [of _ n] exI [of _ answers] exI [of _ c] exI [of _ w])
qed

definition sample_lists :: blocklists where
  "sample_lists = \<lparr>bl_address_zones = [''zen.example''], bl_domain_zones = []\<rparr>"

lemma listings_are_answers_witness:
  "\<exists>l \<in> set (check_reputation (\<lambda>_. True) Some (\<lambda>_. Answered [''127.0.0.2'']) sample_lists ''203.0.113.9'' [] None).
    ls_zone l \<in> zone_name ` {''zen.example''}"
proof -
  let ?r = "check_reputation (\<lambda>_. True) Some (\<lambda>_. Answered [''127.0.0.2'']) sample_lists ''203.0.113.9'' [] None"
  have "?r \<noteq> []" by code_simp
  then obtain l where "l \<in> set ?r" by (cases ?r) auto
  with listings_are_answers [OF this] show ?thesis by (auto simp: sample_lists_def)
qed

end
