(* ===== verification/Spam.thy ===== *)
theory Spam
  imports Reputation Numbers
begin

text \<open>
  \<open>src/src/lightr/mail/spam.py\<close>: the additive scorer, and what it takes from rspamd. Points are
  rational numbers. rspamd's answer is a parameter.
\<close>

section \<open>Scores\<close>

record score =
  points :: rat
  reasons :: "string list"

definition add_points :: "rat \<Rightarrow> string \<Rightarrow> score \<Rightarrow> score" where
  "add_points p reason s =
    (if p \<noteq> 0 then \<lparr>points = points s + p, reasons = reasons s @ [reason @ '' ('' @ fixed1_signed p @ '')'']\<rparr> else s)"

record spam_config =
  suspicious_threshold :: rat
  junk_threshold :: rat

definition default_spam_config :: spam_config where
  "default_spam_config = \<lparr>suspicious_threshold = 2, junk_threshold = 4\<rparr>"

definition verdict :: "spam_config \<Rightarrow> score \<Rightarrow> bool \<times> bool" where
  "verdict cfg s = (points s \<ge> suspicious_threshold cfg, points s \<ge> junk_threshold cfg)"

definition SPF_FAIL :: rat where "SPF_FAIL = 3"
definition SPF_SOFTFAIL :: rat where "SPF_SOFTFAIL = 1"
definition DKIM_FAIL :: rat where "DKIM_FAIL = 5 / 2"
definition DMARC_FAIL :: rat where "DMARC_FAIL = 7 / 2"
definition DMARC_FAIL_REJECT :: rat where "DMARC_FAIL_REJECT = 5"
definition NO_AUTHENTICATION_AT_ALL :: rat where "NO_AUTHENTICATION_AT_ALL = 1 / 2"
definition NO_MESSAGE_ID :: rat where "NO_MESSAGE_ID = 1 / 2"
definition NO_DATE :: rat where "NO_DATE = 1 / 2"
definition SUBJECT_ALL_CAPS :: rat where "SUBJECT_ALL_CAPS = 7 / 10"
definition EXCESSIVE_PUNCTUATION :: rat where "EXCESSIVE_PUNCTUATION = 1 / 2"
definition HTML_ONLY :: rat where "HTML_ONLY = 1 / 2"
definition SUSPICIOUS_ATTACHMENT :: rat where "SUSPICIOUS_ATTACHMENT = 2"
definition MANY_RECIPIENTS :: rat where "MANY_RECIPIENTS = 1 / 2"
definition EMPTY_BODY :: rat where "EMPTY_BODY = 7 / 10"
definition BLOCKLISTED_ADDRESS :: rat where "BLOCKLISTED_ADDRESS = 3"
definition BLOCKLISTED_DOMAIN :: rat where "BLOCKLISTED_DOMAIN = 5 / 2"
definition BLOCKLIST_CAP :: rat where "BLOCKLIST_CAP = 6"

lemmas weights = SPF_FAIL_def SPF_SOFTFAIL_def DKIM_FAIL_def DMARC_FAIL_def DMARC_FAIL_REJECT_def
  NO_AUTHENTICATION_AT_ALL_def NO_MESSAGE_ID_def NO_DATE_def SUBJECT_ALL_CAPS_def EXCESSIVE_PUNCTUATION_def
  HTML_ONLY_def SUSPICIOUS_ATTACHMENT_def MANY_RECIPIENTS_def EMPTY_BODY_def BLOCKLISTED_ADDRESS_def
  BLOCKLISTED_DOMAIN_def BLOCKLIST_CAP_def

definition DANGEROUS_EXTENSIONS :: "string list" where
  "DANGEROUS_EXTENSIONS = [''.exe'', ''.scr'', ''.pif'', ''.com'', ''.bat'', ''.cmd'', ''.vbs'', ''.vbe'',
     ''.js'', ''.jse'', ''.wsf'', ''.wsh'', ''.msi'', ''.jar'', ''.lnk'', ''.ps1'']"

section \<open>The signals\<close>

definition score_authentication :: "spf_result \<Rightarrow> dkim_result \<Rightarrow> dmarc_result \<Rightarrow> score \<Rightarrow> score" where
  "score_authentication spf dkim dmarc s0 =
    (let s1 = (if spf_verdict spf = FAIL then add_points SPF_FAIL ''spf=fail'' s0
               else if spf_verdict spf = SOFTFAIL then add_points SPF_SOFTFAIL ''spf=softfail'' s0 else s0);
         s2 = (if dkim_verdict dkim = FAIL then add_points DKIM_FAIL ''dkim=fail'' s1 else s1);
         s3 = (if dmarc_verdict dmarc = FAIL
               then if dmarc_p dmarc = ''reject'' then add_points DMARC_FAIL_REJECT ''dmarc=fail p=reject'' s2
                    else add_points DMARC_FAIL ''dmarc=fail'' s2
               else s2)
     in if list_all is_inconclusive [spf_verdict spf, dkim_verdict dkim, dmarc_verdict dmarc] \<and> spf_verdict spf = NONE
        then add_points NO_AUTHENTICATION_AT_ALL ''no spf, dkim, or dmarc'' s3 else s3)"

text \<open>The loop over the listings stops when the cap is used up.\<close>

fun score_listings :: "rat \<Rightarrow> listing list \<Rightarrow> score \<Rightarrow> score" where
  "score_listings remaining [] s = s"
| "score_listings remaining (l # ls) s =
    (let p = min (if is_address l then BLOCKLISTED_ADDRESS else BLOCKLISTED_DOMAIN) remaining
     in if p \<le> 0 then s else score_listings (remaining - p) ls (add_points p (listing_reason l) s))"

definition score_reputation :: "listing list \<Rightarrow> score \<Rightarrow> score" where
  "score_reputation ls s = score_listings BLOCKLIST_CAP ls s"

text \<open>\<open>^[^a-z]*[A-Z]{4,}[^a-z]*$\<close> and \<open>[!?]{3,}\<close>.\<close>

definition ascii_upper :: "char \<Rightarrow> bool" where
  "ascii_upper c \<longleftrightarrow> (let n = (of_char c :: nat) in 65 \<le> n \<and> n \<le> 90)"

definition ascii_lower :: "char \<Rightarrow> bool" where
  "ascii_lower c \<longleftrightarrow> (let n = (of_char c :: nat) in 97 \<le> n \<and> n \<le> 122)"

fun has_run :: "(char \<Rightarrow> bool) \<Rightarrow> nat \<Rightarrow> string \<Rightarrow> bool" where
  "has_run p n [] = (n = 0)"
| "has_run p n (c # s) = (length (takeWhile p (c # s)) \<ge> n \<or> has_run p n s)"

definition all_caps :: "string \<Rightarrow> bool" where
  "all_caps s \<longleftrightarrow> list_all (\<lambda>c. \<not> ascii_lower c) s \<and> has_run ascii_upper 4 s"

definition much_punctuation :: "string \<Rightarrow> bool" where
  "much_punctuation s \<longleftrightarrow> has_run (\<lambda>c. c = CHR ''!'' \<or> c = CHR ''?'') 3 s"

definition score_headers :: "mime \<Rightarrow> int \<Rightarrow> score \<Rightarrow> score" where
  "score_headers m recipient_count s0 =
    (let s1 = (if mime_get ''Message-ID'' m = None then add_points NO_MESSAGE_ID ''no message-id'' s0 else s0);
         s2 = (if mime_get ''Date'' m = None then add_points NO_DATE ''no date header'' s1 else s1);
         subject = or_else (mime_get ''Subject'' m) [];
         s3 = (if 8 < length subject \<and> all_caps subject then add_points SUBJECT_ALL_CAPS ''subject is all caps'' s2 else s2);
         s4 = (if much_punctuation subject then add_points EXCESSIVE_PUNCTUATION ''excessive punctuation in subject'' s3 else s3)
     in if 20 < recipient_count then add_points MANY_RECIPIENTS (dec_str recipient_count @ '' recipients'') s4 else s4)"

definition dangerous_extension :: "string \<Rightarrow> string option" where
  "dangerous_extension filename = find (\<lambda>e. ends_with e (lower filename)) DANGEROUS_EXTENSIONS"

definition score_attachment :: "mime \<Rightarrow> score \<Rightarrow> score" where
  "score_attachment part s =
    (case mime_filename part of
       None \<Rightarrow> s
     | Some f \<Rightarrow> (case dangerous_extension f of
                    None \<Rightarrow> s | Some e \<Rightarrow> add_points SUSPICIOUS_ATTACHMENT (''executable attachment '' @ e) s))"

definition payload_length :: "mime \<Rightarrow> nat" where
  "payload_length part = (case mime_payload part of Text t \<Rightarrow> length t | Parts _ \<Rightarrow> 0)"

definition score_content :: "mime \<Rightarrow> score \<Rightarrow> score" where
  "score_content m s0 =
    (let parts = walk m;
         has_text = (\<exists>p \<in> set parts. mime_type p = ''text/plain'');
         has_html = (\<exists>p \<in> set parts. mime_type p = ''text/html'');
         body_length = sum_list (map payload_length (filter (\<lambda>p. mime_type p \<in> {''text/plain'', ''text/html''}) parts));
         s1 = fold score_attachment parts s0;
         s2 = (if has_html \<and> \<not> has_text then add_points HTML_ONLY ''html with no plain-text alternative'' s1 else s1)
     in if body_length = 0 then add_points EMPTY_BODY ''empty body'' s2 else s2)"

definition score_message ::
  "mime \<Rightarrow> spf_result \<Rightarrow> dkim_result \<Rightarrow> dmarc_result \<Rightarrow> int \<Rightarrow> listing list \<Rightarrow> score" where
  "score_message m spf dkim dmarc recipient_count ls =
    score_content m (score_headers m recipient_count (score_reputation ls
      (score_authentication spf dkim dmarc \<lparr>points = 0, reasons = []\<rparr>)))"

section \<open>rspamd\<close>

text \<open>
  \<open>RspamdClient.score\<close>: no URL, no answer or an answer that is an error is no score. The answer is
  the body's \<open>score\<close> and its symbols with theirs.
\<close>

definition rspamd_score :: "string \<Rightarrow> (string \<Rightarrow> (rat \<times> (string \<times> rat) list) lookup) \<Rightarrow> string \<Rightarrow> score option" where
  "rspamd_score url ask raw =
    (if rstrip_chars ''/'' url = [] then None
     else case ask raw of
            Answered (p, symbols) \<Rightarrow>
              Some \<lparr>points = p, reasons = map (\<lambda>(n, x). n @ '' ('' @ fixed1_signed x @ '')'') (take 10 symbols)\<rparr>
          | _ \<Rightarrow> None)"

section \<open>Bounds\<close>

lemma points_add [simp]: "points (add_points p r s) = points s + p"
  by (simp add: add_points_def)

lemma points_listings:
  "0 \<le> remaining \<Longrightarrow> points (score_listings remaining ls s) =
    points s + min remaining (sum_list (map (\<lambda>l. if is_address l then BLOCKLISTED_ADDRESS else BLOCKLISTED_DOMAIN) ls))"
proof (induction ls arbitrary: remaining s)
  case Nil
  then show ?case by simp
next
  case (Cons l ls)
  let ?w = "\<lambda>l. if is_address l then BLOCKLISTED_ADDRESS else BLOCKLISTED_DOMAIN"
  have pos: "0 < ?w l" "0 \<le> sum_list (map ?w ls)" by (auto simp: weights intro!: sum_list_nonneg)
  show ?case
  proof (cases "remaining = 0")
    case True
    then show ?thesis using pos by (simp add: Let_def)
  next
    case False
    then have "points (score_listings remaining (l # ls) s) =
        points s + min (?w l) remaining + min (remaining - min (?w l) remaining) (sum_list (map ?w ls))"
      using Cons pos(1) by (simp add: Let_def)
    also have "\<dots> = points s + min remaining (?w l + sum_list (map ?w ls))" using pos by (auto simp: min_def)
    finally show ?thesis by simp
  qed
qed

definition executables :: "mime \<Rightarrow> nat" where
  "executables m = length (filter (\<lambda>p. case mime_filename p of None \<Rightarrow> False | Some f \<Rightarrow> dangerous_extension f \<noteq> None) (walk m))"

lemma points_attachments:
  "points (fold score_attachment ps s) = points s + SUSPICIOUS_ATTACHMENT *
    of_nat (length (filter (\<lambda>p. case mime_filename p of None \<Rightarrow> False | Some f \<Rightarrow> dangerous_extension f \<noteq> None) ps))"
  by (induction ps arbitrary: s) (auto simp: score_attachment_def algebra_simps split: option.splits)

lemma points_content:
  "points (score_content m s) \<le> points s + SUSPICIOUS_ATTACHMENT * of_nat (executables m) + HTML_ONLY + EMPTY_BODY"
  by (simp add: score_content_def Let_def points_attachments executables_def weights)

lemma points_headers:
  "points (score_headers m n s) \<le> points s + NO_MESSAGE_ID + NO_DATE + SUBJECT_ALL_CAPS + EXCESSIVE_PUNCTUATION + MANY_RECIPIENTS"
  by (simp add: score_headers_def Let_def weights)

text \<open>
  Weak evidence alone is never junk: a message whose authentication checks show no failure and
  at least one result, that no list names and that carries no executable attachment stays below the
  default junk threshold, whatever its headers and body are; and listings add at most the cap,
  however many there are.
\<close>

theorem weak_evidence_is_not_junk:
  assumes "spf_verdict spf \<notin> {FAIL, SOFTFAIL}" and "dkim_verdict dkim \<noteq> FAIL" and "dmarc_verdict dmarc \<noteq> FAIL"
    and "\<not> (is_inconclusive (spf_verdict spf) \<and> is_inconclusive (dkim_verdict dkim) \<and> is_inconclusive (dmarc_verdict dmarc))"
    and "executables m = 0"
  shows "\<not> snd (verdict default_spam_config (score_message m spf dkim dmarc n [])) \<and>
    points (score_message m spf dkim dmarc n ls) < junk_threshold default_spam_config + BLOCKLIST_CAP"
proof -
  let ?s0 = "score_authentication spf dkim dmarc \<lparr>points = 0, reasons = []\<rparr>"
  have auth: "points ?s0 = 0" using assms(1-4) by (auto simp: score_authentication_def Let_def)
  have bound: "points (score_message m spf dkim dmarc n xs) \<le> points (score_reputation xs ?s0) + 39 / 10" for xs
    using points_content [of m "score_headers m n (score_reputation xs ?s0)"] points_headers [of m n "score_reputation xs ?s0"]
    by (simp add: score_message_def assms(5) weights)
  have "points (score_reputation xs ?s0) \<le> BLOCKLIST_CAP" for xs
    using auth points_listings [of BLOCKLIST_CAP xs ?s0] by (simp add: score_reputation_def weights)
  then have "points (score_message m spf dkim dmarc n ls) \<le> BLOCKLIST_CAP + 39 / 10"
    using bound [of ls] by (meson add_right_mono order_trans)
  then have "points (score_message m spf dkim dmarc n ls) < junk_threshold default_spam_config + BLOCKLIST_CAP"
    by (simp add: default_spam_config_def BLOCKLIST_CAP_def)
  moreover have "points (score_message m spf dkim dmarc n []) < 4"
    using bound [of "[]"] auth by (simp add: score_reputation_def)
  ultimately show ?thesis by (simp add: verdict_def default_spam_config_def)
qed

definition loud_message :: mime where
  "loud_message = Mime [(''Subject'', ''WIN MONEY NOW!!!'')] ''text/html'' [] None (Text [])"

lemma weak_evidence_is_not_junk_witness:
  "\<not> snd (verdict default_spam_config (score_message loud_message (spf_plain PASS ''a.org'' [])
     \<lparr>dkim_verdict = NONE, dkim_domain = [], dkim_selector = []\<rparr>
     \<lparr>dmarc_verdict = PASS, dmarc_p = ''none'', aligned_spf = True, aligned_dkim = False\<rparr> 50 []))"
proof -
  have "executables loud_message = 0" by (simp add: executables_def loud_message_def)
  then show ?thesis
    using weak_evidence_is_not_junk [of "spf_plain PASS ''a.org'' []" "\<lparr>dkim_verdict = NONE, dkim_domain = [], dkim_selector = []\<rparr>"
      "\<lparr>dmarc_verdict = PASS, dmarc_p = ''none'', aligned_spf = True, aligned_dkim = False\<rparr>" loud_message 50 "[]"]
    by (simp add: spf_plain_def is_inconclusive_def)
qed

end
