(* ===== verification/Headers.thy ===== *)
theory Headers
  imports Mime Numbers
begin

text \<open>
  \<open>src/src/lightr/mail/headers.py\<close>: the fields Lightr puts on a message for Dovecot's Sieve scripts.
  The generated message id and the formatted time are arguments.
\<close>

definition HEADER_SPAM_SCORE :: string where "HEADER_SPAM_SCORE = ''X-Spam-Score''"
definition HEADER_SPAM_FLAG :: string where "HEADER_SPAM_FLAG = ''X-Spam-Flag''"
definition HEADER_AUTH_RESULTS :: string where "HEADER_AUTH_RESULTS = ''Authentication-Results''"
definition HEADER_HAS_ATTACHMENT :: string where "HEADER_HAS_ATTACHMENT = ''X-Lightr-Has-Attachment''"
definition HEADER_SPAM_ACTION :: string where "HEADER_SPAM_ACTION = ''X-Lightr-Spam-Action''"
definition SPAM_ACTION_JUNK :: string where "SPAM_ACTION_JUNK = ''junk''"
definition HEADER_SPAM_REASONS :: string where "HEADER_SPAM_REASONS = ''X-Lightr-Spam-Reasons''"

lemmas header_names = HEADER_SPAM_SCORE_def HEADER_SPAM_FLAG_def HEADER_AUTH_RESULTS_def HEADER_HAS_ATTACHMENT_def
  HEADER_SPAM_ACTION_def HEADER_SPAM_REASONS_def

definition CONTROLLED_HEADERS :: "string list" where
  "CONTROLLED_HEADERS = [HEADER_SPAM_SCORE, HEADER_SPAM_FLAG, HEADER_SPAM_ACTION, HEADER_HAS_ATTACHMENT,
     HEADER_AUTH_RESULTS, HEADER_SPAM_REASONS]"

record auth_results =
  ar_spf :: string
  ar_dkim :: string
  ar_dmarc :: string
  ar_mail_from :: string
  ar_helo :: string

definition render_auth :: "string \<Rightarrow> auth_results \<Rightarrow> string" where
  "render_auth hostname a = join ''; ''
    [hostname,
     if ar_spf a \<noteq> ''none'' then ''spf='' @ ar_spf a @ (if ar_mail_from a \<noteq> [] then '' smtp.mailfrom='' @ ar_mail_from a else [])
     else ''spf=none'',
     ''dkim='' @ ar_dkim a, ''dmarc='' @ ar_dmarc a]"

record analysis =
  an_score :: rat
  an_is_spam :: bool
  an_reasons :: "string list"
  an_auth :: auth_results
  an_has_attachment :: bool

text \<open>\<open>strip_controlled\<close>: the names removed, once per field, and the fields that stay.\<close>

definition strip_controlled :: "header_fields \<Rightarrow> string list \<times> header_fields" where
  "strip_controlled fs =
    (concat (map (\<lambda>n. if get_field n fs \<noteq> None then [n] else []) CONTROLLED_HEADERS),
     fold del_field CONTROLLED_HEADERS fs)"

definition content_disposition :: "mime \<Rightarrow> string option" where
  "content_disposition part = map_option (\<lambda>v. lower (strip (fst (split_first CHR '';'' v)))) (mime_get ''Content-Disposition'' part)"

definition is_multipart :: "mime \<Rightarrow> bool" where
  "is_multipart m = (case mime_payload m of Parts _ \<Rightarrow> True | Text _ \<Rightarrow> False)"

definition has_attachment :: "mime \<Rightarrow> bool" where
  "has_attachment m \<longleftrightarrow> is_multipart m \<and>
    (\<exists>part \<in> set (walk m).
       \<not> starts_with ''multipart/'' (mime_type part) \<and>
       (content_disposition part = Some ''attachment'' \<or>
        truthy (mime_filename part) \<and> content_disposition part \<noteq> Some ''inline''))"

definition apply_analysis :: "analysis \<Rightarrow> string \<Rightarrow> header_fields \<Rightarrow> header_fields" where
  "apply_analysis a hostname fs =
    (let fs1 = snd (strip_controlled fs);
         fs2 = add_field HEADER_SPAM_SCORE (fixed1 (an_score a)) fs1;
         fs3 = add_field HEADER_SPAM_FLAG (if an_is_spam a then ''YES'' else ''NO'') fs2;
         fs4 = add_field HEADER_HAS_ATTACHMENT (if an_has_attachment a then ''yes'' else ''no'') fs3;
         fs5 = add_field HEADER_AUTH_RESULTS (render_auth hostname (an_auth a)) fs4
     in if an_reasons a \<noteq> [] then add_field HEADER_SPAM_REASONS (join '', '' (an_reasons a)) fs5 else fs5)"

definition add_received :: "string \<Rightarrow> string \<Rightarrow> string \<Rightarrow> string \<Rightarrow> string \<Rightarrow> string \<Rightarrow> header_fields \<Rightarrow> header_fields" where
  "add_received hostname remote_ip helo recipient msgid stamp fs =
    (''Received'', ''from '' @ (if helo \<noteq> [] then helo else remote_ip) @ '' (['' @ remote_ip @ ''])'' @
       [CHR 0x0D, CHR 0x0A, CHR 0x09] @ ''by '' @ hostname @ '' with ESMTP id '' @ msgid @
       [CHR 0x0D, CHR 0x0A, CHR 0x09] @ ''for <'' @ recipient @ ''>; '' @ stamp) # fs"

definition ensure_field :: "string \<Rightarrow> string \<Rightarrow> header_fields \<Rightarrow> header_fields" where
  "ensure_field name v fs = (if get_field name fs = None then add_field name v fs else fs)"

section \<open>Nothing forged survives\<close>

lemma del_all_fields:
  "get_all_fields n (fold del_field ns fs) = (if lower n \<in> lower ` set ns then [] else get_all_fields n fs)"
  by (induction ns arbitrary: fs) (auto simp: get_all_fields_del)

lemma controlled_lower:
  "map lower CONTROLLED_HEADERS = [''x-spam-score'', ''x-spam-flag'', ''x-lightr-spam-action'', ''x-lightr-has-attachment'',
     ''authentication-results'', ''x-lightr-spam-reasons'']"
  by code_simp

lemma lower_header_names:
  "lower HEADER_SPAM_SCORE = ''x-spam-score''" "lower HEADER_SPAM_FLAG = ''x-spam-flag''"
  "lower HEADER_SPAM_ACTION = ''x-lightr-spam-action''" "lower HEADER_HAS_ATTACHMENT = ''x-lightr-has-attachment''"
  "lower HEADER_AUTH_RESULTS = ''authentication-results''" "lower HEADER_SPAM_REASONS = ''x-lightr-spam-reasons''"
  by code_simp+

lemma in_controlled: "lower n \<in> lower ` set CONTROLLED_HEADERS \<longleftrightarrow> lower n \<in> set (map lower CONTROLLED_HEADERS)"
  by auto

lemma apply_analysis_other:
  assumes "lower n \<notin> lower ` set CONTROLLED_HEADERS"
  shows "get_all_fields n (apply_analysis a h fs) = get_all_fields n fs"
proof -
  have "lower n \<noteq> lower HEADER_SPAM_SCORE" "lower n \<noteq> lower HEADER_SPAM_FLAG" "lower n \<noteq> lower HEADER_HAS_ATTACHMENT"
    "lower n \<noteq> lower HEADER_AUTH_RESULTS" "lower n \<noteq> lower HEADER_SPAM_REASONS"
    using assms by (auto simp: CONTROLLED_HEADERS_def)
  then show ?thesis
    using assms by (simp add: apply_analysis_def strip_controlled_def Let_def get_all_fields_add del_all_fields)
qed

lemma apply_analysis_fields:
  "get_all_fields m (apply_analysis a h gs) =
      (if lower m \<in> set (map lower CONTROLLED_HEADERS) then [] else get_all_fields m gs) @
      (if lower m = ''x-spam-score'' then [fixed1 (an_score a)] else []) @
      (if lower m = ''x-spam-flag'' then [if an_is_spam a then ''YES'' else ''NO''] else []) @
      (if lower m = ''x-lightr-has-attachment'' then [if an_has_attachment a then ''yes'' else ''no''] else []) @
      (if lower m = ''authentication-results'' then [render_auth h (an_auth a)] else []) @
      (if an_reasons a \<noteq> [] \<and> lower m = ''x-lightr-spam-reasons'' then [join '', '' (an_reasons a)] else [])"
  by (simp only: apply_analysis_def strip_controlled_def Let_def get_all_fields_add del_all_fields in_controlled lower_header_names
    snd_conv if_distrib [of "get_all_fields m"] append_assoc append_Nil2 if_bool_eq_conj) (cases "an_reasons a = []"; simp only: simp_thms if_True if_False append_Nil2 cong: if_cong)

lemma stamped_score: "get_all_fields HEADER_SPAM_SCORE (apply_analysis a h gs) = [fixed1 (an_score a)]"
proof -
  have "lower HEADER_SPAM_SCORE = ''x-spam-score''" by code_simp
  then show ?thesis by (simp add: apply_analysis_fields controlled_lower del: set_map list.map)
qed

text \<open>
  What Sieve reads is what Lightr wrote: after stamping, each field of the analysis occurs once
  with its value whatever the message brought along in any spelling, the spam action and, for a
  message without reasons, the reasons do not occur, and every other field is as it was.
\<close>

theorem forged_fields_are_replaced:
  "get_all_fields ''X-Spam-Score'' (apply_analysis a h fs) = [fixed1 (an_score a)] \<and>
   get_all_fields ''X-Spam-Flag'' (apply_analysis a h fs) = [if an_is_spam a then ''YES'' else ''NO''] \<and>
   get_all_fields ''X-Lightr-Has-Attachment'' (apply_analysis a h fs) = [if an_has_attachment a then ''yes'' else ''no''] \<and>
   get_all_fields ''Authentication-Results'' (apply_analysis a h fs) = [render_auth h (an_auth a)] \<and>
   get_all_fields ''X-Lightr-Spam-Action'' (apply_analysis a h fs) = [] \<and>
   get_all_fields ''X-Lightr-Spam-Reasons'' (apply_analysis a h fs) =
     (if an_reasons a = [] then [] else [join '', '' (an_reasons a)]) \<and>
   get_all_fields n (apply_analysis a h fs) =
     (if lower n \<in> lower ` set CONTROLLED_HEADERS then get_all_fields n (apply_analysis a h []) else get_all_fields n fs)"
proof -
  have low: "lower ''X-Spam-Score'' = ''x-spam-score''" "lower ''X-Spam-Flag'' = ''x-spam-flag''"
    "lower ''X-Lightr-Has-Attachment'' = ''x-lightr-has-attachment''" "lower ''Authentication-Results'' = ''authentication-results''"
    "lower ''X-Lightr-Spam-Action'' = ''x-lightr-spam-action''" "lower ''X-Lightr-Spam-Reasons'' = ''x-lightr-spam-reasons''"
    by code_simp+
  have none: "get_all_fields m [] = []" for m by (simp add: get_all_fields_def)
  show ?thesis unfolding apply_analysis_fields none in_controlled low controlled_lower by auto
qed

end
