(* ===== verification/Forwarding.thy ===== *)
theory Forwarding
  imports Replies Headers
begin

text \<open>
  The rest of \<open>src/src/lightr/mail/replies.py\<close>: the copy of a message that leaves for an alias
  (\<open>wrap_forward\<close>) and the reply that goes back (\<open>clean_reply\<close>). Reading and writing addresses and
  the table of HTML entities are the \<open>email\<close> and \<open>html\<close> packages' and parameters; a message built
  with \<open>EmailMessage\<close> is its fields other than the \<open>Content\<close> ones and its tree of parts.
\<close>

record mail_lib =
  ml_parseaddr :: "string \<Rightarrow> string \<times> string"
  ml_getaddresses :: "string \<Rightarrow> string list"
  ml_formataddr :: "string \<Rightarrow> string \<Rightarrow> string"
  ml_unescape :: "string \<Rightarrow> string"

section \<open>Who wrote, and where an answer goes\<close>

definition address_in :: "mail_lib \<Rightarrow> string option \<Rightarrow> string option" where
  "address_in ml v =
    (case v of
       None \<Rightarrow> None
     | Some s \<Rightarrow> if s = [] then None else first_row (filter (\<lambda>a. CHR ''@'' \<in> set a) (ml_getaddresses ml s)))"

definition reply_target :: "mail_lib \<Rightarrow> mime \<Rightarrow> string \<Rightarrow> string" where
  "reply_target ml m envelope_from =
    (case address_in ml (mime_get ''Reply-To'' m) of
       Some a \<Rightarrow> lower a
     | None \<Rightarrow> (case address_in ml (mime_get ''From'' m) of
                  Some a \<Rightarrow> lower a | None \<Rightarrow> norm_addr envelope_from))"

definition header_address :: "mail_lib \<Rightarrow> mime \<Rightarrow> string" where
  "header_address ml m = lower (snd (ml_parseaddr ml (or_else (mime_get ''From'' m) [])))"

section \<open>The body of a message\<close>

definition is_attachment :: "mime \<Rightarrow> bool" where
  "is_attachment p \<longleftrightarrow> content_disposition p = Some ''attachment''"

text \<open>
  \<open>get_body((kind,))\<close>: the text parts of that kind that are no attachment, in order, of which it
  takes the first, here each as its position in \<open>walk\<close>, as two parts may be alike. In a
  \<open>multipart/related\<close> only the start part counts.
\<close>

definition related_start :: "mime list \<Rightarrow> string option \<Rightarrow> nat" where
  "related_start ms start =
    (case start of
       None \<Rightarrow> 0
     | Some s \<Rightarrow> (case find_index (\<lambda>p. s \<noteq> [] \<and> mime_get ''Content-ID'' p = Some s) ms of
                    Some i \<Rightarrow> i | None \<Rightarrow> 0))"

definition child_at :: "nat \<Rightarrow> mime list \<Rightarrow> nat \<Rightarrow> nat" where
  "child_at n ms i = n + 1 + length (concat (map walk (take i ms)))"

lemma size_nth: "i < length ms \<Longrightarrow> size (ms ! i) < Suc (size_list size ms)"
  by (meson le_imp_less_Suc nth_mem order_refl size_list_estimation')

function body_parts :: "string \<Rightarrow> nat \<Rightarrow> mime \<Rightarrow> nat list" where
  "body_parts kind n (Mime fs ty ps fname (Text t)) =
    (if \<not> is_attachment (Mime fs ty ps fname (Text t)) \<and> ty = ''text/'' @ kind then [n] else [])"
| "body_parts kind n (Mime fs ty ps fname (Parts ms)) =
    (if is_attachment (Mime fs ty ps fname (Parts ms)) \<or> \<not> starts_with ''multipart/'' ty then []
     else if ty \<noteq> ''multipart/related''
     then concat (map (\<lambda>i. if i < length ms then body_parts kind (child_at n ms i) (ms ! i) else []) [0..<length ms])
     else let i = related_start ms (map_of ps ''start'')
          in if i < length ms then body_parts kind (child_at n ms i) (ms ! i) else [])"
  by pat_completeness auto
termination
  by (relation "measure (\<lambda>(k, n, m). size m)") (auto simp: size_nth intro: less_SucI)

definition get_body :: "string \<Rightarrow> mime \<Rightarrow> nat option" where
  "get_body kind m = first_row (body_parts kind 0 m)"

definition text_of :: "mime \<Rightarrow> string" where
  "text_of p = (case mime_payload p of Text t \<Rightarrow> t | Parts _ \<Rightarrow> [])"

section \<open>The copy that leaves for an alias\<close>

text \<open>\<open>html.escape\<close>, and the removal of \<open><[^>]+>\<close> (the first argument counts what is left of a tag).\<close>

definition html_escape :: "string \<Rightarrow> string" where
  "html_escape s = concat (map (\<lambda>c.
     if c = CHR ''&'' then ''&amp;'' else if c = CHR ''<'' then ''&lt;'' else if c = CHR ''>'' then ''&gt;''
     else if c = CHR 0x22 then ''&quot;'' else if c = CHR 0x27 then ''&#x27;'' else [c]) s)"

fun drop_tags :: "nat \<Rightarrow> string \<Rightarrow> string" where
  "drop_tags skip [] = []"
| "drop_tags skip (c # s) =
    (if 0 < skip then drop_tags (skip - 1) s
     else let inside = takeWhile (\<lambda>x. x \<noteq> CHR ''>'') s
          in if c = CHR ''<'' \<and> inside \<noteq> [] \<and> CHR ''>'' \<in> set s then drop_tags (length inside + 1) s
             else c # drop_tags 0 s)"

definition html_to_text :: "mail_lib \<Rightarrow> string \<Rightarrow> string" where
  "html_to_text ml html = ml_unescape ml (drop_tags 0 html)"

text \<open>Where the first \<open><body\b[^>]*>\<close> stops, ignoring case.\<close>

fun body_tag_end :: "nat \<Rightarrow> string \<Rightarrow> nat option" where
  "body_tag_end i [] = None"
| "body_tag_end i (c # s) =
    (let after = drop 4 s
     in if c = CHR ''<'' \<and> lower (take 4 s) = ''body'' \<and> (after = [] \<or> \<not> is_word (hd after)) \<and> CHR ''>'' \<in> set after
        then Some (i + 5 + length (takeWhile (\<lambda>x. x \<noteq> CHR ''>'') after) + 1)
        else body_tag_end (i + 1) s)"

text \<open>The initials: the first letter of each of the first two runs of letters and digits.\<close>

definition ascii_alnum :: "char \<Rightarrow> bool" where
  "ascii_alnum c = (let n = (of_char c :: nat) in (48 \<le> n \<and> n \<le> 57) \<or> (65 \<le> n \<and> n \<le> 90) \<or> (97 \<le> n \<and> n \<le> 122))"

definition upper_char :: "char \<Rightarrow> char" where
  "upper_char c = (let n = (of_char c :: nat) in if 97 \<le> n \<and> n \<le> 122 then char_of (n - 32) else c)"

fun run_heads :: "bool \<Rightarrow> string \<Rightarrow> string" where
  "run_heads inside [] = []"
| "run_heads inside (c # s) =
    (if ascii_alnum c then (if inside then [] else [c]) @ run_heads True s else run_heads False s)"

definition initials_of :: "string \<Rightarrow> string" where
  "initials_of shown = (let i = map upper_char (take 2 (run_heads False shown)) in if i = [] then ''?'' else i)"

definition hue_of :: "string \<Rightarrow> int" where
  "hue_of s = sum_list (map of_char s) mod 360"

text \<open>
  What the card says: the name and address of the sender, the first of them that is there, the
  recipients and the date as one line each.
\<close>

record forward_card =
  cd_name :: string
  cd_sender :: string
  cd_shown :: string
  cd_to :: string
  cd_cc :: string
  cd_date :: string

definition card_of :: "mail_lib \<Rightarrow> mime \<Rightarrow> string \<Rightarrow> forward_card" where
  "card_of ml m alias_address =
    (let (name, sender) = ml_parseaddr ml (or_else (mime_get ''From'' m) [])
     in \<lparr>cd_name = name, cd_sender = sender,
         cd_shown = (if name \<noteq> [] then name else if sender \<noteq> [] then sender else ''someone''),
         cd_to = (let t = one_line (mime_get ''To'' m) in if t \<noteq> [] then t else alias_address),
         cd_cc = one_line (mime_get ''Cc'' m), cd_date = one_line (mime_get ''Date'' m)\<rparr>)"

definition card_text :: "mail_lib \<Rightarrow> forward_card \<Rightarrow> string list" where
  "card_text ml c =
    [FORWARD_MARKER,
     ''From: '' @ (if cd_sender c \<noteq> [] then ml_formataddr ml (cd_name c) (cd_sender c) else cd_shown c),
     ''To: '' @ cd_to c] @
    (if cd_cc c \<noteq> [] then [''Cc: '' @ cd_cc c] else []) @
    (if cd_date c \<noteq> [] then [''Date: '' @ cd_date c] else []) @
    [REPLY_HINT]"

definition muted :: string where "muted = ''color:#5f6368;font-size:12px''"

definition card_html :: "forward_card \<Rightarrow> string" where
  \<open>card_html c =
    (let meta = join '' &middot; '' (map html_escape (filter (\<lambda>v. v \<noteq> [])
           [''to '' @ cd_to c, if cd_cc c \<noteq> [] then ''cc '' @ cd_cc c else [], cd_date c]));
         hue = hue_of (if cd_sender c \<noteq> [] then cd_sender c else cd_shown c);
         who = (if cd_name c \<noteq> [] then cd_name c else if cd_sender c \<noteq> [] then cd_sender c else cd_shown c)
     in ''<table role="presentation" cellpadding="0" cellspacing="0" '' @
        ''style="border:1px solid #dadce0;border-radius:10px;margin:0 0 18px;'' @
        ''width:100%;max-width:640px;border-collapse:separate;'' @
        ''font-family:Arial,Helvetica,sans-serif;color:#202124">'' @
        ''<tr><td colspan="2" style="padding:8px 14px;background:#f1f3f4;'' @
        ''border-radius:10px 10px 0 0;'' @ muted @ '';letter-spacing:.3px">'' @
        FORWARD_MARKER @ ''</td></tr>'' @
        ''<tr><td style="padding:12px 0 12px 14px;width:40px;vertical-align:top">'' @
        ''<div style="width:36px;height:36px;border-radius:18px;'' @
        ''background:hsl('' @ dec_str hue @ '',45%,42%);color:#fff;font-size:14px;font-weight:bold;'' @
        ''line-height:36px;text-align:center">'' @ html_escape (initials_of (cd_shown c)) @ ''</div></td>'' @
        ''<td style="padding:12px 14px;vertical-align:top;line-height:1.35">'' @
        ''<div style="font-size:15px;font-weight:bold">'' @ html_escape who @ ''</div>'' @
        (if cd_name c \<noteq> [] \<and> cd_sender c \<noteq> []
         then ''<div style="font-size:13px;color:#1a73e8">'' @ html_escape (cd_sender c) @ ''</div>'' else []) @
        ''<div style="'' @ muted @ '';margin-top:2px">'' @ meta @ ''</div></td></tr>'' @
        ''<tr><td colspan="2" style="padding:8px 14px;border-top:1px solid #e8eaed;'' @
        muted @ ''">'' @ REPLY_HINT @ ''</td></tr></table>'')\<close>

definition with_card :: "string \<Rightarrow> string \<Rightarrow> string" where
  "with_card hc html =
    (case body_tag_end 0 html of
       Some n \<Rightarrow> take n html @ hc @ drop n html | None \<Rightarrow> hc @ html)"

text \<open>
  The fields of the copy, in the order they are set. The formatted time is for a message without a
  \<open>Date\<close>, and \<open>msgid\<close> is \<open>make_msgid\<close>'s, which has \<open>FORWARD_ID_TAG\<close> in it.
\<close>

definition opt_field :: "string \<Rightarrow> string \<Rightarrow> header_fields" where
  "opt_field name v = (if v = [] then [] else [(name, v)])"

definition wrapped_fields :: "mail_lib \<Rightarrow> mime \<Rightarrow> string \<Rightarrow> string \<Rightarrow> string \<Rightarrow> string \<Rightarrow> header_fields" where
  "wrapped_fields ml m alias_address reply_to msgid stamp =
    (let c = card_of ml m alias_address;
         domain_name = after_last CHR ''@'' alias_address;
         references = join '' '' (filter (\<lambda>v. v \<noteq> []) [one_line (mime_get ''References'' m), one_line (mime_get ''Message-ID'' m)])
     in map (\<lambda>v. (''Received'', join '' '' (split_ws v))) (get_all_fields ''Received'' (mime_fields m)) @
        [(''From'', ml_formataddr ml (cd_shown c @ '' via '' @ domain_name) alias_address),
         (''To'', cd_to c),
         (''Reply-To'', reply_to),
         (''Subject'', one_line (mime_get ''Subject'' m)),
         (''Date'', if cd_date c \<noteq> [] then cd_date c else stamp),
         (''Message-ID'', msgid)] @
        opt_field ''References'' references @
        opt_field ''In-Reply-To'' (one_line (mime_get ''In-Reply-To'' m)))"

definition leaf :: "string \<Rightarrow> string \<Rightarrow> mime" where
  "leaf ty t = Mime [] ty [] None (Text t)"

text \<open>
  Everything in the message that is neither a container nor a body that was chosen is attached, in
  the order of the walk.
\<close>

definition attached :: "mime \<Rightarrow> mime" where
  "attached p = Mime ((''Content-Disposition'', ''attachment'') # opt_field ''Content-ID'' (or_else (mime_get ''Content-ID'' p) []))
     (mime_type p) [] (Some (or_else (mime_filename p) ''attachment'')) (Text (text_of p))"

definition carried :: "mime \<Rightarrow> nat list \<Rightarrow> mime list" where
  "carried m chosen =
    map (\<lambda>i. attached (walk m ! i))
      (filter (\<lambda>i. \<not> is_multipart (walk m ! i) \<and> i \<notin> set chosen) [0..<length (walk m)])"

definition original_text :: "mail_lib \<Rightarrow> mime \<Rightarrow> string" where
  "original_text ml m =
    (case get_body ''plain'' m of
       Some i \<Rightarrow> text_of (walk m ! i)
     | None \<Rightarrow> (case get_body ''html'' m of Some j \<Rightarrow> html_to_text ml (text_of (walk m ! j)) | None \<Rightarrow> []))"

definition wrapped_html :: "mail_lib \<Rightarrow> mime \<Rightarrow> string \<Rightarrow> string" where
  \<open>wrapped_html ml m hc =
    (case get_body ''html'' m of
       Some j \<Rightarrow> with_card hc (text_of (walk m ! j))
     | None \<Rightarrow> hc @ ''<div style="white-space:pre-wrap">'' @ html_escape (original_text ml m) @ ''</div>'')\<close>

definition wrap_forward :: "mail_lib \<Rightarrow> mime \<Rightarrow> string \<Rightarrow> string \<Rightarrow> string \<Rightarrow> string \<Rightarrow> mime" where
  "wrap_forward ml m alias_address reply_to msgid stamp =
    (let c = card_of ml m alias_address;
         fs = wrapped_fields ml m alias_address reply_to msgid stamp;
         plain = leaf ''text/plain'' (join [CHR 0x0A] (card_text ml c) @ [CHR 0x0A, CHR 0x0A] @ original_text ml m);
         html = leaf ''text/html'' (wrapped_html ml m (card_html c));
         chosen = [i. Some i \<leftarrow> [get_body ''plain'' m, get_body ''html'' m]];
         atts = carried m chosen
     in if atts = [] then Mime fs ''multipart/alternative'' [] None (Parts [plain, html])
        else Mime fs ''multipart/mixed'' [] None
               (Parts (Mime [] ''multipart/alternative'' [] None (Parts [plain, html]) # atts)))"

section \<open>The reply that goes back\<close>

definition STRIPPED_FROM_REPLIES :: "string list" where
  "STRIPPED_FROM_REPLIES = [''Received'', ''Return-Path'', ''Sender'', ''Reply-To'', ''Delivered-To'',
     ''X-Original-To'', ''DKIM-Signature'', ''ARC-Seal'', ''ARC-Message-Signature'',
     ''ARC-Authentication-Results'', ''Authentication-Results'', ''X-Google-DKIM-Signature'',
     ''X-Gm-Message-State'', ''X-Received'', ''Cc'', ''Bcc'']"

text \<open>
  The quote line that names the copy's sender: \<open>attribution_at\<close> is a match of
  \<open> via <domain>,?([\s>]*)(<|&lt;)\s*(<a\b[^>]*>)?\s*<alias>\s*(</a>)?\s*(>|&gt;)\<close>, ignoring case, at the
  start of the text: the quoting kept, and what follows the match. An alias address has neither
  white space nor angle brackets in it, so there is one way to match.
\<close>

definition eat :: "string \<Rightarrow> string \<Rightarrow> string option" where
  "eat p s = (if lower (take (length p) s) = lower p then Some (drop (length p) s) else None)"

definition eat_opt :: "string \<Rightarrow> string \<Rightarrow> string" where
  "eat_opt p s = (case eat p s of Some r \<Rightarrow> r | None \<Rightarrow> s)"

definition eat_either :: "string \<Rightarrow> string \<Rightarrow> string \<Rightarrow> string option" where
  "eat_either p q s = (case eat p s of Some r \<Rightarrow> Some r | None \<Rightarrow> eat q s)"

definition eat_space :: "string \<Rightarrow> string" where
  "eat_space s = dropWhile is_space s"

definition eat_anchor :: "string \<Rightarrow> string" where
  "eat_anchor s =
    (case eat ''<a'' s of
       None \<Rightarrow> s
     | Some r \<Rightarrow> if (r = [] \<or> \<not> is_word (hd r)) \<and> CHR ''>'' \<in> set r
                 then tl (dropWhile (\<lambda>c. c \<noteq> CHR ''>'') r) else s)"

definition attribution_at :: "string \<Rightarrow> string \<Rightarrow> (string \<times> string) option" where
  "attribution_at alias_address s =
    Option.bind (eat ('' via '' @ after_last CHR ''@'' alias_address) s) (\<lambda>s1.
      let s2 = eat_opt '','' s1;
          quoting = takeWhile (\<lambda>c. is_space c \<or> c = CHR ''>'') s2;
          s3 = drop (length quoting) s2
      in Option.bind (eat_either ''<'' ''&lt;'' s3) (\<lambda>s4.
           Option.bind (eat alias_address (eat_space (eat_anchor (eat_space s4)))) (\<lambda>s5.
             map_option (\<lambda>rest. (quoting, rest))
               (eat_either ''>'' ''&gt;'' (eat_space (eat_opt ''</a>'' (eat_space s5)))))))"

text \<open>
  \<open>pattern.sub\<close>: each match, left to right, gives way to its replacement. The first argument counts
  the characters of a match still to be passed over.
\<close>

fun sub_matches :: "(string \<Rightarrow> (string \<times> string) option) \<Rightarrow> nat \<Rightarrow> string \<Rightarrow> string" where
  "sub_matches match_at skip [] = []"
| "sub_matches match_at skip (c # s) =
    (if 0 < skip then sub_matches match_at (skip - 1) s
     else case match_at (c # s) of
            None \<Rightarrow> c # sub_matches match_at 0 s
          | Some (replacement, rest) \<Rightarrow> replacement @ sub_matches match_at (length s - length rest) s)"

definition fix_attribution :: "bool \<Rightarrow> reply_route \<Rightarrow> string \<Rightarrow> string" where
  "fix_attribution html r s =
    sub_matches (\<lambda>t. map_option (\<lambda>(quoting, rest).
        (quoting @ (if html then ''&lt;'' @ rr_original_from r @ ''&gt;'' else ''<'' @ rr_original_from r @ ''>''), rest))
      (attribution_at (rr_local_address r) t)) 0 s"

definition hide_token :: "reply_route \<Rightarrow> string \<Rightarrow> string" where
  "hide_token r s =
    sub_matches (\<lambda>t. map_option (\<lambda>rest. (rr_local_address r, rest))
      (eat (reply_address (rr_token r) (after_last CHR ''@'' (rr_local_address r))) t)) 0 s"

text \<open>
  \<open>_unwrap_bodies\<close> on one part and on the tree. A part whose text changed loses the content fields
  it had, which are written anew. Text in a character set Python does not know stays; the parsed
  tree has no such part.
\<close>

definition unwrapped_text :: "reply_route \<Rightarrow> string \<Rightarrow> string \<Rightarrow> string" where
  "unwrapped_text r ty content =
    (let html = (ty = ''text/html'')
     in hide_token r (fix_attribution html r (if html then strip_card_html content else strip_card_text content)))"

definition drop_content_fields :: "header_fields \<Rightarrow> header_fields" where
  "drop_content_fields fs = filter (\<lambda>f. \<not> starts_with ''content-'' (lower (fst f))) fs"

fun unwrap_part :: "reply_route \<Rightarrow> mime \<Rightarrow> mime" where
  "unwrap_part r (Mime fs ty ps fname (Text t)) =
    (if truthy fname \<or> ty \<notin> {''text/plain'', ''text/html''} \<or> unwrapped_text r ty t = t
     then Mime fs ty ps fname (Text t)
     else Mime (drop_content_fields fs) ty [] None (Text (unwrapped_text r ty t)))"
| "unwrap_part r (Mime fs ty ps fname (Parts ms)) = Mime fs ty ps fname (Parts (map (unwrap_part r) ms))"

definition thread_fields :: "header_fields \<Rightarrow> header_fields" where
  "thread_fields fs =
    (let (references, in_reply_to) = drop_forward_ids (get_field ''References'' fs) (get_field ''In-Reply-To'' fs);
         irt = one_line (get_field ''In-Reply-To'' fs);
         fs1 = del_field ''References'' fs;
         fs2 = (case references of None \<Rightarrow> fs1 | Some v \<Rightarrow> add_field ''References'' v fs1)
     in if contains FORWARD_ID_TAG irt \<or> irt = []
        then case in_reply_to of
               None \<Rightarrow> del_field ''In-Reply-To'' fs2
             | Some v \<Rightarrow> add_field ''In-Reply-To'' v (del_field ''In-Reply-To'' fs2)
        else fs2)"

definition map_fields :: "(header_fields \<Rightarrow> header_fields) \<Rightarrow> mime \<Rightarrow> mime" where
  "map_fields f m = Mime (f (mime_fields m)) (mime_type m) (mime_params m) (mime_filename m) (mime_payload m)"

text \<open>
  \<open>clean_reply\<close>. The two addresses are spliced into replacement templates of \<open>re.sub\<close>, where a
  backslash starts an escape; \<open>None\<close> is for an address with one, for which the code raises
  \<open>re.error\<close> or writes what the escape stands for.
\<close>

definition readdressed :: "mail_lib \<Rightarrow> mime \<Rightarrow> reply_route \<Rightarrow> mime" where
  "readdressed ml m r =
    map_fields (\<lambda>fs. add_field ''To'' (rr_original_from r)
        (add_field ''From'' (ml_formataddr ml (fst (ml_parseaddr ml (or_else (get_field ''From'' fs) []))) (rr_local_address r))
          (fold del_field (STRIPPED_FROM_REPLIES @ CONTROLLED_HEADERS @ [''From'', ''To'']) fs))) m"

definition clean_reply :: "mail_lib \<Rightarrow> mime \<Rightarrow> reply_route \<Rightarrow> mime option" where
  "clean_reply ml m r =
    (if CHR 0x5C \<in> set (rr_original_from r) \<union> set (rr_local_address r) then None
     else Some (map_fields thread_fields (unwrap_part r (readdressed ml m r))))"

section \<open>What the original sender gets to see\<close>

lemma get_all_drop_content:
  "\<not> starts_with ''content-'' (lower n) \<Longrightarrow> get_all_fields n (drop_content_fields fs) = get_all_fields n fs"
  unfolding get_all_fields_def drop_content_fields_def filter_filter
  by (rule arg_cong [of _ _ "map snd"], rule filter_cong) auto

lemma unwrap_part_fields:
  "mime_fields (unwrap_part r m) = mime_fields m \<or> mime_fields (unwrap_part r m) = drop_content_fields (mime_fields m)"
  by (cases m rule: walk.cases) auto

lemma get_all_unwrap:
  "\<not> starts_with ''content-'' (lower n) \<Longrightarrow>
    get_all_fields n (mime_fields (unwrap_part r m)) = get_all_fields n (mime_fields m)"
  using unwrap_part_fields [of r m] by (auto simp: get_all_drop_content)

lemma get_all_thread:
  assumes "lower n \<notin> {''references'', ''in-reply-to''}"
  shows "get_all_fields n (thread_fields fs) = get_all_fields n fs"
proof -
  have "lower ''References'' = ''references''" "lower ''In-Reply-To'' = ''in-reply-to''" by code_simp+
  then have "lower n \<noteq> lower ''References''" "lower n \<noteq> lower ''In-Reply-To''" using assms by auto
  then show ?thesis
    by (simp add: thread_fields_def Let_def split_beta get_all_fields_del get_all_fields_add split: option.splits)
qed

lemma thread_references:
  "get_all_fields ''References'' (thread_fields fs) =
    (case fst (drop_forward_ids (get_field ''References'' fs) (get_field ''In-Reply-To'' fs)) of None \<Rightarrow> [] | Some v \<Rightarrow> [v])"
proof -
  have ne: "lower ''References'' \<noteq> lower ''In-Reply-To''" by code_simp
  show ?thesis
    by (auto simp: thread_fields_def Let_def split_beta get_all_fields_del get_all_fields_add ne split: option.splits)
qed

lemma thread_in_reply_to:
  "get_all_fields ''In-Reply-To'' (thread_fields fs) =
    (if contains FORWARD_ID_TAG (one_line (get_field ''In-Reply-To'' fs)) \<or> one_line (get_field ''In-Reply-To'' fs) = []
     then (case snd (drop_forward_ids (get_field ''References'' fs) (get_field ''In-Reply-To'' fs)) of None \<Rightarrow> [] | Some v \<Rightarrow> [v])
     else get_all_fields ''In-Reply-To'' fs)"
proof -
  have ne: "lower ''In-Reply-To'' \<noteq> lower ''References''" by code_simp
  show ?thesis
    by (simp add: thread_fields_def Let_def split_beta get_all_fields_del get_all_fields_add ne split: option.splits)
qed

lemma hidden_names:
  "list_all (\<lambda>n. \<not> starts_with ''content-'' (lower n) \<and> lower n \<notin> {''references'', ''in-reply-to'', ''from'', ''to''})
     (STRIPPED_FROM_REPLIES @ CONTROLLED_HEADERS)"
  by code_simp

lemma readdressed_all:
  "get_all_fields n (mime_fields (readdressed ml m r)) =
    (if lower n \<in> lower ` set (STRIPPED_FROM_REPLIES @ CONTROLLED_HEADERS @ [''From'', ''To'']) then [] else get_all_fields n (mime_fields m)) @
    (if lower n = ''from'' then [ml_formataddr ml (fst (ml_parseaddr ml (or_else (mime_get ''From'' m) []))) (rr_local_address r)] else []) @
    (if lower n = ''to'' then [rr_original_from r] else [])"
proof -
  have "lower ''From'' = ''from''" "lower ''To'' = ''to''" by code_simp+
  then show ?thesis
    by (simp only: readdressed_def map_fields_def mime.sel get_all_fields_add del_all_fields mime_get_def append_assoc)
qed

text \<open>
  C40. What is left of a relayed reply: none of the fields that the code lists as traces of a path, nor of
  Lightr's own, in any spelling; as its one sender the alias under the name the replier used, as its one
  recipient the person who wrote in. The id of the copy that went out is taken from the references, and an
  answer to it, or to nothing, becomes one to the last reference that remains; an answer to something else
  stays. Every other field that does not describe the content, the message id among them, is as it was.
\<close>

theorem clean_reply_hides_path:
  assumes "clean_reply ml m r = Some out"
  shows "(n \<in> set (STRIPPED_FROM_REPLIES @ CONTROLLED_HEADERS) \<longrightarrow> get_all_fields n (mime_fields out) = []) \<and>
    get_all_fields ''From'' (mime_fields out) =
      [ml_formataddr ml (fst (ml_parseaddr ml (or_else (mime_get ''From'' m) []))) (rr_local_address r)] \<and>
    get_all_fields ''To'' (mime_fields out) = [rr_original_from r] \<and>
    get_all_fields ''References'' (mime_fields out) =
      (let refs = filter (\<lambda>x. \<not> contains FORWARD_ID_TAG x) (split_ws (one_line (mime_get ''References'' m)))
       in if refs = [] then [] else [join '' '' refs]) \<and>
    get_all_fields ''In-Reply-To'' (mime_fields out) =
      (let refs = filter (\<lambda>x. \<not> contains FORWARD_ID_TAG x) (split_ws (one_line (mime_get ''References'' m)));
           answered = one_line (mime_get ''In-Reply-To'' m)
       in if contains FORWARD_ID_TAG answered \<or> answered = [] then (if refs = [] then [] else [last refs])
          else get_all_fields ''In-Reply-To'' (mime_fields m)) \<and>
    (lower n \<notin> lower ` set (STRIPPED_FROM_REPLIES @ CONTROLLED_HEADERS @ [''From'', ''To'', ''References'', ''In-Reply-To'']) \<longrightarrow>
     \<not> starts_with ''content-'' (lower n) \<longrightarrow> get_all_fields n (mime_fields out) = get_all_fields n (mime_fields m))"
proof -
  have out: "mime_fields out = thread_fields (mime_fields (unwrap_part r (readdressed ml m r)))"
    using assms by (auto simp: clean_reply_def map_fields_def split: if_splits)
  have all: "get_all_fields k (mime_fields out) = get_all_fields k (mime_fields (readdressed ml m r))"
    if "\<not> starts_with ''content-'' (lower k)" "lower k \<notin> {''references'', ''in-reply-to''}" for k
    unfolding out using that by (simp add: get_all_thread get_all_unwrap)
  have low: "lower ''From'' = ''from''" "lower ''To'' = ''to''" "lower ''References'' = ''references''"
    "lower ''In-Reply-To'' = ''in-reply-to''" by code_simp+
  have names: "\<not> starts_with ''content-'' (lower ''From'')" "\<not> starts_with ''content-'' (lower ''To'')"
    "\<not> starts_with ''content-'' (lower ''References'')"
    "lower ''References'' \<notin> lower ` set (STRIPPED_FROM_REPLIES @ CONTROLLED_HEADERS @ [''From'', ''To''])"
    "\<not> starts_with ''content-'' (lower ''In-Reply-To'')"
    "lower ''In-Reply-To'' \<notin> lower ` set (STRIPPED_FROM_REPLIES @ CONTROLLED_HEADERS @ [''From'', ''To''])" by code_simp+
  have ref: "get_field ''References'' (mime_fields (unwrap_part r (readdressed ml m r))) = mime_get ''References'' m"
  proof -
    have "get_all_fields ''References'' (mime_fields (readdressed ml m r)) = get_all_fields ''References'' (mime_fields m)"
      using names(4) by (simp add: readdressed_all low)
    then show ?thesis using names(3) by (simp add: get_field_all get_all_unwrap mime_get_def)
  qed
  have irt: "get_all_fields ''In-Reply-To'' (mime_fields (unwrap_part r (readdressed ml m r))) = get_all_fields ''In-Reply-To'' (mime_fields m)"
    using names(5,6) by (simp add: get_all_unwrap readdressed_all low)
  then have irt1: "get_field ''In-Reply-To'' (mime_fields (unwrap_part r (readdressed ml m r))) = mime_get ''In-Reply-To'' m"
    by (simp add: get_field_all mime_get_def)
  show ?thesis
  proof (intro conjI impI)
    assume n: "n \<in> set (STRIPPED_FROM_REPLIES @ CONTROLLED_HEADERS)"
    then have "\<not> starts_with ''content-'' (lower n)" "lower n \<notin> {''references'', ''in-reply-to'', ''from'', ''to''}"
      using hidden_names unfolding list_all_iff by blast+
    then show "get_all_fields n (mime_fields out) = []" using n by (auto simp: all readdressed_all)
  next
    show "get_all_fields ''From'' (mime_fields out) =
        [ml_formataddr ml (fst (ml_parseaddr ml (or_else (mime_get ''From'' m) []))) (rr_local_address r)]"
      using names(1) by (simp add: all low readdressed_all)
    show "get_all_fields ''To'' (mime_fields out) = [rr_original_from r]"
      using names(2) by (simp add: all low readdressed_all)
    show "get_all_fields ''References'' (mime_fields out) =
      (let refs = filter (\<lambda>x. \<not> contains FORWARD_ID_TAG x) (split_ws (one_line (mime_get ''References'' m)))
       in if refs = [] then [] else [join '' '' refs])"
      by (simp add: out thread_references ref drop_forward_ids_def Let_def)
    show "get_all_fields ''In-Reply-To'' (mime_fields out) =
      (let refs = filter (\<lambda>x. \<not> contains FORWARD_ID_TAG x) (split_ws (one_line (mime_get ''References'' m)));
           answered = one_line (mime_get ''In-Reply-To'' m)
       in if contains FORWARD_ID_TAG answered \<or> answered = [] then (if refs = [] then [] else [last refs])
          else get_all_fields ''In-Reply-To'' (mime_fields m))"
      by (simp add: out thread_in_reply_to ref irt irt1 drop_forward_ids_def Let_def)
  next
    assume "lower n \<notin> lower ` set (STRIPPED_FROM_REPLIES @ CONTROLLED_HEADERS @ [''From'', ''To'', ''References'', ''In-Reply-To''])"
      and c: "\<not> starts_with ''content-'' (lower n)"
    then have "lower n \<notin> {''references'', ''in-reply-to'', ''from'', ''to''}"
      "lower n \<notin> lower ` set (STRIPPED_FROM_REPLIES @ CONTROLLED_HEADERS @ [''From'', ''To''])"
      using low by auto
    then show "get_all_fields n (mime_fields out) = get_all_fields n (mime_fields m)"
      using c by (simp add: all readdressed_all)
  qed
qed

definition sample_lib :: mail_lib where
  "sample_lib = \<lparr>ml_parseaddr = (\<lambda>s. (''Ann'', s)), ml_getaddresses = (\<lambda>s. [s]),
     ml_formataddr = (\<lambda>n a. n @ '' <'' @ a @ ''>''), ml_unescape = (\<lambda>s. s)\<rparr>"

definition sample_reply_route :: reply_route where
  "sample_reply_route = \<lparr>rr_token = ''0123456789abcdef01234567'', rr_alias_id = 1, rr_domain_id = Some 1,
     rr_local_address = ''ann@acme.org'', rr_original_from = ''bob@far.com'', rr_destinations = [''ann@home.net''],
     rr_account_id = None, rr_original_to = None, rr_original_cc = None, rr_kind = BRIDGE_ROUTE, rr_created_at = 0\<rparr>"

definition sample_reply :: mime where
  "sample_reply = Mime [(''RECEIVED'', ''by home.net''), (''From'', ''ann@home.net''), (''to'', ''reply@acme.org''),
     (''References'', ''<1@far.com> <lightr-fwd.2@acme.org>''), (''In-Reply-To'', ''<lightr-fwd.2@acme.org>'')] ''text/plain'' [] None
     (Text ''see reply+0123456789abcdef01234567@Acme.org'')"

lemma clean_reply_hides_path_witness:
  "\<exists>out. clean_reply sample_lib sample_reply sample_reply_route = Some out \<and>
    get_all_fields ''Received'' (mime_fields out) = [] \<and>
    get_all_fields ''From'' (mime_fields out) = [''Ann <ann@acme.org>''] \<and>
    get_all_fields ''References'' (mime_fields out) = [''<1@far.com>''] \<and>
    get_all_fields ''In-Reply-To'' (mime_fields out) = [''<1@far.com>'']"
proof -
  have "CHR 0x5C \<notin> set (rr_original_from sample_reply_route) \<union> set (rr_local_address sample_reply_route)"
    by (simp add: sample_reply_route_def)
  then obtain out where out: "clean_reply sample_lib sample_reply sample_reply_route = Some out"
    by (simp add: clean_reply_def)
  have refs: "filter (\<lambda>x. \<not> contains FORWARD_ID_TAG x) (split_ws (one_line (mime_get ''References'' sample_reply))) = [''<1@far.com>'']"
    by code_simp
  have answered: "contains FORWARD_ID_TAG (one_line (mime_get ''In-Reply-To'' sample_reply))" by code_simp
  have sent_as: "ml_formataddr sample_lib (fst (ml_parseaddr sample_lib (or_else (mime_get ''From'' sample_reply) [])))
      (rr_local_address sample_reply_route) = ''Ann <ann@acme.org>''"
    by (simp add: sample_lib_def sample_reply_route_def)
  have "''Received'' \<in> set (STRIPPED_FROM_REPLIES @ CONTROLLED_HEADERS)" by (simp add: STRIPPED_FROM_REPLIES_def)
  with clean_reply_hides_path [OF out, of "''Received''"] refs answered sent_as out show ?thesis by (auto simp: Let_def)
qed

lemma hide_token_example:
  "hide_token sample_reply_route ''see reply+0123456789abcdef01234567@Acme.org'' = ''see ann@acme.org''"
  by code_simp

end
