(* ===== verification/Smtp.thy ===== *)
theory Smtp
  imports Routing Bounce Queue Auth Lmtp Spam Headers Forwarding
begin

text \<open>
  \<open>src/src/lightr/mail/smtp.py\<close>, from the message to its recipients: who may send as whom, what is
  recorded, analysed, routed, queued, relayed and handed to Dovecot. What the network and the
  \<open>email\<close> package answer is in \<open>smtp_env\<close>; the state is the database with the queue, the reply
  routes and the bounces, and the events handed to the webhooks. A transaction that raises leaves
  the state as it was before it.
\<close>

section \<open>What happened to one message\<close>

record delivery_outcome =
  dv_delivered :: "string list"
  dv_forwarded :: "string list"
  dv_rejected :: "(string \<times> reject_reason) list"
  dv_accepted :: "string list"
  dv_error :: "string option"
  dv_permanent :: bool

definition no_outcome :: delivery_outcome where
  "no_outcome = \<lparr>dv_delivered = [], dv_forwarded = [], dv_rejected = [], dv_accepted = [], dv_error = None, dv_permanent = False\<rparr>"

definition outcome_ok :: "delivery_outcome \<Rightarrow> bool" where
  "outcome_ok v \<longleftrightarrow> dv_error v = None \<and> dv_rejected v = []"

definition smtp_response :: "delivery_outcome \<Rightarrow> string" where
  "smtp_response v =
    (if truthy (dv_error v)
     then (if dv_permanent v then ''554 5.7.1 '' else ''451 4.3.0 '') @ the (dv_error v)
     else if dv_delivered v \<noteq> [] \<or> dv_forwarded v \<noteq> [] \<or> dv_accepted v \<noteq> [] then ''250 2.0.0 OK''
     else case dv_rejected v of
            (_, reason) # _ \<Rightarrow> dec_str (smtp_code reason) @ '' 5.1.1 '' @ smtp_message reason
          | [] \<Rightarrow> ''550 5.1.1 No valid recipients'')"

section \<open>Outside and inside\<close>

record smtp_env =
  sx_submission :: bool                    \<comment> \<open>\<open>require_auth\<close>\<close>
  sx_hostname :: string
  sx_max_recipients :: nat
  sx_max_message_bytes :: nat
  sx_require_tls :: bool
  sx_spam_enabled :: bool
  sx_spam :: spam_config
  sx_blocklists :: blocklists
  sx_rspamd_url :: string
  sx_lib :: mail_lib
  sx_parse :: "string \<Rightarrow> mime"
  sx_as_bytes :: "mime \<Rightarrow> string"
  sx_spf :: "string \<Rightarrow> string \<Rightarrow> string \<Rightarrow> (string \<times> string) lookup"
  sx_dkim :: "string \<Rightarrow> bool lookup"
  sx_txt :: "string \<Rightarrow> string list lookup"
  sx_rspamd :: "string \<Rightarrow> (rat \<times> (string \<times> rat) list) lookup"
  sx_is_global :: "ip \<Rightarrow> bool"
  sx_idna :: "string \<Rightarrow> string option"
  sx_resolver :: "string \<Rightarrow> string list lookup"
  sx_imap_host :: string
  sx_connect :: "string list \<Rightarrow> lmtp_error + lmtp_conn"
  sx_auth :: auth_world                    \<comment> \<open>its database is the state's\<close>
  sx_decode :: "string \<Rightarrow> string"
  sx_uuid :: "nat \<Rightarrow> uuid"                 \<comment> \<open>the fresh ids and tokens, by the length of their table\<close>
  sx_token :: "nat \<Rightarrow> string"
  sx_msgid :: string
  sx_stamp :: string

datatype mail_event =
    MailReceived string "string list" string string
  | MailRejected string string reject_reason string

record smtp_state =
  sm_db :: database
  sm_bounces :: bounce_db
  sm_replies :: reply_table
  sm_queue :: queue_table
  sm_events :: "mail_event list"

datatype smtp_raise =
    RaisedRepo repo_error
  | RaisedQueue queue_error
  | RaisedToken            \<comment> \<open>\<open>IntegrityError\<close> of a token that is taken\<close>
  | RaisedTemplate         \<comment> \<open>\<open>re.error\<close>\<close>
  | RaisedLmtp             \<comment> \<open>the \<open>ValueError\<close> of an LHLO line\<close>

definition routing_of :: "smtp_state \<Rightarrow> routing_db" where
  "routing_of s = \<lparr>rt_db = sm_db s, rt_suppressed = bd_suppressed (sm_bounces s), rt_replies = sm_replies s\<rparr>"

definition MAX_HOPS :: nat where "MAX_HOPS = 30"

definition refused :: "string \<Rightarrow> delivery_outcome" where
  "refused e = no_outcome\<lparr>dv_error := Some e, dv_permanent := True\<rparr>"

section \<open>Who may send as whom\<close>

definition may_send :: "string \<Rightarrow> string \<Rightarrow> database \<Rightarrow> string option" where
  "may_send authenticated_as mail_from db =
    (let login = norm_addr authenticated_as; sender = norm_addr mail_from;
         refusal = Some (''Not allowed to send as '' @ mail_from)
     in case account_find login db of
          None \<Rightarrow> Some ''Authenticated account no longer exists''
        | Some a \<Rightarrow>
          if \<not> a_can_send a then Some ''This account is not allowed to send mail''
          else if sender = login then None
          else if CHR ''@'' \<notin> set sender then refusal
          else let (local_part, domain_name) = split_first CHR ''@'' sender
               in case domain_resolve domain_name db of
                    Inl _ \<Rightarrow> refusal
                  | Inr d \<Rightarrow>
                    (case alias_lookup (d_id d) local_part db of
                       None \<Rightarrow> refusal
                     | Some al \<Rightarrow> if login \<in> norm_addr ` set (al_destinations al) then None else refusal))"

section \<open>Bounces that come in\<close>

definition owner_of :: "database \<Rightarrow> (uuid \<times> uuid) option" where
  "owner_of db = (case domain_list None 2 db of [d] \<Rightarrow> Some (d_org_id d, d_id d) | _ \<Rightarrow> None)"

text \<open>One report entry, with the count of addresses suppressed so far.\<close>

definition record_one :: "smtp_env \<Rightarrow> instant \<Rightarrow> database \<Rightarrow> bounce \<Rightarrow> nat \<times> bounce_db \<Rightarrow> nat \<times> bounce_db" where
  "record_one env now db b n_bd =
    (let (n, bd) = n_bd
     in case owner_of db of
          None \<Rightarrow> if should_suppress (b_type b)
                  then (n + 1, suppress (b_recipient b) (bounce_type_str (b_type b)) None now bd) else (n, bd)
        | Some (org_id, domain_id) \<Rightarrow>
            (let (hit, bd') = record_bounce (sx_uuid env (length (bd_bounces bd))) b org_id domain_id now bd
             in (if hit then n + 1 else n, bd')))"

definition record_bounces :: "smtp_env \<Rightarrow> instant \<Rightarrow> string \<Rightarrow> smtp_state \<Rightarrow> nat \<times> smtp_state" where
  "record_bounces env now raw s =
    (let (n, bd) = fold (record_one env now (sm_db s)) (parse_report (sx_parse env raw)) (0, sm_bounces s)
     in (n, s\<lparr>sm_bounces := bd\<rparr>))"

section \<open>Analysis\<close>

definition sender_domain_of :: "string \<Rightarrow> string" where
  "sender_domain_of mail_from = (if CHR ''@'' \<in> set mail_from then after_last CHR ''@'' mail_from else [])"

definition spam_score :: "smtp_env \<Rightarrow> mime \<Rightarrow> string \<Rightarrow> string \<Rightarrow> string \<Rightarrow> int \<Rightarrow> spf_result \<Rightarrow> dkim_result \<Rightarrow> dmarc_result \<Rightarrow> score" where
  "spam_score env m mail_from raw remote_ip recipient_count spf dkim dmarc =
    (case rspamd_score (sx_rspamd_url env) (sx_rspamd env) raw of
       Some sc \<Rightarrow> sc
     | None \<Rightarrow>
       (let ls = check_reputation (sx_is_global env) (sx_idna env) (sx_resolver env) (sx_blocklists env) remote_ip
              [sender_domain_of mail_from, from_domain_of (ml_parseaddr (sx_lib env)) (sx_parse env raw)] (Some m)
        in score_message m spf dkim dmarc recipient_count ls))"

definition analyse :: "smtp_env \<Rightarrow> mime \<Rightarrow> string \<Rightarrow> string \<Rightarrow> string \<Rightarrow> string \<Rightarrow> int \<Rightarrow> analysis" where
  "analyse env m mail_from helo raw remote_ip recipient_count =
    (if sx_submission env \<or> \<not> sx_spam_enabled env
     then \<lparr>an_score = 0, an_is_spam = False, an_reasons = [],
           an_auth = \<lparr>ar_spf = ''none'', ar_dkim = ''none'', ar_dmarc = ''none'', ar_mail_from = mail_from, ar_helo = helo\<rparr>,
           an_has_attachment = has_attachment m\<rparr>
     else
       let spf = check_spf (sx_spf env) remote_ip mail_from helo;
           dkim = check_dkim (sx_dkim env) raw;
           dmarc = check_dmarc (sx_txt env) (from_domain_of (ml_parseaddr (sx_lib env)) (sx_parse env raw)) spf dkim;
           sc = spam_score env m mail_from raw remote_ip recipient_count spf dkim dmarc
       in \<lparr>an_score = points sc, an_is_spam = snd (verdict (sx_spam env) sc), an_reasons = reasons sc,
           an_auth = \<lparr>ar_spf = result_str (spf_verdict spf), ar_dkim = result_str (dkim_verdict dkim),
             ar_dmarc = result_str (dmarc_verdict dmarc), ar_mail_from = mail_from, ar_helo = helo\<rparr>,
           an_has_attachment = has_attachment m\<rparr>)"

section \<open>Into the queue\<close>

definition queue_mail ::
  "smtp_env \<Rightarrow> instant \<Rightarrow> domain \<Rightarrow> string \<Rightarrow> string list \<Rightarrow> mime \<Rightarrow> string option \<Rightarrow> smtp_state \<Rightarrow> smtp_raise + smtp_state" where
  "queue_mail env now d from_addr recipients m envelope_from s =
    (let body = (case get_body ''plain'' m of None \<Rightarrow> [] | Some i \<Rightarrow> text_of (walk m ! i));
         wire = map_fields (\<lambda>fs. snd (strip_controlled fs)) m
     in case enqueue (sx_uuid env (length (sm_queue s))) now (d_org_id d) (d_id d) from_addr recipients
               (or_else (mime_get ''Subject'' m) []) body None [] DEFAULT_MAX_ATTEMPTS (Some (sx_as_bytes env wire))
               envelope_from (sm_queue s) of
          Inl e \<Rightarrow> Inl (RaisedQueue e)
        | Inr (_, q) \<Rightarrow> Inr (s\<lparr>sm_queue := q\<rparr>))"

text \<open>\<open>_enqueue_outbound\<close>: whether it could be queued.\<close>

definition enqueue_outbound ::
  "smtp_env \<Rightarrow> instant \<Rightarrow> string \<Rightarrow> string list \<Rightarrow> mime \<Rightarrow> smtp_state \<Rightarrow> smtp_raise + bool \<times> smtp_state" where
  "enqueue_outbound env now mail_from recipients m s =
    (let sender_domain = (if CHR ''@'' \<in> set mail_from then snd (split_first CHR ''@'' mail_from) else [])
     in case domain_resolve sender_domain (sm_db s) of
          Inl _ \<Rightarrow> Inr (False, s)
        | Inr d \<Rightarrow> bind_res (queue_mail env now d mail_from recipients m None s) (\<lambda>s'. Inr (True, s')))"

section \<open>Forwards\<close>

text \<open>
  The destinations of each alias route, in order: whether one is an address of ours, and the others
  by the route they belong to, which is the grouping \<open>external\<close> makes.
\<close>

type_synonym forward_group = "route \<times> string list"

definition destination_local :: "database \<Rightarrow> string \<Rightarrow> bool" where
  "destination_local db address =
    (case domain_resolve (if CHR ''@'' \<in> set address then snd (split_first CHR ''@'' address) else []) db of
       Inl _ \<Rightarrow> False | Inr _ \<Rightarrow> True)"

definition local_copies :: "database \<Rightarrow> forward_group list \<Rightarrow> string list" where
  "local_copies db groups =
    filter (destination_local db) (map norm_addr (concat (map snd groups)))"

definition external_copies :: "database \<Rightarrow> forward_group list \<Rightarrow> forward_group list" where
  "external_copies db groups =
    filter (\<lambda>g. snd g \<noteq> [])
      (map (\<lambda>(r, ds). (r, filter (\<lambda>a. \<not> destination_local db a) (map norm_addr ds))) groups)"

definition alias_address_of :: "route \<Rightarrow> string" where
  "alias_address_of r = or_else (ro_mailbox r) (ro_recipient r)"

text \<open>One alias's copy for the outside: its token, the wrapped message, its row.\<close>

definition forward_one ::
  "smtp_env \<Rightarrow> instant \<Rightarrow> string \<Rightarrow> mime \<Rightarrow> forward_group \<Rightarrow> smtp_state \<times> delivery_outcome \<Rightarrow> smtp_raise + smtp_state \<times> delivery_outcome" where
  "forward_one env now mail_from m g so =
    (let (r, ds) = g; (s, v) = so
     in case (ro_domain_id r, ro_alias_id r) of
          (Some i, Some al) \<Rightarrow>
            (case domain_resolve (uuid_str i) (sm_db s) of
               Inl e \<Rightarrow> Inl (RaisedRepo e)
             | Inr d \<Rightarrow>
               (let recipients = fromkeys ds;
                    bridged = (ro_disposition r = ALIAS_BRIDGE);
                    target = reply_target (sx_lib env) m mail_from
                in case reply_create (sx_token env (length (sm_replies s))) now al (Some (d_id d)) (alias_address_of r)
                          recipients target (if bridged then BRIDGE_ROUTE else FORWARD_ROUTE)
                          (if bridged then ro_account_id r else None)
                          (let t = or_else (mime_get ''To'' m) [] in if t = [] then None else Some t)
                          (let c = or_else (mime_get ''Cc'' m) [] in if c = [] then None else Some c) (sm_replies s) of
                     None \<Rightarrow> Inl RaisedToken
                   | Some (token, replies') \<Rightarrow>
                     (let token_address = route_address token (d_name d);
                          wrapped = wrap_forward (sx_lib env) m (alias_address_of r)
                            (if bridged then token_address else target) (sx_msgid env) (sx_stamp env);
                          sender = (if mail_from = [] then ''postmaster@'' @ d_name d else mail_from)
                      in bind_res (queue_mail env now d sender recipients wrapped (Some token_address) (s\<lparr>sm_replies := replies'\<rparr>))
                           (\<lambda>s'. Inr (s', v\<lparr>dv_forwarded := dv_forwarded v @ recipients\<rparr>)))))
        | _ \<Rightarrow> Inr (s, v))"

fun forward_each ::
  "smtp_env \<Rightarrow> instant \<Rightarrow> string \<Rightarrow> mime \<Rightarrow> forward_group list \<Rightarrow> smtp_state \<times> delivery_outcome \<Rightarrow> smtp_raise + smtp_state \<times> delivery_outcome" where
  "forward_each env now mail_from m [] so = Inr so"
| "forward_each env now mail_from m (g # gs) so =
    bind_res (forward_one env now mail_from m g so) (forward_each env now mail_from m gs)"

definition forward_all ::
  "smtp_env \<Rightarrow> instant \<Rightarrow> forward_group list \<Rightarrow> string \<Rightarrow> mime \<Rightarrow> analysis \<Rightarrow> smtp_state \<times> delivery_outcome \<Rightarrow>
   smtp_raise + string list \<times> smtp_state \<times> delivery_outcome" where
  "forward_all env now groups mail_from m an so =
    (let db = sm_db (fst so);
         external = (if an_is_spam an then [] else external_copies db groups)
     in bind_res (forward_each env now mail_from m external so) (\<lambda>so'. Inr (local_copies db groups, so')))"

section \<open>Replies to a token\<close>

text \<open>One reply: the mailboxes it is for, or the state after it is relayed.\<close>

definition relay_one ::
  "smtp_env \<Rightarrow> instant \<Rightarrow> string \<Rightarrow> mime \<Rightarrow> analysis \<Rightarrow> string \<Rightarrow> reply_route \<Rightarrow> string list \<times> smtp_state \<times> delivery_outcome \<Rightarrow>
   smtp_raise + string list \<times> smtp_state \<times> delivery_outcome" where
  "relay_one env now mail_from m an recipient reply lso =
    (let (local, s, v) = lso;
         sender = norm_addr mail_from;
         bridged = (rr_kind reply = BRIDGE_ROUTE);
         kept = (if bridged \<and> rr_account_id reply \<noteq> None then (local @ [rr_local_address reply], s, v)
                 else (local, s, v\<lparr>dv_accepted := dv_accepted v @ [recipient]\<rparr>))
     in if sender = [] then Inr kept
        else if \<not> bridged \<or> \<not> accepts_reply_from reply [sender, header_address (sx_lib env) m]
        then Inr (local, s, v\<lparr>dv_rejected := dv_rejected v @ [(recipient, NO_SUCH_MAILBOX)]\<rparr>)
        else if an_is_spam an then Inr kept
        else
          case domain_resolve (case rr_domain_id reply of Some i \<Rightarrow> uuid_str i | None \<Rightarrow> rr_local_address reply) (sm_db s) of
            Inl e \<Rightarrow> Inl (RaisedRepo e)
          | Inr d \<Rightarrow>
            (case clean_reply (sx_lib env) m reply of
               None \<Rightarrow> Inl RaisedTemplate
             | Some copy \<Rightarrow>
               bind_res (queue_mail env now d (rr_local_address reply) [rr_original_from reply] copy
                   (Some (rr_local_address reply)) s)
                 (\<lambda>s'. Inr (local, s', v\<lparr>dv_forwarded := dv_forwarded v @ [rr_original_from reply]\<rparr>))))"

fun relay_each ::
  "smtp_env \<Rightarrow> instant \<Rightarrow> string \<Rightarrow> mime \<Rightarrow> analysis \<Rightarrow> (string \<times> reply_route) list \<Rightarrow> string list \<times> smtp_state \<times> delivery_outcome \<Rightarrow>
   smtp_raise + string list \<times> smtp_state \<times> delivery_outcome" where
  "relay_each env now mail_from m an [] lso = Inr lso"
| "relay_each env now mail_from m an ((recipient, reply) # rs) lso =
    bind_res (relay_one env now mail_from m an recipient reply lso) (relay_each env now mail_from m an rs)"

section \<open>Into Dovecot\<close>

definition spam_action_of :: "database \<Rightarrow> string \<Rightarrow> string" where
  "spam_action_of db mailbox =
    (let name = lower (after_last CHR ''@'' mailbox);
         policy = (case domain_resolve name db of Inr d \<Rightarrow> d_spam_policy d | Inl _ \<Rightarrow> JUNK)
     in if policy = TAG then [] else SPAM_ACTION_JUNK)"

definition spam_actions :: "database \<Rightarrow> string list \<Rightarrow> analysis \<Rightarrow> (string, string list) dict" where
  "spam_actions db mailboxes an =
    (if \<not> an_is_spam an then [([], mailboxes)]
     else fold (\<lambda>mailbox. group_append (spam_action_of db mailbox) mailbox) mailboxes [])"

definition mark_action :: "string \<Rightarrow> mime \<Rightarrow> mime" where
  "mark_action action m =
    map_fields (\<lambda>fs. let fs' = del_field HEADER_SPAM_ACTION fs
                     in if action = [] then fs' else add_field HEADER_SPAM_ACTION action fs') m"

definition hand_over :: "smtp_env \<Rightarrow> string \<Rightarrow> string list \<Rightarrow> mime \<Rightarrow> lmtp_error + recipient_status list" where
  "hand_over env mail_from group_of m =
    lmtp_deliver (sx_imap_host env) (\<lambda>_. sx_connect env group_of) mail_from group_of (sx_as_bytes env m)"

text \<open>
  The loop over the groups: the message as the last group left it, and whether an \<open>LMTPError\<close> ended
  the loop, after which nothing is announced.
\<close>

fun deliver_groups ::
  "smtp_env \<Rightarrow> string \<Rightarrow> (string, string list) dict \<Rightarrow> mime \<Rightarrow> delivery_outcome \<Rightarrow> smtp_raise + bool \<times> mime \<times> delivery_outcome" where
  "deliver_groups env mail_from [] m v = Inr (True, m, v)"
| "deliver_groups env mail_from ((action, mailboxes) # gs) m v =
    (let m' = mark_action action m
     in case hand_over env mail_from mailboxes m' of
          Inl BadNumber \<Rightarrow> Inl RaisedLmtp
        | Inl (LMTPError _) \<Rightarrow> Inr (False, m', v\<lparr>dv_error := Some ''Mail store temporarily unavailable''\<rparr>)
        | Inr ss \<Rightarrow> deliver_groups env mail_from gs m' (v\<lparr>dv_delivered := dv_delivered v @ delivered ss\<rparr>))"

definition notify :: "delivery_outcome \<Rightarrow> string \<Rightarrow> mime \<Rightarrow> smtp_state \<Rightarrow> smtp_state" where
  "notify v mail_from m s =
    (let subject = or_else (mime_get ''Subject'' m) []; message_id = or_else (mime_get ''Message-ID'' m) []
     in s\<lparr>sm_events := sm_events s @
          (if dv_delivered v \<noteq> [] then [MailReceived mail_from (dv_delivered v) subject message_id] else []) @
          map (\<lambda>(recipient, reason). MailRejected mail_from recipient reason subject) (dv_rejected v)\<rparr>)"

section \<open>One message\<close>

text \<open>The routes by what is done with them.\<close>

definition sent_onward :: "smtp_env \<Rightarrow> route \<Rightarrow> bool" where
  "sent_onward env r \<longleftrightarrow> rejected r \<and> sx_submission env \<and> ro_reason r = Some NOT_LOCAL_DOMAIN"

definition turned_away :: "smtp_env \<Rightarrow> route list \<Rightarrow> (string \<times> reject_reason) list" where
  "turned_away env routes = map (\<lambda>r. (ro_recipient r, the (ro_reason r))) (filter (\<lambda>r. rejected r \<and> \<not> sent_onward env r) routes)"

definition outbound_of :: "smtp_env \<Rightarrow> route list \<Rightarrow> string list" where
  "outbound_of env routes = map ro_recipient (filter (sent_onward env) routes)"

definition replies_of :: "route list \<Rightarrow> (string \<times> reply_route) list" where
  "replies_of routes = map (\<lambda>r. (ro_recipient r, the (ro_reply r))) (filter (\<lambda>r. ro_disposition r = REPLY) routes)"

definition locals_of :: "route list \<Rightarrow> route list" where
  "locals_of routes = filter delivers_locally routes"

definition forwards_of :: "route list \<Rightarrow> forward_group list" where
  "forwards_of routes =
    map (\<lambda>r. (r, ro_forward_to r)) (filter (\<lambda>r. \<not> rejected r \<and> ro_disposition r \<noteq> REPLY) routes)"

definition targets_of :: "smtp_env \<Rightarrow> route list \<Rightarrow> string list" where
  "targets_of env routes =
    map alias_address_of (locals_of routes) @ concat (map snd (forwards_of routes)) @ outbound_of env routes @
    map fst (replies_of routes)"

definition stamped :: "smtp_env \<Rightarrow> analysis \<Rightarrow> string \<Rightarrow> string \<Rightarrow> string list \<Rightarrow> mime \<Rightarrow> mime" where
  "stamped env an remote_ip helo targets m =
    (case targets of
       [] \<Rightarrow> m
     | target # _ \<Rightarrow>
         map_fields (\<lambda>fs. add_received (sx_hostname env) (if remote_ip = [] then ''unknown'' else remote_ip) helo target
             (sx_msgid env) (sx_stamp env)
           (ensure_field ''Date'' (sx_stamp env) (ensure_field ''Message-ID'' (sx_msgid env)
             (apply_analysis an (sx_hostname env) fs)))) m)"

text \<open>What is queued for people elsewhere, for a sender of ours, and what Dovecot gets.\<close>

definition send_outbound ::
  "smtp_env \<Rightarrow> instant \<Rightarrow> string \<Rightarrow> string list \<Rightarrow> mime \<Rightarrow> smtp_state \<times> delivery_outcome \<Rightarrow> smtp_raise + smtp_state \<times> delivery_outcome" where
  "send_outbound env now mail_from outbound m so =
    (let (s, v) = so
     in if outbound = [] then Inr (s, v)
        else bind_res (enqueue_outbound env now mail_from outbound m s) (\<lambda>(queued, s').
          Inr (s', if queued then v\<lparr>dv_forwarded := dv_forwarded v @ outbound\<rparr>
                   else v\<lparr>dv_error := Some ''Cannot send as that address from this server'', dv_permanent := True\<rparr>)))"

definition mailboxes_of :: "route list \<Rightarrow> string list \<Rightarrow> string list" where
  "mailboxes_of routes extra =
    fromkeys (filter (\<lambda>x. x \<noteq> []) (map (\<lambda>r. or_else (ro_mailbox r) []) (locals_of routes)) @ extra)"

definition finish_local ::
  "smtp_env \<Rightarrow> string \<Rightarrow> route list \<Rightarrow> string list \<Rightarrow> mime \<Rightarrow> analysis \<Rightarrow> smtp_state \<times> delivery_outcome \<Rightarrow>
   smtp_state \<times> (smtp_raise + delivery_outcome)" where
  "finish_local env mail_from routes extra m an so =
    (let (s, v) = so
     in if locals_of routes = [] \<and> extra = [] then (notify v mail_from m s, Inr v)
        else case deliver_groups env mail_from (spam_actions (sm_db s) (mailboxes_of routes extra) an) m v of
               Inl e \<Rightarrow> (s, Inl e)
             | Inr (True, m', v') \<Rightarrow> (notify v' mail_from m' s, Inr v')
             | Inr (False, m', v') \<Rightarrow> (s, Inr v'))"

text \<open>
  The steps after routing. Each is a transaction of its own: when one raises, those before it
  stay.
\<close>

definition deliver_routed ::
  "smtp_env \<Rightarrow> instant \<Rightarrow> string \<Rightarrow> route list \<Rightarrow> mime \<Rightarrow> analysis \<Rightarrow> smtp_state \<Rightarrow>
   smtp_state \<times> (smtp_raise + delivery_outcome)" where
  "deliver_routed env now mail_from routes m an s =
    (case send_outbound env now mail_from (outbound_of env routes) m
        (s, no_outcome\<lparr>dv_rejected := turned_away env routes\<rparr>) of
       Inl e \<Rightarrow> (s, Inl e)
     | Inr (s1, v1) \<Rightarrow>
       (case forward_all env now (forwards_of routes) mail_from m an (s1, v1) of
          Inl e \<Rightarrow> (s1, Inl e)
        | Inr (copies, s2, v2) \<Rightarrow>
          (case relay_each env now mail_from m an (replies_of routes) ([], s2, v2) of
             Inl e \<Rightarrow> (s2, Inl e)
           | Inr (kept, s3, v3) \<Rightarrow> finish_local env mail_from routes (copies @ kept) m an (s3, v3))))"

definition smtp_deliver ::
  "smtp_env \<Rightarrow> instant \<Rightarrow> string \<Rightarrow> string list \<Rightarrow> string \<Rightarrow> string \<Rightarrow> string \<Rightarrow> string option \<Rightarrow> smtp_state \<Rightarrow>
   smtp_state \<times> (smtp_raise + delivery_outcome)" where
  "smtp_deliver env now mail_from recipients raw remote_ip helo authenticated_as s =
    (case Option.bind authenticated_as (\<lambda>who. may_send who mail_from (sm_db s)) of
       Some refusal \<Rightarrow> (s, Inr (refused refusal))
     | None \<Rightarrow>
       (let m = sx_parse env raw;
            s1 = (if mail_from = [] then snd (record_bounces env now raw s) else s);
            an = analyse env m mail_from helo raw remote_ip (int (length recipients))
        in if MAX_HOPS \<le> length (get_all_fields ''Received'' (mime_fields m))
           then (s1, Inr (refused ''Too many hops, possible mail loop''))
           else let routes = route_all now (routing_of s1) recipients
                in deliver_routed env now mail_from routes (stamped env an remote_ip helo (targets_of env routes) m) an s1))"

end
