(* ===== verification/Smtp_Safety.thy ===== *)
theory Smtp_Safety
  imports Smtp
begin

text \<open>
  What a message can cause: where each row that \<open>deliver\<close> puts in the outbound queue comes from, and
  from it that the server is no relay, that junk stays, that loops end, and that a login sends only
  as itself.
\<close>

section \<open>Where a queued row comes from\<close>

definition queues :: "(queue_row \<Rightarrow> bool) \<Rightarrow> smtp_state \<Rightarrow> smtp_state \<Rightarrow> bool" where
  "queues P s s' \<longleftrightarrow> (\<exists>rows. sm_queue s' = sm_queue s @ rows \<and> list_all P rows) \<and> sm_db s' = sm_db s"

lemma queues_refl [intro, simp]: "sm_queue s' = sm_queue s \<Longrightarrow> sm_db s' = sm_db s \<Longrightarrow> queues P s s'"
  by (auto simp: queues_def intro: exI [of _ "[]"])

lemma queues_trans: "queues P s t \<Longrightarrow> queues P t u \<Longrightarrow> queues P s u"
  unfolding queues_def by (metis append.assoc list_all_append)

lemma queues_mono: "queues P s t \<Longrightarrow> (\<And>q. P q \<Longrightarrow> Q q) \<Longrightarrow> queues Q s t"
  unfolding queues_def by (blast intro: list.pred_mono_strong)

lemma queue_mail_row:
  assumes "queue_mail env now d from_addr recipients m envelope_from s = Inr s'"
  shows "queues (\<lambda>q. q_to_addrs q = recipients \<and> q_from_addr q = from_addr \<and> q_envelope_from q = envelope_from \<and>
      q_raw q = Some (sx_as_bytes env (map_fields (\<lambda>fs. snd (strip_controlled fs)) m))) s s' \<and>
    sm_replies s' = sm_replies s"
proof -
  obtain i q where e: "enqueue (sx_uuid env (length (sm_queue s))) now (d_org_id d) (d_id d) from_addr recipients
      (or_else (mime_get ''Subject'' m) []) (case get_body ''plain'' m of None \<Rightarrow> [] | Some i \<Rightarrow> text_of (walk m ! i))
      None [] DEFAULT_MAX_ATTEMPTS (Some (sx_as_bytes env (map_fields (\<lambda>fs. snd (strip_controlled fs)) m))) envelope_from
      (sm_queue s) = Inr (i, q)" and s': "s' = s\<lparr>sm_queue := q\<rparr>"
    using assms by (auto simp: queue_mail_def Let_def split: sum.splits)
  from e have "\<exists>row. q = sm_queue s @ [row] \<and> q_to_addrs row = recipients \<and> q_from_addr row = from_addr \<and>
      q_envelope_from row = envelope_from \<and> q_raw row = Some (sx_as_bytes env (map_fields (\<lambda>fs. snd (strip_controlled fs)) m))"
    by (auto simp: enqueue_def split: if_splits)
  with s' show ?thesis by (auto simp: queues_def)
qed

lemma send_outbound_queues:
  assumes "send_outbound env now mail_from outbound m (s, v) = Inr (s', v')"
  shows "queues (\<lambda>q. outbound \<noteq> [] \<and> q_to_addrs q = outbound \<and> q_from_addr q = mail_from) s s' \<and> sm_replies s' = sm_replies s"
proof (cases "outbound = []")
  case True
  then show ?thesis using assms by (simp add: send_outbound_def)
next
  case False
  then obtain b where "enqueue_outbound env now mail_from outbound m s = Inr (b, s')"
    using assms by (auto simp: send_outbound_def res_simps split_beta)
  then show ?thesis using False
    by (auto simp: enqueue_outbound_def res_simps Let_def split: sum.splits intro: queues_mono dest!: queue_mail_row)
qed

lemma forward_one_queues:
  assumes "forward_one env now mail_from m g (s, v) = Inr (s', v')"
  shows "queues (\<lambda>q. set (q_to_addrs q) = set (snd g) \<and>
      (\<exists>t. q_raw q = Some (sx_as_bytes env (map_fields (\<lambda>fs. snd (strip_controlled fs))
        (wrap_forward (sx_lib env) m (alias_address_of (fst g)) t (sx_msgid env) (sx_stamp env)))))) s s'"
proof (cases "\<exists>i al. ro_domain_id (fst g) = Some i \<and> ro_alias_id (fst g) = Some al")
  case False
  then show ?thesis using assms by (auto simp: forward_one_def split_beta split: option.splits)
next
  case True
  then obtain d sender t e replies' where
    q: "queue_mail env now d sender (fromkeys (snd g)) (wrap_forward (sx_lib env) m (alias_address_of (fst g)) t (sx_msgid env) (sx_stamp env))
      (Some e) (s\<lparr>sm_replies := replies'\<rparr>) = Inr s'"
    using assms by (auto simp: forward_one_def Let_def split_beta res_simps split: option.splits sum.splits)
  from queue_mail_row [OF q] have "queues (\<lambda>q. q_to_addrs q = fromkeys (snd g) \<and> q_raw q = Some (sx_as_bytes env
      (map_fields (\<lambda>fs. snd (strip_controlled fs)) (wrap_forward (sx_lib env) m (alias_address_of (fst g)) t (sx_msgid env) (sx_stamp env))))) s s'"
    by (auto simp: queues_def list_all_iff)
  then show ?thesis by (rule queues_mono) auto
qed

lemma forward_each_queues:
  "forward_each env now mail_from m gs (s, v) = Inr (s', v') \<Longrightarrow>
    queues (\<lambda>q. \<exists>g \<in> set gs. set (q_to_addrs q) = set (snd g) \<and>
      (\<exists>t. q_raw q = Some (sx_as_bytes env (map_fields (\<lambda>fs. snd (strip_controlled fs))
        (wrap_forward (sx_lib env) m (alias_address_of (fst g)) t (sx_msgid env) (sx_stamp env)))))) s s'"
proof (induction gs arbitrary: s v)
  case Nil
  then show ?case by simp
next
  case (Cons g gs)
  then obtain s1 v1 where f: "forward_one env now mail_from m g (s, v) = Inr (s1, v1)"
    "forward_each env now mail_from m gs (s1, v1) = Inr (s', v')" by (auto simp: res_simps)
  have a: "queues (\<lambda>q. \<exists>g' \<in> set (g # gs). set (q_to_addrs q) = set (snd g') \<and>
      (\<exists>t. q_raw q = Some (sx_as_bytes env (map_fields (\<lambda>fs. snd (strip_controlled fs))
        (wrap_forward (sx_lib env) m (alias_address_of (fst g')) t (sx_msgid env) (sx_stamp env)))))) s s1"
    by (rule queues_mono [OF forward_one_queues [OF f(1)]]) auto
  show ?case by (rule queues_trans [OF a queues_mono [OF Cons.IH [OF f(2)]]]) auto
qed

lemma relay_one_queues:
  assumes "relay_one env now mail_from m an recipient reply (local, s, v) = Inr (local', s', v')"
  shows "queues (\<lambda>q. \<not> an_is_spam an \<and> rr_kind reply = BRIDGE_ROUTE \<and>
      accepts_reply_from reply [norm_addr mail_from, header_address (sx_lib env) m] \<and>
      q_to_addrs q = [rr_original_from reply] \<and> q_from_addr q = rr_local_address reply) s s'"
proof (cases "norm_addr mail_from = [] \<or> \<not> (rr_kind reply = BRIDGE_ROUTE \<and>
    accepts_reply_from reply [norm_addr mail_from, header_address (sx_lib env) m]) \<or> an_is_spam an")
  case True
  then have "s' = s" using assms by (auto simp: relay_one_def Let_def split: if_splits)
  then show ?thesis by simp
next
  case False
  then obtain d copy where "queue_mail env now d (rr_local_address reply) [rr_original_from reply] copy
      (Some (rr_local_address reply)) s = Inr s'"
    using assms by (auto simp: relay_one_def Let_def res_simps split: option.splits sum.splits)
  from queue_mail_row [OF this] show ?thesis using False by (auto elim!: queues_mono)
qed

lemma relay_each_queues:
  "relay_each env now mail_from m an rs (local, s, v) = Inr (local', s', v') \<Longrightarrow>
    queues (\<lambda>q. \<not> an_is_spam an \<and> (\<exists>reply \<in> snd ` set rs. rr_kind reply = BRIDGE_ROUTE \<and>
      accepts_reply_from reply [norm_addr mail_from, header_address (sx_lib env) m] \<and>
      q_to_addrs q = [rr_original_from reply] \<and> q_from_addr q = rr_local_address reply)) s s'"
proof (induction rs arbitrary: local s v)
  case Nil
  then show ?case by simp
next
  case (Cons r rs)
  obtain recipient reply where r: "r = (recipient, reply)" by (cases r)
  with Cons.prems obtain l1 s1 v1 where f: "relay_one env now mail_from m an recipient reply (local, s, v) = Inr (l1, s1, v1)"
    "relay_each env now mail_from m an rs (l1, s1, v1) = Inr (local', s', v')" by (auto simp: res_simps)
  have a: "queues (\<lambda>q. \<not> an_is_spam an \<and> (\<exists>reply \<in> snd ` set (r # rs). rr_kind reply = BRIDGE_ROUTE \<and>
      accepts_reply_from reply [norm_addr mail_from, header_address (sx_lib env) m] \<and>
      q_to_addrs q = [rr_original_from reply] \<and> q_from_addr q = rr_local_address reply)) s s1"
    by (rule queues_mono [OF relay_one_queues [OF f(1)]]) (auto simp: r)
  show ?case by (rule queues_trans [OF a queues_mono [OF Cons.IH [OF f(2)]]]) auto
qed

lemma finish_local_queues: "finish_local env mail_from routes extra m an (s, v) = (s', r) \<Longrightarrow> queues P s s'"
  by (auto simp: finish_local_def notify_def Let_def split: if_splits sum.splits prod.splits bool.splits)

text \<open>The three origins: submitted mail for people elsewhere, an alias's copy, a relayed reply.\<close>

definition row_origin :: "smtp_env \<Rightarrow> string \<Rightarrow> mime \<Rightarrow> analysis \<Rightarrow> route list \<Rightarrow> queue_row \<Rightarrow> bool" where
  "row_origin env mail_from m an routes q \<longleftrightarrow>
    outbound_of env routes \<noteq> [] \<and> q_to_addrs q = outbound_of env routes \<and> q_from_addr q = mail_from \<or>
    \<not> an_is_spam an \<and> (\<exists>r \<in> set routes. ro_forward_to r \<noteq> [] \<and> set (q_to_addrs q) \<subseteq> norm_addr ` set (ro_forward_to r) \<and>
      (\<exists>t. q_raw q = Some (sx_as_bytes env (map_fields (\<lambda>fs. snd (strip_controlled fs))
        (wrap_forward (sx_lib env) m (alias_address_of r) t (sx_msgid env) (sx_stamp env)))))) \<or>
    \<not> an_is_spam an \<and> (\<exists>r \<in> set routes. ro_disposition r = REPLY \<and> (let reply = the (ro_reply r) in
      rr_kind reply = BRIDGE_ROUTE \<and> accepts_reply_from reply [norm_addr mail_from, header_address (sx_lib env) m] \<and>
      q_to_addrs q = [rr_original_from reply] \<and> q_from_addr q = rr_local_address reply))"

lemma external_groups:
  "g \<in> set (external_copies db (forwards_of routes)) \<Longrightarrow>
    fst g \<in> set routes \<and> ro_forward_to (fst g) \<noteq> [] \<and> set (snd g) \<subseteq> norm_addr ` set (ro_forward_to (fst g))"
  by (auto simp: external_copies_def forwards_of_def filter_empty_conv)

lemma forward_all_origin:
  assumes "forward_all env now (forwards_of routes) mail_from m an (s, v) = Inr (copies, s', v')"
  shows "queues (row_origin env mail_from m an routes) s s'"
proof (cases "an_is_spam an")
  case True
  then show ?thesis using assms by (auto simp: forward_all_def Let_def)
next
  case False
  then have "forward_each env now mail_from m (external_copies (sm_db s) (forwards_of routes)) (s, v) = Inr (s', v')"
    using assms by (auto simp: forward_all_def Let_def res_simps)
  then show ?thesis
    by (rule queues_mono [OF forward_each_queues]) (use False external_groups in \<open>unfold row_origin_def, blast\<close>)
qed

lemma relay_each_origin:
  assumes "relay_each env now mail_from m an (replies_of routes) (local, s, v) = Inr (kept, s', v')"
  shows "queues (row_origin env mail_from m an routes) s s'"
  by (rule queues_mono [OF relay_each_queues [OF assms]]) (auto simp: row_origin_def replies_of_def Let_def)

lemma deliver_routed_origin:
  assumes "deliver_routed env now mail_from routes m an s = (s', r)"
  shows "queues (row_origin env mail_from m an routes) s s'"
proof (cases "send_outbound env now mail_from (outbound_of env routes) m (s, no_outcome\<lparr>dv_rejected := turned_away env routes\<rparr>)")
  case (Inl e)
  then show ?thesis using assms by (simp add: deliver_routed_def)
next
  case (Inr so1)
  obtain s1 v1 where so1: "so1 = (s1, v1)" by (cases so1)
  have 1: "queues (row_origin env mail_from m an routes) s s1"
    using send_outbound_queues [OF Inr [unfolded so1]] by (auto elim!: queues_mono simp: row_origin_def)
  show ?thesis
  proof (cases "forward_all env now (forwards_of routes) mail_from m an (s1, v1)")
    case (Inl e)
    then show ?thesis using assms Inr so1 1 by (simp add: deliver_routed_def)
  next
    case F: (Inr cso)
    obtain copies s2 v2 where cso: "cso = (copies, s2, v2)" by (cases cso)
    note 2 = queues_trans [OF 1 forward_all_origin [OF F [unfolded cso]]]
    show ?thesis
    proof (cases "relay_each env now mail_from m an (replies_of routes) ([], s2, v2)")
      case (Inl e)
      then show ?thesis using assms Inr so1 F cso 2 by (simp add: deliver_routed_def)
    next
      case R: (Inr kso)
      obtain kept s3 v3 where kso: "kso = (kept, s3, v3)" by (cases kso)
      note 3 = queues_trans [OF 2 relay_each_origin [OF R [unfolded kso]]]
      have "finish_local env mail_from routes (copies @ kept) m an (s3, v3) = (s', r)"
        using assms Inr so1 F cso R kso by (simp add: deliver_routed_def)
      then show ?thesis using 3 finish_local_queues queues_trans by blast
    qed
  qed
qed

section \<open>No relay\<close>

lemma smtp_deliver_origin:
  assumes "smtp_deliver env now mail_from recipients raw remote_ip helo who s = (s', r)"
  obtains (no_row) "sm_queue s' = sm_queue s"
  | (rows) s1 routes m an where "sm_db s1 = sm_db s" "sm_replies s1 = sm_replies s" "routes = route_all now (routing_of s1) recipients"
      "an = analyse env (sx_parse env raw) mail_from helo raw remote_ip (int (length recipients))"
      "m = stamped env an remote_ip helo (targets_of env routes) (sx_parse env raw)"
      "queues (row_origin env mail_from m an routes) s s'"
      "length (get_all_fields ''Received'' (mime_fields (sx_parse env raw))) < MAX_HOPS"
      "\<forall>a. who = Some a \<longrightarrow> may_send a mail_from (sm_db s) = None"
proof -
  let ?s1 = "if mail_from = [] then snd (record_bounces env now raw s) else s"
  have s1: "sm_queue ?s1 = sm_queue s" "sm_db ?s1 = sm_db s" "sm_replies ?s1 = sm_replies s"
    by (auto simp: record_bounces_def split_beta)
  show thesis
  proof (cases "Option.bind who (\<lambda>w. may_send w mail_from (sm_db s)) = None \<and>
      \<not> MAX_HOPS \<le> length (get_all_fields ''Received'' (mime_fields (sx_parse env raw)))")
    case False
    then have "sm_queue s' = sm_queue s"
      using assms s1(1) by (auto simp: smtp_deliver_def Let_def split: option.splits if_splits)
    then show thesis by (rule no_row)
  next
    case True
    let ?routes = "route_all now (routing_of ?s1) recipients"
    let ?an = "analyse env (sx_parse env raw) mail_from helo raw remote_ip (int (length recipients))"
    have "deliver_routed env now mail_from ?routes (stamped env ?an remote_ip helo (targets_of env ?routes) (sx_parse env raw)) ?an ?s1 = (s', r)"
      using assms True by (simp only: smtp_deliver_def Let_def option.case if_False)
    from deliver_routed_origin [OF this] s1(1,2)
    have "queues (row_origin env mail_from (stamped env ?an remote_ip helo (targets_of env ?routes) (sx_parse env raw)) ?an ?routes) s s'"
      by (simp add: queues_def)
    then show thesis using True s1 by (intro rows [of ?s1 ?routes ?an]) (auto simp: not_le)
  qed
qed

lemma get_all_ensure:
  "lower n \<noteq> lower f \<Longrightarrow> get_all_fields n (ensure_field f x fs) = get_all_fields n fs"
  by (simp add: ensure_field_def get_all_fields_add)

lemma get_all_received:
  "get_all_fields n (add_received h ip helo rcpt i t fs) = (if lower n = ''received'' then [snd (hd (add_received h ip helo rcpt i t fs))] else []) @ get_all_fields n fs"
proof -
  have "lower ''Received'' = ''received''" by code_simp
  then show ?thesis by (auto simp: add_received_def get_all_fields_def)
qed

lemma stamped_other:
  assumes "lower n \<notin> lower ` set CONTROLLED_HEADERS" "lower n \<notin> {''date'', ''message-id''}"
  shows "length (get_all_fields n (mime_fields (stamped env an remote_ip helo targets m))) =
      length (get_all_fields n (mime_fields m)) + (if lower n = ''received'' \<and> targets \<noteq> [] then 1 else 0)"
    and "lower n \<noteq> ''received'' \<Longrightarrow>
      get_all_fields n (mime_fields (stamped env an remote_ip helo targets m)) = get_all_fields n (mime_fields m)"
proof -
  have "lower ''Date'' = ''date''" "lower ''Message-ID'' = ''message-id''" by code_simp+
  then have "lower n \<noteq> lower ''Date''" "lower n \<noteq> lower ''Message-ID''" using assms(2) by auto
  then have *: "get_all_fields n (ensure_field ''Date'' x fs) = get_all_fields n fs"
    "get_all_fields n (ensure_field ''Message-ID'' x fs) = get_all_fields n fs"
    "get_all_fields n (apply_analysis an (sx_hostname env) fs) = get_all_fields n fs" for x fs
    by (simp_all add: get_all_ensure apply_analysis_other [OF assms(1)])
  show "length (get_all_fields n (mime_fields (stamped env an remote_ip helo targets m))) =
      length (get_all_fields n (mime_fields m)) + (if lower n = ''received'' \<and> targets \<noteq> [] then 1 else 0)"
    by (simp add: stamped_def map_fields_def get_all_received * split: list.split)
  show "lower n \<noteq> ''received'' \<Longrightarrow>
      get_all_fields n (mime_fields (stamped env an remote_ip helo targets m)) = get_all_fields n (mime_fields m)"
    by (simp add: stamped_def map_fields_def get_all_received * split: list.split)
qed

lemma stamped_header_address:
  "header_address ml (stamped env an remote_ip helo targets m) = header_address ml m"
proof -
  have "lower ''From'' \<notin> lower ` set CONTROLLED_HEADERS" "lower ''From'' \<notin> {''date'', ''message-id''}" "lower ''From'' \<noteq> ''received''"
    by code_simp+
  from stamped_other(2) [OF this] show ?thesis by (simp add: header_address_def mime_get_def get_field_all)
qed

lemma not_sent_onward: "\<not> sx_submission env \<Longrightarrow> outbound_of env routes = []"
  by (simp add: outbound_of_def sent_onward_def filter_empty_conv)

lemma route_reply_stored:
  "ro_disposition (route_to now rdb recipient) = REPLY \<Longrightarrow>
    the (ro_reply (route_to now rdb recipient)) \<in> set (rt_replies rdb) \<and>
    \<not> route_expired now (the (ro_reply (route_to now rdb recipient)))"
  by (cases rule: route_to_cases [of recipient now rdb])
     (auto simp: route_defs reply_get_def Let_def split: option.splits if_splits sum.splits dest!: first_row_filterD)

text \<open>The address is the reply address of a token.\<close>

definition names_token :: "string \<Rightarrow> string \<Rightarrow> bool" where
  "names_token x token \<longleftrightarrow> map_option lower (token_from (fst (split_first CHR ''@'' (norm_addr x)))) = Some token"

lemma route_reply_named:
  "ro_disposition (route_to now rdb x) = REPLY \<Longrightarrow> names_token x (rr_token (the (ro_reply (route_to now rdb x))))"
  by (cases rule: route_to_cases [of x now rdb])
     (auto simp: names_token_def route_defs reply_get_def Let_def split: option.splits if_splits sum.splits dest!: first_row_filterD)

lemma receive_row_cases:
  assumes "\<not> sx_submission env" and "row_origin env mail_from m an (route_all now rdb recipients) q"
  obtains (alias_copy) x t where "x \<in> set recipients" "ro_forward_to (route_to now rdb x) \<noteq> []"
      "set (q_to_addrs q) \<subseteq> norm_addr ` set (ro_forward_to (route_to now rdb x))"
      "q_raw q = Some (sx_as_bytes env (map_fields (\<lambda>fs. snd (strip_controlled fs))
        (wrap_forward (sx_lib env) m (alias_address_of (route_to now rdb x)) t (sx_msgid env) (sx_stamp env))))"
  | (relayed) reply where "reply \<in> set (rt_replies rdb)" "\<not> route_expired now reply" "rr_kind reply = BRIDGE_ROUTE"
      "accepts_reply_from reply [norm_addr mail_from, header_address (sx_lib env) m]"
      "q_to_addrs q = [rr_original_from reply]" "q_from_addr q = rr_local_address reply"
      "\<exists>x \<in> set recipients. names_token x (rr_token reply)"
proof -
  from assms(2) not_sent_onward [OF assms(1)] consider
    (a) x t where "x \<in> set recipients" "ro_forward_to (route_to now rdb x) \<noteq> []"
      "set (q_to_addrs q) \<subseteq> norm_addr ` set (ro_forward_to (route_to now rdb x))"
      "q_raw q = Some (sx_as_bytes env (map_fields (\<lambda>fs. snd (strip_controlled fs))
        (wrap_forward (sx_lib env) m (alias_address_of (route_to now rdb x)) t (sx_msgid env) (sx_stamp env))))"
  | (b) x where "x \<in> set recipients" "ro_disposition (route_to now rdb x) = REPLY" "rr_kind (the (ro_reply (route_to now rdb x))) = BRIDGE_ROUTE"
      "accepts_reply_from (the (ro_reply (route_to now rdb x))) [norm_addr mail_from, header_address (sx_lib env) m]"
      "q_to_addrs q = [rr_original_from (the (ro_reply (route_to now rdb x)))]"
      "q_from_addr q = rr_local_address (the (ro_reply (route_to now rdb x)))"
    unfolding row_origin_def route_all_def Let_def by auto
  then show thesis
  proof cases
    case (a x t)
    then show thesis by (rule alias_copy)
  next
    case (b x)
    note stored = route_reply_stored [OF b(2)]
    show thesis
      by (rule relayed [OF conjunct1 [OF stored] conjunct2 [OF stored] b(3-6)]) (use b(1) route_reply_named [OF b(2)] in blast)
  qed
qed

lemma norm_leads_to: "leads_to db d a \<Longrightarrow> norm_addr a = a"
  by (induction rule: leads_to.induct) simp_all

definition alias_leads :: "database \<Rightarrow> string list \<Rightarrow> bool" where
  "alias_leads db addrs \<longleftrightarrow>
    (\<exists>al \<in> set (aliases db). al_is_active al \<and> (\<forall>a \<in> set addrs. \<exists>d \<in> set (al_destinations al). leads_to db d a))"

lemma forward_leads:
  assumes "ro_forward_to (route_to now rdb recipient) \<noteq> []"
    and "set addrs \<subseteq> norm_addr ` set (ro_forward_to (route_to now rdb recipient))"
  shows "alias_leads (rt_db rdb) addrs"
proof -
  obtain al where al: "al \<in> set (aliases (rt_db rdb))" "al_is_active al"
    "set (ro_forward_to (route_to now rdb recipient)) = {a. \<exists>dest \<in> set (al_destinations al). leads_to (rt_db rdb) dest a}"
    using forwards_follow_alias [OF assms(1)] by blast
  have "\<exists>d \<in> set (al_destinations al). leads_to (rt_db rdb) d a" if "a \<in> set addrs" for a
  proof -
    from that assms(2) obtain b where "a = norm_addr b" "b \<in> set (ro_forward_to (route_to now rdb recipient))" by blast
    with al(3) norm_leads_to show ?thesis by auto
  qed
  with al(1,2) show ?thesis by (auto simp: alias_leads_def)
qed

text \<open>
  C1. The receive listener is no relay: whatever message is accepted there, for whatever recipients
  and whoever claims to send it, every row it adds to the outbound queue goes to addresses that an
  active alias of ours leads to, or is a reply from a place a bridged copy went to, to the one
  person the stored, unexpired token was made for and from the alias's address.
\<close>

theorem receive_never_relays:
  assumes "\<not> sx_submission env"
    and "smtp_deliver env now mail_from recipients raw remote_ip helo who s = (s', r)"
  shows "\<exists>rows. sm_queue s' = sm_queue s @ rows \<and> list_all (\<lambda>q.
    alias_leads (sm_db s) (q_to_addrs q) \<or>
    (\<exists>rr \<in> set (sm_replies s). rr_kind rr = BRIDGE_ROUTE \<and> \<not> route_expired now rr \<and>
       accepts_reply_from rr [norm_addr mail_from, header_address (sx_lib env) (sx_parse env raw)] \<and>
       q_to_addrs q = [rr_original_from rr] \<and> q_from_addr q = rr_local_address rr)) rows"
  using assms(2)
proof (cases rule: smtp_deliver_origin)
  case no_row
  then show ?thesis by (intro exI [of _ "[]"]) simp
next
  case (rows s1 routes m an)
  have from_kept: "header_address (sx_lib env) m = header_address (sx_lib env) (sx_parse env raw)"
    unfolding rows(5) by (rule stamped_header_address)
  have db: "rt_db (routing_of s1) = sm_db s" "rt_replies (routing_of s1) = sm_replies s"
    using rows(1,2) by (simp_all add: routing_of_def)
  have earned: "alias_leads (sm_db s) (q_to_addrs q) \<or>
    (\<exists>rr \<in> set (sm_replies s). rr_kind rr = BRIDGE_ROUTE \<and> \<not> route_expired now rr \<and>
       accepts_reply_from rr [norm_addr mail_from, header_address (sx_lib env) (sx_parse env raw)] \<and>
       q_to_addrs q = [rr_original_from rr] \<and> q_from_addr q = rr_local_address rr)"
    if q: "row_origin env mail_from m an routes q" for q
  proof -
    from assms(1) q [unfolded rows(3)] show ?thesis
    proof (cases rule: receive_row_cases)
      case (alias_copy x t)
      then show ?thesis using forward_leads db by metis
    next
      case (relayed rr)
      have "accepts_reply_from rr [norm_addr mail_from, header_address (sx_lib env) (sx_parse env raw)]"
        using relayed(4) unfolding from_kept .
      with relayed(1-3,5,6) show ?thesis unfolding db by auto
    qed
  qed
  obtain qs where qs: "sm_queue s' = sm_queue s @ qs" "list_all (row_origin env mail_from m an routes) qs"
    using rows(6) unfolding queues_def by blast
  show ?thesis by (rule exI [of _ qs], rule conjI, rule qs(1), rule list.pred_mono_strong [OF qs(2)], rule earned)
qed

text \<open>
  Junk stays here: a message judged to be spam adds nothing to the outbound queue, neither an
  alias's copy nor a relayed reply.
\<close>

theorem junk_stays_here:
  assumes "\<not> sx_submission env"
    and "an_is_spam (analyse env (sx_parse env raw) mail_from helo raw remote_ip (int (length recipients)))"
  shows "sm_queue (fst (smtp_deliver env now mail_from recipients raw remote_ip helo who s)) = sm_queue s"
proof -
  obtain s' r where sr: "smtp_deliver env now mail_from recipients raw remote_ip helo who s = (s', r)" by fastforce
  from sr have "sm_queue s' = sm_queue s"
  proof (cases rule: smtp_deliver_origin)
    case (rows s1 routes m an)
    then obtain qs where qs: "sm_queue s' = sm_queue s @ qs" "list_all (row_origin env mail_from m an routes) qs"
      by (auto simp: queues_def)
    have "\<not> row_origin env mail_from m an routes q" for q
      using not_sent_onward [OF assms(1)] assms(2) rows(4) by (simp add: row_origin_def)
    with qs show ?thesis by (cases qs) simp_all
  qed
  with sr show ?thesis by simp
qed

section \<open>Loops end\<close>

definition hops :: "mime \<Rightarrow> nat" where
  "hops m = length (get_all_fields ''Received'' (mime_fields m))"

lemma get_all_append: "get_all_fields n (fs @ gs) = get_all_fields n fs @ get_all_fields n gs"
  by (simp add: get_all_fields_def)

lemma get_all_Cons: "get_all_fields n ((k, x) # fs) = (if lower k = lower n then [x] else []) @ get_all_fields n fs"
  by (simp add: get_all_fields_def)

lemma get_all_Nil: "get_all_fields n [] = []"
  by (simp add: get_all_fields_def)

lemma received_not_controlled: "lower ''Received'' \<notin> lower ` set CONTROLLED_HEADERS"
  "lower ''Received'' \<notin> {''date'', ''message-id''}" "lower ''Received'' = ''received''"
  by code_simp+

lemma hops_strip: "hops (map_fields (\<lambda>fs. snd (strip_controlled fs)) m) = hops m"
  using received_not_controlled(1) by (simp add: hops_def map_fields_def strip_controlled_def del_all_fields)

lemma hops_wrapped: "hops (wrap_forward ml m a t msgid stamp) = hops m"
proof -
  have names: "list_all (\<lambda>n. lower n \<noteq> lower ''Received'')
      [''From'', ''To'', ''Reply-To'', ''Subject'', ''Date'', ''Message-ID'', ''References'', ''In-Reply-To'']" by code_simp
  have received: "length (get_all_fields ''Received'' (map (\<lambda>v. (''Received'', f v)) vs)) = length vs" for f vs
    by (induction vs) (simp_all add: get_all_fields_def)
  have "length (get_all_fields ''Received'' (wrapped_fields ml m a t msgid stamp)) = hops m"
    using names by (simp add: wrapped_fields_def Let_def get_all_append get_all_Cons get_all_Nil received hops_def opt_field_def)
  then show ?thesis by (simp add: hops_def wrap_forward_def Let_def)
qed

lemma hops_stamped: "hops (stamped env an remote_ip helo targets m) = hops m + (if targets = [] then 0 else 1)"
  using stamped_other(1) [OF received_not_controlled(1,2)] received_not_controlled(3) by (simp add: hops_def)

lemma forward_targets: "r \<in> set routes \<Longrightarrow> \<not> rejected r \<Longrightarrow> ro_disposition r \<noteq> REPLY \<Longrightarrow> ro_forward_to r \<noteq> [] \<Longrightarrow>
    targets_of env routes \<noteq> []"
  by (auto simp: targets_of_def forwards_of_def)

lemma forwarding_route:
  "ro_forward_to (route_to now rdb x) \<noteq> [] \<Longrightarrow> \<not> rejected (route_to now rdb x) \<and> ro_disposition (route_to now rdb x) \<noteq> REPLY"
  by (cases rule: route_to_cases [of x now rdb])
     (auto simp: route_defs rejected_def Let_def split: option.splits if_splits sum.splits)

text \<open>
  C5. A message that goes round from alias to alias ends: each row a message causes on the receive listener
  carries one trace field more than the message that came in, and a message with thirty of them is
  refused for good, with nothing delivered and nothing queued. The one exception is a reply: a recipient is
  the reply address of a stored bridge, the message comes from someone the bridge accepts, and the row
  goes to the one person the bridge was made for.
\<close>

theorem loops_end:
  assumes "\<not> sx_submission env"
    and "smtp_deliver env now mail_from recipients raw remote_ip helo None s = (s', r)"
  shows "if MAX_HOPS \<le> hops (sx_parse env raw)
    then sm_queue s' = sm_queue s \<and>
      (\<exists>v. r = Inr v \<and> dv_delivered v = [] \<and> smtp_response v = ''554 5.7.1 Too many hops, possible mail loop'')
    else \<exists>rows. sm_queue s' = sm_queue s @ rows \<and> list_all (\<lambda>q.
      (\<exists>rr \<in> set (sm_replies s). (\<exists>x \<in> set recipients. names_token x (rr_token rr)) \<and> rr_kind rr = BRIDGE_ROUTE \<and>
        accepts_reply_from rr [norm_addr mail_from, header_address (sx_lib env) (sx_parse env raw)] \<and> q_to_addrs q = [rr_original_from rr]) \<or>
      (\<exists>w. q_raw q = Some (sx_as_bytes env w) \<and> hops w = Suc (hops (sx_parse env raw)))) rows"
proof (cases "MAX_HOPS \<le> hops (sx_parse env raw)")
  case True
  moreover have "smtp_response (refused ''Too many hops, possible mail loop'') = ''554 5.7.1 Too many hops, possible mail loop''"
    by code_simp
  ultimately show ?thesis
    using assms(2) by (auto simp: smtp_deliver_def Let_def hops_def [symmetric] refused_def no_outcome_def record_bounces_def split_beta)
next
  case False
  from assms(2) show ?thesis
  proof (cases rule: smtp_deliver_origin)
    case no_row
    with False show ?thesis by simp
  next
    case (rows s1 routes m an)
    have counted: "(\<exists>rr \<in> set (sm_replies s). (\<exists>x \<in> set recipients. names_token x (rr_token rr)) \<and> rr_kind rr = BRIDGE_ROUTE \<and>
        accepts_reply_from rr [norm_addr mail_from, header_address (sx_lib env) (sx_parse env raw)] \<and> q_to_addrs q = [rr_original_from rr]) \<or>
      (\<exists>w. q_raw q = Some (sx_as_bytes env w) \<and> hops w = Suc (hops (sx_parse env raw)))"
      if q: "row_origin env mail_from m an routes q" for q
    proof -
      from assms(1) q [unfolded rows(3)] show ?thesis
      proof (cases rule: receive_row_cases)
        case (alias_copy x t)
        then have "targets_of env routes \<noteq> []"
          using forwarding_route forward_targets [of "route_to now (routing_of s1) x"] unfolding rows(3) route_all_def by auto
        then have "hops m = Suc (hops (sx_parse env raw))" unfolding rows(5) by (simp add: hops_stamped)
        with alias_copy(4) show ?thesis by (metis hops_strip hops_wrapped)
      next
        case (relayed rr)
        have "accepts_reply_from rr [norm_addr mail_from, header_address (sx_lib env) (sx_parse env raw)]"
          using relayed(4) unfolding rows(5) stamped_header_address .
        then show ?thesis using relayed(1,3,5,7) rows(2) by (auto simp: routing_of_def)
      qed
    qed
    obtain qs where qs: "sm_queue s' = sm_queue s @ qs" "list_all (row_origin env mail_from m an routes) qs"
      using rows(6) unfolding queues_def by blast
    show ?thesis unfolding if_not_P [OF False]
      by (rule exI [of _ qs], rule conjI, rule qs(1), rule list.pred_mono_strong [OF qs(2)], rule counted)
  qed
qed

section \<open>A login sends as itself\<close>

definition owns_sender :: "string \<Rightarrow> string \<Rightarrow> database \<Rightarrow> bool" where
  "owns_sender login sender db \<longleftrightarrow> login = sender \<or>
    (\<exists>d al. domain_resolve (snd (split_first CHR ''@'' sender)) db = Inr d \<and> al \<in> set (aliases db) \<and> al_is_active al \<and>
       al_domain_id al = d_id d \<and> al_source al = fst (split_first CHR ''@'' sender) \<and> login \<in> norm_addr ` set (al_destinations al))"

lemma may_send_iff:
  "may_send who mail_from db = None \<longleftrightarrow>
    (\<exists>a. account_find (norm_addr who) db = Some a \<and> a_can_send a \<and>
      (norm_addr mail_from = norm_addr who \<or>
       CHR ''@'' \<in> set (norm_addr mail_from) \<and>
       (\<exists>d al. domain_resolve (snd (split_first CHR ''@'' (norm_addr mail_from))) db = Inr d \<and>
          alias_lookup (d_id d) (fst (split_first CHR ''@'' (norm_addr mail_from))) db = Some al \<and>
          norm_addr who \<in> norm_addr ` set (al_destinations al))))"
  by (auto simp: may_send_def Let_def split_beta split: option.splits sum.splits)

text \<open>
  Submitted mail goes out only under an address of the one who logged in: unless the account
  exists, may send, and has the envelope sender as its address or an active alias of ours under
  that address delivers to it, the message is refused for good and nothing changes, no row, no
  delivery, no bounce.
\<close>

theorem logins_send_as_themselves:
  assumes "smtp_deliver env now mail_from recipients raw remote_ip helo (Some who) s = (s', r)"
  shows "(\<exists>a. account_find (norm_addr who) (sm_db s) = Some a \<and> a_can_send a \<and>
      owns_sender (norm_addr who) (norm_addr mail_from) (sm_db s)) \<or>
    s' = s \<and> (\<exists>v. r = Inr v \<and> dv_delivered v = [] \<and> dv_forwarded v = [] \<and> starts_with ''554'' (smtp_response v))"
proof (cases "may_send who mail_from (sm_db s)")
  case None
  then obtain a where a: "account_find (norm_addr who) (sm_db s) = Some a" "a_can_send a"
    and o: "norm_addr mail_from = norm_addr who \<or>
       (\<exists>d al. domain_resolve (snd (split_first CHR ''@'' (norm_addr mail_from))) (sm_db s) = Inr d \<and>
          alias_lookup (d_id d) (fst (split_first CHR ''@'' (norm_addr mail_from))) (sm_db s) = Some al \<and>
          norm_addr who \<in> norm_addr ` set (al_destinations al))"
    unfolding may_send_iff by blast
  have "owns_sender (norm_addr who) (norm_addr mail_from) (sm_db s)"
    using o
  proof
    assume "norm_addr mail_from = norm_addr who"
    then show ?thesis by (simp add: owns_sender_def)
  next
    assume "\<exists>d al. domain_resolve (snd (split_first CHR ''@'' (norm_addr mail_from))) (sm_db s) = Inr d \<and>
          alias_lookup (d_id d) (fst (split_first CHR ''@'' (norm_addr mail_from))) (sm_db s) = Some al \<and>
          norm_addr who \<in> norm_addr ` set (al_destinations al)"
    then obtain d al where da: "domain_resolve (snd (split_first CHR ''@'' (norm_addr mail_from))) (sm_db s) = Inr d"
      "alias_lookup (d_id d) (fst (split_first CHR ''@'' (norm_addr mail_from))) (sm_db s) = Some al"
      "norm_addr who \<in> norm_addr ` set (al_destinations al)" by blast
    from da(2) have "al \<in> set (aliases (sm_db s)) \<and> al_domain_id al = d_id d \<and>
        al_source al = lower (fst (split_first CHR ''@'' (norm_addr mail_from))) \<and> al_is_active al"
      by (auto simp: alias_lookup_def dest!: first_row_filterD)
    with da(1,3) show ?thesis unfolding owns_sender_def by (metis lower_split_first norm_addr_lower)
  qed
  with a show ?thesis by blast
next
  case (Some e)
  have "e \<noteq> []" using Some by (auto simp: may_send_def Let_def split_beta split: option.splits sum.splits if_splits)
  then have "starts_with ''554'' (smtp_response (refused e))"
    by (simp add: smtp_response_def refused_def no_outcome_def truthy_def starts_with_def)
  moreover have "s' = s" "r = Inr (refused e)" using assms Some by (simp_all add: smtp_deliver_def)
  ultimately show ?thesis by (simp add: refused_def no_outcome_def)
qed

section \<open>What Dovecot refuses\<close>

lemma local_route_box:
  assumes "ro_disposition (route_to now rdb rcpt) = LOCAL"
  shows "ro_mailbox (route_to now rdb rcpt) = Some (norm_addr rcpt)" "norm_addr rcpt \<noteq> []"
    "ro_forward_to (route_to now rdb rcpt) = []"
proof -
  have loc: "delivers_locally (route_to now rdb rcpt)" using assms by (simp add: delivers_locally_def)
  show "ro_mailbox (route_to now rdb rcpt) = Some (norm_addr rcpt)"
  proof (cases rule: route_to_cases [of rcpt now rdb])
    case (account d a)
    then show ?thesis using loc route_account_fields [of rcpt "norm_addr rcpt"] by simp
  next
    case (alias_only d)
    then show ?thesis using assms route_alias_not_local by simp
  qed (use assms in \<open>simp_all add: reject_def plain_route_def\<close>)
  show "norm_addr rcpt \<noteq> []"
    using assms by (auto simp: route_to_def Let_def reject_def plain_route_def)
  show "ro_forward_to (route_to now rdb rcpt) = []"
    using assms by (cases rule: route_to_cases [of rcpt now rdb])
      (auto simp: route_defs Let_def split: option.splits if_splits sum.splits)
qed

text \<open>
  C10. A mailbox that cannot take mail now is reported as one that does not exist: when the only
  recipient has a mailbox here and Dovecot refuses the copy, the answer is a final 550 whatever
  code Dovecot gave, a 452 of a full mailbox too, so the sender bounces the mail instead of trying
  again.
\<close>

theorem full_mailbox_is_final:
  assumes "ro_disposition (route_to now (routing_of s) rcpt) = LOCAL"
    and "mail_from \<noteq> []" and "hops (sx_parse env raw) < MAX_HOPS"
    and "\<And>m. \<exists>ss. hand_over env mail_from [norm_addr rcpt] m = Inr ss \<and> (\<forall>x \<in> set ss. rs_code x \<in> {400..<500})"
  shows "\<exists>v. snd (smtp_deliver env now mail_from [rcpt] raw remote_ip helo None s) = Inr v \<and>
    smtp_response v = ''550 5.1.1 No valid recipients''"
proof -
  let ?r = "route_to now (routing_of s) rcpt"
  have loc: "locals_of [?r] = [?r]" "\<not> rejected ?r" "ro_disposition ?r \<noteq> REPLY"
    using assms(1) by (simp_all add: locals_of_def delivers_locally_def rejected_def)
  have none: "outbound_of env [?r] = []" "turned_away env [?r] = []" "replies_of [?r] = []" "forwards_of [?r] = [(?r, [])]"
    using loc(2,3) local_route_box(3) [OF assms(1)] by (simp_all add: outbound_of_def sent_onward_def turned_away_def replies_of_def forwards_of_def)
  have ext: "external_copies db [(?r, [])] = []" "local_copies db [(?r, [])] = []" for db
    by (simp_all add: external_copies_def local_copies_def)
  have silent: "delivered ss = []" if "\<forall>x \<in> set ss. rs_code x \<in> {400..<500}" for ss
    using that by (auto simp: delivered_def filter_empty_conv status_ok_def)
  have groups: "\<exists>m'. deliver_groups env mail_from [(a, [norm_addr rcpt])] m v = Inr (True, m', v)" for a m v
  proof -
    obtain ss where ss: "hand_over env mail_from [norm_addr rcpt] (mark_action a m) = Inr ss" "delivered ss = []"
      using assms(4) silent by blast
    have "v\<lparr>dv_delivered := dv_delivered v @ delivered ss\<rparr> = v" using ss(2) by simp
    with ss(1) show ?thesis by (simp add: Let_def)
  qed
  note box = local_route_box [OF assms(1)]
  have boxes: "\<exists>a. spam_actions (sm_db s) (mailboxes_of [?r] []) an = [(a, [norm_addr rcpt])]" for an
    using box by (simp add: mailboxes_of_def loc(1) or_else_def spam_actions_def group_append_def fromkeys_def)
  let ?an = "analyse env (sx_parse env raw) mail_from helo raw remote_ip 1"
  let ?m = "stamped env ?an remote_ip helo (targets_of env [?r]) (sx_parse env raw)"
  have routed: "snd (deliver_routed env now mail_from [?r] ?m ?an s) = Inr (no_outcome\<lparr>dv_rejected := []\<rparr>)"
  proof -
    obtain a where a: "spam_actions (sm_db s) (mailboxes_of [?r] []) ?an = [(a, [norm_addr rcpt])]" using boxes by blast
    obtain m' where "deliver_groups env mail_from [(a, [norm_addr rcpt])] ?m (no_outcome\<lparr>dv_rejected := []\<rparr>) =
        Inr (True, m', no_outcome\<lparr>dv_rejected := []\<rparr>)" using groups by blast
    with a show ?thesis
      by (simp add: deliver_routed_def none send_outbound_def forward_all_def ext Let_def finish_local_def loc(1)
          del: deliver_groups.simps)
  qed
  have answer: "smtp_response (no_outcome\<lparr>dv_rejected := []\<rparr>) = ''550 5.1.1 No valid recipients''" by code_simp
  have "snd (smtp_deliver env now mail_from [rcpt] raw remote_ip helo None s) =
      snd (deliver_routed env now mail_from [?r] ?m ?an s)"
    using assms(2,3) by (simp add: smtp_deliver_def Let_def route_all_def hops_def)
  with routed answer show ?thesis by simp
qed

section \<open>A message on a small installation\<close>

definition sample_env :: "mime \<Rightarrow> string list \<Rightarrow> smtp_env" where
  "sample_env m dovecot = \<lparr>sx_submission = False, sx_hostname = ''mail.acme.org'', sx_max_recipients = 2,
     sx_max_message_bytes = 1000, sx_require_tls = True, sx_spam_enabled = True, sx_spam = default_spam_config,
     sx_blocklists = \<lparr>bl_address_zones = [], bl_domain_zones = []\<rparr>, sx_rspamd_url = ''http://r'',
     sx_lib = sample_lib, sx_parse = (\<lambda>_. m), sx_as_bytes = (\<lambda>_. []),
     sx_spf = (\<lambda>_ _ _. NotInstalled), sx_dkim = (\<lambda>_. NotInstalled), sx_txt = (\<lambda>_. TimedOut),
     sx_rspamd = (\<lambda>raw. Answered (if raw = ''junk'' then 9 else 0, [])), sx_is_global = (\<lambda>_. True), sx_idna = Some,
     sx_resolver = (\<lambda>_. TimedOut), sx_imap_host = ''mail'', sx_connect = (\<lambda>_. Inr \<lparr>lc_in = dovecot, lc_out = []\<rparr>),
     sx_auth = sample_world Refuses, sx_decode = (\<lambda>s. s), sx_uuid = (\<lambda>n. n), sx_token = (\<lambda>_. ''0123456789abcdef01234567''),
     sx_msgid = ''<lightr-fwd.1@acme.org>'', sx_stamp = ''now''\<rparr>"

definition sample_smtp :: smtp_state where
  "sample_smtp = \<lparr>sm_db = sample_db, sm_bounces = \<lparr>bd_bounces = [], bd_suppressed = []\<rparr>, sm_replies = [], sm_queue = [], sm_events = []\<rparr>"

definition sample_mail :: mime where
  "sample_mail = Mime [(''From'', ''bob@far.com''), (''To'', ''sales@acme.org''), (''Subject'', ''hi'')] ''text/plain'' [] None (Text ''x'')"

section \<open>A forward is sent\<close>

lemma queue_mail_ok:
  assumes "recipients \<noteq> []" "sx_uuid env (length (sm_queue s)) \<notin> q_id ` set (sm_queue s)"
  shows "\<exists>row. queue_mail env now d from_addr recipients m envelope_from s = Inr (s\<lparr>sm_queue := sm_queue s @ [row]\<rparr>) \<and>
    q_to_addrs row = recipients \<and> q_envelope_from row = envelope_from \<and> q_domain_id row = d_id d \<and>
    q_org_id row = d_org_id d \<and> q_status row = PENDING \<and> q_next_retry row = now"
  using assms unfolding queue_mail_def enqueue_def Let_def if_not_P [OF assms(1)] if_not_P [OF assms(2)]
  by (simp only: sum.case prod.case) (rule exI, rule conjI, rule refl, simp)

lemma forward_one_ok:
  assumes "ro_domain_id r = Some i" "ro_alias_id r = Some al" "domain_resolve (uuid_str i) (sm_db s) = Inr d" "ds \<noteq> []"
    and "sx_uuid env (length (sm_queue s)) \<notin> q_id ` set (sm_queue s)"
    and "sx_token env (length (sm_replies s)) \<notin> rr_token ` set (sm_replies s)"
  shows "\<exists>row rr s' v'. forward_one env now mail_from m (r, ds) (s, v) = Inr (s', v') \<and>
    sm_queue s' = sm_queue s @ [row] \<and> sm_replies s' = sm_replies s @ [rr] \<and> sm_db s' = sm_db s \<and>
    q_to_addrs row = fromkeys ds \<and> q_domain_id row = d_id d \<and> q_status row = PENDING \<and>
    q_envelope_from row = Some (route_address rr (d_name d)) \<and>
    rr_alias_id rr = al \<and> rr_token rr = sx_token env (length (sm_replies s)) \<and>
    rr_destinations rr = map lower (fromkeys ds) \<and> dv_forwarded v' = dv_forwarded v @ fromkeys ds"
proof -
  have ne: "fromkeys ds \<noteq> []" using assms(4) by (metis set_fromkeys set_empty)
  obtain rr where rr: "reply_create (sx_token env (length (sm_replies s))) now al (Some (d_id d)) (alias_address_of r)
      (fromkeys ds) (reply_target (sx_lib env) m mail_from) (if ro_disposition r = ALIAS_BRIDGE then BRIDGE_ROUTE else FORWARD_ROUTE)
      (if ro_disposition r = ALIAS_BRIDGE then ro_account_id r else None)
      (let t = or_else (mime_get ''To'' m) [] in if t = [] then None else Some t)
      (let c = or_else (mime_get ''Cc'' m) [] in if c = [] then None else Some c) (sm_replies s) = Some (rr, sm_replies s @ [rr])"
    "rr_alias_id rr = al" "rr_token rr = sx_token env (length (sm_replies s))" "rr_destinations rr = map lower (fromkeys ds)"
    using assms(6) by (simp add: reply_create_def Let_def)
  let ?s = "s\<lparr>sm_replies := sm_replies s @ [rr]\<rparr>"
  let ?sender = "if mail_from = [] then ''postmaster@'' @ d_name d else mail_from"
  let ?w = "wrap_forward (sx_lib env) m (alias_address_of r) (if ro_disposition r = ALIAS_BRIDGE then route_address rr (d_name d)
      else reply_target (sx_lib env) m mail_from) (sx_msgid env) (sx_stamp env)"
  have fresh: "sx_uuid env (length (sm_queue ?s)) \<notin> q_id ` set (sm_queue ?s)" using assms(5) by simp
  obtain row where row: "queue_mail env now d ?sender (fromkeys ds) ?w (Some (route_address rr (d_name d))) ?s
      = Inr (?s\<lparr>sm_queue := sm_queue ?s @ [row]\<rparr>)" "q_to_addrs row = fromkeys ds"
    "q_envelope_from row = Some (route_address rr (d_name d))" "q_domain_id row = d_id d" "q_status row = PENDING"
    using queue_mail_ok [OF ne fresh, of now d ?sender ?w "Some (route_address rr (d_name d))"] by blast
  have "forward_one env now mail_from m (r, ds) (s, v) =
      Inr (?s\<lparr>sm_queue := sm_queue ?s @ [row]\<rparr>, v\<lparr>dv_forwarded := dv_forwarded v @ fromkeys ds\<rparr>)"
    unfolding forward_one_def Let_def prod.case assms(1,2,3) option.case sum.case rr(1) [unfolded Let_def] row(1)
    by (simp only: bind_res_simps)
  with row(2-) rr(2-) show ?thesis by simp
qed

lemma forwarding_route_ids:
  assumes "ro_forward_to (route_to now rdb x) \<noteq> []"
  shows "\<exists>d al. d \<in> set (domains (rt_db rdb)) \<and> ro_domain_id (route_to now rdb x) = Some (d_id d) \<and>
    ro_alias_id (route_to now rdb x) = Some al"
proof (cases rule: route_to_cases [of x now rdb])
  case (account d a)
  then show ?thesis using assms domain_resolve_Inr [OF account(1)]
    by (auto simp: route_defs Let_def split: if_splits option.splits sum.splits)
next
  case (alias_only d)
  then show ?thesis using assms domain_resolve_Inr [OF alias_only(1)]
    by (auto simp: route_defs Let_def split: if_splits option.splits sum.splits)
qed (use assms in \<open>simp_all add: reject_def plain_route_def\<close>)

lemma deliver_groups_forwarded:
  "deliver_groups env mail_from gs m v = Inr (b, m', v') \<Longrightarrow> dv_forwarded v' = dv_forwarded v"
  by (induction gs arbitrary: m v) (auto simp: Let_def split: sum.splits lmtp_error.splits)

lemma finish_local_keeps:
  assumes "finish_local env mail_from routes extra m an (s, v) = (s', r)"
  shows "sm_queue s' = sm_queue s \<and> sm_replies s' = sm_replies s \<and> (\<forall>v'. r = Inr v' \<longrightarrow> dv_forwarded v' = dv_forwarded v)"
  using assms deliver_groups_forwarded
  by (auto simp: finish_local_def notify_def Let_def split: if_splits sum.splits prod.splits bool.splits)

definition external_of :: "database \<Rightarrow> route \<Rightarrow> string list" where
  "external_of db r = filter (\<lambda>a. \<not> destination_local db a) (map norm_addr (ro_forward_to r))"

lemma forward_is_sent:
  assumes "db_ok (sm_db s)" and "\<not> sx_submission env" and "mail_from \<noteq> []" and "hops (sx_parse env raw) < MAX_HOPS"
    and "\<not> an_is_spam (analyse env (sx_parse env raw) mail_from helo raw remote_ip 1)"
    and ext: "external_of (sm_db s) (route_to now (routing_of s) rcpt) \<noteq> []"
    and "sx_uuid env (length (sm_queue s)) \<notin> q_id ` set (sm_queue s)"
    and "sx_token env (length (sm_replies s)) \<notin> rr_token ` set (sm_replies s)"
    and result: "smtp_deliver env now mail_from [rcpt] raw remote_ip helo None s = (s', res)"
  shows "\<exists>row rr d. sm_queue s' = sm_queue s @ [row] \<and> sm_replies s' = sm_replies s @ [rr] \<and> d \<in> set (domains (sm_db s)) \<and>
    q_to_addrs row = fromkeys (external_of (sm_db s) (route_to now (routing_of s) rcpt)) \<and> q_status row = PENDING \<and>
    q_domain_id row = d_id d \<and> q_envelope_from row = Some (route_address rr (d_name d)) \<and>
    (\<forall>v. res = Inr v \<longrightarrow> dv_forwarded v = q_to_addrs row)"
proof -
  let ?r = "route_to now (routing_of s) rcpt"
  let ?an = "analyse env (sx_parse env raw) mail_from helo raw remote_ip 1"
  let ?m = "stamped env ?an remote_ip helo (targets_of env [?r]) (sx_parse env raw)"
  have f: "ro_forward_to ?r \<noteq> []" using ext by (auto simp: external_of_def)
  note nr = forwarding_route [OF f]
  obtain d al where d: "d \<in> set (domains (sm_db s))" "ro_domain_id ?r = Some (d_id d)" "ro_alias_id ?r = Some al"
    using forwarding_route_ids [OF f] by (auto simp: routing_of_def)
  have none: "outbound_of env [?r] = []" "replies_of [?r] = []" "forwards_of [?r] = [(?r, ro_forward_to ?r)]"
    using nr by (simp_all add: outbound_of_def sent_onward_def replies_of_def forwards_of_def)
  have groups: "external_copies (sm_db s) [(?r, ro_forward_to ?r)] = [(?r, external_of (sm_db s) ?r)]"
    using ext by (simp add: external_copies_def external_of_def)
  let ?v = "no_outcome\<lparr>dv_rejected := turned_away env [?r]\<rparr>"
  obtain row rr s2 v2 where one: "forward_one env now mail_from ?m (?r, external_of (sm_db s) ?r) (s, ?v) = Inr (s2, v2)"
    "sm_queue s2 = sm_queue s @ [row]" "sm_replies s2 = sm_replies s @ [rr]"
    "q_to_addrs row = fromkeys (external_of (sm_db s) ?r)" "q_domain_id row = d_id d" "q_status row = PENDING"
    "q_envelope_from row = Some (route_address rr (d_name d))" "dv_forwarded v2 = dv_forwarded ?v @ fromkeys (external_of (sm_db s) ?r)"
    using forward_one_ok [OF d(2,3) domain_resolve_by_id [OF assms(1) d(1)] ext assms(7,8), of now mail_from ?m ?v] by blast
  have all: "forward_all env now (forwards_of [?r]) mail_from ?m ?an (s, ?v) =
      Inr (local_copies (sm_db s) [(?r, ro_forward_to ?r)], s2, v2)"
    using assms(5) by (simp add: forward_all_def none groups one(1) Let_def)
  have "smtp_deliver env now mail_from [rcpt] raw remote_ip helo None s =
      finish_local env mail_from [?r] (local_copies (sm_db s) [(?r, ro_forward_to ?r)]) ?m ?an (s2, v2)"
    using assms(3,4) all none
    by (simp add: smtp_deliver_def Let_def route_all_def hops_def deliver_routed_def send_outbound_def)
  then have fin: "finish_local env mail_from [?r] (local_copies (sm_db s) [(?r, ro_forward_to ?r)]) ?m ?an (s2, v2) = (s', res)"
    using result by simp
  note k = finish_local_keeps [OF fin]
  have out: "dv_forwarded v2 = q_to_addrs row" using one(4,8) by (simp add: no_outcome_def)
  show ?thesis
    by (rule exI [of _ row], rule exI [of _ rr], rule exI [of _ d]) (use k one(2-7) d(1) out in simp)
qed

text \<open>
  C3. Mail to a forwarding alias is sent on: when a message comes to the receive listener for it alone, has a
  sender, is no junk and has not hopped too often, and the id and the token drawn are not taken, exactly one
  row is queued for all its addresses elsewhere, each once, due at once, signed by a domain of ours, under a
  fresh reply token that is stored with it and is its envelope sender; and the outcome reports
  just these addresses as forwarded, whatever happens to local copies.
\<close>

theorem forwards_are_queued:
  assumes "db_ok (sm_db s)" and "\<not> sx_submission env" and "mail_from \<noteq> []" and "hops (sx_parse env raw) < MAX_HOPS"
    and "\<not> an_is_spam (analyse env (sx_parse env raw) mail_from helo raw remote_ip 1)"
    and "external_of (sm_db s) (route_to now (routing_of s) rcpt) \<noteq> []"
    and "sx_uuid env (length (sm_queue s)) \<notin> q_id ` set (sm_queue s)"
    and "sx_token env (length (sm_replies s)) \<notin> rr_token ` set (sm_replies s)"
    and "smtp_deliver env now mail_from [rcpt] raw remote_ip helo None s = (s', res)"
  shows "\<exists>row rr d. sm_queue s' = sm_queue s @ [row] \<and> sm_replies s' = sm_replies s @ [rr] \<and> d \<in> set (domains (sm_db s)) \<and>
    q_to_addrs row = fromkeys (external_of (sm_db s) (route_to now (routing_of s) rcpt)) \<and> q_status row = PENDING \<and>
    q_domain_id row = d_id d \<and> q_envelope_from row = Some (route_address rr (d_name d)) \<and>
    (\<forall>v. res = Inr v \<longrightarrow> dv_forwarded v = q_to_addrs row)"
  by (rule forward_is_sent [OF assms])

lemma sample_elsewhere:
  "external_of sample_db (route_to 0 (routing_of sample_smtp) ''sales@acme.org'') = [''out@far.com'']"
  by code_simp

lemma sample_clean: "\<not> an_is_spam (analyse (sample_env sample_mail ls) sample_mail ''bob@far.com'' [] [] [] 1)"
  by (simp add: analyse_def sample_env_def spam_score_def rspamd_score_def rstrip_chars_def Let_def verdict_def default_spam_config_def)

lemma sample_hops: "hops sample_mail < MAX_HOPS"
  by code_simp

lemmas sample_defs = sample_env_def sample_smtp_def

lemma forwards_are_queued_witness:
  "\<exists>row. sm_queue (fst (smtp_deliver (sample_env sample_mail []) 0 ''bob@far.com'' [''sales@acme.org''] [] [] [] None sample_smtp)) = [row] \<and>
    q_to_addrs row = [''out@far.com'']"
proof -
  obtain s' res where r: "smtp_deliver (sample_env sample_mail []) 0 ''bob@far.com'' [''sales@acme.org''] [] [] [] None sample_smtp = (s', res)"
    by fastforce
  have "db_ok (sm_db sample_smtp)" by (simp add: sample_smtp_def sample_db_ok)
  from forwards_are_queued [OF this _ _ _ _ _ _ _ r] sample_elsewhere sample_clean sample_hops r
  show ?thesis by (auto simp: sample_defs fromkeys_def)
qed

lemma sample_sent:
  obtains row s' res where "smtp_deliver (sample_env sample_mail []) 0 ''bob@far.com'' [''sales@acme.org''] [] [] [] None sample_smtp = (s', res)"
    "sm_queue s' = [row]" "q_to_addrs row = [''out@far.com'']"
proof -
  obtain s' res where r: "smtp_deliver (sample_env sample_mail []) 0 ''bob@far.com'' [''sales@acme.org''] [] [] [] None sample_smtp = (s', res)"
    by fastforce
  have "db_ok (sm_db sample_smtp)" by (simp add: sample_smtp_def sample_db_ok)
  from forward_is_sent [OF this _ _ _ _ _ _ _ r] sample_elsewhere sample_clean sample_hops
  obtain row where "sm_queue s' = [row]" "q_to_addrs row = [''out@far.com'']" by (auto simp: sample_defs fromkeys_def)
  with r show ?thesis by (rule that)
qed

lemma receive_never_relays_witness: "alias_leads sample_db [''out@far.com'']"
proof (rule sample_sent)
  fix row s' res
  assume r: "smtp_deliver (sample_env sample_mail []) 0 ''bob@far.com'' [''sales@acme.org''] [] [] [] None sample_smtp = (s', res)"
    and row: "sm_queue s' = [row]" "q_to_addrs row = [''out@far.com'']"
  have "\<not> sx_submission (sample_env sample_mail [])" by (simp add: sample_env_def)
  from receive_never_relays [OF this r] row show ?thesis by (auto simp: sample_smtp_def)
qed

lemma loops_end_witness:
  "\<exists>s' row w. fst (smtp_deliver (sample_env sample_mail []) 0 ''bob@far.com'' [''sales@acme.org''] [] [] [] None sample_smtp) = s' \<and>
    sm_queue s' = [row] \<and> q_raw row = Some (sx_as_bytes (sample_env sample_mail []) w) \<and> hops w = 1"
proof (rule sample_sent)
  fix row s' res
  assume r: "smtp_deliver (sample_env sample_mail []) 0 ''bob@far.com'' [''sales@acme.org''] [] [] [] None sample_smtp = (s', res)"
    and row: "sm_queue s' = [row]" "q_to_addrs row = [''out@far.com'']"
  have "\<not> sx_submission (sample_env sample_mail [])" by (simp add: sample_env_def)
  moreover have "hops sample_mail = 0" by code_simp
  ultimately show ?thesis
    using loops_end [OF _ r] row r sample_hops by (auto simp: sample_defs)
qed

lemma junk_stays_here_witness:
  "sm_queue (fst (smtp_deliver (sample_env sample_mail []) 0 ''bob@far.com'' [''sales@acme.org''] ''junk'' [] [] None sample_smtp)) = []"
proof -
  have "an_is_spam (analyse (sample_env sample_mail []) sample_mail ''bob@far.com'' [] ''junk'' [] 1)"
    by (simp add: analyse_def sample_env_def spam_score_def rspamd_score_def rstrip_chars_def Let_def verdict_def default_spam_config_def)
  then show ?thesis
    using junk_stays_here [of "sample_env sample_mail []" "''junk''" "''bob@far.com''" "[]" "[]" "[''sales@acme.org'']" 0 None sample_smtp]
    by (simp add: sample_defs)
qed

lemma logins_send_as_themselves_witness:
  "fst (smtp_deliver (sample_env sample_mail [] \<lparr>sx_submission := True\<rparr>) 0 ''bob@b.net'' [''x@far.com''] [] [] [] (Some ''ann@acme.org'') sample_smtp)
    = sample_smtp"
proof -
  obtain s' r where r: "smtp_deliver (sample_env sample_mail [] \<lparr>sx_submission := True\<rparr>) 0 ''bob@b.net'' [''x@far.com''] [] [] []
      (Some ''ann@acme.org'') sample_smtp = (s', r)" by fastforce
  have n: "norm_addr ''ann@acme.org'' = ''ann@acme.org''" "norm_addr ''bob@b.net'' = ''bob@b.net''"
    "split_first CHR ''@'' ''bob@b.net'' = (''bob'', ''b.net'')" by code_simp+
  have "\<not> owns_sender ''ann@acme.org'' ''bob@b.net'' sample_db"
  proof -
    have "''bob'' \<notin> al_source ` set (aliases sample_db)" by (simp add: sample_db_def sample_alias_def)
    then have "al_source al \<noteq> ''bob''" if "al \<in> set (aliases sample_db)" for al using that by (metis image_eqI)
    then show ?thesis unfolding owns_sender_def n by auto
  qed
  with logins_send_as_themselves [OF r] r show ?thesis by (simp add: n sample_smtp_def)
qed

definition full_answers :: "string list" where
  "full_answers = [''220 ready'', ''250 dovecot'', ''250 ok'', ''452 over quota'']"

lemma full_mailbox_is_final_witness:
  "\<exists>v. snd (smtp_deliver (sample_env sample_mail full_answers) 0 ''bob@far.com''
      [''bob@b.net''] [] [] [] None sample_smtp) = Inr v \<and> smtp_response v = ''550 5.1.1 No valid recipients''"
proof (rule full_mailbox_is_final)
  let ?env = "sample_env sample_mail full_answers"
  show "ro_disposition (route_to 0 (routing_of sample_smtp) ''bob@b.net'') = LOCAL" by code_simp
  show "''bob@far.com'' \<noteq> []" by simp
  show "hops (sx_parse ?env []) < MAX_HOPS" using sample_hops by (simp add: sample_env_def)
  show "\<exists>ss. hand_over ?env ''bob@far.com'' [norm_addr ''bob@b.net''] m = Inr ss \<and> (\<forall>x \<in> set ss. rs_code x \<in> {400..<500})" for m
  proof -
    have "norm_addr ''bob@b.net'' = ''bob@b.net''" by code_simp
    moreover have "lmtp_deliver ''mail'' (\<lambda>_. Inr \<lparr>lc_in = full_answers, lc_out = []\<rparr>) ''bob@far.com'' [''bob@b.net''] [] =
        Inr [\<lparr>rs_recipient = ''bob@b.net'', rs_code = 452, rs_message = ''over quota''\<rparr>]" by code_simp
    ultimately show ?thesis by (simp add: hand_over_def sample_env_def)
  qed
qed

end
