(* ===== verification/Smtp_Session.thy ===== *)
theory Smtp_Session
  imports Smtp_Safety Ratelimit
begin

text \<open>
  The handlers of \<open>src/src/lightr/mail/smtp.py\<close> and the sessions made of them. What \<open>aiosmtpd\<close> does
  between the calls is in the step relation: it keeps what a handler set on the session and the
  envelope, marks a session authenticated exactly on a successful \<open>AuthResult\<close>, calls \<open>RCPT\<close> only
  after an accepted \<open>MAIL\<close> and \<open>DATA\<close> only after an accepted \<open>RCPT\<close>, and clears the envelope
  afterwards. The clock readings of a limiter are arguments.
\<close>

section \<open>Handlers\<close>

record session =
  ss_peer :: "string option"
  ss_tls :: bool
  ss_host :: string
  ss_authenticated :: bool
  ss_auth_data :: "string option"

record envelope =
  ev_from :: "string option"
  ev_rcpts :: "string list"

record smtp_server =
  sv_state :: smtp_state
  sv_sessions :: "limiter option"
  sv_messages :: "limiter option"

definition peer_ip :: "session \<Rightarrow> string" where
  "peer_ip ses = (case ss_peer ses of None \<Rightarrow> [] | Some ip \<Rightarrow> ip)"

definition is_secure :: "session \<Rightarrow> bool" where
  "is_secure ses \<longleftrightarrow> ss_tls ses"

type_synonym clocks = "rat \<times> rat \<times> rat"

text \<open>A limiter that is \<open>None\<close> lets everything through.\<close>

definition let_in :: "clocks \<Rightarrow> session \<Rightarrow> limiter option \<Rightarrow> bool \<times> limiter option" where
  "let_in clk ses slot =
    (case slot of
       None \<Rightarrow> (True, None)
     | Some L \<Rightarrow> (let (ts, tn, tt) = clk; (ok, L') = limiter_allow L (peer_ip ses) ts tn tt in (ok, Some L')))"

definition new_limiters :: "smtp_env \<Rightarrow> limiter option \<Rightarrow> limiter option \<Rightarrow> limiter option \<times> limiter option" where
  "new_limiters env per_minute per_hour = (if sx_submission env then (None, None) else (per_minute, per_hour))"

definition handle_EHLO ::
  "clocks \<Rightarrow> session \<Rightarrow> string \<Rightarrow> string list \<Rightarrow> smtp_server \<Rightarrow> string list \<times> session \<times> smtp_server" where
  "handle_EHLO clk ses greeting responses sv =
    (let ses' = ses\<lparr>ss_host := greeting\<rparr>; (ok, slot) = let_in clk ses' (sv_sessions sv)
     in (if ok then responses else [''421 4.7.0 Too many connections, please slow down''], ses', sv\<lparr>sv_sessions := slot\<rparr>))"

definition handle_MAIL :: "smtp_env \<Rightarrow> session \<Rightarrow> string \<Rightarrow> envelope \<Rightarrow> string \<times> envelope" where
  "handle_MAIL env ses address ev =
    (if sx_submission env \<and> \<not> ss_authenticated ses then (''530 5.7.0 Authentication required'', ev)
     else (''250 OK'', ev\<lparr>ev_from := Some address\<rparr>))"

definition handle_RCPT :: "smtp_env \<Rightarrow> instant \<Rightarrow> string \<Rightarrow> envelope \<Rightarrow> smtp_state \<Rightarrow> string \<times> envelope" where
  "handle_RCPT env now address ev s =
    (if sx_max_recipients env \<le> length (ev_rcpts ev)
     then (''452 4.5.3 Too many recipients (max '' @ dec_str (int (sx_max_recipients env)) @ '')'', ev)
     else
       let route = route_to now (routing_of s) address
       in if \<not> sx_submission env \<and> rejected route
          then (dec_str (smtp_code (the (ro_reason route))) @ '' 5.1.1 '' @ smtp_message (the (ro_reason route)), ev)
          else (''250 OK'', ev\<lparr>ev_rcpts := ev_rcpts ev @ [address]\<rparr>))"

definition authenticated_as :: "smtp_env \<Rightarrow> session \<Rightarrow> string option" where
  "authenticated_as env ses =
    (if sx_submission env \<and> ss_authenticated ses
     then Some (case ss_auth_data ses of Some a \<Rightarrow> a | None \<Rightarrow> ''None'') else None)"

definition handle_DATA ::
  "smtp_env \<Rightarrow> instant \<Rightarrow> clocks \<Rightarrow> session \<Rightarrow> envelope \<Rightarrow> string \<Rightarrow> smtp_server \<Rightarrow> string \<times> smtp_server" where
  "handle_DATA env now clk ses ev raw sv =
    (let (ok, slot) = let_in clk ses (sv_messages sv); sv' = sv\<lparr>sv_messages := slot\<rparr>
     in if \<not> ok then (''421 4.7.0 Too many messages, please slow down'', sv')
        else if sx_max_message_bytes env < length raw
        then (''552 5.3.4 Message too large (max '' @ dec_str (int (sx_max_message_bytes env)) @ '' bytes)'', sv')
        else
          let (s', r) = smtp_deliver env now (or_else (ev_from ev) []) (ev_rcpts ev) raw (peer_ip ses) (ss_host ses)
                (authenticated_as env ses) (sv_state sv')
          in (case r of Inl _ \<Rightarrow> ''451 4.3.0 Temporary failure, please retry'' | Inr v \<Rightarrow> smtp_response v,
              sv'\<lparr>sv_state := s'\<rparr>))"

section \<open>Logging in\<close>

text \<open>An \<open>AuthResult\<close>: success, \<open>handled\<close> where it is given, the auth data.\<close>

record auth_reply =
  rp_success :: bool
  rp_handled :: "bool option"
  rp_data :: "string option"

definition no_login :: "bool option \<Rightarrow> auth_reply" where
  "no_login handled = \<lparr>rp_success = False, rp_handled = handled, rp_data = None\<rparr>"

definition login :: "smtp_env \<Rightarrow> session \<Rightarrow> string \<Rightarrow> string \<Rightarrow> smtp_state \<Rightarrow> provider_error + auth_reply" where
  "login env ses username password s =
    (if sx_require_tls env \<and> \<not> is_secure ses then Inr (no_login (Some False))
     else bind_res (authenticate ((sx_auth env)\<lparr>au_db := sm_db s\<rparr>) (sx_decode env username) (sx_decode env password)) (\<lambda>r.
       Inr (if ar_ok r then \<lparr>rp_success = True, rp_handled = None, rp_data = result_email r\<rparr> else no_login (Some False))))"

text \<open>
  \<open>auth_PLAIN\<close> and \<open>auth_LOGIN\<close>: the words of the command, what the client answers to a challenge
  (\<open>None\<close> is \<open>MISSING\<close>), strict base64 decoding, and what is pushed before the result.
\<close>

definition auth_PLAIN ::
  "(string \<Rightarrow> string option) \<Rightarrow> smtp_env \<Rightarrow> session \<Rightarrow> string list \<Rightarrow> string option \<Rightarrow> smtp_state \<Rightarrow>
   string list \<times> (provider_error + auth_reply)" where
  "auth_PLAIN b64decode env ses args answer s =
    (if length args = 1 \<and> answer = None then ([], Inr (no_login None))
     else
       case (if length args = 1 then answer else b64decode (args ! 1)) of
         None \<Rightarrow> ([''501 5.5.2 Can'' @ [CHR 0x27] @ ''t decode base64''], Inr (no_login (Some True)))
       | Some blob \<Rightarrow>
         (case split_char CHR 0x00 blob of
            [_, username, password] \<Rightarrow> ([], login env ses username password s)
          | _ \<Rightarrow> ([''501 5.5.2 Can'' @ [CHR 0x27] @ ''t split auth value''], Inr (no_login (Some True)))))"

definition auth_LOGIN ::
  "(string \<Rightarrow> string option) \<Rightarrow> smtp_env \<Rightarrow> session \<Rightarrow> string list \<Rightarrow> string option \<Rightarrow> string option \<Rightarrow> smtp_state \<Rightarrow>
   string list \<times> (provider_error + auth_reply)" where
  "auth_LOGIN b64decode env ses args user_answer password_answer s =
    (if length args = 1 \<and> user_answer = None then ([], Inr (no_login None))
     else
       case (if length args = 1 then user_answer else b64decode (args ! 1)) of
         None \<Rightarrow> ([''501 5.5.2 Can'' @ [CHR 0x27] @ ''t decode base64''], Inr (no_login (Some True)))
       | Some username \<Rightarrow>
         (case password_answer of
            None \<Rightarrow> ([], Inr (no_login None))
          | Some password \<Rightarrow> ([], login env ses username password s)))"

section \<open>Sessions\<close>

datatype smtp_command =
    Starttls
  | Ehlo clocks string
  | AuthPlain "string list" "string option"
  | AuthLogin "string list" "string option" "string option"
  | MailFrom string
  | RcptTo instant string
  | Data instant clocks string
  | Rset
  | Meanwhile smtp_state      \<comment> \<open>what everyone else does to the database\<close>

record smtp_conn =
  cn_session :: session
  cn_envelope :: envelope
  cn_server :: smtp_server

definition no_envelope :: envelope where
  "no_envelope = \<lparr>ev_from = None, ev_rcpts = []\<rparr>"

definition logged_in :: "auth_reply \<Rightarrow> session \<Rightarrow> session" where
  "logged_in a ses = (if rp_success a then ses\<lparr>ss_authenticated := True, ss_auth_data := rp_data a\<rparr> else ses)"

inductive smtp_step :: "(string \<Rightarrow> string option) \<Rightarrow> smtp_env \<Rightarrow> smtp_conn \<Rightarrow> smtp_command \<Rightarrow> smtp_conn \<Rightarrow> bool"
  for b64 :: "string \<Rightarrow> string option" and env :: smtp_env where
  starttls: "smtp_step b64 env c Starttls
    (c\<lparr>cn_session := (cn_session c)\<lparr>ss_tls := True, ss_host := [], ss_authenticated := False, ss_auth_data := None\<rparr>,
       cn_envelope := no_envelope\<rparr>)"
| ehlo: "handle_EHLO clk (cn_session c) greeting rs (cn_server c) = (out, ses, sv) \<Longrightarrow>
    smtp_step b64 env c (Ehlo clk greeting) (c\<lparr>cn_session := ses, cn_envelope := no_envelope, cn_server := sv\<rparr>)"
| auth_plain: "auth_PLAIN b64 env (cn_session c) args answer (sv_state (cn_server c)) = (pushed, Inr a) \<Longrightarrow>
    smtp_step b64 env c (AuthPlain args answer) (c\<lparr>cn_session := logged_in a (cn_session c)\<rparr>)"
| auth_login: "auth_LOGIN b64 env (cn_session c) args user pw (sv_state (cn_server c)) = (pushed, Inr a) \<Longrightarrow>
    smtp_step b64 env c (AuthLogin args user pw) (c\<lparr>cn_session := logged_in a (cn_session c)\<rparr>)"
| mail: "handle_MAIL env (cn_session c) address (cn_envelope c) = (out, ev) \<Longrightarrow>
    smtp_step b64 env c (MailFrom address) (c\<lparr>cn_envelope := ev\<rparr>)"
| rcpt: "ev_from (cn_envelope c) \<noteq> None \<Longrightarrow>
    handle_RCPT env now address (cn_envelope c) (sv_state (cn_server c)) = (out, ev) \<Longrightarrow>
    smtp_step b64 env c (RcptTo now address) (c\<lparr>cn_envelope := ev\<rparr>)"
| data: "ev_rcpts (cn_envelope c) \<noteq> [] \<Longrightarrow>
    handle_DATA env now clk (cn_session c) (cn_envelope c) raw (cn_server c) = (out, sv) \<Longrightarrow>
    smtp_step b64 env c (Data now clk raw) (c\<lparr>cn_envelope := no_envelope, cn_server := sv\<rparr>)"
| rset: "smtp_step b64 env c Rset (c\<lparr>cn_envelope := no_envelope\<rparr>)"
| meanwhile: "smtp_step b64 env c (Meanwhile s) (c\<lparr>cn_server := (cn_server c)\<lparr>sv_state := s\<rparr>\<rparr>)"

inductive_cases smtp_stepE: "smtp_step b64 env c cmd c'"

inductive_cases data_stepE: "smtp_step b64 env c (Data now clk raw) c'"

definition fresh_conn :: "bool \<Rightarrow> string option \<Rightarrow> smtp_server \<Rightarrow> smtp_conn" where
  "fresh_conn tls peer sv = \<lparr>cn_session = \<lparr>ss_peer = peer, ss_tls = tls, ss_host = [], ss_authenticated = False, ss_auth_data = None\<rparr>,
     cn_envelope = no_envelope, cn_server = sv\<rparr>"

inductive session_reaches :: "(string \<Rightarrow> string option) \<Rightarrow> smtp_env \<Rightarrow> smtp_conn \<Rightarrow> bool" for b64 env where
  start: "session_reaches b64 env (fresh_conn tls peer sv)"
| step: "session_reaches b64 env c \<Longrightarrow> smtp_step b64 env c cmd c' \<Longrightarrow> session_reaches b64 env c'"

section \<open>What every session keeps\<close>

text \<open>Someone was let in by the authenticator under this address, over TLS where that is required.\<close>

definition let_in_as :: "smtp_env \<Rightarrow> session \<Rightarrow> bool" where
  "let_in_as env ses \<longleftrightarrow> (sx_require_tls env \<longrightarrow> ss_tls ses) \<and>
    (\<exists>db username password r. authenticate ((sx_auth env)\<lparr>au_db := db\<rparr>) username password = Inr r \<and> ar_ok r \<and>
       ss_auth_data ses = result_email r)"

definition session_ok :: "smtp_env \<Rightarrow> smtp_conn \<Rightarrow> bool" where
  "session_ok env c \<longleftrightarrow>
    length (ev_rcpts (cn_envelope c)) \<le> sx_max_recipients env \<and>
    (ss_authenticated (cn_session c) \<longrightarrow> let_in_as env (cn_session c)) \<and>
    (sx_submission env \<longrightarrow> ev_from (cn_envelope c) \<noteq> None \<longrightarrow> ss_authenticated (cn_session c)) \<and>
    (ev_rcpts (cn_envelope c) \<noteq> [] \<longrightarrow> ev_from (cn_envelope c) \<noteq> None)"

lemma login_lets_in:
  "login env ses username password s = Inr a \<Longrightarrow> rp_success a \<Longrightarrow> let_in_as env (logged_in a ses)"
  unfolding let_in_as_def
  by (auto simp: login_def res_simps logged_in_def is_secure_def no_login_def split: if_splits; blast)

lemma auth_lets_in:
  "auth_PLAIN b64 env ses args answer s = (pushed, Inr a) \<Longrightarrow> rp_success a \<Longrightarrow> let_in_as env (logged_in a ses)"
  "auth_LOGIN b64 env ses args user pw s = (pushed, Inr a) \<Longrightarrow> rp_success a \<Longrightarrow> let_in_as env (logged_in a ses)"
  using login_lets_in
  by (auto simp: auth_PLAIN_def auth_LOGIN_def no_login_def split: if_splits option.splits list.splits)

lemma session_ok_auth:
  assumes "session_ok env c" and "rp_success a \<Longrightarrow> let_in_as env (logged_in a (cn_session c))"
  shows "session_ok env (c\<lparr>cn_session := logged_in a (cn_session c)\<rparr>)"
  using assms by (auto simp: session_ok_def logged_in_def split: if_splits)

lemma session_ok_step:
  assumes "session_ok env c" "smtp_step b64 env c cmd c'"
  shows "session_ok env c'"
  using assms(2)
proof cases
  case starttls
  then show ?thesis by (simp add: session_ok_def no_envelope_def)
next
  case (ehlo clk greeting rs out ses sv)
  then have "ses = (cn_session c)\<lparr>ss_host := greeting\<rparr>" by (auto simp: handle_EHLO_def Let_def split: prod.splits)
  with ehlo assms(1) show ?thesis by (auto simp: session_ok_def no_envelope_def let_in_as_def)
next
  case (auth_plain args answer pushed a)
  then show ?thesis using session_ok_auth [OF assms(1)] auth_lets_in(1) by simp
next
  case (auth_login args user pw pushed a)
  then show ?thesis using session_ok_auth [OF assms(1)] auth_lets_in(2) by simp
next
  case (mail address out ev)
  then show ?thesis using assms(1) by (auto simp: session_ok_def handle_MAIL_def split: if_splits)
next
  case (rcpt now address out ev)
  then show ?thesis using assms(1) by (auto simp: session_ok_def handle_RCPT_def Let_def split: if_splits)
qed (use assms(1) in \<open>simp_all add: session_ok_def no_envelope_def\<close>)

lemma reached_ok: "session_reaches b64 env c \<Longrightarrow> session_ok env c"
proof (induction rule: session_reaches.induct)
  case (start tls peer sv)
  then show ?case by (simp add: session_ok_def fresh_conn_def no_envelope_def)
next
  case (step c cmd c')
  from session_ok_step [OF step.IH step.hyps(2)] show ?case .
qed

text \<open>
  C4. Whatever a client sends in whatever order, and whatever happens to the database meanwhile, a
  session never holds more recipients than allowed, counts as logged in only after the
  authenticator accepted a password for that very address, over TLS where that is required, and on
  the submission listener has a sender, and so recipients, only when logged in.
\<close>

theorem sessions_are_guarded:
  assumes "session_reaches b64 env c"
  shows "length (ev_rcpts (cn_envelope c)) \<le> sx_max_recipients env \<and>
    (ss_authenticated (cn_session c) \<longrightarrow> (sx_require_tls env \<longrightarrow> ss_tls (cn_session c)) \<and>
      (\<exists>db username password r. authenticate ((sx_auth env)\<lparr>au_db := db\<rparr>) username password = Inr r \<and> ar_ok r \<and>
         ss_auth_data (cn_session c) = result_email r)) \<and>
    (sx_submission env \<longrightarrow> ev_from (cn_envelope c) \<noteq> None \<or> ev_rcpts (cn_envelope c) \<noteq> [] \<longrightarrow> ss_authenticated (cn_session c))"
  using reached_ok [OF assms] by (auto simp: session_ok_def let_in_as_def)

text \<open>
  C2. Nothing is sent from the submission listener but by the owner of its sender: when a DATA
  command of any reachable session changes the database at all, the session was let in by the
  authenticator, and the account it was let in as exists, may send, and owns the envelope sender.
\<close>

theorem submission_is_by_owners:
  assumes "session_reaches b64 env c" and "sx_submission env" and "smtp_step b64 env c (Data now clk raw) c'"
    and "sv_state (cn_server c') \<noteq> sv_state (cn_server c)"
  shows "let_in_as env (cn_session c) \<and>
    (\<exists>who a. authenticated_as env (cn_session c) = Some who \<and>
       account_find (norm_addr who) (sm_db (sv_state (cn_server c))) = Some a \<and> a_can_send a \<and>
       owns_sender (norm_addr who) (norm_addr (or_else (ev_from (cn_envelope c)) [])) (sm_db (sv_state (cn_server c))))"
proof -
  note ok = reached_ok [OF assms(1)]
  from assms(3) obtain out sv where d: "ev_rcpts (cn_envelope c) \<noteq> []"
    "handle_DATA env now clk (cn_session c) (cn_envelope c) raw (cn_server c) = (out, sv)" "cn_server c' = sv"
    by (auto elim: data_stepE)
  have authed: "ss_authenticated (cn_session c)" using ok assms(2) d(1) by (auto simp: session_ok_def)
  then obtain who where who: "authenticated_as env (cn_session c) = Some who"
    using assms(2) by (simp add: authenticated_as_def)
  obtain s' r where sr: "smtp_deliver env now (or_else (ev_from (cn_envelope c)) []) (ev_rcpts (cn_envelope c)) raw
      (peer_ip (cn_session c)) (ss_host (cn_session c)) (Some who) (sv_state (cn_server c)) = (s', r)" by fastforce
  have "sv_state sv = sv_state (cn_server c) \<or> sv_state sv = s'"
    using d(2) sr who by (auto simp: handle_DATA_def Let_def split_beta split: if_splits)
  then have "s' \<noteq> sv_state (cn_server c)" using assms(4) d(3) by auto
  with logins_send_as_themselves [OF sr] obtain a where
    "account_find (norm_addr who) (sm_db (sv_state (cn_server c))) = Some a" "a_can_send a"
    "owns_sender (norm_addr who) (norm_addr (or_else (ev_from (cn_envelope c)) [])) (sm_db (sv_state (cn_server c)))" by blast
  with who authed ok show ?thesis by (auto simp: session_ok_def)
qed

section \<open>A session on a small installation\<close>

definition sample_submission :: smtp_env where
  "sample_submission = (sample_env sample_mail [])\<lparr>sx_submission := True, sx_as_bytes := (\<lambda>_. ''raw''), sx_connect := (\<lambda>_. Inl (LMTPError ''down''))\<rparr>"

definition ann_account :: account where
  "ann_account = (sample_account 4 2 ''ann'')\<lparr>a_password_hash := Some ''pw''\<rparr>"

definition ann_state :: smtp_state where
  "ann_state = sample_smtp\<lparr>sm_db := sample_db\<lparr>accounts := [ann_account]\<rparr>\<rparr>"

definition conn1 :: smtp_conn where
  "conn1 = fresh_conn True None \<lparr>sv_state = ann_state, sv_sessions = None, sv_messages = None\<rparr>"

definition conn2 :: smtp_conn where
  "conn2 = conn1\<lparr>cn_session := (cn_session conn1)\<lparr>ss_authenticated := True, ss_auth_data := Some ''ann@acme.org''\<rparr>\<rparr>"

definition conn3 :: smtp_conn where
  "conn3 = conn2\<lparr>cn_envelope := \<lparr>ev_from = Some ''ann@acme.org'', ev_rcpts = [''x@far.com'']\<rparr>\<rparr>"

lemma conn2_login:
  "auth_LOGIN (\<lambda>_. None) sample_submission (cn_session conn1) [''LOGIN''] (Some ''ann@acme.org'') (Some ''pw'') (sv_state (cn_server conn1))
    = ([], Inr \<lparr>rp_success = True, rp_handled = None, rp_data = Some ''ann@acme.org''\<rparr>)"
proof -
  have "map_option (\<lambda>a. (a_auth_mode a, a_password_hash a, email a)) (account_find ''ann@acme.org'' (sample_db\<lparr>accounts := [ann_account]\<rparr>))
      = Some (NATIVE, Some ''pw'', Some ''ann@acme.org'')" by code_simp
  then obtain a where a: "account_find ''ann@acme.org'' (sample_db\<lparr>accounts := [ann_account]\<rparr>) = Some a"
    "a_auth_mode a = NATIVE" "a_password_hash a = Some ''pw''" "email a = Some ''ann@acme.org''" by auto
  have v: "verify_password (\<lambda>pw h. Some (pw = h)) ''pw'' ''pw''" by code_simp
  have "au_checkpw (sx_auth sample_submission) = (\<lambda>pw h. Some (pw = h))" "sx_decode sample_submission = (\<lambda>s. s)"
    by (simp_all add: sample_submission_def sample_env_def sample_world_def)
  then show ?thesis
    using a v by (simp add: auth_LOGIN_def login_def conn1_def fresh_conn_def is_secure_def ann_state_def authenticate_def
      truthy_def auth_success_def result_email_def)
qed

lemma conn3_reached: "session_reaches (\<lambda>_. None) sample_submission conn3"
proof -
  have "session_reaches (\<lambda>_. None) sample_submission conn1" unfolding conn1_def by (rule session_reaches.start)
  from session_reaches.step [OF this smtp_step.auth_login [OF conn2_login]]
  have 2: "session_reaches (\<lambda>_. None) sample_submission conn2" by (simp add: logged_in_def conn2_def)
  have "handle_MAIL sample_submission (cn_session conn2) ''ann@acme.org'' (cn_envelope conn2) =
      (''250 OK'', \<lparr>ev_from = Some ''ann@acme.org'', ev_rcpts = []\<rparr>)"
    by (simp add: handle_MAIL_def conn2_def conn1_def fresh_conn_def no_envelope_def)
  from session_reaches.step [OF 2 smtp_step.mail [OF this]]
  have 3: "session_reaches (\<lambda>_. None) sample_submission (conn2\<lparr>cn_envelope := \<lparr>ev_from = Some ''ann@acme.org'', ev_rcpts = []\<rparr>\<rparr>)" .
  have "handle_RCPT sample_submission 0 ''x@far.com'' \<lparr>ev_from = Some ''ann@acme.org'', ev_rcpts = []\<rparr> s =
      (''250 OK'', \<lparr>ev_from = Some ''ann@acme.org'', ev_rcpts = [''x@far.com'']\<rparr>)" for s
    by (simp add: handle_RCPT_def sample_submission_def sample_env_def Let_def)
  from session_reaches.step [OF 3 smtp_step.rcpt, of 0 "''x@far.com''", simplified, OF this] show ?thesis
    by (simp add: conn3_def)
qed

lemma sessions_are_guarded_witness:
  "length (ev_rcpts (cn_envelope conn3)) \<le> 2 \<and> ss_tls (cn_session conn3) \<and>
   (\<exists>db username password r. authenticate ((sx_auth sample_submission)\<lparr>au_db := db\<rparr>) username password = Inr r \<and> ar_ok r \<and>
     result_email r = Some ''ann@acme.org'')"
proof -
  have "ss_authenticated (cn_session conn3)" "sx_require_tls sample_submission" "sx_max_recipients sample_submission = 2"
    "ss_auth_data (cn_session conn3) = Some ''ann@acme.org''"
    by (simp_all add: conn3_def conn2_def sample_submission_def sample_env_def)
  with sessions_are_guarded [OF conn3_reached] show ?thesis by metis
qed

lemma conn3_sends:
  "\<exists>row. sm_queue (fst (smtp_deliver sample_submission 0 ''ann@acme.org'' [''x@far.com''] ''m'' [] [] (Some ''ann@acme.org'') ann_state)) = [row]"
proof -
  let ?r = "route_to 0 (routing_of ann_state) ''x@far.com''"
  have r: "ro_disposition ?r = REJECT" "ro_reason ?r = Some NOT_LOCAL_DOMAIN" "ro_recipient ?r = ''x@far.com''" by code_simp+
  have none: "outbound_of sample_submission [?r] = [''x@far.com'']" "turned_away sample_submission [?r] = []" "replies_of [?r] = []"
    "forwards_of [?r] = []" "locals_of [?r] = []"
    using r by (simp_all add: outbound_of_def sent_onward_def turned_away_def replies_of_def forwards_of_def locals_of_def
      rejected_def delivers_locally_def sample_submission_def sample_env_def)
  have may: "may_send ''ann@acme.org'' ''ann@acme.org'' (sm_db ann_state) = None" by code_simp
  have sent_from: "split_first CHR ''@'' ''ann@acme.org'' = (''ann'', ''acme.org'')" by code_simp
  have "map_option d_id (case domain_resolve ''acme.org'' (sm_db ann_state) of Inr d \<Rightarrow> Some d | Inl _ \<Rightarrow> None) = Some 2" by code_simp
  then obtain d where d: "domain_resolve ''acme.org'' (sm_db ann_state) = Inr d" by (auto split: sum.splits)
  have q: "sm_queue ann_state = []" by (simp add: ann_state_def sample_smtp_def)
  have queued: "\<exists>row. queue_mail sample_submission 0 d ''ann@acme.org'' [''x@far.com''] m None ann_state = Inr (ann_state\<lparr>sm_queue := [row]\<rparr>)" for m
    using queue_mail_ok [of "[''x@far.com'']" sample_submission ann_state 0 d "''ann@acme.org''" m None] q by auto
  have out: "\<exists>row v'. send_outbound sample_submission 0 ''ann@acme.org'' [''x@far.com''] m (ann_state, v) =
      Inr (ann_state\<lparr>sm_queue := [row]\<rparr>, v')" for m v
  proof -
    obtain row where "queue_mail sample_submission 0 d ''ann@acme.org'' [''x@far.com''] m None ann_state = Inr (ann_state\<lparr>sm_queue := [row]\<rparr>)"
      using queued by blast
    then show ?thesis by (intro exI [of _ row]) (simp add: send_outbound_def enqueue_outbound_def sent_from d)
  qed
  have "hops (sx_parse sample_submission ''m'') < MAX_HOPS" using sample_hops by (simp add: sample_submission_def sample_env_def)
  then show ?thesis
    using out [of "stamped sample_submission (analyse sample_submission (sx_parse sample_submission ''m'') ''ann@acme.org'' [] ''m'' [] 1) [] []
      (targets_of sample_submission [?r]) (sx_parse sample_submission ''m'')" "no_outcome\<lparr>dv_rejected := []\<rparr>"]
    by (auto simp: smtp_deliver_def may Let_def hops_def route_all_def deliver_routed_def none forward_all_def external_copies_def
      local_copies_def finish_local_def notify_def)
qed

lemma submission_is_by_owners_witness:
  "let_in_as sample_submission (cn_session conn3) \<and> owns_sender ''ann@acme.org'' ''ann@acme.org'' (sm_db ann_state)"
proof -
  have n: "norm_addr ''ann@acme.org'' = ''ann@acme.org''" by code_simp
  have who: "authenticated_as sample_submission (cn_session conn3) = Some ''ann@acme.org''"
    by (simp add: authenticated_as_def conn3_def conn2_def sample_submission_def)
  have ids: "cn_server conn3 = \<lparr>sv_state = ann_state, sv_sessions = None, sv_messages = None\<rparr>"
    "cn_envelope conn3 = \<lparr>ev_from = Some ''ann@acme.org'', ev_rcpts = [''x@far.com'']\<rparr>"
    "peer_ip (cn_session conn3) = []" "ss_host (cn_session conn3) = []"
    by (simp_all add: conn3_def conn2_def conn1_def fresh_conn_def peer_ip_def)
  obtain out sv where d: "handle_DATA sample_submission 0 (0, 0, 0) (cn_session conn3) (cn_envelope conn3) ''m'' (cn_server conn3) = (out, sv)"
    by fastforce
  obtain row where "sm_queue (fst (smtp_deliver sample_submission 0 ''ann@acme.org'' [''x@far.com''] ''m'' [] [] (Some ''ann@acme.org'') ann_state)) = [row]"
    using conn3_sends by blast
  then have "sm_queue (sv_state sv) = [row]"
    using d who by (auto simp: handle_DATA_def ids let_in_def or_else_def sample_submission_def sample_env_def split_beta)
  then have changed: "sv_state sv \<noteq> sv_state (cn_server conn3)"
    by (auto simp: ids ann_state_def sample_smtp_def)
  have "smtp_step (\<lambda>_. None) sample_submission conn3 (Data 0 (0, 0, 0) ''m'') (conn3\<lparr>cn_envelope := no_envelope, cn_server := sv\<rparr>)"
    by (rule smtp_step.data [OF _ d]) (simp add: ids)
  from submission_is_by_owners [OF conn3_reached _ this] changed who
  show ?thesis by (auto simp: n ids or_else_def sample_submission_def)
qed

end
