(* ===== verification/Sieve.thy ===== *)
theory Sieve
  imports Headers "HOL-Library.Char_ord" "HOL-Library.List_Lexorder"
begin

text \<open>
  \<open>src/src/lightr/dovecot/sieve.py\<close>: filter rules compiled to Sieve. A set of extensions is a list. Dovecot, which
  runs the script, is a parameter: what the compiler relies on of it is stated after the compiler, as
  the rules of RFC 5228 for the tests that are generated.
\<close>

section \<open>Rules\<close>

datatype sieve_field =
    F_FROM | F_TO | F_CC | F_SUBJECT | F_BODY | F_HEADER | F_ATTACHMENT | F_SIZE
  | F_SPAM_SCORE | F_SPF_RESULT | F_DKIM_RESULT | F_DMARC_RESULT

fun field_str :: "sieve_field \<Rightarrow> string" where
  "field_str F_FROM = ''from''"
| "field_str F_TO = ''to''"
| "field_str F_CC = ''cc''"
| "field_str F_SUBJECT = ''subject''"
| "field_str F_BODY = ''body''"
| "field_str F_HEADER = ''header''"
| "field_str F_ATTACHMENT = ''attachment''"
| "field_str F_SIZE = ''size''"
| "field_str F_SPAM_SCORE = ''spam_score''"
| "field_str F_SPF_RESULT = ''spf_result''"
| "field_str F_DKIM_RESULT = ''dkim_result''"
| "field_str F_DMARC_RESULT = ''dmarc_result''"

datatype operator = EQUALS | CONTAINS | STARTS_WITH | ENDS_WITH | MATCHES | GREATER_THAN | LESS_THAN

fun operator_str :: "operator \<Rightarrow> string" where
  "operator_str EQUALS = ''equals''"
| "operator_str CONTAINS = ''contains''"
| "operator_str STARTS_WITH = ''starts_with''"
| "operator_str ENDS_WITH = ''ends_with''"
| "operator_str MATCHES = ''matches''"
| "operator_str GREATER_THAN = ''gt''"
| "operator_str LESS_THAN = ''lt''"

datatype sieve_action = FILE_INTO | DISCARD | REJECT_MAIL | REDIRECT | MARK_READ | FLAG | STOP

fun action_str :: "sieve_action \<Rightarrow> string" where
  "action_str FILE_INTO = ''file_into''"
| "action_str DISCARD = ''discard''"
| "action_str REJECT_MAIL = ''reject''"
| "action_str REDIRECT = ''redirect''"
| "action_str MARK_READ = ''mark_read''"
| "action_str FLAG = ''flag''"
| "action_str STOP = ''stop''"

datatype match_type = MATCH_ALL | MATCH_ANY

fun match_str :: "match_type \<Rightarrow> string" where
  "match_str MATCH_ALL = ''all''"
| "match_str MATCH_ANY = ''any''"

definition LIGHTR_EVALUATED :: "(sieve_field, string) dict" where
  "LIGHTR_EVALUATED = [(F_SPAM_SCORE, HEADER_SPAM_SCORE), (F_SPF_RESULT, HEADER_AUTH_RESULTS),
     (F_DKIM_RESULT, HEADER_AUTH_RESULTS), (F_DMARC_RESULT, HEADER_AUTH_RESULTS), (F_ATTACHMENT, HEADER_HAS_ATTACHMENT)]"

definition match_keyword :: "operator \<Rightarrow> string option" where
  "match_keyword op = map_of [(EQUALS, '':is''), (CONTAINS, '':contains''), (STARTS_WITH, '':matches''),
     (ENDS_WITH, '':matches''), (MATCHES, '':matches'')] op"

datatype sieve_error =
    BadOperator operator
  | NotANumber string
  | NoHeaderName
  | NotAnAddress string
  | NoConditions string
  | NoActions string
  | UnsupportedCondition string
  | UnsupportedAction string
  | BadMatchType string       \<comment> \<open>a \<open>ValueError\<close>, as are all of them\<close>
  | ScriptRejected            \<comment> \<open>what Dovecot said of a script\<close>

record condition =
  c_field :: sieve_field
  c_operator :: operator
  c_value :: string
  c_header :: "string option"

record rule =
  r_name :: string
  r_conditions :: "condition list"
  r_actions :: "(sieve_action \<times> string) list"
  r_match_type :: match_type
  r_priority :: int
  r_stop_on_match :: bool
  r_is_active :: bool

record sieve_script =
  s_body :: string
  s_requires :: "string list"

abbreviation QUOTE :: char where "QUOTE \<equiv> CHR 0x22"
abbreviation BACKSLASH :: char where "BACKSLASH \<equiv> CHR 0x5C"
abbreviation LF :: char where "LF \<equiv> CHR 0x0A"

definition render_script :: "sieve_script \<Rightarrow> string" where
  "render_script s =
    (let header = ''# Generated by Lightr. Do not edit -- changes are'' @ [LF] @
           ''# overwritten whenever filter rules change.'' @ [LF];
         names = join '', '' (map (\<lambda>r. [QUOTE] @ r @ [QUOTE]) (sort (remdups (s_requires s))));
         require = (if s_requires s = [] then [] else ''require ['' @ names @ ''];'' @ [LF, LF])
     in header @ [LF] @ require @ s_body s)"

section \<open>Tests\<close>

definition quote :: "string \<Rightarrow> string" where
  "quote v = [QUOTE] @ replace_char QUOTE [BACKSLASH, QUOTE] (replace_char BACKSLASH [BACKSLASH, BACKSLASH] v) @ [QUOTE]"

definition escape_glob :: "string \<Rightarrow> string" where
  "escape_glob v = replace_char CHR ''?'' [BACKSLASH, CHR ''?''] (replace_char CHR ''*'' [BACKSLASH, CHR ''*'']
     (replace_char BACKSLASH [BACKSLASH, BACKSLASH] v))"

definition header_test :: "string \<Rightarrow> operator \<Rightarrow> string \<Rightarrow> sieve_error + string" where
  "header_test header op v =
    (let pattern = (if op = STARTS_WITH then escape_glob v @ ''*''
                    else if op = ENDS_WITH then ''*'' @ escape_glob v else v)
     in case match_keyword op of
          None \<Rightarrow> Inl (BadOperator op)
        | Some keyword \<Rightarrow> Inr (''header '' @ keyword @ '' '' @ quote header @ '' '' @ quote pattern))"

text \<open>\<open>float(v)\<close> succeeds: a sign, then \<open>inf\<close>, \<open>nan\<close> or digits with a point and an exponent.\<close>

definition digit_part :: "string \<Rightarrow> bool" where
  "digit_part s \<longleftrightarrow> dec_digits True 0 s \<noteq> None"

definition drop_sign :: "string \<Rightarrow> string" where
  "drop_sign s = (if s \<noteq> [] \<and> hd s \<in> {CHR ''+'', CHR ''-''} then tl s else s)"

definition point_float :: "string \<Rightarrow> bool" where
  "point_float s =
    (let (whole, dot, frac) = partition_char CHR ''.'' s
     in if \<not> dot then digit_part whole
        else (whole \<noteq> [] \<or> frac \<noteq> []) \<and> (whole = [] \<or> digit_part whole) \<and> (frac = [] \<or> digit_part frac))"

definition is_float :: "string \<Rightarrow> bool" where
  "is_float v =
    (let s = drop_sign (lower (int_strip v));
         (mantissa, exp, power) = partition_char CHR ''e'' s
     in s \<in> {''inf'', ''infinity'', ''nan''} \<or> point_float mantissa \<and> (exp \<longrightarrow> digit_part (drop_sign power)))"

definition numeric_header_test :: "string \<Rightarrow> operator \<Rightarrow> string \<Rightarrow> sieve_error + string \<times> string list" where
  "numeric_header_test header op v =
    (if \<not> is_float v then Inl (NotANumber v)
     else if op \<notin> {GREATER_THAN, LESS_THAN} then Inl (BadOperator op)
     else Inr (''header :value '' @ quote (if op = GREATER_THAN then ''gt'' else ''lt'') @ '' :comparator '' @
            quote ''i;ascii-numeric'' @ '' '' @ quote header @ '' '' @ quote v,
          [''relational'', ''comparator-i;ascii-numeric'']))"

definition capitalized :: "sieve_field \<Rightarrow> string" where
  "capitalized f = (case f of F_FROM \<Rightarrow> ''From'' | F_TO \<Rightarrow> ''To'' | F_CC \<Rightarrow> ''Cc'' | _ \<Rightarrow> ''Subject'')"

definition result_test :: "string \<Rightarrow> string \<Rightarrow> string" where
  "result_test method v = ''header :contains '' @ quote HEADER_AUTH_RESULTS @ '' '' @ quote (method @ ''='' @ v)"

definition compile_condition :: "condition \<Rightarrow> sieve_error + string \<times> string list" where
  "compile_condition c =
    (let op = c_operator c; v = c_value c
     in case c_field c of
          F_HEADER \<Rightarrow>
            (case c_header c of
               None \<Rightarrow> Inl NoHeaderName
             | Some h \<Rightarrow> if h = [] then Inl NoHeaderName else bind_res (header_test h op v) (\<lambda>t. Inr (t, [])))
        | F_BODY \<Rightarrow>
            if op \<notin> {CONTAINS, MATCHES} then Inl (BadOperator op)
            else Inr (''body :text '' @ (if op = CONTAINS then '':contains'' else '':matches'') @ '' '' @ quote v, [''body''])
        | F_SIZE \<Rightarrow>
            (case int_base10 v of
               None \<Rightarrow> Inl (NotANumber v)
             | Some n \<Rightarrow>
               if op \<notin> {GREATER_THAN, LESS_THAN} then Inl (BadOperator op)
               else Inr (''size '' @ (if op = GREATER_THAN then '':over'' else '':under'') @ '' '' @ dec_str n, []))
        | F_SPAM_SCORE \<Rightarrow> numeric_header_test HEADER_SPAM_SCORE op v
        | F_SPF_RESULT \<Rightarrow> Inr (result_test ''spf'' v, [])
        | F_DKIM_RESULT \<Rightarrow> Inr (result_test ''dkim'' v, [])
        | F_DMARC_RESULT \<Rightarrow> Inr (result_test ''dmarc'' v, [])
        | F_ATTACHMENT \<Rightarrow>
            (let test = ''header :is '' @ quote HEADER_HAS_ATTACHMENT @ '' '' @ quote ''yes''
             in Inr (if lower v \<notin> {''false'', ''no'', ''0'', []} then test else ''not '' @ test, []))
        | f \<Rightarrow> bind_res (header_test (capitalized f) op v) (\<lambda>t. Inr (t, [])))"

section \<open>Actions, rules, scripts\<close>

text \<open>\<open>^[^@\s]+@[^@\s]+\.[^@\s]+$\<close> of the stripped text.\<close>

definition is_address_text :: "string \<Rightarrow> bool" where
  "is_address_text v =
    (let s = strip v; (local, has_at, host) = partition_char CHR ''@'' s
     in has_at \<and> local \<noteq> [] \<and> list_all (\<lambda>c. \<not> is_space c) s \<and> CHR ''@'' \<notin> set host \<and>
        (\<exists>i \<in> set [1..<length host - 1]. host ! i = CHR ''.''))"

definition compile_action :: "sieve_action \<Rightarrow> string \<Rightarrow> sieve_error + string \<times> string list" where
  "compile_action a argument =
    (case a of
       FILE_INTO \<Rightarrow> Inr (''fileinto :create '' @ quote (if argument = [] then ''INBOX'' else argument) @ '';'', [''fileinto'', ''mailbox''])
     | DISCARD \<Rightarrow> Inr (''discard;'', [])
     | REJECT_MAIL \<Rightarrow> Inr (''reject '' @ quote (if argument = [] then ''Message rejected by policy'' else argument) @ '';'', [''reject''])
     | REDIRECT \<Rightarrow> if \<not> is_address_text argument then Inl (NotAnAddress argument) else Inr (''redirect '' @ quote argument @ '';'', [])
     | MARK_READ \<Rightarrow> Inr (''setflag '' @ quote (BACKSLASH # ''Seen'') @ '';'', [''imap4flags''])
     | FLAG \<Rightarrow> Inr (''addflag '' @ quote (BACKSLASH # ''Flagged'') @ '';'', [''imap4flags''])
     | STOP \<Rightarrow> Inr (''stop;'', []))"

definition compile_rule :: "rule \<Rightarrow> sieve_error + string \<times> string list" where
  "compile_rule r =
    (if r_conditions r = [] then Inl (NoConditions (r_name r))
     else if r_actions r = [] then Inl (NoActions (r_name r))
     else
       bind_res (map_res compile_condition (r_conditions r)) (\<lambda>ts.
       bind_res (map_res (\<lambda>(a, x). compile_action a x) (r_actions r)) (\<lambda>cs.
         let joiner = (if r_match_type r = MATCH_ALL then ''allof'' else ''anyof'');
             condition = (case ts of [(t, _)] \<Rightarrow> t
               | _ \<Rightarrow> joiner @ '' ('' @ [LF] @ ''        '' @ join ('','' @ [LF] @ ''        '') (map fst ts) @ [LF] @ ''    )'');
             body = map (\<lambda>(c, _). ''    '' @ c) cs @
               (if r_stop_on_match r \<and> STOP \<notin> set (map fst (r_actions r)) then [''    stop;''] else [])
         in Inr (join [LF] ([''# '' @ r_name r, ''if '' @ condition @ '' {''] @ body @ [''}'']),
                 concat (map snd ts) @ concat (map snd cs)))))"

definition compile_script :: "rule list \<Rightarrow> sieve_error + sieve_script" where
  "compile_script rules =
    (let active = sort_key r_priority (sort_key r_name (filter r_is_active rules))
     in if active = [] then Inr \<lparr>s_body = ''# No active rules.'' @ [LF], s_requires = []\<rparr>
        else bind_res (map_res compile_rule active) (\<lambda>bs.
          Inr \<lparr>s_body = join [LF, LF] (map fst bs) @ [LF], s_requires = concat (map snd bs)\<rparr>))"

section \<open>What the compiler relies on\<close>

text \<open>A quoted string (RFC 5228, 2.4.2), after its opening quote: its value and what follows it.\<close>

fun unquote :: "string \<Rightarrow> (string \<times> string) option" where
  "unquote [] = None"
| "unquote (c # s) =
    (if c = QUOTE then Some ([], s)
     else if c = BACKSLASH
     then (case s of [] \<Rightarrow> None | d # s' \<Rightarrow> map_option (\<lambda>(v, r). (d # v, r)) (unquote s'))
     else map_option (\<lambda>(v, r). (c # v, r)) (unquote s))"

definition read_string :: "string \<Rightarrow> (string \<times> string) option" where
  "read_string s = (case s of c # r \<Rightarrow> if c = QUOTE then unquote r else None | [] \<Rightarrow> None)"

text \<open>The comparator \<open>i;ascii-casemap\<close>, the default.\<close>

definition fold_char :: "char \<Rightarrow> char" where
  "fold_char c = (let n = (of_char c :: nat) in if 65 \<le> n \<and> n \<le> 90 then char_of (n + 32) else c)"

definition fold_case :: "string \<Rightarrow> string" where
  "fold_case s = map fold_char s"






section \<open>Values stay inside their quotes\<close>

lemma replace_char_simps [simp]:
  "replace_char c r [] = []"
  "replace_char c r (x # s) = (if x = c then r else [x]) @ replace_char c r s"
  "replace_char c r (s @ t) = replace_char c r s @ replace_char c r t"
  by (simp_all add: replace_char_def)

lemma unquote_escaped:
  "unquote (replace_char QUOTE [BACKSLASH, QUOTE] (replace_char BACKSLASH [BACKSLASH, BACKSLASH] v) @ QUOTE # rest) = Some (v, rest)"
  by (induction v) auto

lemma read_quote [simp]: "read_string (quote v @ rest) = Some (v, rest)"
  using unquote_escaped [of v rest] by (simp add: read_string_def quote_def)


lemma fold_case_append [simp]: "fold_case (s @ t) = fold_case s @ fold_case t"
  by (simp add: fold_case_def)






section \<open>A header rule means what it says\<close>


















text \<open>
  A value is read back from its quotes as it was, whatever it holds and whatever follows: no value of
  a condition or an action ends its string early.
\<close>
theorem quoted_values_stay_inside: "read_string (quote v @ rest) = Some (v, rest)"
  by (rule read_quote)

section \<open>Scores below zero\<close>

text \<open>
  A mailbox that files mail by its spam score can take clean mail for spam: the comparator of the test
  is \<open>i;ascii-numeric\<close>, to which (RFC 4790, 9.1) a text that starts with no digit is infinite, and the field
  a message with a negative score is stamped with starts with a minus sign.
\<close>
lemma negative_scores_start_with_no_digit:
  assumes "an_score a < 0"
    and "compile_condition \<lparr>c_field = F_SPAM_SCORE, c_operator = op, c_value = v, c_header = h\<rparr> = Inr (t, req)"
  shows "t = ''header :value '' @ quote (if op = GREATER_THAN then ''gt'' else ''lt'') @ '' :comparator '' @
      quote ''i;ascii-numeric'' @ '' '' @ quote HEADER_SPAM_SCORE @ '' '' @ quote v"
    and "\<forall>x \<in> set (get_all_fields HEADER_SPAM_SCORE (apply_analysis a host fs)). \<not> is_digit (hd x)"
proof -
  show "t = ''header :value '' @ quote (if op = GREATER_THAN then ''gt'' else ''lt'') @ '' :comparator '' @
      quote ''i;ascii-numeric'' @ '' '' @ quote HEADER_SPAM_SCORE @ '' '' @ quote v"
    using assms(2) by (auto simp: compile_condition_def numeric_header_test_def Let_def split: if_splits simp del: append_Cons)
  show "\<forall>x \<in> set (get_all_fields HEADER_SPAM_SCORE (apply_analysis a host fs)). \<not> is_digit (hd x)"
    using assms(1) by (simp add: stamped_score fixed1_def Let_def is_digit_def)
qed

end
