(* ===== verification/Filters.thy ===== *)
theory Filters
  imports Sieve Maildir Api_Directory "HOL-Library.Option_ord"
begin

text \<open>
  Filter rules of a mailbox: \<open>src/src/lightr/dovecot/filters.py\<close> (what may be stored),
  \<open>src/src/lightr/dovecot/sieve_install.py\<close> (from the stored rows to the script Dovecot runs) and
  \<open>src/src/lightr/api/filters.py\<close> (the requests of a mailbox's own key). A JSON column is what
  \<open>json.loads\<close> makes of it, \<open>None\<close> when it is empty or no JSON. The machine the scripts are put on is
  a record: the files, the scripts activated through \<open>doveadm\<close>, whether it is there, which scripts
  it accepts and which paths can be written.
\<close>

section \<open>Rows and rules\<close>

record rule_columns =
  rc_name :: string
  rc_description :: "string option"
  rc_priority :: "int option"
  rc_conditions :: "json option"
  rc_match_type :: "string option"
  rc_actions :: "json option"
  rc_is_active :: bool
  rc_stop_on_match :: bool

record filter_row = rule_columns +
  f_id :: uuid
  f_org_id :: uuid
  f_account_id :: "uuid option"
  f_sieve_generated_at :: "instant option"
  f_created_at :: instant
  f_updated_at :: instant

definition json_list :: "json option \<Rightarrow> json list" where
  "json_list v = (case v of Some (JList xs) \<Rightarrow> xs | _ \<Rightarrow> [])"

definition FIELDS :: "sieve_field list" where
  "FIELDS = [F_FROM, F_TO, F_CC, F_SUBJECT, F_BODY, F_HEADER, F_ATTACHMENT, F_SIZE, F_SPAM_SCORE, F_SPF_RESULT,
     F_DKIM_RESULT, F_DMARC_RESULT]"

definition OPERATORS :: "operator list" where
  "OPERATORS = [EQUALS, CONTAINS, STARTS_WITH, ENDS_WITH, MATCHES, GREATER_THAN, LESS_THAN]"

definition ACTIONS :: "sieve_action list" where
  "ACTIONS = [FILE_INTO, DISCARD, REJECT_MAIL, REDIRECT, MARK_READ, FLAG, STOP]"

text \<open>\<open>Enum(value)\<close>, with \<open>None\<close> for the \<open>ValueError\<close>.\<close>

definition enum_of :: "('a \<Rightarrow> string) \<Rightarrow> 'a list \<Rightarrow> string \<Rightarrow> 'a option" where
  "enum_of str xs v = first_row (filter (\<lambda>x. str x = v) xs)"

text \<open>\<open>str(entry.get(k, default))\<close>.\<close>

definition entry_text :: "(json \<Rightarrow> string) \<Rightarrow> string \<Rightarrow> string \<Rightarrow> json_object \<Rightarrow> string" where
  "entry_text shown k dflt d = (case map_of d k of None \<Rightarrow> dflt | Some v \<Rightarrow> json_text shown v)"

text \<open>
  A header that is neither text nor null, which only a row written by hand can have, counts as none
  here; the code fails later, when it quotes it.
\<close>

definition entry_header :: "json_object \<Rightarrow> string option" where
  "entry_header d = (case json_get ''header'' d of JStr s \<Rightarrow> Some s | _ \<Rightarrow> None)"

definition condition_of :: "(json \<Rightarrow> string) \<Rightarrow> string \<Rightarrow> json_object \<Rightarrow> sieve_error + condition" where
  "condition_of shown name d =
    (case enum_of field_str FIELDS (lower (entry_text shown ''field'' [] d)) of
       None \<Rightarrow> Inl (UnsupportedCondition name)
     | Some f \<Rightarrow>
       (case enum_of operator_str OPERATORS (lower (entry_text shown ''operator'' ''contains'' d)) of
          None \<Rightarrow> Inl (UnsupportedCondition name)
        | Some op \<Rightarrow> Inr \<lparr>c_field = f, c_operator = op, c_value = entry_text shown ''value'' [] d, c_header = entry_header d\<rparr>))"

definition action_of :: "(json \<Rightarrow> string) \<Rightarrow> string \<Rightarrow> json_object \<Rightarrow> sieve_error + sieve_action \<times> string" where
  "action_of shown name d =
    (case enum_of action_str ACTIONS (lower (entry_text shown ''type'' [] d)) of
       None \<Rightarrow> Inl (UnsupportedAction name)
     | Some a \<Rightarrow> Inr (a, json_text shown (json_or (json_get ''value'' d) (JStr []))))"

text \<open>The entries that are objects; the others are skipped.\<close>

fun objects :: "json list \<Rightarrow> json_object list" where
  "objects [] = []"
| "objects (JObj d # xs) = d # objects xs"
| "objects (_ # xs) = objects xs"

definition rule_from_row :: "(json \<Rightarrow> string) \<Rightarrow> 'a rule_columns_scheme \<Rightarrow> sieve_error + rule" where
  "rule_from_row shown row =
    bind_res (map_res (condition_of shown (rc_name row)) (objects (json_list (rc_conditions row)))) (\<lambda>cs.
    bind_res (map_res (action_of shown (rc_name row)) (objects (json_list (rc_actions row)))) (\<lambda>as.
      let m = (case rc_match_type row of Some t \<Rightarrow> if t = [] then ''all'' else t | None \<Rightarrow> ''all'')
      in case enum_of match_str [MATCH_ALL, MATCH_ANY] (lower m) of
           None \<Rightarrow> Inl (BadMatchType m)
         | Some mt \<Rightarrow>
           Inr \<lparr>r_name = (if rc_name row = [] then ''unnamed'' else rc_name row), r_conditions = cs, r_actions = as,
             r_match_type = mt, r_priority = (case rc_priority row of Some p \<Rightarrow> if p = 0 then 100 else p | None \<Rightarrow> 100),
             r_stop_on_match = rc_stop_on_match row, r_is_active = rc_is_active row\<rparr>))"

section \<open>What may be stored\<close>

definition MAX_RULES :: nat where "MAX_RULES = 200"
definition MAX_CONDITIONS :: nat where "MAX_CONDITIONS = 20"
definition MAX_ACTIONS :: nat where "MAX_ACTIONS = 10"

definition SETTABLE :: "string list" where
  "SETTABLE = [''name'', ''description'', ''priority'', ''conditions'', ''actions'', ''match_type'', ''is_active'', ''stop_on_match'']"

definition REFUSED_ACTIONS :: "sieve_action list" where "REFUSED_ACTIONS = [REDIRECT]"

datatype filter_error =
    UnknownFields "string list"
  | NameRequired
  | NameTooLong
  | DescriptionNotText
  | BadPriority
  | MatchTypeUnknown
  | FlagNotBool string
  | EmptyList string
  | TooMany string
  | NotAnObject string nat
  | UnknownKeys string nat "string list"
  | NeedsKey string nat string
  | NotText string nat string
  | TooLong string nat string
  | RefusedAction sieve_action
  | DoesNotCompile sieve_error
  | Unhashable               \<comment> \<open>no \<open>FilterError\<close> but a \<open>TypeError\<close>\<close>

definition flag_setting :: "string \<Rightarrow> bool \<Rightarrow> json_object \<Rightarrow> filter_error + bool" where
  "flag_setting flag dflt body =
    (case map_of body flag of None \<Rightarrow> Inr dflt | Some (JBool b) \<Rightarrow> Inr b | Some _ \<Rightarrow> Inl (FlagNotBool flag))"

definition entry_key :: "(json \<Rightarrow> string) \<Rightarrow> string \<Rightarrow> nat \<Rightarrow> string list \<Rightarrow> json_object \<Rightarrow> string \<Rightarrow> filter_error + (string \<times> json) list" where
  "entry_key shown name position needed entry k =
    (let v = json_get k entry
     in if v = JNull then (if k \<in> set needed then Inl (NeedsKey name position k) else Inr [])
        else case v of
               JStr s \<Rightarrow> if 1000 < length s then Inl (TooLong name position k) else Inr [(k, JStr s)]
             | JInt n \<Rightarrow> if 1000 < length (shown v) then Inl (TooLong name position k) else Inr [(k, JStr (shown v))]
             | JFloat x \<Rightarrow> if 1000 < length (shown v) then Inl (TooLong name position k) else Inr [(k, JStr (shown v))]
             | _ \<Rightarrow> Inl (NotText name position k))"

definition clean_entry :: "(json \<Rightarrow> string) \<Rightarrow> string \<Rightarrow> string list \<Rightarrow> string list \<Rightarrow> nat \<times> json \<Rightarrow> filter_error + json" where
  "clean_entry shown name needed allowed p =
    (case p of (position, entry) \<Rightarrow>
       case entry of
         JObj d \<Rightarrow>
           (let extra = json_unknown (needed @ allowed) d
            in if extra \<noteq> [] then Inl (UnknownKeys name position extra)
               else bind_res (map_res (entry_key shown name position needed d) (needed @ allowed)) (\<lambda>items. Inr (JObj (concat items))))
       | _ \<Rightarrow> Inl (NotAnObject name position))"

definition clean_entries :: "(json \<Rightarrow> string) \<Rightarrow> json \<Rightarrow> string \<Rightarrow> nat \<Rightarrow> string list \<Rightarrow> string list \<Rightarrow> filter_error + json list" where
  "clean_entries shown v name maximum needed allowed =
    (case v of
       JList xs \<Rightarrow>
         if xs = [] then Inl (EmptyList name)
         else if length xs > maximum then Inl (TooMany name)
         else map_res (clean_entry shown name needed allowed) (enumerate 1 xs)
     | _ \<Rightarrow> Inl (EmptyList name))"

text \<open>\<open>body.get(k, default)\<close>.\<close>

definition body_or :: "string \<Rightarrow> json \<Rightarrow> json_object \<Rightarrow> json" where
  "body_or k dflt body = (case map_of body k of None \<Rightarrow> dflt | Some v \<Rightarrow> v)"

definition match_setting :: "json_object \<Rightarrow> filter_error + string" where
  "match_setting body =
    (case body_or ''match_type'' (JStr ''all'') body of
       JStr m \<Rightarrow> if m \<in> {match_str MATCH_ALL, match_str MATCH_ANY} then Inr m else Inl MatchTypeUnknown
     | JList _ \<Rightarrow> Inl Unhashable
     | JObj _ \<Rightarrow> Inl Unhashable
     | _ \<Rightarrow> Inl MatchTypeUnknown)"

definition name_setting :: "json_object \<Rightarrow> filter_error + string" where
  "name_setting body =
    (case json_get ''name'' body of
       JStr n \<Rightarrow> if strip n = [] then Inl NameRequired else if 200 < length n then Inl NameTooLong else Inr (strip n)
     | _ \<Rightarrow> Inl NameRequired)"

definition description_setting :: "json_object \<Rightarrow> filter_error + string option" where
  "description_setting body =
    (case json_get ''description'' body of JNull \<Rightarrow> Inr None | JStr s \<Rightarrow> Inr (Some s) | _ \<Rightarrow> Inl DescriptionNotText)"

definition priority_setting :: "json_object \<Rightarrow> filter_error + int" where
  "priority_setting body =
    (case body_or ''priority'' (JInt 100) body of
       JInt n \<Rightarrow> if 0 \<le> n \<and> n \<le> 10000 then Inr n else Inl BadPriority
     | _ \<Rightarrow> Inl BadPriority)"

text \<open>The last step: the rule must be one the mailbox may have, and compile.\<close>

definition admit_rule :: "(json \<Rightarrow> string) \<Rightarrow> rule_columns \<Rightarrow> filter_error + rule_columns" where
  "admit_rule shown row =
    (case rule_from_row shown row of
       Inl e \<Rightarrow> Inl (DoesNotCompile e)
     | Inr r \<Rightarrow>
       (case filter (\<lambda>a. a \<in> set REFUSED_ACTIONS) (map fst (r_actions r)) of
          a # _ \<Rightarrow> Inl (RefusedAction a)
        | [] \<Rightarrow>
          (case compile_script [r\<lparr>r_is_active := True\<rparr>] of
             Inl e \<Rightarrow> Inl (DoesNotCompile e)
           | Inr _ \<Rightarrow> Inr row)))"

definition normalise :: "(json \<Rightarrow> string) \<Rightarrow> json_object \<Rightarrow> filter_error + rule_columns" where
  "normalise shown body =
    (if json_unknown SETTABLE body \<noteq> [] then Inl (UnknownFields (json_unknown SETTABLE body))
     else
       bind_res (name_setting body) (\<lambda>name.
       bind_res (description_setting body) (\<lambda>description.
       bind_res (priority_setting body) (\<lambda>priority.
       bind_res (match_setting body) (\<lambda>match_type.
       bind_res (flag_setting ''is_active'' True body) (\<lambda>active.
       bind_res (flag_setting ''stop_on_match'' False body) (\<lambda>stop.
       bind_res (clean_entries shown (json_get ''conditions'' body) ''conditions'' MAX_CONDITIONS
                  [''field'', ''operator'', ''value''] [''header'']) (\<lambda>conditions.
       bind_res (clean_entries shown (json_get ''actions'' body) ''actions'' MAX_ACTIONS [''type''] [''value'']) (\<lambda>actions.
         admit_rule shown \<lparr>rc_name = name, rc_description = description, rc_priority = Some priority,
           rc_conditions = Some (JList conditions), rc_match_type = Some match_type,
           rc_actions = Some (JList actions), rc_is_active = active, rc_stop_on_match = stop\<rparr>)))))))))"

section \<open>The table\<close>

text \<open>A row as \<open>view\<close> shows it: without the organization and the account.\<close>

record filter_view = rule_columns +
  fv_id :: uuid
  fv_sieve_generated_at :: "instant option"
  fv_created_at :: instant
  fv_updated_at :: instant

definition shown_list :: "json option \<Rightarrow> json option" where
  "shown_list v = (case v of None \<Rightarrow> Some (JList []) | Some _ \<Rightarrow> v)"

definition view :: "filter_row \<Rightarrow> filter_view" where
  "view r = \<lparr>rc_name = rc_name r, rc_description = rc_description r, rc_priority = rc_priority r,
     rc_conditions = shown_list (rc_conditions r), rc_match_type = rc_match_type r,
     rc_actions = shown_list (rc_actions r), rc_is_active = rc_is_active r, rc_stop_on_match = rc_stop_on_match r,
     fv_id = f_id r, fv_sieve_generated_at = f_sieve_generated_at r, fv_created_at = f_created_at r,
     fv_updated_at = f_updated_at r\<rparr>"

text \<open>An unset priority, \<open>None\<close>, sorts before every number, as \<open>NULL\<close> does in SQLite.\<close>

definition rows_of :: "uuid \<Rightarrow> filter_row list \<Rightarrow> filter_row list" where
  "rows_of i rows = filter (\<lambda>r. f_account_id r = Some i) rows"

definition filter_list :: "uuid \<Rightarrow> filter_row list \<Rightarrow> filter_view list" where
  "filter_list i rows = map view (sort_key rc_priority (sort_key f_created_at (rows_of i rows)))"

definition filter_get :: "uuid \<Rightarrow> string \<Rightarrow> filter_row list \<Rightarrow> filter_view option" where
  "filter_get i ref rows =
    Option.bind (as_uuid ref) (\<lambda>u. map_option view (first_row (filter (\<lambda>r. f_id r = u \<and> f_account_id r = Some i) rows)))"

definition filter_count :: "uuid \<Rightarrow> filter_row list \<Rightarrow> nat" where
  "filter_count i rows = length (rows_of i rows)"

definition filter_create :: "uuid \<Rightarrow> instant \<Rightarrow> uuid \<Rightarrow> uuid \<Rightarrow> rule_columns \<Rightarrow> filter_row list \<Rightarrow> repo_error + filter_row list" where
  "filter_create fresh now org i v rows =
    (if fresh \<in> f_id ` set rows then Inl IntegrityError
     else Inr (rows @ [\<lparr>rc_name = rc_name v, rc_description = rc_description v, rc_priority = rc_priority v,
       rc_conditions = rc_conditions v, rc_match_type = rc_match_type v, rc_actions = rc_actions v,
       rc_is_active = rc_is_active v, rc_stop_on_match = rc_stop_on_match v, f_id = fresh, f_org_id = org,
       f_account_id = Some i, f_sieve_generated_at = None, f_created_at = now, f_updated_at = now\<rparr>]))"

definition set_columns :: "instant \<Rightarrow> rule_columns \<Rightarrow> filter_row \<Rightarrow> filter_row" where
  "set_columns now v r =
    r\<lparr>rc_name := rc_name v, rc_description := rc_description v, rc_priority := rc_priority v,
      rc_conditions := rc_conditions v, rc_match_type := rc_match_type v, rc_actions := rc_actions v,
      rc_is_active := rc_is_active v, rc_stop_on_match := rc_stop_on_match v, f_updated_at := now\<rparr>"

definition filter_update :: "uuid \<Rightarrow> uuid \<Rightarrow> instant \<Rightarrow> rule_columns \<Rightarrow> filter_row list \<Rightarrow> filter_row list" where
  "filter_update i u now v rows = update_where (\<lambda>r. f_id r = u \<and> f_account_id r = Some i) (set_columns now v) rows"

definition filter_delete :: "uuid \<Rightarrow> string \<Rightarrow> filter_row list \<Rightarrow> bool \<times> filter_row list" where
  "filter_delete i ref rows =
    (case as_uuid ref of
       None \<Rightarrow> (False, rows)
     | Some u \<Rightarrow> let p = (\<lambda>r. f_id r = u \<and> f_account_id r = Some i) in (rowcount p rows \<noteq> 0, delete_where p rows))"

section \<open>Installing\<close>

record sieve_host =
  sh_available :: bool
  sh_accepts :: "string \<Rightarrow> string \<Rightarrow> bool"
  sh_writable :: "path \<Rightarrow> bool"
  sh_files :: "(path, string) dict"
  sh_active :: "(string, string) dict"

datatype install_error =
    SieveFailed sieve_error
  | BadMailbox maildir_error
  | WriteFailed                \<comment> \<open>\<open>OSError\<close>\<close>

record install_result =
  ir_email :: string
  ir_path :: path
  ir_rules :: nat
  ir_changed :: bool
  ir_via :: string

definition ACTIVE_SCRIPT :: string where "ACTIVE_SCRIPT = ''active.sieve''"

definition script_path :: "path \<Rightarrow> string \<Rightarrow> maildir_error + path" where
  "script_path sieve_dir addr = bind_res (layout_for sieve_dir addr) (\<lambda>p. Inr (path_join p ACTIVE_SCRIPT))"

text \<open>\<open>write_script\<close>: \<open>None\<close> when it raises.\<close>

definition write_script :: "path \<Rightarrow> string \<Rightarrow> sieve_host \<Rightarrow> bool option \<times> sieve_host" where
  "write_script p content h =
    (if map_of (sh_files h) p = Some content then (Some False, h)
     else if \<not> sh_writable h p then (None, h)
     else (Some True, h\<lparr>sh_files := AList.update p content (sh_files h)\<rparr>))"

definition deliver_script :: "string \<Rightarrow> string \<Rightarrow> path \<Rightarrow> sieve_host \<Rightarrow> (install_error + bool \<times> string) \<times> sieve_host" where
  "deliver_script addr rendered p h =
    (if sh_available h \<and> \<not> sh_accepts h addr rendered then (Inl (SieveFailed ScriptRejected), h)
     else
       let h1 = (if sh_available h then h\<lparr>sh_active := AList.update addr rendered (sh_active h)\<rparr> else h);
           (changed, h2) = write_script p rendered h1
       in (case changed of None \<Rightarrow> Inl WriteFailed
             | Some c \<Rightarrow> Inr (c, if sh_available h then ''doveadm'' else ''file''), h2))"

definition rules_for :: "(json \<Rightarrow> string) \<Rightarrow> uuid \<Rightarrow> filter_row list \<Rightarrow> sieve_error + rule list" where
  "rules_for shown i rows = map_res (rule_from_row shown) (sort_key rc_priority (rows_of i rows))"

definition mark_generated :: "uuid \<Rightarrow> instant \<Rightarrow> filter_row list \<Rightarrow> filter_row list" where
  "mark_generated i now rows = update_where (\<lambda>r. f_account_id r = Some i) (\<lambda>r. r\<lparr>f_sieve_generated_at := Some now\<rparr>) rows"

text \<open>The script a mailbox's rows compile to.\<close>

definition script_text :: "(json \<Rightarrow> string) \<Rightarrow> uuid \<Rightarrow> filter_row list \<Rightarrow> sieve_error + string" where
  "script_text shown i rows = bind_res (rules_for shown i rows) (\<lambda>rs. bind_res (compile_script rs) (\<lambda>s. Inr (render_script s)))"

definition install ::
  "(json \<Rightarrow> string) \<Rightarrow> path \<Rightarrow> instant \<Rightarrow> uuid \<Rightarrow> string \<Rightarrow> filter_row list \<times> sieve_host \<Rightarrow>
   (install_error + install_result) \<times> filter_row list \<times> sieve_host" where
  "install shown sieve_dir now i addr st =
    (case st of (rows, h) \<Rightarrow>
       case rules_for shown i rows of
         Inl e \<Rightarrow> (Inl (SieveFailed e), rows, h)
       | Inr rules \<Rightarrow>
         (case compile_script rules of
            Inl e \<Rightarrow> (Inl (SieveFailed e), rows, h)
          | Inr script \<Rightarrow>
            (case script_path sieve_dir addr of
               Inl e \<Rightarrow> (Inl (BadMailbox e), rows, h)
             | Inr p \<Rightarrow>
               (case deliver_script addr (render_script script) p h of
                  (Inl e, h') \<Rightarrow> (Inl e, rows, h')
                | (Inr (changed, via), h') \<Rightarrow>
                  (Inr \<lparr>ir_email = addr, ir_path = p, ir_rules = length (filter r_is_active rules), ir_changed = changed, ir_via = via\<rparr>,
                   if changed then mark_generated i now rows else rows, h')))))"

text \<open>
  \<open>install_all\<close>. A \<open>ValueError\<close> that is no \<open>SieveError\<close>, which an unknown match type raises, is not
  caught: the left result.
\<close>

fun install_each ::
  "(json \<Rightarrow> string) \<Rightarrow> path \<Rightarrow> instant \<Rightarrow> account list \<Rightarrow> filter_row list \<times> sieve_host \<Rightarrow>
   (sieve_error + install_result list) \<times> filter_row list \<times> sieve_host" where
  "install_each shown sieve_dir now [] st = (Inr [], st)"
| "install_each shown sieve_dir now (a # as) st =
    (case email a of
       None \<Rightarrow> install_each shown sieve_dir now as st
     | Some addr \<Rightarrow>
       (case install shown sieve_dir now (a_id a) addr st of
          (Inl (SieveFailed (BadMatchType m)), st') \<Rightarrow> (Inl (BadMatchType m), st')
        | (Inl _, st') \<Rightarrow> install_each shown sieve_dir now as st'
        | (Inr r, st') \<Rightarrow>
          (case install_each shown sieve_dir now as st' of
             (Inl e, st'') \<Rightarrow> (Inl e, st'') | (Inr rs, st'') \<Rightarrow> (Inr (r # rs), st''))))"

definition install_all ::
  "(json \<Rightarrow> string) \<Rightarrow> path \<Rightarrow> instant \<Rightarrow> database \<Rightarrow> filter_row list \<times> sieve_host \<Rightarrow>
   (sieve_error + install_result list) \<times> filter_row list \<times> sieve_host" where
  "install_all shown sieve_dir now db st = install_each shown sieve_dir now (account_list None 10000 0 db) st"

section \<open>The requests of a mailbox's key\<close>

definition account_for :: "api_key \<Rightarrow> database \<Rightarrow> api_error + account" where
  "account_for k db =
    bind_res (require_permission MAILBOX k) (\<lambda>_.
      case k_account_id k of
        None \<Rightarrow> Inl (AuthError 403)
      | Some i \<Rightarrow> lift_repo (account_resolve (uuid_str i) db))"

definition body_error :: "filter_error \<Rightarrow> api_error" where
  "body_error e = (case e of Unhashable \<Rightarrow> Unhandled | _ \<Rightarrow> AuthError 400)"

definition install_fault :: "install_error \<Rightarrow> api_error" where
  "install_fault e =
    (case e of
       SieveFailed (BadMatchType _) \<Rightarrow> ValueFault
     | SieveFailed _ \<Rightarrow> AuthError 400
     | _ \<Rightarrow> AuthError 502)"

text \<open>
  What a request takes from outside: \<open>str\<close> of a JSON value, the directory of the scripts, the clock and
  a fresh id.
\<close>

record filter_env =
  fe_shown :: "json \<Rightarrow> string"
  fe_sieve_dir :: path
  fe_now :: instant
  fe_fresh :: uuid

type_synonym filter_state = "filter_row list \<times> sieve_host"

definition install_for :: "filter_env \<Rightarrow> account \<Rightarrow> filter_state \<Rightarrow> (api_error + unit) \<times> filter_state" where
  "install_for env a st =
    (case email a of
       None \<Rightarrow> (Inl (AuthError 500), st)
     | Some addr \<Rightarrow>
       (case install (fe_shown env) (fe_sieve_dir env) (fe_now env) (a_id a) addr st of
          (Inl e, st') \<Rightarrow> (Inl (install_fault e), st')
        | (Inr _, st') \<Rightarrow> (Inr (), st')))"

text \<open>A 404 that is answered, not raised, is a left result too: it changes nothing.\<close>

definition list_filters :: "api_key \<Rightarrow> database \<Rightarrow> filter_state \<Rightarrow> api_error + filter_view list" where
  "list_filters k db st = bind_res (account_for k db) (\<lambda>a. Inr (filter_list (a_id a) (fst st)))"

definition get_filter :: "api_key \<Rightarrow> string \<Rightarrow> database \<Rightarrow> filter_state \<Rightarrow> api_error + filter_view" where
  "get_filter k ref db st =
    bind_res (account_for k db) (\<lambda>a.
      case filter_get (a_id a) ref (fst st) of None \<Rightarrow> Inl (AuthError 404) | Some r \<Rightarrow> Inr r)"

definition new_rows :: "filter_env \<Rightarrow> account \<Rightarrow> json_object option \<Rightarrow> database \<Rightarrow> filter_row list \<Rightarrow> api_error + filter_row list" where
  "new_rows env a body db rows =
    bind_res (parse_body body) (\<lambda>d.
      case normalise (fe_shown env) d of
        Inl e \<Rightarrow> Inl (body_error e)
      | Inr v \<Rightarrow>
        if filter_count (a_id a) rows \<ge> MAX_RULES then Inl (AuthError 400)
        else bind_res (lift_repo (domain_resolve (uuid_str (a_domain_id a)) db)) (\<lambda>dm.
          lift_repo (filter_create (fe_fresh env) (fe_now env) (d_org_id dm) (a_id a) v rows)))"

text \<open>\<open>merged\<close> of \<open>update_filter\<close>.\<close>

definition opt_json :: "string option \<Rightarrow> json" where
  "opt_json s = (case s of None \<Rightarrow> JNull | Some x \<Rightarrow> JStr x)"

definition merged_body :: "filter_view \<Rightarrow> json_object \<Rightarrow> json_object" where
  "merged_body r body =
    foldl (\<lambda>d (k, v). AList.update k v d)
      [(''name'', JStr (rc_name r)), (''description'', opt_json (rc_description r)),
       (''priority'', JInt (case rc_priority r of None \<Rightarrow> 100 | Some p \<Rightarrow> p)),
       (''conditions'', the (rc_conditions r)), (''actions'', the (rc_actions r)),
       (''match_type'', opt_json (rc_match_type r)), (''is_active'', JBool (rc_is_active r)),
       (''stop_on_match'', JBool (rc_stop_on_match r))] body"

definition changed_rows :: "filter_env \<Rightarrow> account \<Rightarrow> string \<Rightarrow> json_object option \<Rightarrow> filter_row list \<Rightarrow> api_error + uuid \<times> filter_row list" where
  "changed_rows env a ref body rows =
    bind_res (parse_body body) (\<lambda>d.
      case filter_get (a_id a) ref rows of
        None \<Rightarrow> Inl (AuthError 404)
      | Some current \<Rightarrow>
        (case normalise (fe_shown env) (merged_body current d) of
           Inl e \<Rightarrow> Inl (body_error e)
         | Inr v \<Rightarrow> Inr (fv_id current, filter_update (a_id a) (fv_id current) (fe_now env) v rows)))"

definition kept_rows :: "account \<Rightarrow> string \<Rightarrow> filter_row list \<Rightarrow> api_error + filter_row list" where
  "kept_rows a ref rows =
    (let (found, rows') = filter_delete (a_id a) ref rows in if \<not> found then Inl (AuthError 404) else Inr rows')"

text \<open>The transaction of a request: an exception takes the table back, not the machine.\<close>

definition write_and_install ::
  "filter_env \<Rightarrow> account \<Rightarrow> api_error + 'a \<times> filter_row list \<Rightarrow> filter_state \<Rightarrow> (api_error + 'a) \<times> filter_state" where
  "write_and_install env a change st =
    (case change of
       Inl e \<Rightarrow> (Inl e, st)
     | Inr (x, rows') \<Rightarrow>
       (case install_for env a (rows', snd st) of
          (Inl e, (_, h')) \<Rightarrow> (Inl e, (fst st, h'))
        | (Inr _, st') \<Rightarrow> (Inr x, st')))"

datatype filter_request =
    CreateFilter "json_object option"
  | UpdateFilter string "json_object option"
  | DeleteFilter string

text \<open>
  \<open>create_filter\<close>, \<open>update_filter\<close> and \<open>delete_filter\<close>: the answer is the id of the row, read back with
  \<open>filter_get\<close> by the first two.
\<close>

definition create_filter :: "filter_env \<Rightarrow> account \<Rightarrow> json_object option \<Rightarrow> database \<Rightarrow> filter_state \<Rightarrow> (api_error + uuid option) \<times> filter_state" where
  "create_filter env a body db st =
    write_and_install env a (bind_res (new_rows env a body db (fst st)) (\<lambda>rows'. Inr (Some (fe_fresh env), rows'))) st"

definition update_filter :: "filter_env \<Rightarrow> account \<Rightarrow> string \<Rightarrow> json_object option \<Rightarrow> filter_state \<Rightarrow> (api_error + uuid option) \<times> filter_state" where
  "update_filter env a ref body st =
    write_and_install env a (bind_res (changed_rows env a ref body (fst st)) (\<lambda>(u, rows'). Inr (Some u, rows'))) st"

definition delete_filter :: "filter_env \<Rightarrow> account \<Rightarrow> string \<Rightarrow> filter_state \<Rightarrow> (api_error + uuid option) \<times> filter_state" where
  "delete_filter env a ref st =
    write_and_install env a (bind_res (kept_rows a ref (fst st)) (\<lambda>rows'. Inr (None, rows'))) st"

definition filter_exec ::
  "filter_env \<Rightarrow> api_key \<Rightarrow> filter_request \<Rightarrow> database \<Rightarrow> filter_state \<Rightarrow> (api_error + uuid option) \<times> filter_state" where
  "filter_exec env k req db st =
    (case account_for k db of
       Inl e \<Rightarrow> (Inl e, st)
     | Inr a \<Rightarrow>
       (case req of
          CreateFilter body \<Rightarrow> create_filter env a body db st
        | UpdateFilter ref body \<Rightarrow> update_filter env a ref body st
        | DeleteFilter ref \<Rightarrow> delete_filter env a ref st))"

definition show_script :: "filter_env \<Rightarrow> api_key \<Rightarrow> database \<Rightarrow> filter_state \<Rightarrow> api_error + string" where
  "show_script env k db st =
    bind_res (account_for k db) (\<lambda>a.
      case script_text (fe_shown env) (a_id a) (fst st) of Inl _ \<Rightarrow> Inl ValueFault | Inr s \<Rightarrow> Inr s)"

section \<open>Stored rules compile\<close>

definition row_ok :: "(json \<Rightarrow> string) \<Rightarrow> 'a rule_columns_scheme \<Rightarrow> bool" where
  "row_ok shown row \<longleftrightarrow> (\<exists>r b. rule_from_row shown row = Inr r \<and> REDIRECT \<notin> fst ` set (r_actions r) \<and> compile_rule r = Inr b)"

lemma map_res_total: "(\<And>x. x \<in> set xs \<Longrightarrow> \<exists>y. f x = Inr y) \<Longrightarrow> \<exists>ys. map_res f xs = Inr ys"
proof (induction xs)
  case (Cons x xs)
  then obtain y ys where "f x = Inr y" "map_res f xs = Inr ys" by fastforce
  then show ?case by simp
qed simp

lemma map_res_set: "map_res f xs = Inr ys \<Longrightarrow> y \<in> set ys \<Longrightarrow> \<exists>x \<in> set xs. f x = Inr y"
  by (auto simp: map_res_Inr_iff in_set_conv_nth list_all2_conv_all_nth) (metis nth_mem)

lemma compile_rule_active [simp]: "compile_rule (r\<lparr>r_is_active := b\<rparr>) = compile_rule r"
  by (simp add: compile_rule_def)

lemma compile_script_total:
  "(\<And>r. r \<in> set rs \<Longrightarrow> r_is_active r \<Longrightarrow> \<exists>b. compile_rule r = Inr b) \<Longrightarrow> \<exists>s. compile_script rs = Inr s"
  using map_res_total [of "sort_key r_priority (sort_key r_name (filter r_is_active rs))" compile_rule]
  by (fastforce simp: compile_script_def Let_def)

lemma compile_script_one: "compile_script [r\<lparr>r_is_active := True\<rparr>] = Inr s \<Longrightarrow> \<exists>b. compile_rule r = Inr b"
  by (auto simp: compile_script_def Let_def res_simps)

lemma admit_rule_ok: "admit_rule shown v = Inr w \<Longrightarrow> w = v \<and> row_ok shown v"
  by (auto simp: admit_rule_def row_ok_def REFUSED_ACTIONS_def filter_empty_conv split: sum.splits list.splits dest!: compile_script_one)

lemma normalise_ok: "normalise shown body = Inr v \<Longrightarrow> row_ok shown v"
  by (auto simp: normalise_def res_simps split: if_splits dest!: admit_rule_ok)

lemma rule_from_row_cong:
  assumes "rc_name r = rc_name v" "rc_priority r = rc_priority v" "rc_conditions r = rc_conditions v"
    "rc_match_type r = rc_match_type v" "rc_actions r = rc_actions v" "rc_is_active r = rc_is_active v"
    "rc_stop_on_match r = rc_stop_on_match v"
  shows "rule_from_row shown r = rule_from_row shown v"
  unfolding rule_from_row_def assms ..

lemma row_ok_set_columns [simp]: "row_ok shown (set_columns now v r) = row_ok shown v"
  unfolding row_ok_def by (subst rule_from_row_cong [of _ v]) (simp_all add: set_columns_def)

lemma set_columns_keeps: "f_id (set_columns now v r) = f_id r \<and> f_account_id (set_columns now v r) = f_account_id r"
  by (simp add: set_columns_def)

lemma rule_from_row_generated [simp]: "rule_from_row shown (r\<lparr>f_sieve_generated_at := t\<rparr>) = rule_from_row shown r"
  by (rule rule_from_row_cong) simp_all

lemma row_ok_generated [simp]: "row_ok shown (r\<lparr>f_sieve_generated_at := t\<rparr>) = row_ok shown r"
  by (simp add: row_ok_def)

lemma script_total:
  assumes "\<forall>r \<in> set (rows_of i rows). row_ok shown r"
  shows "\<exists>s. script_text shown i rows = Inr s"
proof -
  have "\<exists>y. rule_from_row shown r = Inr y" if "r \<in> set (sort_key rc_priority (rows_of i rows))" for r
    using assms that by (auto simp: row_ok_def)
  then obtain rs where rs: "rules_for shown i rows = Inr rs"
    using map_res_total unfolding rules_for_def by blast
  have "\<exists>b. compile_rule r = Inr b" if r: "r \<in> set rs" for r
  proof -
    obtain x where "x \<in> set (rows_of i rows)" "rule_from_row shown x = Inr r"
      using map_res_set [OF rs [unfolded rules_for_def] r] by auto
    then show ?thesis using assms by (auto simp: row_ok_def)
  qed
  then show ?thesis using compile_script_total [of rs] rs by (auto simp: script_text_def)
qed

section \<open>What a request does to the table\<close>

lemma insort_key_map: "insort_key k (f x) (map f xs) = map f (insort_key (\<lambda>x. k (f x)) x xs)"
  by (induction xs) auto

lemma sort_key_map: "sort_key k (map f xs) = map f (sort_key (\<lambda>x. k (f x)) xs)"
  by (induction xs) (simp_all add: insort_key_map)

lemma rows_of_generated: "rows_of i (mark_generated i now rows) = map (\<lambda>r. r\<lparr>f_sieve_generated_at := Some now\<rparr>) (rows_of i rows)"
  by (induction rows) (auto simp: mark_generated_def rows_of_def update_where_def)

lemma map_res_map: "map_res f (map g xs) = map_res (\<lambda>x. f (g x)) xs"
  by (induction xs) simp_all

lemma script_text_generated [simp]: "script_text shown i (mark_generated i now rows) = script_text shown i rows"
  by (simp add: script_text_def rules_for_def rows_of_generated sort_key_map map_res_map)

lemma others_generated: "filter (\<lambda>r. f_account_id r \<noteq> Some i) (mark_generated i now rows) = filter (\<lambda>r. f_account_id r \<noteq> Some i) rows"
  by (induction rows) (auto simp: mark_generated_def update_where_def)

lemma write_script_spec:
  assumes "write_script p content h = (c, h')"
  shows "sh_active h' = sh_active h" "c = None \<Longrightarrow> h' = h" "c \<noteq> None \<Longrightarrow> map_of (sh_files h') p = Some content"
    "\<And>q. q \<noteq> p \<Longrightarrow> map_of (sh_files h') q = map_of (sh_files h) q"
  using assms by (auto simp: write_script_def split: if_splits)

lemma deliver_script_spec:
  assumes "deliver_script addr text p h = (res, h')"
  shows "\<And>e. res = Inl e \<Longrightarrow> sh_files h' = sh_files h"
    "\<And>x. res = Inr x \<Longrightarrow> map_of (sh_files h') p = Some text"
    "\<And>q. q \<noteq> p \<Longrightarrow> map_of (sh_files h') q = map_of (sh_files h) q"
proof -
  define h1 where "h1 = (if sh_available h then h\<lparr>sh_active := AList.update addr text (sh_active h)\<rparr> else h)"
  obtain c h2 where w: "write_script p text h1 = (c, h2)" by (cases "write_script p text h1")
  have f: "sh_files h1 = sh_files h" by (simp add: h1_def)
  show "\<And>e. res = Inl e \<Longrightarrow> sh_files h' = sh_files h" "\<And>x. res = Inr x \<Longrightarrow> map_of (sh_files h') p = Some text"
    "\<And>q. q \<noteq> p \<Longrightarrow> map_of (sh_files h') q = map_of (sh_files h) q"
    using assms w write_script_spec [OF w] f
    by (auto simp: deliver_script_def Let_def h1_def [symmetric] split: if_splits option.splits)
qed

lemma install_spec:
  assumes "install shown dir now i addr (rows, h) = (res, rows', h')"
  shows "\<And>e. res = Inl e \<Longrightarrow> sh_files h' = sh_files h \<and> rows' = rows"
    "rows' = rows \<or> rows' = mark_generated i now rows"
    "\<And>x. res = Inr x \<Longrightarrow> \<exists>p s. script_path dir addr = Inr p \<and> script_text shown i rows = Inr s \<and> map_of (sh_files h') p = Some s"
  using assms
  by (auto simp: install_def script_text_def split: sum.splits prod.splits if_splits dest: deliver_script_spec)

lemma install_elsewhere:
  assumes "install shown dir now i addr (rows, h) = (res, rows', h')" "script_path dir addr \<noteq> Inr q"
  shows "map_of (sh_files h') q = map_of (sh_files h) q"
  using assms deliver_script_spec(3)
  by (auto simp: install_def split: sum.splits prod.splits if_splits)

lemma install_installed:
  assumes "install shown dir now i addr (rows, h) = (Inr x, rows', h')"
  shows "\<exists>p s. script_path dir addr = Inr p \<and> script_text shown i rows' = Inr s \<and> map_of (sh_files h') p = Some s"
  using install_spec(2,3) [OF assms] by auto

section \<open>Requests\<close>

lemma others_created:
  "filter_create fresh now org i v rows = Inr rows' \<Longrightarrow> filter (\<lambda>r. f_account_id r \<noteq> Some i) rows' = filter (\<lambda>r. f_account_id r \<noteq> Some i) rows"
  by (auto simp: filter_create_def split: if_splits)

lemma others_updated:
  "filter (\<lambda>r. f_account_id r \<noteq> Some i) (filter_update i u now v rows) = filter (\<lambda>r. f_account_id r \<noteq> Some i) rows"
  unfolding filter_update_def by (rule filter_update_where) (auto simp: set_columns_def)

lemma others_deleted:
  "filter (\<lambda>r. f_account_id r \<noteq> Some i) (snd (filter_delete i ref rows)) = filter (\<lambda>r. f_account_id r \<noteq> Some i) rows"
  by (auto simp: filter_delete_def Let_def intro!: filter_delete_where split: option.splits)

text \<open>A change of one mailbox's rows that keeps the table's invariant.\<close>

definition filters_ok :: "(json \<Rightarrow> string) \<Rightarrow> filter_row list \<Rightarrow> bool" where
  "filters_ok shown rows \<longleftrightarrow> unique_by f_id rows \<and> (\<forall>r \<in> set rows. row_ok shown r) \<and> (\<forall>i. filter_count i rows \<le> MAX_RULES)"

lemma filters_ok_created:
  assumes "filters_ok shown rows" "row_ok shown v" "filter_count i rows < MAX_RULES" "filter_create fresh now org i v rows = Inr rows'"
  shows "filters_ok shown rows'"
proof -
  define r where "r = \<lparr>rc_name = rc_name v, rc_description = rc_description v, rc_priority = rc_priority v,
       rc_conditions = rc_conditions v, rc_match_type = rc_match_type v, rc_actions = rc_actions v,
       rc_is_active = rc_is_active v, rc_stop_on_match = rc_stop_on_match v, f_id = fresh, f_org_id = org,
       f_account_id = Some i, f_sieve_generated_at = None, f_created_at = now, f_updated_at = now\<rparr>"
  have rows': "rows' = rows @ [r]" "fresh \<notin> f_id ` set rows"
    using assms(4) by (auto simp: filter_create_def r_def split: if_splits)
  have "rule_from_row shown r = rule_from_row shown v" by (rule rule_from_row_cong) (simp_all add: r_def)
  then have "row_ok shown r" using assms(2) by (simp add: row_ok_def)
  moreover have "f_id r = fresh" "f_account_id r = Some i" by (simp_all add: r_def)
  ultimately show ?thesis
    using assms(1,3) by (auto simp: filters_ok_def rows' filter_count_def rows_of_def)
qed

lemma filters_ok_map:
  assumes "filters_ok shown rows" "\<And>r. f_id (g r) = f_id r \<and> f_account_id (g r) = f_account_id r"
    "\<And>r. row_ok shown r \<Longrightarrow> row_ok shown (g r)"
  shows "filters_ok shown (update_where p g rows)"
proof -
  have "length (filter (\<lambda>r. f_account_id r = Some i) (update_where p g rows)) = length (filter (\<lambda>r. f_account_id r = Some i) rows)" for i
    by (induction rows) (auto simp: update_where_def assms(2))
  then show ?thesis
    using assms unique_by_update [of f_id rows g p] by (auto simp: filters_ok_def filter_count_def rows_of_def set_update_where)
qed

lemma filters_ok_deleted: "filters_ok shown rows \<Longrightarrow> filters_ok shown (delete_where p rows)"
proof -
  assume ok: "filters_ok shown rows"
  have "length (filter q (filter (\<lambda>r. \<not> p r) rows)) \<le> length (filter q rows)" for q by (induction rows) auto
  then have "filter_count i (delete_where p rows) \<le> filter_count i rows" for i
    by (simp add: filter_count_def rows_of_def delete_where_def)
  then show ?thesis
    using ok unique_by_delete [of f_id rows p] by (auto simp: filters_ok_def set_delete_where intro: order_trans)
qed

lemma write_and_install_spec:
  assumes "write_and_install env a change (rows, h) = (ans, rows', h')"
  shows "\<And>e. ans = Inl e \<Longrightarrow> rows' = rows \<and> sh_files h' = sh_files h"
    "\<And>x. ans = Inr x \<Longrightarrow> \<exists>new p s. change = Inr (x, new) \<and> (rows' = new \<or> rows' = mark_generated (a_id a) (fe_now env) new) \<and>
       script_path (fe_sieve_dir env) (the (email a)) = Inr p \<and> script_text (fe_shown env) (a_id a) rows' = Inr s \<and> map_of (sh_files h') p = Some s"
    "\<And>q. script_path (fe_sieve_dir env) (the (email a)) \<noteq> Inr q \<Longrightarrow> map_of (sh_files h') q = map_of (sh_files h) q"
proof -
  have *: "install_for env a (new, h) = (res, new', h'') \<Longrightarrow>
      (\<forall>e. res = Inl e \<longrightarrow> sh_files h'' = sh_files h) \<and>
      (res = Inr () \<longrightarrow> (new' = new \<or> new' = mark_generated (a_id a) (fe_now env) new) \<and>
        (\<exists>p s. script_path (fe_sieve_dir env) (the (email a)) = Inr p \<and> script_text (fe_shown env) (a_id a) new' = Inr s \<and> map_of (sh_files h'') p = Some s)) \<and>
      (\<forall>q. script_path (fe_sieve_dir env) (the (email a)) \<noteq> Inr q \<longrightarrow> map_of (sh_files h'') q = map_of (sh_files h) q)" for new res new' h''
    by (cases "email a"; cases "install (fe_shown env) (fe_sieve_dir env) (fe_now env) (a_id a) (the (email a)) (new, h)")
       (auto simp: install_for_def split: sum.splits dest: install_spec(1,2) install_installed install_elsewhere)
  show "\<And>e. ans = Inl e \<Longrightarrow> rows' = rows \<and> sh_files h' = sh_files h"
    "\<And>x. ans = Inr x \<Longrightarrow> \<exists>new p s. change = Inr (x, new) \<and> (rows' = new \<or> rows' = mark_generated (a_id a) (fe_now env) new) \<and>
       script_path (fe_sieve_dir env) (the (email a)) = Inr p \<and> script_text (fe_shown env) (a_id a) rows' = Inr s \<and> map_of (sh_files h') p = Some s"
    "\<And>q. script_path (fe_sieve_dir env) (the (email a)) \<noteq> Inr q \<Longrightarrow> map_of (sh_files h') q = map_of (sh_files h) q"
    using assms * by (auto simp: write_and_install_def split: sum.splits prod.splits)
qed

text \<open>A table after a request: the other mailboxes as they were, the invariant kept.\<close>

definition keeps :: "(json \<Rightarrow> string) \<Rightarrow> uuid \<Rightarrow> filter_row list \<Rightarrow> filter_row list \<Rightarrow> bool" where
  "keeps shown i rows rows' \<longleftrightarrow>
    filter (\<lambda>r. f_account_id r \<noteq> Some i) rows' = filter (\<lambda>r. f_account_id r \<noteq> Some i) rows \<and>
    (filters_ok shown rows \<longrightarrow> filters_ok shown rows')"

lemma keeps_refl [simp]: "keeps shown i rows rows"
  by (simp add: keeps_def)

lemma keeps_generated: "keeps shown i rows new \<Longrightarrow> keeps shown i rows (mark_generated i now new)"
proof -
  have "filters_ok shown new \<Longrightarrow> filters_ok shown (mark_generated i now new)"
    unfolding mark_generated_def by (rule filters_ok_map) simp_all
  then show "keeps shown i rows new \<Longrightarrow> keeps shown i rows (mark_generated i now new)"
    by (auto simp: keeps_def others_generated)
qed

lemma new_rowsD:
  "new_rows env a body db rows = Inr new \<Longrightarrow> \<exists>v org. row_ok (fe_shown env) v \<and> filter_count (a_id a) rows < MAX_RULES \<and>
    filter_create (fe_fresh env) (fe_now env) org (a_id a) v rows = Inr new"
  by (auto simp: new_rows_def bind_res_def split: sum.splits if_splits dest: normalise_ok)

lemma changed_rowsD:
  "changed_rows env a ref body rows = Inr (u, new) \<Longrightarrow>
    \<exists>v. row_ok (fe_shown env) v \<and> new = filter_update (a_id a) u (fe_now env) v rows"
  by (auto simp: changed_rows_def bind_res_def split: sum.splits option.splits dest: normalise_ok)

lemma keeps_new: "new_rows env a body db rows = Inr new \<Longrightarrow> keeps (fe_shown env) (a_id a) rows new"
  by (auto simp: keeps_def others_created dest!: new_rowsD intro: filters_ok_created)

lemma keeps_changed: "changed_rows env a ref body rows = Inr (u, new) \<Longrightarrow> keeps (fe_shown env) (a_id a) rows new"
proof -
  have "filters_ok shown rows \<Longrightarrow> row_ok shown v \<Longrightarrow> filters_ok shown (filter_update i w now v rows)" for shown v i w now
    unfolding filter_update_def by (rule filters_ok_map) (simp_all add: set_columns_keeps)
  then show "changed_rows env a ref body rows = Inr (u, new) \<Longrightarrow> keeps (fe_shown env) (a_id a) rows new"
    by (auto simp: keeps_def others_updated dest!: changed_rowsD)
qed

lemma keeps_kept: "kept_rows a ref rows = Inr new \<Longrightarrow> keeps shown (a_id a) rows new"
  using others_deleted [of "a_id a" ref rows] filters_ok_deleted [of shown rows]
  by (auto simp: kept_rows_def keeps_def filter_delete_def Let_def split: option.splits if_splits)

lemma exec_is_write:
  assumes "account_for k db = Inr a"
  obtains change where "filter_exec env k req db st = write_and_install env a change st"
    "\<And>x new. change = Inr (x, new) \<Longrightarrow> keeps (fe_shown env) (a_id a) (fst st) new"
proof (cases req)
  case (CreateFilter body)
  show ?thesis
    by (rule that [of "bind_res (new_rows env a body db (fst st)) (\<lambda>rows'. Inr (Some (fe_fresh env), rows'))"])
       (auto simp: filter_exec_def assms CreateFilter create_filter_def res_simps intro: keeps_new)
next
  case (UpdateFilter ref body)
  show ?thesis
    by (rule that [of "bind_res (changed_rows env a ref body (fst st)) (\<lambda>(u, rows'). Inr (Some u, rows'))"])
       (auto simp: filter_exec_def assms UpdateFilter update_filter_def res_simps intro: keeps_changed)
next
  case (DeleteFilter ref)
  show ?thesis
    by (rule that [of "bind_res (kept_rows a ref (fst st)) (\<lambda>rows'. Inr (None, rows'))"])
       (auto simp: filter_exec_def assms DeleteFilter delete_filter_def res_simps intro: keeps_kept)
qed

lemma exec_keeps:
  assumes "account_for k db = Inr a" "filter_exec env k req db (rows, h) = (ans, rows', h')"
  shows "keeps (fe_shown env) (a_id a) rows rows'"
proof -
  obtain change where c: "write_and_install env a change (rows, h) = (ans, rows', h')"
    "\<And>x new. change = Inr (x, new) \<Longrightarrow> keeps (fe_shown env) (a_id a) rows new"
    using exec_is_write [OF assms(1), of env req "(rows, h)"] assms(2) by (metis fst_conv)
  show ?thesis
  proof (cases ans)
    case (Inl e)
    then show ?thesis using write_and_install_spec(1) [OF c(1)] by simp
  next
    case (Inr x)
    then show ?thesis using write_and_install_spec(2) [OF c(1) Inr] c(2) by (auto intro: keeps_generated)
  qed
qed

lemma exec_refused: "account_for k db = Inl e \<Longrightarrow> filter_exec env k req db st = (Inl e, st)"
  by (simp add: filter_exec_def)

text \<open>
  C8. A write of filters is whole or not at all: when it is answered, the script file of the mailbox holds
  exactly what the stored rules compile to; when it is refused, for whatever reason, neither the table
  nor any script file has changed.
\<close>
theorem filter_writes_are_whole:
  assumes "filter_exec env k req db (rows, h) = (ans, rows', h')"
  shows "case ans of
      Inl _ \<Rightarrow> rows' = rows \<and> sh_files h' = sh_files h
    | Inr _ \<Rightarrow> \<exists>a p s. account_for k db = Inr a \<and> script_path (fe_sieve_dir env) (the (email a)) = Inr p \<and>
        script_text (fe_shown env) (a_id a) rows' = Inr s \<and> map_of (sh_files h') p = Some s"
proof (cases "account_for k db")
  case (Inl e)
  then show ?thesis using assms by (auto simp: exec_refused)
next
  case (Inr a)
  then obtain change where "write_and_install env a change (rows, h) = (ans, rows', h')"
    using exec_is_write [OF Inr, of env req "(rows, h)"] assms by metis
  from write_and_install_spec(1,2) [OF this] show ?thesis using Inr by (cases ans) auto
qed

lemma account_for_id:
  assumes "account_for k db = Inr a" "k_account_id k = Some i" "valid_uuid i"
  shows "a_id a = i"
  using assms by (auto simp: account_for_def account_resolve_def res_simps split: option.splits sum.splits dest!: first_row_filterD)

text \<open>
  C28. A mailbox's key manages that mailbox's filters only: no request changes a row of another account, or
  a script file other than that of the account's own address.
\<close>
theorem filters_stay_with_their_mailbox:
  assumes "filter_exec env k req db (rows, h) = (ans, rows', h')" "k_account_id k = Some i" "valid_uuid i"
  shows "filter (\<lambda>r. f_account_id r \<noteq> Some i) rows' = filter (\<lambda>r. f_account_id r \<noteq> Some i) rows \<and>
    (\<forall>q. map_of (sh_files h') q = map_of (sh_files h) q \<or>
      (\<exists>a. account_for k db = Inr a \<and> a_id a = i \<and> script_path (fe_sieve_dir env) (the (email a)) = Inr q))"
proof (cases "account_for k db")
  case (Inl e)
  then show ?thesis using assms(1) by (simp add: exec_refused)
next
  case (Inr a)
  have i: "a_id a = i" by (rule account_for_id [OF Inr assms(2,3)])
  obtain change where "write_and_install env a change (rows, h) = (ans, rows', h')"
    using exec_is_write [OF Inr, of env req "(rows, h)"] assms(1) by metis
  from write_and_install_spec(3) [OF this] show ?thesis
    using exec_keeps [OF Inr assms(1)] Inr i by (auto simp: keeps_def)
qed

section \<open>What is stored can be installed\<close>

inductive filter_reachable :: "(json \<Rightarrow> string) \<Rightarrow> filter_row list \<Rightarrow> bool" for shown where
  Empty: "filter_reachable shown []"
| Request: "filter_reachable shown rows \<Longrightarrow> fe_shown env = shown \<Longrightarrow>
    filter_exec env k req db (rows, h) = (ans, rows', h') \<Longrightarrow> filter_reachable shown rows'"
| InstallAll: "filter_reachable shown rows \<Longrightarrow> install_all shown dir now db (rows, h) = (res, rows', h') \<Longrightarrow> filter_reachable shown rows'"

lemma filters_ok_generated: "filters_ok shown rows \<Longrightarrow> filters_ok shown (mark_generated i now rows)"
  using keeps_generated [OF keeps_refl, of shown i rows now] by (simp add: keeps_def)

lemma install_each_ok:
  "install_each shown dir now as (rows, h) = (res, rows', h') \<Longrightarrow> filters_ok shown rows \<Longrightarrow> filters_ok shown rows'"
proof (induction as arbitrary: rows h res rows' h')
  case Nil
  then show ?case by simp
next
  case (Cons a as)
  show ?case
  proof (cases "email a")
    case None
    then show ?thesis using Cons by simp
  next
    case (Some addr)
    obtain r rows1 h1 where i: "install shown dir now (a_id a) addr (rows, h) = (r, rows1, h1)" by (metis surj_pair)
    have "filters_ok shown rows1" using install_spec(2) [OF i] Cons.prems(2) filters_ok_generated by auto
    then show ?thesis
      using Cons.prems(1) Cons.IH [of rows1 h1] Some i
      by (auto split: sum.splits install_error.splits sieve_error.splits prod.splits)
  qed
qed

lemma filters_ok_reachable: "filter_reachable shown rows \<Longrightarrow> filters_ok shown rows"
proof (induction rule: filter_reachable.induct)
  case Empty
  then show ?case by (simp add: filters_ok_def filter_count_def rows_of_def)
next
  case (Request rows env k req db h ans rows' h')
  then show ?case
  proof (cases "account_for k db")
    case (Inl e)
    then show ?thesis using Request by (simp add: exec_refused)
  next
    case (Inr a)
    from exec_keeps [OF this Request(3)] show ?thesis using Request by (simp add: keeps_def)
  qed
next
  case (InstallAll rows dir now db h res rows' h')
  then show ?case by (auto simp: install_all_def dest: install_each_ok)
qed

text \<open>
  C22. Whatever requests were answered, every mailbox has at most two hundred rules, and all of them read
  and compile to one script without a redirect among their actions: no stored rule can keep the
  others from being installed.
\<close>
theorem stored_filters_always_compile:
  assumes "filter_reachable shown rows"
  shows "filter_count i rows \<le> MAX_RULES \<and>
    (\<exists>rs s. rules_for shown i rows = Inr rs \<and> compile_script rs = Inr s \<and> REDIRECT \<notin> (\<Union>r \<in> set rs. fst ` set (r_actions r)))"
proof -
  have ok: "filters_ok shown rows" using assms by (rule filters_ok_reachable)
  then have rows: "\<forall>r \<in> set (rows_of i rows). row_ok shown r" by (auto simp: filters_ok_def rows_of_def)
  obtain s where "script_text shown i rows = Inr s" using script_total [OF rows] by blast
  then obtain rs c where rs: "rules_for shown i rows = Inr rs" "compile_script rs = Inr c"
    by (auto simp: script_text_def res_simps)
  have "REDIRECT \<notin> fst ` set (r_actions r)" if mem: "r \<in> set rs" for r
  proof -
    obtain x where "x \<in> set (rows_of i rows)" "rule_from_row shown x = Inr r"
      using map_res_set [OF rs(1) [unfolded rules_for_def] mem] by auto
    with rows show ?thesis unfolding row_ok_def by (metis sum.inject(2))
  qed
  then show ?thesis using rs ok by (auto simp: filters_ok_def)
qed

section \<open>Where it fails\<close>

lemma admit_rule_same: "admit_rule shown row = Inr v \<Longrightarrow> v = row"
  unfolding admit_rule_def by (auto split: sum.splits list.splits)

lemma map_res_image: "map_res f xs = Inr ys \<Longrightarrow> x \<in> set xs \<Longrightarrow> \<exists>y \<in> set ys. f x = Inr y"
  by (induction xs arbitrary: ys) (auto simp: bind_res_def split: sum.splits)

lemma join_member: "x \<in> set xs \<Longrightarrow> \<exists>u w. join sep xs = u @ x @ w"
proof (induction sep xs rule: join.induct)
  case (3 sep y z zs)
  show ?case
  proof (cases "x = y")
    case True
    then show ?thesis by (intro exI [of _ "[]"] exI [of _ "sep @ join sep (z # zs)"]) simp
  next
    case False
    then obtain u w where "join sep (z # zs) = u @ x @ w" using 3 by auto
    then show ?thesis by (intro exI [of _ "y @ sep @ u"] exI [of _ w]) simp
  qed
qed (auto intro: exI [of _ "[]"])

lemma compile_rule_name: "compile_rule r = Inr b \<Longrightarrow> \<exists>w. fst b = ''# '' @ r_name r @ [LF] @ w"
  by (auto simp: compile_rule_def Let_def res_simps split: if_splits)

lemma script_has_rule:
  assumes "compile_script rs = Inr c" "r \<in> set rs" "r_is_active r"
  shows "\<exists>b u w. compile_rule r = Inr b \<and> render_script c = u @ fst b @ w"
proof -
  define active where "active = sort_key r_priority (sort_key r_name (filter r_is_active rs))"
  have mem: "r \<in> set active" using assms by (simp add: active_def)
  then have "active \<noteq> []" by auto
  then obtain bs where bs: "map_res compile_rule active = Inr bs" and c: "s_body c = join [LF, LF] (map fst bs) @ [LF]"
    using assms(1) unfolding compile_script_def active_def [symmetric] Let_def by (auto simp: bind_res_def split: sum.splits)
  obtain b where b: "compile_rule r = Inr b" "b \<in> set bs" using map_res_image [OF bs mem] by blast
  obtain u w where "join [LF, LF] (map fst bs) = u @ fst b @ w" using join_member [of "fst b" "map fst bs" "[LF, LF]"] b(2) by auto
  then show ?thesis using b(1) c unfolding render_script_def Let_def by (metis append.assoc)
qed

text \<open>
  C33. The name of a rule is written into the script after a hash sign as it is, and it may hold a line
  break: it is stored as it was sent but for white space around it. So what follows a line break in the
  name of an active rule stands on lines of its own in the script of the mailbox, where it is code, and can
  be the redirect that no action may be.
\<close>
theorem rule_names_become_code:
  assumes "script_text shown i rows = Inr s" "row \<in> set rows" "f_account_id row = Some i" "rc_is_active row"
    and "rc_name row = a @ LF # b"
  shows "(\<exists>u w. s = u @ ''# '' @ a @ [LF] @ b @ [LF] @ w) \<and>
    (normalise shown body = Inr v \<and> json_get ''name'' body = JStr n \<longrightarrow> rc_name v = strip n)"
proof (intro conjI impI)
  obtain rs c where rs: "rules_for shown i rows = Inr rs" "compile_script rs = Inr c" "s = render_script c"
    using assms(1) by (auto simp: script_text_def res_simps)
  have "row \<in> set (sort_key rc_priority (rows_of i rows))" using assms(2,3) by (simp add: rows_of_def)
  then obtain r where r: "r \<in> set rs" "rule_from_row shown row = Inr r"
    using map_res_image [OF rs(1) [unfolded rules_for_def]] by blast
  have "r_name r = a @ LF # b" "r_is_active r"
    using r(2) assms(4,5) by (auto simp: rule_from_row_def Let_def res_simps split: option.splits)
  with script_has_rule [OF rs(2) r(1)] compile_rule_name [of r] rs(3)
  show "\<exists>u w. s = u @ ''# '' @ a @ [LF] @ b @ [LF] @ w" by fastforce
next
  assume "normalise shown body = Inr v \<and> json_get ''name'' body = JStr n"
  then show "rc_name v = strip n"
    by (auto simp: normalise_def name_setting_def res_simps dest!: admit_rule_same split: if_splits)
qed

text \<open>
  C34. When the file cannot be written after Dovecot has taken the script, the client is told that nothing
  was changed and the table is as it was, but the refused rules are what Dovecot runs from then on.
\<close>
theorem refused_filters_go_live:
  assumes "write_and_install env a (Inr (x, new)) (rows, h) = (ans, rows', h')" "email a = Some addr"
    and "script_text (fe_shown env) (a_id a) new = Inr s" "script_path (fe_sieve_dir env) addr = Inr p"
    and "sh_available h" "sh_accepts h addr s" "\<not> sh_writable h p" "map_of (sh_files h) p \<noteq> Some s"
  shows "ans = Inl (AuthError 502) \<and> rows' = rows \<and> map_of (sh_active h') addr = Some s"
proof -
  obtain rs c where rs: "rules_for (fe_shown env) (a_id a) new = Inr rs" "compile_script rs = Inr c" "s = render_script c"
    using assms(3) by (auto simp: script_text_def res_simps)
  have "write_script p s (h\<lparr>sh_active := AList.update addr s (sh_active h)\<rparr>) = (None, h\<lparr>sh_active := AList.update addr s (sh_active h)\<rparr>)"
    using assms(7,8) by (simp add: write_script_def)
  then have "deliver_script addr s p h = (Inl WriteFailed, h\<lparr>sh_active := AList.update addr s (sh_active h)\<rparr>)"
    using assms(5,6) by (simp add: deliver_script_def)
  then have "install_for env a (new, h) = (Inl (AuthError 502), new, h\<lparr>sh_active := AList.update addr s (sh_active h)\<rparr>)"
    using assms(2,4) rs by (simp add: install_for_def install_def install_fault_def)
  then show ?thesis using assms(1) by (auto simp: write_and_install_def)
qed

section \<open>A mailbox with one rule\<close>

definition sample_filter_env :: filter_env where
  "sample_filter_env = \<lparr>fe_shown = (\<lambda>_. []), fe_sieve_dir = [''sieve''], fe_now = 9, fe_fresh = 77\<rparr>"

definition mailbox_key :: api_key where
  "mailbox_key = (sample_key 1 ACCOUNT_KEY ''lk_one'')\<lparr>k_domain_id := None, k_account_id := Some 4\<rparr>"

definition sample_host :: sieve_host where
  "sample_host = \<lparr>sh_available = False, sh_accepts = (\<lambda>_ _. True), sh_writable = (\<lambda>_. True), sh_files = [], sh_active = []\<rparr>"

definition receipts :: filter_request where
  "receipts = CreateFilter (Some
     [(''name'', JStr ''Receipts''),
      (''conditions'', JList [JObj [(''field'', JStr ''from''), (''operator'', JStr ''ends_with''), (''value'', JStr ''@bank.org'')]]),
      (''actions'', JList [JObj [(''type'', JStr ''file_into''), (''value'', JStr ''Receipts'')]])])"

definition with_receipts :: "(api_error + uuid option) \<times> filter_state" where
  "with_receipts = filter_exec sample_filter_env mailbox_key receipts sample_db ([], sample_host)"

lemma receipts_stored: "fst with_receipts = Inr (Some 77)" "filter_count 4 (fst (snd with_receipts)) = 1"
  by code_simp+

lemma mailbox_key_account: "k_account_id mailbox_key = Some 4" "valid_uuid 4"
  by (simp_all add: mailbox_key_def valid_uuid_def)

lemma with_receipts_exec:
  "filter_exec sample_filter_env mailbox_key receipts sample_db ([], sample_host) = (Inr (Some 77), fst (snd with_receipts), snd (snd with_receipts))"
  using receipts_stored(1) by (simp add: with_receipts_def prod_eq_iff)

lemma receipts_reachable: "filter_reachable (\<lambda>_. []) (fst (snd with_receipts))"
  by (rule filter_reachable.Request [OF filter_reachable.Empty _ with_receipts_exec]) (simp add: sample_filter_env_def)

lemma receipts_script: "\<exists>s. script_text (\<lambda>_. []) 4 (fst (snd with_receipts)) = Inr s"
  using filters_ok_reachable [OF receipts_reachable] by (intro script_total) (auto simp: filters_ok_def rows_of_def)

theorem filter_writes_are_whole_witness:
  "\<exists>a p s. account_for mailbox_key sample_db = Inr a \<and> script_path [''sieve''] (the (email a)) = Inr p \<and>
    script_text (\<lambda>_. []) (a_id a) (fst (snd with_receipts)) = Inr s \<and> map_of (sh_files (snd (snd with_receipts))) p = Some s"
  using filter_writes_are_whole [OF with_receipts_exec] by (simp add: sample_filter_env_def)

theorem filters_stay_with_their_mailbox_witness:
  "filter (\<lambda>r. f_account_id r \<noteq> Some 4) (fst (snd with_receipts)) = []"
  using filters_stay_with_their_mailbox [OF with_receipts_exec mailbox_key_account] by simp

theorem stored_filters_always_compile_witness:
  "filter_count 4 (fst (snd with_receipts)) = 1 \<and>
    (\<exists>rs s. rules_for (\<lambda>_. []) 4 (fst (snd with_receipts)) = Inr rs \<and> compile_script rs = Inr s)"
  using stored_filters_always_compile [OF receipts_reachable, of 4] receipts_stored(2) by auto

definition spying :: filter_request where
  "spying = CreateFilter (Some
     [(''name'', JStr (''News'' @ [LF] @ ''redirect '' @ quote ''spy@far.com'' @ '';'')),
      (''conditions'', JList [JObj [(''field'', JStr ''from''), (''operator'', JStr ''contains''), (''value'', JStr [])]]),
      (''actions'', JList [JObj [(''type'', JStr ''mark_read'')]])])"

definition with_spy :: "filter_row list" where
  "with_spy = fst (snd (filter_exec sample_filter_env mailbox_key spying sample_db ([], sample_host)))"

theorem rule_names_become_code_witness:
  "\<exists>s u w. script_text (\<lambda>_. []) 4 with_spy = Inr s \<and> s = u @ ''# News'' @ [LF] @ ''redirect '' @ quote ''spy@far.com'' @ '';'' @ [LF] @ w"
proof -
  have rows: "map (\<lambda>r. (f_account_id r, rc_is_active r, rc_name r)) with_spy =
      [(Some 4, True, ''News'' @ LF # ''redirect '' @ quote ''spy@far.com'' @ '';'')]"
    by code_simp
  have "length with_spy = 1" using arg_cong [OF rows, of length] by simp
  then obtain x where x: "with_spy = [x]" by (auto simp: length_Suc_conv)
  obtain row where row: "row \<in> set with_spy" "f_account_id row = Some 4" "rc_is_active row"
      "rc_name row = ''News'' @ LF # ''redirect '' @ quote ''spy@far.com'' @ '';''"
    by (rule that [of x]) (use rows in \<open>simp_all add: x\<close>)
  have "isl (script_text (\<lambda>_. []) 4 with_spy) = False" by code_simp
  then obtain s where s: "script_text (\<lambda>_. []) 4 with_spy = Inr s" by (cases "script_text (\<lambda>_. []) 4 with_spy") auto
  from rule_names_become_code [OF s row, of "[]", THEN conjunct1]
  obtain u w where "s = u @ ''# '' @ ''News'' @ [LF] @ (''redirect '' @ quote ''spy@far.com'' @ '';'') @ [LF] @ w" by blast
  with s show ?thesis by (intro exI conjI) simp_all
qed

theorem refused_filters_go_live_witness:
  "\<exists>h' s. write_and_install sample_filter_env (sample_account 4 2 ''ann''\<lparr>a_domain_name := Some ''acme.org''\<rparr>) (Inr ((), fst (snd with_receipts)))
      ([], sample_host\<lparr>sh_available := True, sh_writable := (\<lambda>_. False)\<rparr>) = (Inl (AuthError 502), [], h') \<and>
    map_of (sh_active h') ''ann@acme.org'' = Some s \<and> script_text (\<lambda>_. []) 4 (fst (snd with_receipts)) = Inr s"
proof -
  let ?a = "sample_account 4 2 ''ann''\<lparr>a_domain_name := Some ''acme.org''\<rparr>"
  let ?h = "sample_host\<lparr>sh_available := True, sh_writable := (\<lambda>_. False)\<rparr>"
  obtain s where s: "script_text (fe_shown sample_filter_env) (a_id ?a) (fst (snd with_receipts)) = Inr s"
    using receipts_script by (auto simp: sample_filter_env_def sample_account_def)
  obtain ans rows' h' where e: "write_and_install sample_filter_env ?a (Inr ((), fst (snd with_receipts))) ([], ?h) = (ans, rows', h')"
    by (metis surj_pair)
  have p: "email ?a = Some ''ann@acme.org''" "script_path (fe_sieve_dir sample_filter_env) ''ann@acme.org'' = Inr [''sieve'', ''acme.org'', ''ann'', ''active.sieve'']"
    by code_simp+
  from refused_filters_go_live [OF e p(1) s p(2)] show ?thesis
    using e s by (auto simp: sample_host_def sample_filter_env_def sample_account_def)
qed

end
