(* ===== verification/Sessions.thy ===== *)
theory Sessions
  imports Filters Ratelimit
begin

text \<open>
  \<open>src/src/lightr/api/session.py\<close>: signing in to the mailbox API, the sessions of a mailbox, and changing its
  password. The state is the table of keys, the accounts and the two limiters of the process. A
  response that is answered, not raised, is a value of \<open>session_answer\<close>; an exception leaves the tables
  as they were, the limiters not.
\<close>

section \<open>Attempts\<close>

definition SESSION_PREFIX :: string where "SESSION_PREFIX = ''session:''"
definition SESSION_LIFETIME :: instant where "SESSION_LIFETIME = days 30"
definition SESSION_PERMISSIONS :: "permission list" where "SESSION_PERMISSIONS = [MAILBOX, SEND]"
definition ACCOUNT_FAILURES :: int where "ACCOUNT_FAILURES = 10"
definition ACCOUNT_WINDOW :: rat where "ACCOUNT_WINDOW = 900"
definition MAX_USER_AGENT :: nat where "MAX_USER_AGENT = 200"

record session_limits =
  sl_address :: "limiter option"
  sl_account :: "limiter option"

definition new_limits :: "int \<Rightarrow> session_limits" where
  "new_limits auth_failures_per_minute =
    \<lparr>sl_address = mk_limiter auth_failures_per_minute 60, sl_account = mk_limiter ACCOUNT_FAILURES ACCOUNT_WINDOW\<rparr>"

text \<open>The clock when a limiter looks at its buckets, makes one, and takes from one.\<close>

type_synonym ticks = "rat \<times> rat \<times> rat"

definition spend_one :: "ticks \<Rightarrow> limiter option \<Rightarrow> string \<Rightarrow> int option \<times> limiter option" where
  "spend_one clk slot key =
    (case slot of
       None \<Rightarrow> (None, None)
     | Some L \<Rightarrow>
       let (ts, tn, tt) = clk; (ok, L1) = limiter_allow L key ts tn tt
       in if ok then (None, Some L1)
          else let (wait, L2) = limiter_retry_after L1 key ts tn in (Some wait, Some L2))"

fun spend :: "ticks \<Rightarrow> (limiter option \<times> string) list \<Rightarrow> int option \<times> limiter option list" where
  "spend clk [] = (None, [])"
| "spend clk ((slot, key) # rest) =
    (let (wait, slot') = spend_one clk slot key
     in case wait of
          Some n \<Rightarrow> (Some n, slot' # map fst rest)
        | None \<Rightarrow> let (wait', slots) = spend clk rest in (wait', slot' # slots))"

definition refund :: "limiter option \<Rightarrow> string \<Rightarrow> limiter option" where
  "refund slot key = map_option (\<lambda>L. limiter_forget L key) slot"

section \<open>Signing in and out\<close>

record session_state =
  sn_keys :: key_table
  sn_limits :: session_limits

text \<open>What a request takes from outside: the hash and the random part of a secret, a fresh id, the clock.\<close>

record session_env =
  se_sha :: "string \<Rightarrow> string"
  se_secret :: string
  se_fresh :: uuid
  se_now :: instant
  se_ticks :: ticks

datatype session_answer =
    SignedIn string instant uuid "string option" "string option"   \<comment> \<open>token, expiry, session, address, name\<close>
  | RateLimited int                                              \<comment> \<open>429\<close>
  | Unavailable                                                  \<comment> \<open>503\<close>
  | PasswordChanged nat bool                                     \<comment> \<open>sessions revoked, IMAP cache cleared\<close>

text \<open>\<open>body.get(k)\<close> when it is text and not empty, or blank where that counts.\<close>

definition text_of_body :: "string \<Rightarrow> json_object \<Rightarrow> string option" where
  "text_of_body k body = (case json_get k body of JStr s \<Rightarrow> if s = [] then None else Some s | _ \<Rightarrow> None)"

definition session_key ::
  "session_env \<Rightarrow> account \<Rightarrow> string option \<Rightarrow> key_table \<Rightarrow> key_error + api_key \<times> string \<times> key_table" where
  "session_key env a user_agent keys =
    (let ua = take MAX_USER_AGENT (or_blank user_agent)
     in key_create (se_sha env) (se_secret env) (se_fresh env) (se_now env) (SESSION_PREFIX @ or_blank (email a)) ACCOUNT_KEY
          None None (Some (a_id a)) (Some SESSION_PERMISSIONS) [] None (if ua = [] then None else Some ua)
          (Some (se_now env + SESSION_LIFETIME)) keys)"

definition signed_in ::
  "session_env \<Rightarrow> auth_world \<Rightarrow> string \<Rightarrow> string \<Rightarrow> string \<Rightarrow> string option \<Rightarrow> session_limits \<Rightarrow> key_table \<Rightarrow>
   (api_error + session_answer) \<times> session_state" where
  "signed_in env w addr password client user_agent limits keys =
    (let refused = \<lparr>sn_keys = keys, sn_limits = limits\<rparr>
     in case authenticate w addr password of
          Inl _ \<Rightarrow> (Inl Unhandled, refused)
        | Inr result \<Rightarrow>
          (case (ar_ok result, ar_account result) of
             (True, Some a) \<Rightarrow>
               (let limits' = \<lparr>sl_address = refund (sl_address limits) client, sl_account = refund (sl_account limits) addr\<rparr>
                in case session_key env a user_agent keys of
                     Inl e \<Rightarrow> (Inl (KeyFault e), \<lparr>sn_keys = keys, sn_limits = limits'\<rparr>)
                   | Inr (k, secret, keys') \<Rightarrow>
                     (Inr (SignedIn secret (se_now env + SESSION_LIFETIME) (k_id k) (email a) (a_display_name a)),
                      \<lparr>sn_keys = keys', sn_limits = limits'\<rparr>))
           | _ \<Rightarrow> (if auth_temporary result then Inr Unavailable else Inl (AuthError 401), refused)))"

definition create_session ::
  "session_env \<Rightarrow> auth_world \<Rightarrow> string option \<Rightarrow> string option \<Rightarrow> json_object option \<Rightarrow> session_state \<Rightarrow>
   (api_error + session_answer) \<times> session_state" where
  "create_session env w client_address user_agent body st =
    (case parse_body body of
       Inl e \<Rightarrow> (Inl e, st)
     | Inr d \<Rightarrow>
       (case (text_of_body ''email'' d, text_of_body ''password'' d) of
          (Some entered, Some password) \<Rightarrow>
            if strip entered = [] then (Inl (AuthError 400), st)
            else
              let addr = lower (strip entered);
                  client = (if truthy client_address then the client_address else ''unknown'');
                  (wait, slots) = spend (se_ticks env) [(sl_address (sn_limits st), client), (sl_account (sn_limits st), addr)];
                  limits = \<lparr>sl_address = slots ! 0, sl_account = slots ! 1\<rparr>
              in (case wait of
                    Some n \<Rightarrow> (Inr (RateLimited n), st\<lparr>sn_limits := limits\<rparr>)
                  | None \<Rightarrow> signed_in env w addr password client user_agent limits (sn_keys st))
        | _ \<Rightarrow> (Inl (AuthError 400), st)))"

definition end_session :: "api_key \<Rightarrow> instant \<Rightarrow> database \<Rightarrow> key_table \<Rightarrow> api_error + key_table" where
  "end_session k now db keys =
    bind_res (account_for k db) (\<lambda>_.
      if \<not> starts_with SESSION_PREFIX (k_name k) then Inl (AuthError 400) else Inr (revoke (k_id k) now keys))"

text \<open>\<open>name LIKE 'session:%'\<close>: SQLite folds ASCII letters.\<close>

definition session_name :: "string \<Rightarrow> bool" where
  "session_name n \<longleftrightarrow> sql_like (sql_lower (SESSION_PREFIX @ ''%'')) (sql_lower n)"

definition account_sessions :: "uuid \<Rightarrow> key_table \<Rightarrow> api_key list" where
  "account_sessions i keys = filter (\<lambda>k. k_account_id k = Some i \<and> session_name (k_name k) \<and> k_active k) keys"

definition sessions :: "instant \<Rightarrow> uuid \<Rightarrow> key_table \<Rightarrow> api_key list" where
  "sessions now i keys = filter (key_usable now) (sort_key (\<lambda>k. - k_created_at k) (account_sessions i keys))"

definition list_sessions :: "api_key \<Rightarrow> instant \<Rightarrow> database \<Rightarrow> key_table \<Rightarrow> api_error + (api_key \<times> bool) list" where
  "list_sessions k now db keys =
    bind_res (account_for k db) (\<lambda>a. Inr (map (\<lambda>s. (s, k_id s = k_id k)) (sessions now (a_id a) keys)))"

definition revoke_session :: "api_key \<Rightarrow> string \<Rightarrow> instant \<Rightarrow> database \<Rightarrow> key_table \<Rightarrow> api_error + key_table" where
  "revoke_session k wanted now db keys =
    bind_res (account_for k db) (\<lambda>a.
      case first_row (filter (\<lambda>s. uuid_str (k_id s) = wanted) (sessions now (a_id a) keys)) of
        None \<Rightarrow> Inl (AuthError 404)
      | Some s \<Rightarrow> Inr (revoke (k_id s) now keys))"

section \<open>Changing the password\<close>

definition other_session :: "uuid \<Rightarrow> uuid \<Rightarrow> api_key \<Rightarrow> bool" where
  "other_session i current k \<longleftrightarrow> k_account_id k = Some i \<and> session_name (k_name k) \<and> k_active k \<and> k_id k \<noteq> current"

definition sign_out_others :: "uuid \<Rightarrow> uuid \<Rightarrow> instant \<Rightarrow> key_table \<Rightarrow> key_table" where
  "sign_out_others i current now keys =
    update_where (other_session i current) (\<lambda>k. k\<lparr>k_active := False, k_updated_at := now\<rparr>) keys"

text \<open>
  \<open>change_password\<close>; \<open>hashpw\<close> is bcrypt and \<open>flushed\<close> says whether Dovecot's cache was cleared. The
  database is part of the world the authenticator reads.
\<close>

definition change_password ::
  "(string \<Rightarrow> string) \<Rightarrow> bool \<Rightarrow> session_env \<Rightarrow> auth_world \<Rightarrow> api_key \<Rightarrow> json_object option \<Rightarrow> session_state \<Rightarrow>
   (api_error + session_answer) \<times> database \<times> session_state" where
  "change_password hashpw flushed env w k body st =
    (let db = au_db w
     in case bind_res (account_for k db) (\<lambda>a. bind_res (parse_body body) (\<lambda>d.
          case (text_of_body ''current_password'' d, text_of_body ''new_password'' d) of
            (Some current, Some new) \<Rightarrow>
              if a_auth_mode a \<noteq> NATIVE then Inl (AuthError 409) else Inr (a, current, new)
          | _ \<Rightarrow> Inl (AuthError 400))) of
          Inl e \<Rightarrow> (Inl e, db, st)
        | Inr (a, current, new) \<Rightarrow>
          let addr = or_blank (email a);
              (wait, slots) = spend (se_ticks env) [(sl_account (sn_limits st), addr)];
              st1 = st\<lparr>sn_limits := (sn_limits st)\<lparr>sl_account := slots ! 0\<rparr>\<rparr>
          in (case wait of
                Some n \<Rightarrow> (Inr (RateLimited n), db, st1)
              | None \<Rightarrow>
                (case authenticate w addr current of
                   Inl _ \<Rightarrow> (Inl Unhandled, db, st1)
                 | Inr result \<Rightarrow>
                   if \<not> ar_ok result then (Inl (AuthError 403), db, st1)
                   else
                     let st2 = st1\<lparr>sn_limits := (sn_limits st1)\<lparr>sl_account := refund (sl_account (sn_limits st1)) addr\<rparr>\<rparr>
                     in if new = current then (Inl (AuthError 400), db, st2)
                        else case hash_password hashpw new of
                               Inl _ \<Rightarrow> (Inl (AuthError 400), db, st2)
                             | Inr h \<Rightarrow>
                               (Inr (PasswordChanged (rowcount (other_session (a_id a) (k_id k)) (sn_keys st)) flushed),
                                set_password_hash (a_id a) h db,
                                st2\<lparr>sn_keys := sign_out_others (a_id a) (k_id k) (se_now env) (sn_keys st)\<rparr>))))"

definition dead_session :: "instant \<Rightarrow> api_key \<Rightarrow> bool" where
  "dead_session now k \<longleftrightarrow> session_name (k_name k) \<and> (key_expired now k \<or> \<not> k_active k)"

definition purge_expired :: "instant \<Rightarrow> key_table \<Rightarrow> nat \<times> key_table" where
  "purge_expired now keys = (rowcount (dead_session now) keys, delete_where (dead_session now) keys)"

section \<open>What a session opens\<close>

lemma session_key_Inr:
  assumes "session_key env a ua keys = Inr (k, secret, keys')"
  shows "keys' = keys @ [k]" "k_account_id k = Some (a_id a)" "k_permissions k = [MAILBOX, SEND]" "k_active k"
    "k_expires_at k = Some (se_now env + SESSION_LIFETIME)" "k_id k \<notin> k_id ` set keys" "k_key_hash k \<notin> k_key_hash ` set keys"
    "k_key_hash k = se_sha env secret" "k_allowed_ips k = []" "starts_with (KEY_PREFIX @ ''_'') secret" "k_type k = ACCOUNT_KEY"
  using assms
  by (auto simp: session_key_def key_create_def check_scope_def expiry_def generate_secret_def Let_def SESSION_PERMISSIONS_def
      starts_with_iff split: if_splits)

lemma keys_ok_insert: "keys_ok keys \<Longrightarrow> k_id k \<notin> k_id ` set keys \<Longrightarrow> k_key_hash k \<notin> k_key_hash ` set keys \<Longrightarrow> keys_ok (keys @ [k])"
  by (auto simp: keys_ok_def)

lemma create_session_signed_in:
  assumes "create_session env w ip ua body st = (Inr (SignedIn secret expires sid addr name), st')"
  obtains d entered password result a k where "body = Some d" "text_of_body ''email'' d = Some entered"
    "text_of_body ''password'' d = Some password" "authenticate w (lower (strip entered)) password = Inr result" "ar_ok result"
    "ar_account result = Some a" "session_key env a ua (sn_keys st) = Inr (k, secret, sn_keys st')"
    "expires = se_now env + SESSION_LIFETIME" "sid = k_id k"
  using assms
  by (auto simp: create_session_def signed_in_def Let_def parse_body_def split: option.splits prod.splits sum.splits if_splits bool.splits)

text \<open>
  C27. A token is entered out only for a mailbox's own credentials, and opens that mailbox and nothing else:
  the password was accepted for the account of the new key, which has no permission but reading that
  mailbox and sending, and the token works until it expires, in thirty days, and not after. No other
  key is touched.
\<close>
theorem session_opens_one_mailbox:
  assumes "create_session env w ip ua body st = (Inr (SignedIn secret expires sid addr name), st')" "keys_ok (sn_keys st)"
  shows "\<exists>d entered password result a k. body = Some d \<and> text_of_body ''email'' d = Some entered \<and> text_of_body ''password'' d = Some password \<and>
    authenticate w (lower (strip entered)) password = Inr result \<and> ar_ok result \<and> ar_account result = Some a \<and>
    sn_keys st' = sn_keys st @ [k] \<and> k_account_id k = Some (a_id a) \<and> set (k_permissions k) = {MAILBOX, SEND} \<and> \<not> is_admin k \<and>
    expires = se_now env + SESSION_LIFETIME \<and>
    verify (se_sha env) secret client now (sn_keys st') = (if now \<le> expires then Some k else None)"
proof -
  obtain d entered password result a k where s: "body = Some d" "text_of_body ''email'' d = Some entered"
    "text_of_body ''password'' d = Some password" "authenticate w (lower (strip entered)) password = Inr result" "ar_ok result"
    "ar_account result = Some a" "session_key env a ua (sn_keys st) = Inr (k, secret, sn_keys st')"
    "expires = se_now env + SESSION_LIFETIME"
    using create_session_signed_in [OF assms(1)] by metis
  note k = session_key_Inr [OF s(7)]
  have ok: "keys_ok (sn_keys st')" unfolding k(1) by (rule keys_ok_insert [OF assms(2) k(6,7)])
  have adm: "\<not> is_admin k" using k(3,11) by (simp add: is_admin_def)
  have "verify (se_sha env) secret client now (sn_keys st') = Some x \<longleftrightarrow> x = k \<and> now \<le> expires" for x
  proof -
    have "x \<in> set (sn_keys st') \<and> k_key_hash x = se_sha env secret \<longleftrightarrow> x = k" using k(1,7,8) by force
    then show ?thesis
      using k(4,5,9,10) s(8) unfolding verify_iff_row [OF ok] by (auto simp: key_expired_def allows_ip_def)
  qed
  then have "verify (se_sha env) secret client now (sn_keys st') = (if now \<le> expires then Some k else None)"
    by (metis not_Some_eq)
  then show ?thesis using s k adm by (intro exI conjI) simp_all
qed

lemma verify_deactivated:
  assumes "keys_ok t"
  shows "verify sha secret ip later (update_where p (\<lambda>k. k\<lparr>k_active := False, k_updated_at := now\<rparr>) t) = Some k \<longleftrightarrow>
    \<not> p k \<and> verify sha secret ip later t = Some k"
proof -
  let ?f = "\<lambda>k. k\<lparr>k_active := False, k_updated_at := now\<rparr>"
  have ok: "keys_ok (update_where p ?f t)"
    using assms unfolding keys_ok_def by (auto intro!: unique_by_update)
  have "k \<in> set (update_where p ?f t) \<and> k_active k \<longleftrightarrow> k \<in> set t \<and> \<not> p k \<and> k_active k"
    unfolding set_update_where by (auto simp: image_iff)
  then show ?thesis unfolding verify_iff_row [OF ok] verify_iff_row [OF assms] by blast
qed

text \<open>
  C23. Changing a password needs the current one and signs every other device out: a secret opens afterwards
  exactly what it opened before, except that no other session of the mailbox is opened by anything, and
  what is stored is the hash of the new password.
\<close>
theorem password_change_signs_others_out:
  assumes "change_password hashpw flushed env w k body st = (Inr (PasswordChanged n c), db', st')" "keys_ok (sn_keys st)"
  shows "\<exists>a current new h result. account_for k (au_db w) = Inr a \<and> a_auth_mode a = NATIVE \<and>
    authenticate w (or_blank (email a)) current = Inr result \<and> ar_ok result \<and> new \<noteq> current \<and>
    hash_password hashpw new = Inr h \<and> db' = set_password_hash (a_id a) h (au_db w) \<and>
    (\<forall>sha secret ip now x. verify sha secret ip now (sn_keys st') = Some x \<longleftrightarrow>
      verify sha secret ip now (sn_keys st) = Some x \<and> \<not> other_session (a_id a) (k_id k) x)"
proof -
  obtain a current new h result where s: "account_for k (au_db w) = Inr a" "a_auth_mode a = NATIVE"
    "authenticate w (or_blank (email a)) current = Inr result" "ar_ok result" "new \<noteq> current"
    "hash_password hashpw new = Inr h" "db' = set_password_hash (a_id a) h (au_db w)"
    "sn_keys st' = sign_out_others (a_id a) (k_id k) (se_now env) (sn_keys st)"
    using assms(1)
    by (auto simp: change_password_def Let_def bind_res_def split: option.splits prod.splits sum.splits if_splits)
  have "verify sha secret ip now (sn_keys st') = Some x \<longleftrightarrow>
      verify sha secret ip now (sn_keys st) = Some x \<and> \<not> other_session (a_id a) (k_id k) x" for sha secret ip now x
    unfolding s(8) sign_out_others_def verify_deactivated [OF assms(2)] by blast
  then have "\<forall>sha secret ip now x. verify sha secret ip now (sn_keys st') = Some x \<longleftrightarrow>
      verify sha secret ip now (sn_keys st) = Some x \<and> \<not> other_session (a_id a) (k_id k) x" by blast
  with s(1-7) show ?thesis by blast
qed

text \<open>
  Clearing out old sessions cannot be noticed: at no later time does any secret open more or less than
  it would have.
\<close>
theorem purge_is_unobservable:
  assumes "keys_ok keys" "now \<le> later"
  shows "verify sha secret ip later (snd (purge_expired now keys)) = verify sha secret ip later keys"
proof -
  have ok: "keys_ok (delete_where (dead_session now) keys)"
    using assms(1) by (simp add: keys_ok_def unique_by_delete)
  have "verify sha secret ip later (delete_where (dead_session now) keys) = Some k \<longleftrightarrow> verify sha secret ip later keys = Some k" for k
    unfolding verify_iff_row [OF ok] verify_iff_row [OF assms(1)] set_delete_where
    using assms(2) by (auto simp: dead_session_def key_expired_def split: option.splits)
  then show ?thesis by (metis not_Some_eq purge_expired_def snd_conv)
qed

section \<open>A mailbox has as many budgets as spellings\<close>

text \<open>An id with any number of dashes after it.\<close>

definition spelling :: "uuid \<Rightarrow> nat \<Rightarrow> string" where
  "spelling i n = uuid_str i @ replicate n (CHR ''-'')"

lemma spelling_chars: "c \<in> set (spelling i n) \<Longrightarrow> is_hex c \<or> c = CHR ''-''"
  using set_uuid_str by (auto simp: spelling_def)

lemma as_uuid_spelling:
  assumes "valid_uuid i"
  shows "as_uuid (spelling i n) = Some i"
proof -
  let ?s = "spelling i n"
  have no: "c \<notin> set ?s" if "c \<in> set ''{}:rnu''" for c
    using that spelling_chars [of c i n] hex_facts [of c] by auto
  have "replace ''urn:'' [] ?s = ?s" by (rule replace_absent [of "CHR '':''"]) (use no in auto)
  moreover have "replace ''uuid:'' [] ?s = ?s" by (rule replace_absent [of "CHR '':''"]) (use no in auto)
  moreover have "strip_chars ''{}'' ?s = ?s" by (rule strip_chars_absent) (use no in auto)
  moreover have "filter (\<lambda>x. x \<noteq> CHR ''-'') ?s = hex_of 32 i" by (simp add: spelling_def uuid_str_hex)
  moreover have "(16 :: nat) ^ 32 = 2 ^ 128" by (simp flip: power_mult [of 2 4 32])
  ultimately show ?thesis using assms
    by (simp add: valid_uuid_def as_uuid_def Let_def replace_char_Nil int_base16_hex_of nat_less_iff del: hex_of.simps)
qed

lemma hex_lower: "is_hex c \<or> c = CHR ''-'' \<Longrightarrow> lower_char c = c \<and> \<not> is_space c"
proof -
  have "list_all (\<lambda>c. lower_char c = c \<and> \<not> is_space c) ''0123456789abcdef-''" by code_simp
  then show "is_hex c \<or> c = CHR ''-'' \<Longrightarrow> lower_char c = c \<and> \<not> is_space c"
    unfolding is_hex_def list_all_iff by auto
qed

lemma spelling_normal: "lower (strip (spelling i n)) = spelling i n"
proof -
  have "strip (spelling i n) = spelling i n" using spelling_chars hex_lower by (intro strip_absent) blast
  moreover have "map lower_char (spelling i n) = spelling i n" using spelling_chars hex_lower by (intro map_idI) blast
  ultimately show ?thesis by (simp add: lower_def)
qed

lemma fresh_spelling: "finite S \<Longrightarrow> \<exists>n. spelling i n \<notin> S"
proof -
  assume "finite S"
  moreover have "inj (spelling i)" by (auto simp: spelling_def inj_def)
  then have "infinite (range (spelling i))" using finite_imageD by blast
  ultimately show ?thesis by (metis finite_subset image_subset_iff UNIV_I)
qed

text \<open>A budget with something in it, and which keys it has a bucket for.\<close>

definition budget_ok :: "limiter option \<Rightarrow> bool" where
  "budget_ok slot \<longleftrightarrow> (case slot of None \<Rightarrow> True | Some L \<Rightarrow> 1 \<le> l_capacity L \<and> 0 < l_period L)"

definition charged :: "limiter option \<Rightarrow> string set" where
  "charged slot = (case slot of None \<Rightarrow> {} | Some L \<Rightarrow> fst ` set (l_buckets L))"

lemma finite_charged [simp]: "finite (charged slot)"
  by (cases slot) (simp_all add: charged_def)

lemma update_keys: "fst ` set (AList.update k v xs) = insert k (fst ` set xs)"
  by (induction xs) auto

lemma limiter_bucket_keys:
  assumes "limiter_bucket L key ts tn = (b, L')"
  shows "fst ` set (l_buckets L') \<subseteq> insert key (fst ` set (l_buckets L)) \<and> l_capacity L' = l_capacity L \<and> l_period L' = l_period L"
proof (cases "map_of (l_buckets L) key")
  case None
  define L2 where "L2 = (if length (l_buckets L) \<ge> SWEEP_AT then limiter_sweep L ts else L)"
  have "fst ` set (l_buckets L2) \<subseteq> fst ` set (l_buckets L)" "l_capacity L2 = l_capacity L" "l_period L2 = l_period L"
    by (auto simp: L2_def limiter_sweep_def)
  moreover have "L' = L2\<lparr>l_buckets := AList.update key (new_bucket (l_capacity L2) (l_period L2) tn) (l_buckets L2)\<rparr>"
    using assms None unfolding limiter_bucket_def Let_def L2_def [symmetric] by auto
  ultimately show ?thesis by (simp add: update_keys subset_insertI2)
qed (use assms in \<open>auto simp: limiter_bucket_def\<close>)

lemma fresh_budget:
  assumes "budget_ok slot" "key \<notin> charged slot"
  shows "\<exists>slot'. spend_one clk slot key = (None, slot') \<and> budget_ok slot' \<and> charged slot' \<subseteq> insert key (charged slot)"
proof (cases slot)
  case None
  then show ?thesis by (simp add: spend_one_def budget_ok_def charged_def)
next
  case (Some L)
  have L: "map_of (l_buckets L) key = None" "1 \<le> l_capacity L" "0 < l_period L"
    using assms Some by (auto simp: budget_ok_def charged_def map_of_eq_None_iff)
  obtain ts tn tt where clk: "clk = (ts, tn, tt)" by (cases clk)
  obtain b L1 where b: "limiter_bucket L key ts tn = (b, L1)" by (cases "limiter_bucket L key ts tn")
  have "b = new_bucket (l_capacity L) (l_period L) tn"
    using b L(1) by (auto simp: limiter_bucket_def limiter_sweep_def Let_def split: if_splits)
  moreover have "0 \<le> max 0 (tt - tn) * (l_capacity L / l_period L)" using L(2,3) by simp
  ultimately have "fst (bucket_take b tt)" using L(2) by (simp add: bucket_take_def new_bucket_def Let_def min_def)
  then have "spend_one clk slot key = (None, Some (L1\<lparr>l_buckets := AList.update key (snd (bucket_take b tt)) (l_buckets L1)\<rparr>))"
    by (simp add: spend_one_def Some clk limiter_allow_def b Let_def split_beta)
  with limiter_bucket_keys [OF b] L(2,3) Some show ?thesis by (simp add: budget_ok_def charged_def update_keys)
qed

lemma refund_keys: "budget_ok slot \<Longrightarrow> budget_ok (refund slot key)" "charged (refund slot key) \<subseteq> charged slot"
  by (cases slot; force simp: budget_ok_def refund_def limiter_forget_def charged_def AList.delete_eq)+

section \<open>Guessing\<close>

text \<open>Requests to sign in, one after the other: with the clock, the address they come from, a name and a password.\<close>

fun guess_all :: "auth_world \<Rightarrow> (session_env \<times> string \<times> string \<times> string) list \<Rightarrow> session_state \<Rightarrow> (api_error + session_answer) list" where
  "guess_all w [] st = []"
| "guess_all w ((env, client, name, password) # gs) st =
    (let (ans, st') = create_session env w (Some client) None (Some [(''email'', JStr name), (''password'', JStr password)]) st
     in ans # guess_all w gs st')"

text \<open>The answer is the authenticator's: a wrong password is refused as one, not for the number of tries, and the right one opens the mailbox.\<close>

definition checked :: "auth_world \<Rightarrow> string \<Rightarrow> string \<Rightarrow> api_error + session_answer \<Rightarrow> bool" where
  "checked w name password ans \<longleftrightarrow>
    (case authenticate w name password of
       Inl _ \<Rightarrow> ans = Inl Unhandled
     | Inr r \<Rightarrow>
       if ar_ok r \<and> ar_account r \<noteq> None then (\<exists>e. ans = Inl (KeyFault e)) \<or> (\<exists>t x i e n. ans = Inr (SignedIn t x i e n))
       else ans = (if auth_temporary r then Inr Unavailable else Inl (AuthError 401)))"

lemma signed_in_checked:
  assumes "signed_in env w addr password client ua limits keys = (ans, st')"
  shows "checked w addr password ans"
    and "sn_limits st' = limits \<or> sn_limits st' = \<lparr>sl_address = refund (sl_address limits) client, sl_account = refund (sl_account limits) addr\<rparr>"
  using assms by (auto simp: signed_in_def checked_def Let_def split: sum.splits option.splits bool.splits prod.splits if_splits)

lemma untried_is_checked:
  assumes name: "lower (strip name) = name" "name \<noteq> []" and "password \<noteq> []" "client \<noteq> []"
    and ok: "budget_ok (sl_address (sn_limits st))" "budget_ok (sl_account (sn_limits st))"
    and untried: "client \<notin> charged (sl_address (sn_limits st))" "name \<notin> charged (sl_account (sn_limits st))"
    and go: "create_session env w (Some client) None (Some [(''email'', JStr name), (''password'', JStr password)]) st = (ans, st')"
  shows "checked w name password ans \<and> budget_ok (sl_address (sn_limits st')) \<and> budget_ok (sl_account (sn_limits st')) \<and>
    charged (sl_address (sn_limits st')) \<subseteq> insert client (charged (sl_address (sn_limits st)))"
proof -
  obtain s1 where s1: "spend_one (se_ticks env) (sl_address (sn_limits st)) client = (None, s1)" "budget_ok s1"
      "charged s1 \<subseteq> insert client (charged (sl_address (sn_limits st)))"
    using fresh_budget [OF ok(1) untried(1), of "se_ticks env"] by blast
  obtain s2 where s2: "spend_one (se_ticks env) (sl_account (sn_limits st)) name = (None, s2)" "budget_ok s2"
    using fresh_budget [OF ok(2) untried(2), of "se_ticks env"] by blast
  have "strip name \<noteq> []" using name by (auto simp: lower_def)
  then have "signed_in env w name password client None \<lparr>sl_address = s1, sl_account = s2\<rparr> (sn_keys st) = (ans, st')"
    using go name(1) assms(3,4) by (simp add: create_session_def parse_body_def text_of_body_def json_get_def truthy_def s1(1) s2(1) Let_def name(2))
  from signed_in_checked [OF this] s1(2,3) s2(2) refund_keys [of s1 client] refund_keys(1) [of s2 name] show ?thesis by auto
qed

definition names_account :: "account \<Rightarrow> database \<Rightarrow> string \<Rightarrow> bool" where
  "names_account acc db name \<longleftrightarrow> (\<exists>a. account_find (lower (strip name)) db = Some a \<and> a_id a = a_id acc)"

lemma spelling_names:
  assumes "db_ok db" "acc \<in> set (accounts db)"
  shows "names_account acc db (spelling (a_id acc) n)"
proof -
  have v: "valid_uuid (a_id acc)" by (rule db_okD(11) [OF assms])
  obtain d where d: "d \<in> set (domains db)" "d_id d = a_domain_id acc" by (rule db_ok_domain_of [OF assms])
  have "filter (\<lambda>a. a_id a = a_id acc) (joined db) \<noteq> []"
    using assms(2) d by (auto simp: joined_def filter_empty_conv with_domain_def intro!: bexI [of _ acc] bexI [of _ d])
  then obtain a where "first_row (filter (\<lambda>a. a_id a = a_id acc) (joined db)) = Some a" by (cases "filter (\<lambda>a. a_id a = a_id acc) (joined db)") auto
  moreover then have "a_id a = a_id acc" by (auto dest: first_row_filterD)
  ultimately show ?thesis
    by (simp add: names_account_def spelling_normal account_find_def account_resolve_def as_uuid_spelling [OF v])
qed

text \<open>
  C35. The budget of wrong passwords per mailbox counts the text a client sends, and a mailbox also answers
  to its id, with any dashes in it. So it bounds nothing: however many passwords somebody has to try, from
  addresses that have not been used up, there are names of one and the same mailbox under which every one
  of the requests to sign in is answered by the authenticator, whatever was tried before.
\<close>
theorem guesses_are_not_bounded:
  assumes "db_ok (au_db w)" "acc \<in> set (accounts (au_db w))"
    and "budget_ok (sl_address (sn_limits st))" "budget_ok (sl_account (sn_limits st))"
    and "distinct (map (\<lambda>(env, client, password). client) tries)"
    and "list_all (\<lambda>(env, client, password). client \<noteq> [] \<and> password \<noteq> [] \<and> client \<notin> charged (sl_address (sn_limits st))) tries"
  shows "\<exists>gs. map (\<lambda>(env, client, name, password). (env, client, password)) gs = tries \<and>
    list_all (\<lambda>(env, client, name, password). names_account acc (au_db w) name) gs \<and>
    list_all2 (\<lambda>(env, client, name, password) ans. checked w name password ans) gs (guess_all w gs st)"
  using assms(3-6)
proof (induction tries arbitrary: st)
  case Nil
  then show ?case by simp
next
  case (Cons t tries)
  obtain env client password where t: "t = (env, client, password)" by (cases t)
  obtain n where n: "spelling (a_id acc) n \<notin> charged (sl_account (sn_limits st))"
    using fresh_spelling [of "charged (sl_account (sn_limits st))"] by auto
  let ?name = "spelling (a_id acc) n"
  have "as_uuid [] = None" by code_simp
  then have "uuid_str (a_id acc) \<noteq> []" using as_uuid_valid [OF db_okD(11) [OF assms(1,2)]] by auto
  then have name: "lower (strip ?name) = ?name" "?name \<noteq> []" using spelling_normal by (simp_all add: spelling_def)
  obtain ans st' where go: "create_session env w (Some client) None (Some [(''email'', JStr ?name), (''password'', JStr password)]) st = (ans, st')"
    by fastforce
  have step: "checked w ?name password ans \<and> budget_ok (sl_address (sn_limits st')) \<and> budget_ok (sl_account (sn_limits st')) \<and>
      charged (sl_address (sn_limits st')) \<subseteq> insert client (charged (sl_address (sn_limits st)))"
    by (rule untried_is_checked [OF name _ _ Cons.prems(1,2) _ n go]) (use Cons.prems(4) t in auto)
  have "list_all (\<lambda>(env, client, password). client \<noteq> [] \<and> password \<noteq> [] \<and> client \<notin> charged (sl_address (sn_limits st'))) tries"
    unfolding list_all_iff
  proof
    fix x assume x: "x \<in> set tries"
    obtain e c p where e: "x = (e, c, p)" by (cases x)
    have "c \<in> set (map (\<lambda>(env, client, password). client) tries)" using x e by force
    moreover have "client \<notin> set (map (\<lambda>(env, client, password). client) tries)" using Cons.prems(3) t by simp
    ultimately have "c \<noteq> client" by metis
    moreover have "c \<noteq> [] \<and> p \<noteq> [] \<and> c \<notin> charged (sl_address (sn_limits st))" using Cons.prems(4) x e by (auto simp: list_all_iff)
    ultimately show "case x of (env, client, password) \<Rightarrow> client \<noteq> [] \<and> password \<noteq> [] \<and> client \<notin> charged (sl_address (sn_limits st'))"
      using step e by auto
  qed
  then obtain gs where gs: "map (\<lambda>(env, client, name, password). (env, client, password)) gs = tries"
      "list_all (\<lambda>(env, client, name, password). names_account acc (au_db w) name) gs"
      "list_all2 (\<lambda>(env, client, name, password) ans. checked w name password ans) gs (guess_all w gs st')"
    using Cons.IH [of st'] Cons.prems(3) step by auto
  let ?gs = "(env, client, ?name, password) # gs"
  have "map (\<lambda>(env, client, name, password). (env, client, password)) ?gs = t # tries" using gs(1) t by simp
  moreover have "list_all (\<lambda>(env, client, name, password). names_account acc (au_db w) name) ?gs"
    using gs(2) spelling_names [OF assms(1,2), of n] by simp
  moreover have "list_all2 (\<lambda>(env, client, name, password) ans. checked w name password ans) ?gs (guess_all w ?gs st)"
    using gs(3) step unfolding guess_all.simps go Let_def prod.case by simp
  ultimately show ?case by (intro exI [of _ ?gs] conjI)
qed

section \<open>A mailbox with a password\<close>

definition session_world :: auth_world where
  "session_world = \<lparr>au_db = sample_db\<lparr>accounts := [sample_account 4 2 ''ann''\<lparr>a_password_hash := Some ''old secret''\<rparr>]\<rparr>,
     au_providers = [], au_ask = (\<lambda>_ _ _. Refuses), au_checkpw = (\<lambda>p h. Some (p = h)), au_read_float = (\<lambda>_. None)\<rparr>"

definition sample_session_env :: session_env where
  "sample_session_env = \<lparr>se_sha = id, se_secret = ''two'', se_fresh = 50, se_now = 100, se_ticks = (0, 0, 0)\<rparr>"

definition no_limits :: session_limits where "no_limits = \<lparr>sl_address = None, sl_account = None\<rparr>"

definition ann_session :: api_key where
  "ann_session = (sample_key 1 ACCOUNT_KEY ''lk_one'')\<lparr>k_domain_id := None, k_account_id := Some 4, k_name := ''session:ann@acme.org'', k_allowed_ips := []\<rparr>"

lemma ann_signs_in:
  "create_session sample_session_env session_world None None (Some [(''email'', JStr ''Ann@acme.org''), (''password'', JStr ''old secret'')])
     \<lparr>sn_keys = [ann_session], sn_limits = no_limits\<rparr> =
   (Inr (SignedIn ''lk_two'' (100 + SESSION_LIFETIME) 50 (Some ''ann@acme.org'') None),
    snd (create_session sample_session_env session_world None None (Some [(''email'', JStr ''Ann@acme.org''), (''password'', JStr ''old secret'')])
     \<lparr>sn_keys = [ann_session], sn_limits = no_limits\<rparr>))"
  unfolding prod_eq_iff by (intro conjI) code_simp+

lemma ann_keys_ok: "keys_ok [ann_session]"
  by (simp add: keys_ok_def)

definition signed_in_twice :: session_state where
  "signed_in_twice = snd (create_session sample_session_env session_world None None
     (Some [(''email'', JStr ''Ann@acme.org''), (''password'', JStr ''old secret'')]) \<lparr>sn_keys = [ann_session], sn_limits = no_limits\<rparr>)"

theorem session_opens_one_mailbox_witness:
  "\<exists>k. verify id ''lk_two'' (Some ''10.0.0.1'') 200 (sn_keys signed_in_twice) = Some k \<and> set (k_permissions k) = {MAILBOX, SEND}"
proof -
  have "200 \<le> 100 + SESSION_LIFETIME" by code_simp
  moreover have "keys_ok (sn_keys \<lparr>sn_keys = [ann_session], sn_limits = no_limits\<rparr>)" by (simp add: ann_keys_ok)
  moreover have "se_sha sample_session_env = id" by (simp add: sample_session_env_def)
  ultimately show ?thesis
    using session_opens_one_mailbox [OF ann_signs_in, of "Some ''10.0.0.1''" 200] unfolding signed_in_twice_def by metis
qed

definition ann_changes :: "(api_error + session_answer) \<times> database \<times> session_state" where
  "ann_changes = change_password (\<lambda>p. p) True sample_session_env session_world ann_session
     (Some [(''current_password'', JStr ''old secret''), (''new_password'', JStr ''new secret'')])
     \<lparr>sn_keys = [ann_session, ann_session\<lparr>k_id := 2, k_key_hash := ''lk_phone''\<rparr>], sn_limits = no_limits\<rparr>"

definition ann :: account where
  "ann = sample_account 4 2 ''ann''\<lparr>a_password_hash := Some ''old secret'', a_domain_name := Some ''acme.org''\<rparr>"

lemma ann_facts:
  "account_for ann_session (au_db session_world) = Inr ann"
  "authenticate session_world ''ann@acme.org'' ''old secret'' = Inr (auth_success ann None)"
  "or_blank (email ann) = ''ann@acme.org''" "a_auth_mode ann = NATIVE" "a_id ann = 4" "ar_ok (auth_success ann None)"
  by code_simp+

lemma new_secret_hash: "hash_password (\<lambda>p. p) ''new secret'' = Inr ''new secret''"
  by (simp add: hash_password_def validate_password_def utf8_length_def MIN_PASSWORD_LENGTH_def MAX_PASSWORD_BYTES_def)

lemma ann_session_name: "session_name (k_name ann_session)"
  by (simp add: session_name_def ann_session_def sample_key_def sql_lower_def SESSION_PREFIX_def)

lemma other_of_ann:
  "other_session 4 (k_id ann_session) (ann_session\<lparr>k_id := 2, k_key_hash := ''lk_phone''\<rparr>)" "\<not> other_session 4 (k_id ann_session) ann_session"
  using ann_session_name by (simp_all add: other_session_def) (simp_all add: ann_session_def sample_key_def)

lemma ann_changes_answer: "ann_changes = (Inr (PasswordChanged 1 True), fst (snd ann_changes), snd (snd ann_changes))"
proof -
  have "fst ann_changes = Inr (PasswordChanged 1 True)"
    by (simp add: ann_changes_def change_password_def ann_facts new_secret_hash parse_body_def text_of_body_def Let_def
        no_limits_def spend_one_def rowcount_def other_of_ann)
  then show ?thesis by (simp add: prod_eq_iff)
qed

theorem password_change_signs_others_out_witness:
  "verify id ''lk_phone'' None 200 (sn_keys (snd (snd ann_changes))) = None"
proof -
  let ?st = "\<lparr>sn_keys = [ann_session, ann_session\<lparr>k_id := 2, k_key_hash := ''lk_phone''\<rparr>], sn_limits = no_limits\<rparr>"
  have ok: "keys_ok (sn_keys ?st)" by (simp add: keys_ok_def ann_session_def sample_key_def)
  obtain a where a: "account_for ann_session (au_db session_world) = Inr a"
    and *: "verify id ''lk_phone'' None 200 (sn_keys (snd (snd ann_changes))) = Some x \<Longrightarrow>
      verify id ''lk_phone'' None 200 (sn_keys ?st) = Some x \<and> \<not> other_session (a_id a) (k_id ann_session) x" for x
    using password_change_signs_others_out [OF ann_changes_answer [unfolded ann_changes_def] ok] unfolding ann_changes_def by metis
  have "a_id a = 4" using a ann_facts(1,5) by simp
  moreover have "verify id ''lk_phone'' None 200 (sn_keys ?st) = Some (ann_session\<lparr>k_id := 2, k_key_hash := ''lk_phone''\<rparr>)" by code_simp
  moreover have "other_session 4 (k_id ann_session) (ann_session\<lparr>k_id := 2, k_key_hash := ''lk_phone''\<rparr>)" by (rule other_of_ann)
  ultimately have "verify id ''lk_phone'' None 200 (sn_keys (snd (snd ann_changes))) \<noteq> Some x" for x
    using * [of x] by (metis option.inject)
  then show ?thesis by (metis not_Some_eq)
qed

theorem purge_is_unobservable_witness:
  "verify id ''lk_one'' None 9 (snd (purge_expired 5 [ann_session])) = Some ann_session"
  using purge_is_unobservable [OF ann_keys_ok, of 5 9 id "''lk_one''" None] by (simp add: verify_iff_row [OF ann_keys_ok])
     (simp add: ann_session_def sample_key_def key_expired_def allows_ip_def KEY_PREFIX_def starts_with_def)

lemma session_world_ok: "db_ok (au_db session_world)"
  by (simp add: session_world_def db_ok_def sample_db_def sample_domain_def sample_account_def sample_alias_def
      sample_canonical valid_uuid_def)

definition twelve_tries :: "(session_env \<times> string \<times> string) list" where
  "twelve_tries = map (\<lambda>n. (sample_session_env, replicate (Suc n) CHR ''7'', ''guess'')) [0..<12]"

text \<open>Twelve tries with a budget of ten, which a name of the mailbox has used up.\<close>

definition used_up :: session_state where
  "used_up = \<lparr>sn_keys = [], sn_limits = \<lparr>sl_address = None,
     sl_account = Some \<lparr>l_capacity = 10, l_period = 900, l_buckets = [(''ann@acme.org'', new_bucket 10 900 0\<lparr>tokens := 0\<rparr>)]\<rparr>\<rparr>\<rparr>"

theorem guesses_are_not_bounded_witness:
  "\<exists>gs. length gs = 12 \<and> list_all2 (\<lambda>(env, client, name, password) ans. checked session_world name password ans) gs (guess_all session_world gs used_up)"
proof -
  have db: "db_ok (au_db session_world)" by (rule session_world_ok)
  have acc: "sample_account 4 2 ''ann''\<lparr>a_password_hash := Some ''old secret''\<rparr> \<in> set (accounts (au_db session_world))"
    by (simp add: session_world_def)
  have "distinct (map (\<lambda>(env, client, password). client) twelve_tries)"
    by (simp add: twelve_tries_def distinct_map inj_on_def comp_def)
  moreover have "list_all (\<lambda>(env, client, password). client \<noteq> [] \<and> password \<noteq> [] \<and> client \<notin> charged (sl_address (sn_limits used_up))) twelve_tries"
    by (simp add: twelve_tries_def list_all_iff used_up_def charged_def)
  moreover have "budget_ok (sl_address (sn_limits used_up))" "budget_ok (sl_account (sn_limits used_up))"
    by (simp_all add: used_up_def budget_ok_def)
  ultimately obtain gs where gs: "map (\<lambda>(env, client, name, password). (env, client, password)) gs = twelve_tries"
      "list_all2 (\<lambda>(env, client, name, password) ans. checked session_world name password ans) gs (guess_all session_world gs used_up)"
    using guesses_are_not_bounded [OF db acc] by blast
  have "length gs = 12" using arg_cong [OF gs(1), of length] by (simp add: twelve_tries_def)
  with gs(2) show ?thesis by blast
qed

end
