(* ===== verification/Imap.thy ===== *)
theory Imap
  imports Sieve Replies
begin

text \<open>
  \<open>src/src/lightr/dovecot/aioimap.py\<close>: the commands one IMAP connection sends and what is read from the answers. Dovecot is
  a function from the commands sent so far and the next one to its answer, so any server, with any
  memory, is covered; \<open>ic_sent\<close> is the list of the commands. Arguments are as they go over the wire,
  quoted. Header blocks, encoded words and dates are read by the standard library: a parameter.
\<close>

section \<open>Commands\<close>

datatype wire =
    LOGIN string string
  | LOGOUT
  | LIST_ALL
  | STATUS string
  | CREATE string
  | SUBSCRIBE string
  | RENAME string string
  | DELETE string
  | CLOSE
  | SELECT string
  | SEARCH string
  | THREAD string
  | FETCH_SUMMARIES string
  | FETCH_BODY string
  | STORE_FLAGS string string string       \<comment> \<open>set, operation, flags\<close>
  | MOVE string string
  | COPY string string
  | APPEND string string "string list"     \<comment> \<open>folder, message, flags\<close>
  | EXPUNGE string

text \<open>
  A command is what the code means to send. On the wire it is one line, but for the literal of an
  \<open>APPEND\<close>, as long as its arguments hold no line break; nothing in the code sees to that.
\<close>

fun wire_args :: "wire \<Rightarrow> string list" where
  "wire_args (LOGIN user password) = [user, password]"
| "wire_args LOGOUT = []"
| "wire_args LIST_ALL = []"
| "wire_args (STATUS f) = [f]"
| "wire_args (CREATE f) = [f]"
| "wire_args (SUBSCRIBE f) = [f]"
| "wire_args (RENAME f g) = [f, g]"
| "wire_args (DELETE f) = [f]"
| "wire_args CLOSE = []"
| "wire_args (SELECT f) = [f]"
| "wire_args (SEARCH crit) = [crit]"
| "wire_args (THREAD crit) = [crit]"
| "wire_args (FETCH_SUMMARIES us) = [us]"
| "wire_args (FETCH_BODY us) = [us]"
| "wire_args (STORE_FLAGS us op flags) = [us, op, flags]"
| "wire_args (MOVE us f) = [us, f]"
| "wire_args (COPY us f) = [us, f]"
| "wire_args (APPEND f message flags) = f # flags"
| "wire_args (EXPUNGE us) = [us]"

definition unbroken :: "wire \<Rightarrow> bool" where
  "unbroken w \<longleftrightarrow> list_all (\<lambda>a. CHR 0x0D \<notin> set a \<and> CHR 0x0A \<notin> set a) (wire_args w)"

text \<open>An answer: whether it is \<open>OK\<close>, and its lines, a literal (\<open>bytes\<close>) marked as such.\<close>

record wire_reply =
  wr_ok :: bool
  wr_lines :: "(bool \<times> string) list"

type_synonym dovecot = "wire list \<Rightarrow> wire \<Rightarrow> wire_reply"

record imap_conn =
  ic_selected :: "string option"
  ic_sent :: "wire list"

datatype mailbox_error =
    MailboxError string
  | MessageNotFound int string

definition fresh_conn :: imap_conn where "fresh_conn = \<lparr>ic_selected = None, ic_sent = []\<rparr>"

text \<open>Operations that may raise: \<open>then_do\<close> runs one and goes on with its value.\<close>

type_synonym 'a imap_op = "imap_conn \<Rightarrow> (mailbox_error + 'a) \<times> imap_conn"

definition give :: "'a \<Rightarrow> 'a imap_op" where "give x c = (Inr x, c)"

definition fails :: "mailbox_error \<Rightarrow> 'a imap_op" where "fails e c = (Inl e, c)"

definition then_do :: "'a imap_op \<Rightarrow> ('a \<Rightarrow> 'b imap_op) \<Rightarrow> 'b imap_op" where
  "then_do m f c = (case m c of (Inl e, c') \<Rightarrow> (Inl e, c') | (Inr x, c') \<Rightarrow> f x c')"

definition send :: "dovecot \<Rightarrow> wire \<Rightarrow> wire_reply imap_op" where
  "send srv w c = (Inr (srv (ic_sent c) w), c\<lparr>ic_sent := ic_sent c @ [w]\<rparr>)"

definition set_selected :: "string option \<Rightarrow> unit imap_op" where
  "set_selected s c = (Inr (), c\<lparr>ic_selected := s\<rparr>)"

text \<open>Send a command that must be answered \<open>OK\<close>.\<close>

definition demand :: "dovecot \<Rightarrow> wire \<Rightarrow> string \<Rightarrow> wire_reply imap_op" where
  "demand srv w complaint = then_do (send srv w) (\<lambda>r. if wr_ok r then give r else fails (MailboxError complaint))"

definition imap_quote :: "string \<Rightarrow> string" where
  "imap_quote name = [QUOTE] @ replace_char QUOTE [BACKSLASH, QUOTE] (replace_char BACKSLASH [BACKSLASH, BACKSLASH] name) @ [QUOTE]"

definition as_lines :: "(bool \<times> string) list \<Rightarrow> string list" where "as_lines = map snd"

text \<open>One UID, or several: the left result of the check is the empty list.\<close>

definition uid_set :: "int list \<Rightarrow> string" where "uid_set us = join '','' (map dec_str us)"

definition with_uids :: "int list \<Rightarrow> (string \<Rightarrow> 'a imap_op) \<Rightarrow> 'a imap_op" where
  "with_uids us f = (if us = [] then fails (MailboxError ''no messages given'') else f (uid_set us))"

definition login :: "dovecot \<Rightarrow> string \<Rightarrow> string \<Rightarrow> unit imap_op" where
  "login srv user password = then_do (demand srv (LOGIN user password) ''Dovecot refused the master-user login'') (\<lambda>_. give ())"

definition logout :: "dovecot \<Rightarrow> unit imap_op" where
  "logout srv = then_do (send srv LOGOUT) (\<lambda>_. set_selected None)"

section \<open>Folders\<close>

record mail_folder =
  fo_name :: string
  fo_messages :: nat
  fo_unseen :: nat
  fo_uidvalidity :: nat

text \<open>A greedy \<open>x*\<close> with backtracking: what it can take, longest first, and what is left.\<close>

fun greedy :: "(char \<Rightarrow> bool) \<Rightarrow> string \<Rightarrow> (string \<times> string) list" where
  "greedy p [] = [([], [])]"
| "greedy p (c # s) = (if p c then map (\<lambda>(a, r). (c # a, r)) (greedy p s) @ [([], c # s)] else [([], c # s)])"

definition greedy1 :: "(char \<Rightarrow> bool) \<Rightarrow> string \<Rightarrow> (string \<times> string) list" where
  "greedy1 p s = filter (\<lambda>(a, r). a \<noteq> []) (greedy p s)"

definition maybe_quote :: "string \<Rightarrow> string list" where
  "maybe_quote s = (case s of c # r \<Rightarrow> if c = QUOTE then [r, s] else [s] | [] \<Rightarrow> [s])"

text \<open>\<open>_LIST_LINE\<close> from an opening parenthesis: the flags and the name.\<close>

definition list_line_at :: "string \<Rightarrow> (string \<times> string) option" where
  "list_line_at s =
    (case s of
       [] \<Rightarrow> None
     | c # t \<Rightarrow>
       if c \<noteq> CHR ''('' then None
       else
         let flags = takeWhile (\<lambda>x. x \<noteq> CHR '')'') t; r = drop (length flags) t
         in if r = [] then None
            else first_row (concat (map (\<lambda>(_, r1). concat (map (\<lambda>r2. concat (map (\<lambda>(_, r3). concat (map (\<lambda>r4.
                   concat (map (\<lambda>(_, r5). concat (map (\<lambda>r6. concat (map (\<lambda>(name, r7).
                     if \<exists>r8 \<in> set (maybe_quote r7). list_all is_space r8 then [(flags, name)] else [])
                     (greedy1 (\<lambda>x. x \<noteq> QUOTE) r6))) (maybe_quote r5))) (greedy1 is_space r4)))
                     (maybe_quote r3))) (greedy (\<lambda>x. x \<noteq> QUOTE \<and> \<not> is_space x) r2))) (maybe_quote r1)))
                     (greedy1 is_space (tl r)))))"

fun list_line :: "string \<Rightarrow> (string \<times> string) option" where
  "list_line [] = None"
| "list_line (c # s) = (case list_line_at (c # s) of Some m \<Rightarrow> Some m | None \<Rightarrow> list_line s)"

text \<open>\<open>_STATUS_ITEM.findall\<close>.\<close>

function status_items :: "string \<Rightarrow> (string \<times> nat) list" where
  "status_items s =
    (case s of
       [] \<Rightarrow> []
     | c # t \<Rightarrow>
       if \<not> is_word c then status_items t
       else
         let w = takeWhile is_word t; r = drop (length w) t;
             sp = takeWhile is_space r; r1 = drop (length sp) r;
             d = takeWhile is_digit r1
         in if sp \<noteq> [] \<and> d \<noteq> [] then (c # w, nat (the (dec_digits True 0 d))) # status_items (drop (length d) r1)
            else status_items r)"
  by pat_completeness auto
termination
  by (relation "measure length") auto

declare status_items.simps [simp del]

definition upper :: "string \<Rightarrow> string" where
  "upper s = map (\<lambda>c. let n = (of_char c :: nat) in if 97 \<le> n \<and> n \<le> 122 then char_of (n - 32) else c) s"

definition status_value :: "string \<Rightarrow> string list \<Rightarrow> nat" where
  "status_value k lines =
    (case map_of (rev (map (\<lambda>(w, n). (upper w, n)) (concat (map status_items lines)))) k of Some n \<Rightarrow> n | None \<Rightarrow> 0)"

definition select_status :: "dovecot \<Rightarrow> string \<Rightarrow> mail_folder imap_op" where
  "select_status srv f =
    then_do (demand srv (STATUS (imap_quote f)) ''could not read status'') (\<lambda>r.
      let ls = as_lines (wr_lines r)
      in give \<lparr>fo_name = f, fo_messages = status_value ''MESSAGES'' ls, fo_unseen = status_value ''UNSEEN'' ls,
           fo_uidvalidity = status_value ''UIDVALIDITY'' ls\<rparr>)"

text \<open>Folders that cannot be read are left out of a listing.\<close>

fun statuses :: "dovecot \<Rightarrow> string list \<Rightarrow> mail_folder list imap_op" where
  "statuses srv [] c = (Inr [], c)"
| "statuses srv (n # ns) c =
    (case select_status srv n c of
       (Inl _, c') \<Rightarrow> statuses srv ns c'
     | (Inr f, c') \<Rightarrow>
       (case statuses srv ns c' of (Inl e, c'') \<Rightarrow> (Inl e, c'') | (Inr fs, c'') \<Rightarrow> (Inr (f # fs), c'')))"

definition list_folders :: "dovecot \<Rightarrow> mail_folder list imap_op" where
  "list_folders srv =
    then_do (demand srv LIST_ALL ''could not list folders'') (\<lambda>r.
      statuses srv (concat (map (\<lambda>l. case list_line l of
          None \<Rightarrow> [] | Some (flags, name) \<Rightarrow> if contains (BACKSLASH # ''Noselect'') flags then [] else [name])
        (as_lines (wr_lines r)))))"

definition create_folder :: "dovecot \<Rightarrow> string \<Rightarrow> unit imap_op" where
  "create_folder srv name =
    then_do (demand srv (CREATE (imap_quote name)) ''could not create folder'') (\<lambda>_.
    then_do (send srv (SUBSCRIBE (imap_quote name))) (\<lambda>_. give ()))"

definition unselect :: "string \<Rightarrow> unit imap_op" where
  "unselect name c = (Inr (), if ic_selected c = Some name then c\<lparr>ic_selected := None\<rparr> else c)"

definition rename_folder :: "dovecot \<Rightarrow> string \<Rightarrow> string \<Rightarrow> unit imap_op" where
  "rename_folder srv name new_name =
    then_do (demand srv (RENAME (imap_quote name) (imap_quote new_name)) ''could not rename'') (\<lambda>_.
    then_do (send srv (SUBSCRIBE (imap_quote new_name))) (\<lambda>_. unselect name))"

definition close_if :: "dovecot \<Rightarrow> string \<Rightarrow> unit imap_op" where
  "close_if srv name c =
    (if ic_selected c = Some name then then_do (send srv CLOSE) (\<lambda>_. set_selected None) c else (Inr (), c))"

definition delete_folder :: "dovecot \<Rightarrow> string \<Rightarrow> unit imap_op" where
  "delete_folder srv name =
    then_do (close_if srv name) (\<lambda>_.
    then_do (demand srv (DELETE (imap_quote name)) ''could not delete folder'') (\<lambda>_. give ()))"

definition select_folder :: "dovecot \<Rightarrow> string \<Rightarrow> mail_folder imap_op" where
  "select_folder srv f =
    then_do (demand srv (SELECT (imap_quote f)) ''no such folder'') (\<lambda>_.
    then_do (set_selected (Some f)) (\<lambda>_. select_status srv f))"

definition ensure_selected :: "dovecot \<Rightarrow> string \<Rightarrow> unit imap_op" where
  "ensure_selected srv f c =
    (if ic_selected c \<noteq> Some f then then_do (select_folder srv f) (\<lambda>_. give ()) c else (Inr (), c))"

section \<open>Messages\<close>

definition isdigit_str :: "string \<Rightarrow> bool" where
  "isdigit_str s \<longleftrightarrow> s \<noteq> [] \<and> list_all is_digit s"

definition search_uids :: "string list \<Rightarrow> int list" where
  "search_uids lines = concat (map (\<lambda>l. map (\<lambda>t. the (dec_digits True 0 t)) (filter isdigit_str (split_ws l))) lines)"

definition imap_search :: "dovecot \<Rightarrow> string \<Rightarrow> string \<Rightarrow> int list imap_op" where
  "imap_search srv f criteria =
    then_do (ensure_selected srv f) (\<lambda>_.
    then_do (demand srv (SEARCH (if criteria = [] then ''ALL'' else criteria)) ''search failed'') (\<lambda>r.
      give (search_uids (as_lines (wr_lines r)))))"

text \<open>
  One line of a \<open>THREAD\<close> answer, character by character: the depth, the messages of the conversation
  so far, the digits of a number so far, the conversations so far.
\<close>

type_synonym thread_scan = "nat \<times> int list \<times> string \<times> int list list"

definition end_number :: "int list \<Rightarrow> string \<Rightarrow> int list" where
  "end_number current digits = (if digits = [] then current else current @ [the (dec_digits True 0 digits)])"

definition thread_char :: "thread_scan \<Rightarrow> char \<Rightarrow> thread_scan" where
  "thread_char st c =
    (case st of (depth, current, digits, threads) \<Rightarrow>
       if is_digit c then (depth, current, digits @ [c], threads)
       else
         let current = end_number current digits
         in if c = CHR ''('' then (depth + 1, current, [], threads)
            else if c = CHR '')''
            then (if depth - 1 = 0 \<and> current \<noteq> [] then (depth - 1, [], [], threads @ [current]) else (depth - 1, current, [], threads))
            else (depth, current, [], threads))"

definition thread_line :: "string \<Rightarrow> int list list" where
  "thread_line line =
    (let t = strip line;
         t = (if starts_with ''THREAD'' (upper t) then lstrip (drop 6 t) else t)
     in if \<not> starts_with ''('' t then []
        else case foldl thread_char (0, [], [], []) t of
               (_, current, digits, threads) \<Rightarrow>
                 let current = end_number current digits in if current \<noteq> [] then threads @ [current] else threads)"

definition parse_threads :: "string list \<Rightarrow> int list list" where
  "parse_threads lines = concat (map thread_line lines)"

text \<open>A failed \<open>THREAD\<close> falls back to every message on its own.\<close>

definition imap_thread :: "dovecot \<Rightarrow> string \<Rightarrow> string \<Rightarrow> int list list imap_op" where
  "imap_thread srv f criteria =
    then_do (ensure_selected srv f) (\<lambda>_.
    then_do (send srv (THREAD (if criteria = [] then ''ALL'' else criteria))) (\<lambda>r.
      if wr_ok r then give (parse_threads (as_lines (wr_lines r)))
      else then_do (imap_search srv f criteria) (\<lambda>us. give (map (\<lambda>u. [u]) us))))"

record imap_lib =
  il_headers :: "string \<Rightarrow> (string, string) dict"      \<comment> \<open>names in lower case\<close>
  il_decode :: "string \<Rightarrow> string"
  il_date :: "string \<Rightarrow> instant option"
  il_internaldate :: "string \<Rightarrow> instant option"        \<comment> \<open>of the whole line\<close>

record summary =
  su_uid :: int
  su_folder :: string
  su_subject :: string
  su_from :: string
  su_to :: string
  su_date :: "instant option"
  su_size :: nat
  su_flags :: "string list"

text \<open>\<open>\bNAME\s+(\d+)\<close>: the number, from a position whose predecessor is \<open>prev\<close>.\<close>

definition number_at :: "string \<Rightarrow> string \<Rightarrow> int option" where
  "number_at name s =
    (if \<not> starts_with name s then None
     else let r = drop (length name) s; sp = takeWhile is_space r; d = takeWhile is_digit (drop (length sp) r)
          in if sp \<noteq> [] \<and> d \<noteq> [] then dec_digits True 0 d else None)"

fun find_number :: "string \<Rightarrow> bool \<Rightarrow> string \<Rightarrow> int option" where
  "find_number name after_word [] = None"
| "find_number name after_word (c # s) =
    (case (if after_word then None else number_at name (c # s)) of
       Some n \<Rightarrow> Some n
     | None \<Rightarrow> find_number name (is_word c) s)"

definition flags_at :: "string \<Rightarrow> string option" where
  "flags_at s =
    (if \<not> starts_with ''FLAGS'' s then None
     else let r = drop 5 s; sp = takeWhile is_space r; r1 = drop (length sp) r
          in if sp \<noteq> [] \<and> starts_with ''('' r1 \<and> CHR '')'' \<in> set r1 then Some (takeWhile (\<lambda>x. x \<noteq> CHR '')'') (tl r1)) else None)"

fun find_flags :: "bool \<Rightarrow> string \<Rightarrow> string option" where
  "find_flags after_word [] = None"
| "find_flags after_word (c # s) =
    (case (if after_word then None else flags_at (c # s)) of
       Some f \<Rightarrow> Some f
     | None \<Rightarrow> find_flags (is_word c) s)"

text \<open>What is pending: the line of a message, and its header block so far.\<close>

definition flush_summary :: "'a imap_lib_scheme \<Rightarrow> string \<Rightarrow> (int \<times> string) option \<Rightarrow> string list \<Rightarrow> summary list" where
  "flush_summary il f pending blob =
    (case pending of
       None \<Rightarrow> []
     | Some (uid, line) \<Rightarrow>
       let headers = il_headers il (join [LF] blob);
           decoded = (\<lambda>k. case map_of headers k of None \<Rightarrow> [] | Some v \<Rightarrow> if v = [] then [] else il_decode il v)
       in [\<lparr>su_uid = uid, su_folder = f, su_subject = decoded ''subject'', su_from = decoded ''from'', su_to = decoded ''to'',
            su_date = (case Option.bind (map_of headers ''date'') (\<lambda>v. if v = [] then None else il_date il v) of
                Some d \<Rightarrow> Some d | None \<Rightarrow> il_internaldate il line),
            su_size = (case find_number ''RFC822.SIZE'' False line of Some n \<Rightarrow> nat n | None \<Rightarrow> 0),
            su_flags = (case find_flags False line of Some fl \<Rightarrow> split_ws fl | None \<Rightarrow> [])\<rparr>])"

fun scan_summaries :: "'a imap_lib_scheme \<Rightarrow> string \<Rightarrow> (int \<times> string) option \<Rightarrow> string list \<Rightarrow> string list \<Rightarrow> summary list" where
  "scan_summaries il f pending blob [] = flush_summary il f pending blob"
| "scan_summaries il f pending blob (line # ls) =
    (case (if contains ''FETCH'' (upper line) then find_number ''UID'' False line else None) of
       Some uid \<Rightarrow> flush_summary il f pending blob @ scan_summaries il f (Some (uid, line)) [] ls
     | None \<Rightarrow>
       scan_summaries il f pending (if pending \<noteq> None \<and> strip line \<notin> {'')'', []} then blob @ [line] else blob) ls)"

definition fetch_summaries :: "dovecot \<Rightarrow> 'a imap_lib_scheme \<Rightarrow> string \<Rightarrow> int list \<Rightarrow> summary list imap_op" where
  "fetch_summaries srv il f us =
    (if us = [] then give []
     else then_do (ensure_selected srv f) (\<lambda>_.
          then_do (demand srv (FETCH_SUMMARIES (uid_set us)) ''could not fetch messages'') (\<lambda>r.
            give (scan_summaries il f None [] (as_lines (wr_lines r))))))"

text \<open>The largest literal of the answer, the first of those; empty when the fetch fails or has none.\<close>

definition longest :: "string list \<Rightarrow> string" where
  "longest xs = foldl (\<lambda>best x. if length best < length x then x else best) [] xs"

definition fetch_raw :: "dovecot \<Rightarrow> string \<Rightarrow> int \<Rightarrow> string imap_op" where
  "fetch_raw srv f uid =
    then_do (ensure_selected srv f) (\<lambda>_.
    then_do (send srv (FETCH_BODY (dec_str uid))) (\<lambda>r.
      give (if wr_ok r then longest (map snd (filter fst (wr_lines r))) else [])))"

definition store_flags :: "dovecot \<Rightarrow> string \<Rightarrow> int list \<Rightarrow> string list \<Rightarrow> bool \<Rightarrow> unit imap_op" where
  "store_flags srv f us flags add =
    then_do (ensure_selected srv f) (\<lambda>_. with_uids us (\<lambda>us_text.
    then_do (demand srv (STORE_FLAGS us_text (if add then ''+FLAGS'' else ''-FLAGS'') (''('' @ join '' '' flags @ '')''))
      ''could not update flags'') (\<lambda>_. give ())))"

definition imap_expunge :: "dovecot \<Rightarrow> string \<Rightarrow> int list \<Rightarrow> unit imap_op" where
  "imap_expunge srv f us =
    then_do (ensure_selected srv f) (\<lambda>_. with_uids us (\<lambda>us_text.
    then_do (demand srv (EXPUNGE us_text) ''could not expunge'') (\<lambda>_. give ())))"

definition DELETED_FLAG :: string where "DELETED_FLAG = BACKSLASH # ''Deleted''"

definition imap_move :: "dovecot \<Rightarrow> string \<Rightarrow> int list \<Rightarrow> string \<Rightarrow> unit imap_op" where
  "imap_move srv f us destination =
    then_do (ensure_selected srv f) (\<lambda>_. with_uids us (\<lambda>us_text.
    then_do (send srv (MOVE us_text (imap_quote destination))) (\<lambda>r.
      if wr_ok r then give ()
      else then_do (demand srv (COPY us_text (imap_quote destination)) ''could not move'') (\<lambda>_.
           then_do (store_flags srv f us [DELETED_FLAG] True) (\<lambda>_. imap_expunge srv f us)))))"

definition imap_append :: "dovecot \<Rightarrow> string \<Rightarrow> string \<Rightarrow> string list \<Rightarrow> unit imap_op" where
  "imap_append srv f raw flags =
    then_do (if upper f \<noteq> ''INBOX'' then then_do (send srv (CREATE (imap_quote f))) (\<lambda>_. give ()) else give ()) (\<lambda>_.
    then_do (demand srv (APPEND (imap_quote f) raw flags) ''could not append'') (\<lambda>_. give ()))"

section \<open>Conversations are read back\<close>

lemma digit_table: "list_all (\<lambda>d. is_digit (char_of (48 + d)) \<and> digit_value (char_of (48 + d)) = int d) [0..<10]"
  by code_simp

lemma digit_char: "0 \<le> d \<Longrightarrow> d < 10 \<Longrightarrow> is_digit (char_of (48 + nat d)) \<and> digit_value (char_of (48 + nat d)) = d"
  using digit_table by (auto simp: list_all_iff nat_less_iff)

lemma dec_digits_snoc:
  "list_all is_digit s \<Longrightarrow> is_digit c \<Longrightarrow> dec_digits False n (s @ [c]) = Some (10 * the (dec_digits False n s) + digit_value c)"
  by (induction s arbitrary: n) simp_all

lemma dec_digits_append:
  "list_all is_digit s \<Longrightarrow> is_digit c \<Longrightarrow> s \<noteq> [] \<Longrightarrow>
    dec_digits True n (s @ [c]) = Some (10 * the (dec_digits True n s) + digit_value c)"
  using dec_digits_snoc by (cases s) simp_all

lemma digits_of_read:
  "0 \<le> n \<Longrightarrow> digits_of n \<noteq> [] \<and> list_all is_digit (digits_of n) \<and> dec_digits True 0 (digits_of n) = Some n"
proof (induction n rule: digits_of.induct)
  case (1 n)
  show ?case
  proof (cases "n < 10")
    case True
    then show ?thesis using 1(2) digit_char [of n] by (simp add: digits_of.simps [of n])
  next
    case False
    then have IH: "digits_of (n div 10) \<noteq> []" "list_all is_digit (digits_of (n div 10))" "dec_digits True 0 (digits_of (n div 10)) = Some (n div 10)"
      using 1 by (simp_all add: pos_imp_zdiv_nonneg_iff)
    have d: "is_digit (char_of (48 + nat (n mod 10)))" "digit_value (char_of (48 + nat (n mod 10))) = n mod 10"
      using digit_char [of "n mod 10"] by simp_all
    have "10 * (n div 10) + n mod 10 = n" by simp
    then show ?thesis
      using False IH d dec_digits_append [OF IH(2) d(1) IH(1), of 0] by (simp add: digits_of.simps [of n])
  qed
qed

lemma dec_str_read: "0 \<le> n \<Longrightarrow> dec_str n \<noteq> [] \<and> list_all is_digit (dec_str n) \<and> dec_digits True 0 (dec_str n) = Some n"
  using digits_of_read by (simp add: dec_str_def)

text \<open>A conversation as RFC 5256 writes it: messages, each answering the one before, then the branches.\<close>

datatype thread = Thread "int list" "thread list"

fun thread_uids :: "thread \<Rightarrow> int list" where
  "thread_uids (Thread us ts) = us @ concat (map thread_uids ts)"

fun print_thread :: "thread \<Rightarrow> string" where
  "print_thread (Thread us ts) =
    ''('' @ join '' '' (map dec_str us) @ (if us \<noteq> [] \<and> ts \<noteq> [] then '' '' else []) @ concat (map print_thread ts) @ '')''"

fun thread_numbers :: "thread \<Rightarrow> bool" where
  "thread_numbers (Thread us ts) \<longleftrightarrow> (\<forall>u \<in> set us. 0 \<le> u) \<and> (\<forall>t \<in> set ts. thread_numbers t)"

text \<open>A state with the pending number taken in.\<close>

definition settled :: "thread_scan \<Rightarrow> nat \<times> int list \<times> int list list" where
  "settled st = (case st of (depth, current, digits, threads) \<Rightarrow> (depth, end_number current digits, threads))"

lemma thread_char_settled:
  assumes "\<not> is_digit c"
  shows "thread_char st c = (case settled st of (depth, current, threads) \<Rightarrow> thread_char (depth, current, [], threads) c)"
  using assms by (cases st) (simp add: settled_def thread_char_def end_number_def)

lemma scan_digits:
  "list_all is_digit s \<Longrightarrow> foldl thread_char (d, cur, dg, ths) s = (d, cur, dg @ s, ths)"
  by (induction s arbitrary: dg) (simp_all add: thread_char_def)

lemma scan_numbers:
  assumes "\<forall>u \<in> set us. 0 \<le> u"
  shows "settled (foldl thread_char (d, cur, [], ths) (join '' '' (map dec_str us))) = (d, cur @ us, ths)"
  using assms
proof (induction us arbitrary: cur)
  case Nil
  then show ?case by (simp add: settled_def end_number_def)
next
  case (Cons u us)
  have u: "dec_str u \<noteq> []" "list_all is_digit (dec_str u)" "dec_digits True 0 (dec_str u) = Some u"
    using dec_str_read Cons.prems by auto
  have one: "foldl thread_char (d, cur, [], ths) (dec_str u) = (d, cur, dec_str u, ths)"
    using scan_digits [OF u(2), of d cur "[]" ths] by simp
  show ?case
  proof (cases us)
    case Nil
    then show ?thesis using one u by (simp add: settled_def end_number_def)
  next
    case Nil': (Cons v vs)
    have "thread_char (d, cur, dec_str u, ths) CHR '' '' = (d, cur @ [u], [], ths)"
      using u by (simp add: thread_char_def end_number_def is_digit_def)
    then show ?thesis using one Cons by (simp add: Nil')
  qed
qed

text \<open>Within a conversation, and at its end.\<close>

lemma scan_thread:
  "thread_numbers t \<Longrightarrow> foldl thread_char (d, cur, [], ths) (print_thread t) =
    (if d = 0 \<and> cur @ thread_uids t \<noteq> [] then (0, [], [], ths @ [cur @ thread_uids t]) else (d, cur @ thread_uids t, [], ths))"
proof (induction t arbitrary: d cur ths)
  case (Thread us ts)
  have par: "\<not> is_digit CHR ''(''" "\<not> is_digit CHR '')''" "\<not> is_digit CHR '' ''" by (simp_all add: is_digit_def)
  have many: "foldl thread_char (Suc d, c, [], ths) (concat (map print_thread xs)) = (Suc d, c @ concat (map thread_uids xs), [], ths)"
    if "set xs \<subseteq> set ts" for xs c
    using that Thread by (induction xs arbitrary: c) auto
  let ?st = "foldl thread_char (Suc d, cur, [], ths) (join '' '' (map dec_str us))"
  have st: "settled ?st = (Suc d, cur @ us, ths)" using scan_numbers Thread.prems by simp
  have sp: "thread_char ?st CHR '' '' = (Suc d, cur @ us, [], ths)"
    using st thread_char_settled [OF par(3), of ?st] by (simp add: thread_char_def end_number_def is_digit_def)
  have close: "thread_char st CHR '')'' = (case settled st of (dp, c, h) \<Rightarrow> if dp - 1 = 0 \<and> c \<noteq> [] then (dp - 1, [], [], h @ [c]) else (dp - 1, c, [], h))" for st
    by (cases st) (simp add: thread_char_def settled_def is_digit_def Let_def)
  have first: "thread_char (d, cur, [], ths) CHR ''('' = (Suc d, cur, [], ths)"
    by (simp add: thread_char_def end_number_def is_digit_def)
  show ?case
  proof (cases "ts = []")
    case True
    then show ?thesis using st by (simp add: first close)
  next
    case False
    have "us = [] \<Longrightarrow> ?st = (Suc d, cur, [], ths)" by simp
    then have "foldl thread_char ?st ((if us \<noteq> [] \<and> ts \<noteq> [] then '' '' else []) @ concat (map print_thread ts)) =
        (Suc d, cur @ us @ concat (map thread_uids ts), [], ths)"
      using False sp many [of ts] by simp
    then show ?thesis using first by (simp add: close settled_def end_number_def)
  qed
qed

lemma print_thread_ends: "\<exists>s. print_thread t = CHR ''('' # s @ [CHR '')'']"
  by (cases t) simp

lemma print_threads_ends:
  assumes "ts \<noteq> []"
  shows "concat (map print_thread ts) \<noteq> []" "hd (concat (map print_thread ts)) = CHR ''(''" "last (concat (map print_thread ts)) = CHR '')''"
proof -
  obtain t xs where "ts = t # xs" using assms by (cases ts) auto
  then show "concat (map print_thread ts) \<noteq> []" "hd (concat (map print_thread ts)) = CHR ''(''"
    using print_thread_ends [of t] by auto
  obtain ys u where "ts = ys @ [u]" using assms by (cases ts rule: rev_cases) auto
  then show "last (concat (map print_thread ts)) = CHR '')''" using print_thread_ends [of u] by auto
qed

text \<open>
  C36. The answer to \<open>THREAD\<close> is read back: of conversations written as the protocol writes them, however
  deep they branch, exactly the messages of each are found, in order.
\<close>
theorem threads_are_read_back:
  assumes "ts \<noteq> []" "\<forall>t \<in> set ts. thread_numbers t \<and> thread_uids t \<noteq> []"
  shows "thread_line (''THREAD '' @ concat (map print_thread ts)) = map thread_uids ts"
proof -
  let ?p = "concat (map print_thread ts)"
  have all: "foldl thread_char (0, [], [], ths) (concat (map print_thread xs)) = (0, [], [], ths @ map thread_uids xs)" if "set xs \<subseteq> set ts" for xs ths
    using that assms(2) scan_thread by (induction xs arbitrary: ths) auto
  note ends = print_threads_ends [OF assms(1)]
  have "strip (''THREAD '' @ ?p) = ''THREAD '' @ ?p" using ends by (intro strip_fixed) (simp add: is_space_def)
  moreover have "starts_with ''THREAD'' (upper (''THREAD '' @ ?p))" by (simp add: upper_def starts_with_def)
  moreover have "lstrip ('' '' @ ?p) = ?p" using ends by (cases ?p) (simp_all add: lstrip_def is_space_def)
  moreover have "starts_with ''('' ?p" using ends by (cases ?p) (simp_all add: starts_with_def)
  ultimately show ?thesis using all [of ts "[]"] by (simp add: thread_line_def Let_def end_number_def)
qed

theorem threads_are_read_back_witness:
  "thread_line ''THREAD (2)(3 6 (4 23)(44 7 96))'' = [[2], [3, 6, 4, 23, 44, 7, 96]]"
proof -
  let ?ts = "[Thread [2] [], Thread [3, 6] [Thread [4, 23] [], Thread [44, 7, 96] []]]"
  have eq: "''THREAD '' @ concat (map print_thread ?ts) = ''THREAD (2)(3 6 (4 23)(44 7 96))''" by code_simp
  have "thread_line (''THREAD '' @ concat (map print_thread ?ts)) = map thread_uids ?ts"
    by (rule threads_are_read_back) simp_all
  then show ?thesis unfolding eq by simp
qed

section \<open>What an operation may send\<close>

text \<open>
  \<open>valid P m Q E\<close>: run after commands that satisfy \<open>P\<close>, the operation has sent commands that satisfy \<open>Q\<close>
  when it returns and \<open>E\<close> when it raises.
\<close>

definition valid :: "(wire list \<Rightarrow> bool) \<Rightarrow> 'a imap_op \<Rightarrow> ('a \<Rightarrow> wire list \<Rightarrow> bool) \<Rightarrow> (wire list \<Rightarrow> bool) \<Rightarrow> bool" where
  "valid P m Q E \<longleftrightarrow> (\<forall>c. P (ic_sent c) \<longrightarrow> (case m c of (Inl e, c') \<Rightarrow> E (ic_sent c') | (Inr x, c') \<Rightarrow> Q x (ic_sent c')))"

lemma valid_give: "(\<And>l. P l \<Longrightarrow> Q x l) \<Longrightarrow> valid P (give x) Q E"
  by (simp add: valid_def give_def)

lemma valid_fails: "(\<And>l. P l \<Longrightarrow> E l) \<Longrightarrow> valid P (fails e) Q E"
  by (simp add: valid_def fails_def)

lemma valid_then: "valid P m R E \<Longrightarrow> (\<And>x. valid (R x) (f x) Q E) \<Longrightarrow> valid P (then_do m f) Q E"
  by (fastforce simp: valid_def then_do_def split: sum.splits prod.splits)

lemma valid_send: "(\<And>l. P l \<Longrightarrow> Q (srv l w) (l @ [w])) \<Longrightarrow> valid P (send srv w) Q E"
  by (simp add: valid_def send_def)

lemma valid_demand:
  "(\<And>l. P l \<Longrightarrow> wr_ok (srv l w) \<Longrightarrow> Q (srv l w) (l @ [w])) \<Longrightarrow> (\<And>l. P l \<Longrightarrow> \<not> wr_ok (srv l w) \<Longrightarrow> E (l @ [w])) \<Longrightarrow> valid P (demand srv w m) Q E"
  by (simp add: valid_def demand_def then_do_def send_def give_def fails_def)

lemma valid_pre: "valid R m Q E \<Longrightarrow> (\<And>l. P l \<Longrightarrow> R l) \<Longrightarrow> valid P m Q E"
  by (auto simp: valid_def)

lemma valid_if: "(b \<Longrightarrow> valid P m Q E) \<Longrightarrow> (\<not> b \<Longrightarrow> valid P n Q E) \<Longrightarrow> valid P (if b then m else n) Q E"
  by simp

text \<open>
  No message is expunged that has not been copied: before each \<open>EXPUNGE\<close> a \<open>COPY\<close> of the same messages
  was accepted, in that order.
\<close>

definition copied :: "dovecot \<Rightarrow> string \<Rightarrow> wire list \<Rightarrow> bool" where
  "copied srv us sent \<longleftrightarrow> (\<exists>i < length sent. \<exists>dest. sent ! i = COPY us dest \<and> wr_ok (srv (take i sent) (COPY us dest)))"

definition careful :: "dovecot \<Rightarrow> wire list \<Rightarrow> bool" where
  "careful srv sent \<longleftrightarrow> (\<forall>i < length sent. \<forall>us. sent ! i = EXPUNGE us \<longrightarrow> copied srv us (take i sent))"

lemma copied_more: "copied srv us l \<Longrightarrow> copied srv us (l @ r)"
  unfolding copied_def by (metis length_append nth_append take_append trans_less_add1 append_Nil2 diff_is_0_eq' less_imp_le_nat take_0)

lemma copied_now: "wr_ok (srv l (COPY us dest)) \<Longrightarrow> copied srv us (l @ [COPY us dest])"
  unfolding copied_def by (intro exI [of _ "length l"]) auto

lemma careful_snoc: "careful srv (l @ [w]) \<longleftrightarrow> careful srv l \<and> (\<forall>us. w = EXPUNGE us \<longrightarrow> copied srv us l)"
  unfolding careful_def by (auto simp: nth_append less_Suc_eq)

lemma careful_Nil: "careful srv []"
  by (simp add: careful_def)

text \<open>Operations that keep a property of the commands, whatever they return.\<close>

definition keeping :: "(wire list \<Rightarrow> bool) \<Rightarrow> 'a imap_op \<Rightarrow> bool" where
  "keeping P m \<longleftrightarrow> valid P m (\<lambda>_. P) P"

lemma keeping_then: "keeping P m \<Longrightarrow> (\<And>x. keeping P (f x)) \<Longrightarrow> keeping P (then_do m f)"
  unfolding keeping_def by (rule valid_then)

lemma keeping_simple: "keeping P (give x)" "keeping P (fails e)" "keeping P (set_selected s)" "keeping P (unselect n)"
  by (simp_all add: keeping_def valid_def give_def fails_def set_selected_def unselect_def)

lemma keeping_send: "(\<And>l. P l \<Longrightarrow> P (l @ [w])) \<Longrightarrow> keeping P (send srv w) \<and> keeping P (demand srv w m)"
  unfolding keeping_def by (auto intro: valid_send valid_demand)

lemma keeping_if: "(b \<Longrightarrow> keeping P m) \<Longrightarrow> (\<not> b \<Longrightarrow> keeping P n) \<Longrightarrow> keeping P (if b then m else n)"
  by simp

lemma keeping_uids: "(\<And>s. us \<noteq> [] \<Longrightarrow> s = uid_set us \<Longrightarrow> keeping P (f s)) \<Longrightarrow> keeping P (with_uids us f)"
  by (simp add: with_uids_def keeping_simple)

lemma keeping_runs: "keeping P m \<Longrightarrow> m c = (r, c') \<Longrightarrow> P (ic_sent c) \<Longrightarrow> P (ic_sent c')"
  by (fastforce simp: keeping_def valid_def split: sum.splits)

lemma keeping_valid: "keeping P m \<Longrightarrow> (\<And>l. P l \<Longrightarrow> E l) \<Longrightarrow> valid P m (\<lambda>_. P) E"
  unfolding keeping_def valid_def by (fastforce split: sum.splits prod.splits)

lemmas keeping_rules = keeping_then keeping_simple keeping_if keeping_uids keeping_send [THEN conjunct1] keeping_send [THEN conjunct2]

text \<open>Commands that remove nothing from a folder.\<close>

fun harmless :: "wire \<Rightarrow> bool" where
  "harmless (EXPUNGE us) = False"
| "harmless (DELETE f) = False"
| "harmless CLOSE = False"
| "harmless _ = True"

definition keeps_harmless :: "(wire list \<Rightarrow> bool) \<Rightarrow> bool" where
  "keeps_harmless P \<longleftrightarrow> (\<forall>l w. P l \<longrightarrow> harmless w \<longrightarrow> P (l @ [w]))"

lemma careful_harmless: "keeps_harmless (careful srv)"
  by (auto simp: keeps_harmless_def careful_snoc)

lemma copied_harmless: "keeps_harmless (\<lambda>l. careful srv l \<and> copied srv us l)"
  using copied_more by (auto simp: keeps_harmless_def careful_snoc)

lemma keeping_harmless: "keeps_harmless P \<Longrightarrow> harmless w \<Longrightarrow> keeping P (send srv w)" "keeps_harmless P \<Longrightarrow> harmless w \<Longrightarrow> keeping P (demand srv w m)"
  using keeping_send [of P w] by (auto simp: keeps_harmless_def)

lemma keeping_select: "keeps_harmless P \<Longrightarrow> keeping P (ensure_selected srv f)"
proof -
  assume P: "keeps_harmless P"
  have "keeping P (then_do (select_folder srv f) (\<lambda>_. give ()))"
    unfolding select_folder_def select_status_def Let_def
    by (intro keeping_then keeping_simple keeping_harmless [OF P]) simp_all
  then show ?thesis by (auto simp: keeping_def valid_def ensure_selected_def)
qed

lemma keeping_store: "keeps_harmless P \<Longrightarrow> keeping P (store_flags srv f us flags add)"
  unfolding store_flags_def
  by (intro keeping_then keeping_simple keeping_uids keeping_select keeping_harmless) simp_all

lemma careful_move: "keeping (careful srv) (imap_move srv f us dest)"
proof -
  let ?C = "\<lambda>l. careful srv l \<and> copied srv (uid_set us) l"
  have last: "valid ?C (with_uids us (\<lambda>us_text. then_do (demand srv (EXPUNGE us_text) m) (\<lambda>_. give ()))) (\<lambda>_. careful srv) (careful srv)" for m
    by (auto simp: valid_def with_uids_def fails_def demand_def then_do_def send_def give_def careful_snoc)
  have ex: "valid ?C (imap_expunge srv f us) (\<lambda>_. careful srv) (careful srv)"
    unfolding imap_expunge_def
    by (rule valid_then [OF keeping_valid [OF keeping_select [OF copied_harmless]] last]) simp
  have rest: "valid ?C (then_do (store_flags srv f us [DELETED_FLAG] True) (\<lambda>_. imap_expunge srv f us)) (\<lambda>_. careful srv) (careful srv)"
    by (rule valid_then [OF keeping_valid [OF keeping_store [OF copied_harmless]] ex]) simp
  have copy: "valid (careful srv) (then_do (demand srv (COPY (uid_set us) (imap_quote dest)) ''could not move'') (\<lambda>_.
      then_do (store_flags srv f us [DELETED_FLAG] True) (\<lambda>_. imap_expunge srv f us))) (\<lambda>_. careful srv) (careful srv)"
    by (rule valid_then [OF _ rest], rule valid_demand) (auto simp: careful_snoc copied_now)
  show ?thesis
    unfolding imap_move_def
    by (rule keeping_then [OF keeping_select [OF careful_harmless]], rule keeping_uids,
        rule keeping_then [OF keeping_harmless(1) [OF careful_harmless]], simp, rule keeping_if, rule keeping_simple)
       (simp add: keeping_def copy)
qed

end
