(* ===== verification/Mailbox.thy ===== *)
theory Mailbox
  imports Imap Headers "HOL-Library.Multiset"
begin

text \<open>
  \<open>src/src/lightr/dovecot/mailbox.py\<close>: what the mailbox API and the command line do with a mailbox, over the connection
  of the theory \<open>Imap\<close>. A message is parsed by the \<open>email\<close> package: a parameter.
\<close>

section \<open>Search criteria\<close>

definition FLAG_SEEN :: string where "FLAG_SEEN = BACKSLASH # ''Seen''"
definition FLAG_FLAGGED :: string where "FLAG_FLAGGED = BACKSLASH # ''Flagged''"
definition FLAG_ANSWERED :: string where "FLAG_ANSWERED = BACKSLASH # ''Answered''"
definition FLAG_DRAFT :: string where "FLAG_DRAFT = BACKSLASH # ''Draft''"

definition IMAP_MONTHS :: "string list" where
  "IMAP_MONTHS = [''Jan'', ''Feb'', ''Mar'', ''Apr'', ''May'', ''Jun'', ''Jul'', ''Aug'', ''Sep'', ''Oct'', ''Nov'', ''Dec'']"

text \<open>\<open>strptime(v, "%Y-%m-%d")\<close>: four digits, a month and a day with or without a leading zero (or space).\<close>

definition days_in :: "nat \<Rightarrow> nat \<Rightarrow> nat" where
  "days_in y m =
    (if m = 2 then (if y mod 4 = 0 \<and> (y mod 100 \<noteq> 0 \<or> y mod 400 = 0) then 29 else 28)
     else if m \<in> {4, 6, 9, 11} then 30 else 31)"

definition two_digits :: "nat \<Rightarrow> string" where
  "two_digits n = (if n < 10 then ''0'' else []) @ dec_str (int n)"

definition number_of_part :: "nat \<Rightarrow> bool \<Rightarrow> string \<Rightarrow> nat option" where
  "number_of_part maximum spaced s =
    first_row (filter (\<lambda>n. s = two_digits n \<or> s = dec_str (int n) \<or> spaced \<and> n < 10 \<and> s = '' '' @ dec_str (int n)) [1..<maximum + 1])"

definition read_day :: "string \<Rightarrow> (nat \<times> nat \<times> nat) option" where
  "read_day v =
    (case split_char CHR ''-'' v of
       [ys, ms, ds] \<Rightarrow>
         if length ys = 4 \<and> list_all is_digit ys
         then (case (dec_digits True 0 ys, number_of_part 12 False ms, number_of_part 31 True ds) of
                 (Some y, Some m, Some d) \<Rightarrow> if 1 \<le> y \<and> d \<le> days_in (nat y) m then Some (nat y, m, d) else None
               | _ \<Rightarrow> None)
         else None
     | _ \<Rightarrow> None)"

definition imap_date :: "string \<Rightarrow> mailbox_error + string" where
  "imap_date v =
    (case read_day v of
       None \<Rightarrow> Inl (MailboxError ''not a date -- use YYYY-MM-DD'')
     | Some (y, m, d) \<Rightarrow> Inr (two_digits d @ ''-'' @ IMAP_MONTHS ! (m - 1) @ ''-'' @ dec_str (int y)))"

record search_filter =
  sf_unread :: bool
  sf_flagged :: bool
  sf_sender :: "string option"
  sf_recipient :: "string option"
  sf_subject :: "string option"
  sf_since :: "string option"
  sf_before :: "string option"
  sf_text :: "string option"

definition text_term :: "string \<Rightarrow> string option \<Rightarrow> string list" where
  "text_term word v = (if truthy v then [word @ '' '' @ imap_quote (the v)] else [])"

definition date_term :: "string \<Rightarrow> string option \<Rightarrow> mailbox_error + string list" where
  "date_term word v = (if truthy v then bind_res (imap_date (the v)) (\<lambda>d. Inr [word @ '' '' @ d]) else Inr [])"

definition build_search_criteria :: "search_filter \<Rightarrow> mailbox_error + string" where
  "build_search_criteria f =
    bind_res (date_term ''SINCE'' (sf_since f)) (\<lambda>since.
    bind_res (date_term ''BEFORE'' (sf_before f)) (\<lambda>before.
      let terms = (if sf_unread f then [''UNSEEN''] else []) @ (if sf_flagged f then [''FLAGGED''] else []) @
            text_term ''FROM'' (sf_sender f) @ text_term ''TO'' (sf_recipient f) @ text_term ''SUBJECT'' (sf_subject f) @
            since @ before @ text_term ''TEXT'' (sf_text f)
      in Inr (if terms = [] then ''ALL'' else join '' '' terms)))"

section \<open>Messages\<close>

record mail_reader = imap_lib +
  mr_parse :: "string \<Rightarrow> mime"
  mr_bytes :: "mime \<Rightarrow> string"         \<comment> \<open>\<open>get_payload(decode=True) or b""\<close>\<close>
  mr_text :: "mime \<Rightarrow> string"          \<comment> \<open>the same, decoded in the part's character set or UTF-8\<close>

record attachment =
  at_index :: nat
  at_filename :: string
  at_content_type :: string
  at_size :: nat

record message_detail = summary +
  md_text :: string
  md_html :: string
  md_attachments :: "attachment list"
  md_raw :: string

definition decoded :: "'a imap_lib_scheme \<Rightarrow> string option \<Rightarrow> string" where
  "decoded il v = (if truthy v then il_decode il (the v) else [])"

definition attachment_name :: "mail_reader \<Rightarrow> nat \<Rightarrow> mime \<Rightarrow> string" where
  "attachment_name ml i part = (let n = decoded ml (mime_filename part) in if n = [] then ''part-'' @ dec_str (int i) else n)"

definition is_attached :: "mime \<Rightarrow> bool" where
  "is_attached part \<longleftrightarrow> content_disposition part = Some ''attachment'' \<or>
     truthy (mime_filename part) \<and> content_disposition part \<noteq> Some ''inline''"

definition single_parts :: "mime \<Rightarrow> (nat \<times> mime) list" where
  "single_parts m = filter (\<lambda>(_, part). \<not> starts_with ''multipart/'' (mime_type part)) (enumerate 0 (walk m))"

definition bodies :: "mail_reader \<Rightarrow> string \<Rightarrow> mime \<Rightarrow> string" where
  "bodies ml ty m = join [LF] (map (\<lambda>(_, part). mr_text ml part)
     (filter (\<lambda>(_, part). \<not> is_attached part \<and> \<not> is_multipart part \<and> mime_type part = ty) (single_parts m)))"

definition attachments_of :: "mail_reader \<Rightarrow> mime \<Rightarrow> attachment list" where
  "attachments_of ml m =
    map (\<lambda>(i, part). \<lparr>at_index = i, at_filename = attachment_name ml i part, at_content_type = mime_type part,
           at_size = length (mr_bytes ml part)\<rparr>)
      (filter (\<lambda>(_, part). is_attached part) (single_parts m))"

definition parse_message :: "mail_reader \<Rightarrow> string \<Rightarrow> int \<Rightarrow> string \<Rightarrow> string list \<Rightarrow> message_detail" where
  "parse_message ml raw uid f flags =
    (let m = mr_parse ml raw
     in \<lparr>su_uid = uid, su_folder = f, su_subject = decoded ml (mime_get ''Subject'' m), su_from = decoded ml (mime_get ''From'' m),
         su_to = decoded ml (mime_get ''To'' m),
         su_date = (if truthy (mime_get ''Date'' m) then il_date ml (the (mime_get ''Date'' m)) else None),
         su_size = length raw, su_flags = flags, md_text = bodies ml ''text/plain'' m, md_html = bodies ml ''text/html'' m,
         md_attachments = attachments_of ml m, md_raw = raw\<rparr>)"

definition extract_attachment :: "mail_reader \<Rightarrow> string \<Rightarrow> int \<Rightarrow> mailbox_error + string \<times> string \<times> string" where
  "extract_attachment ml raw index =
    (case first_row (filter (\<lambda>(i, _). int i = index) (enumerate 0 (walk (mr_parse ml raw)))) of
       None \<Rightarrow> Inl (MailboxError ''no attachment at that index'')
     | Some (i, part) \<Rightarrow> Inr (attachment_name ml i part, mime_type part, mr_bytes ml part))"

section \<open>Listing\<close>

definition is_inbox :: "mail_folder \<Rightarrow> bool" where
  "is_inbox f \<longleftrightarrow> upper (fo_name f) = ''INBOX''"

text \<open>INBOX first, then by name without case.\<close>

definition mailbox_folders :: "dovecot \<Rightarrow> mail_folder list imap_op" where
  "mailbox_folders srv =
    then_do (list_folders srv) (\<lambda>fs. give (let by_name = sort_key (\<lambda>f. lower (fo_name f)) fs
      in filter is_inbox by_name @ filter (\<lambda>f. \<not> is_inbox f) by_name))"

text \<open>\<open>order.get(m.uid, 0)\<close> of \<open>order = {uid: position}\<close>: the last position of a uid.\<close>

definition position_in :: "int list \<Rightarrow> int \<Rightarrow> nat" where
  "position_in window u = (case map_of (rev (zip window [0..<length window])) u of Some i \<Rightarrow> i | None \<Rightarrow> 0)"

text \<open>\<open>xs[offset : offset + limit]\<close>, for numbers that are not negative.\<close>

definition window_of :: "nat \<Rightarrow> nat \<Rightarrow> 'a list \<Rightarrow> 'a list" where
  "window_of limit offset xs = take limit (drop offset xs)"

definition mailbox_list :: "dovecot \<Rightarrow> mail_reader \<Rightarrow> string \<Rightarrow> nat \<Rightarrow> nat \<Rightarrow> string \<Rightarrow> summary list imap_op" where
  "mailbox_list srv ml f limit offset criteria =
    then_do (imap_search srv f criteria) (\<lambda>us.
      let window = window_of limit offset (rev us)
      in if window = [] then give []
         else then_do (fetch_summaries srv ml f window) (\<lambda>ss.
              give (sort_key (\<lambda>m. position_in window (su_uid m)) ss)))"

record conversation =
  cv_uids :: "int list"
  cv_messages :: "summary list"

definition seen :: "'a summary_scheme \<Rightarrow> bool" where "seen m \<longleftrightarrow> FLAG_SEEN \<in> set (su_flags m)"
definition flagged :: "'a summary_scheme \<Rightarrow> bool" where "flagged m \<longleftrightarrow> FLAG_FLAGGED \<in> set (su_flags m)"
definition answered :: "'a summary_scheme \<Rightarrow> bool" where "answered m \<longleftrightarrow> FLAG_ANSWERED \<in> set (su_flags m)"

definition conversation_root :: "conversation \<Rightarrow> int" where "conversation_root t = hd (cv_uids t)"

definition conversation_latest :: "conversation \<Rightarrow> summary" where "conversation_latest t = last (cv_messages t)"

definition conversation_subject :: "conversation \<Rightarrow> string" where
  "conversation_subject t = (case filter (\<lambda>s. s \<noteq> []) (map su_subject (cv_messages t)) of [] \<Rightarrow> [] | s # _ \<Rightarrow> s)"

definition participants :: "conversation \<Rightarrow> string list" where
  "participants t = fromkeys (filter (\<lambda>s. s \<noteq> []) (map su_from (cv_messages t)))"

definition conversation_date :: "conversation \<Rightarrow> instant option" where
  "conversation_date t = (case List.map_filter su_date (cv_messages t) of [] \<Rightarrow> None | d # ds \<Rightarrow> Some (foldl max d ds))"

definition conversation_unseen :: "conversation \<Rightarrow> nat" where
  "conversation_unseen t = length (filter (\<lambda>m. \<not> seen m) (cv_messages t))"

definition conversation_flagged :: "conversation \<Rightarrow> bool" where
  "conversation_flagged t \<longleftrightarrow> (\<exists>m \<in> set (cv_messages t). flagged m)"

definition conversation_size :: "conversation \<Rightarrow> nat" where
  "conversation_size t = sum_list (map su_size (cv_messages t))"

text \<open>Groups with the highest UID first, as \<open>sorted(..., reverse=True)\<close> leaves equal ones in place.\<close>

definition newest_first :: "int list list \<Rightarrow> int list list" where
  "newest_first groups = sort_key (\<lambda>us. - last us) (map sort (filter (\<lambda>g. g \<noteq> []) groups))"

text \<open>\<open>{s.uid: s}\<close>: the last summary of a uid.\<close>

definition summary_of :: "summary list \<Rightarrow> int \<Rightarrow> summary option" where
  "summary_of ss u = first_row (filter (\<lambda>m. su_uid m = u) (rev ss))"

definition conversation_of :: "summary list \<Rightarrow> int list \<Rightarrow> conversation list" where
  "conversation_of ss grp =
    (let ms = List.map_filter (summary_of ss) grp in if ms = [] then [] else [\<lparr>cv_uids = map su_uid ms, cv_messages = ms\<rparr>])"

definition mailbox_threads :: "dovecot \<Rightarrow> mail_reader \<Rightarrow> string \<Rightarrow> nat \<Rightarrow> nat \<Rightarrow> string \<Rightarrow> conversation list imap_op" where
  "mailbox_threads srv ml f limit offset criteria =
    then_do (imap_thread srv f criteria) (\<lambda>groups.
      let window = window_of limit offset (newest_first groups)
      in if window = [] then give []
         else then_do (fetch_summaries srv ml f (concat window)) (\<lambda>ss.
              give (concat (map (conversation_of ss) window))))"

section \<open>One message and its flags\<close>

definition mailbox_raw :: "dovecot \<Rightarrow> string \<Rightarrow> int \<Rightarrow> string imap_op" where
  "mailbox_raw srv f uid = then_do (fetch_raw srv f uid) (\<lambda>raw. if raw = [] then fails (MessageNotFound uid f) else give raw)"

definition mailbox_get :: "dovecot \<Rightarrow> mail_reader \<Rightarrow> string \<Rightarrow> int \<Rightarrow> message_detail imap_op" where
  "mailbox_get srv ml f uid =
    then_do (mailbox_raw srv f uid) (\<lambda>raw.
    then_do (fetch_summaries srv ml f [uid]) (\<lambda>ss.
      give (parse_message ml raw uid f (case ss of [] \<Rightarrow> [] | s # _ \<Rightarrow> su_flags s))))"

definition mailbox_attachment :: "dovecot \<Rightarrow> mail_reader \<Rightarrow> string \<Rightarrow> int \<Rightarrow> int \<Rightarrow> (string \<times> string \<times> string) imap_op" where
  "mailbox_attachment srv ml f uid index =
    then_do (mailbox_raw srv f uid) (\<lambda>raw.
      case extract_attachment ml raw index of Inl e \<Rightarrow> fails e | Inr x \<Rightarrow> give x)"

definition mailbox_append :: "dovecot \<Rightarrow> string \<Rightarrow> string \<Rightarrow> string list \<Rightarrow> unit imap_op" where
  "mailbox_append srv f raw flags = imap_append srv f raw flags"

text \<open>What to do with each flag: set, clear or leave.\<close>

record flag_change =
  fc_seen :: "bool option"
  fc_flagged :: "bool option"
  fc_answered :: "bool option"
  fc_draft :: "bool option"

definition flags_to :: "bool \<Rightarrow> flag_change \<Rightarrow> string list" where
  "flags_to on fc = map fst (filter (\<lambda>(_, v). v = Some on)
     [(FLAG_SEEN, fc_seen fc), (FLAG_FLAGGED, fc_flagged fc), (FLAG_ANSWERED, fc_answered fc), (FLAG_DRAFT, fc_draft fc)])"

definition mailbox_mark :: "dovecot \<Rightarrow> string \<Rightarrow> int list \<Rightarrow> flag_change \<Rightarrow> unit imap_op" where
  "mailbox_mark srv f us fc =
    then_do (if flags_to True fc \<noteq> [] then store_flags srv f us (flags_to True fc) True else give ()) (\<lambda>_.
      if flags_to False fc \<noteq> [] then store_flags srv f us (flags_to False fc) False else give ())"

definition TRASH :: string where "TRASH = ''Trash''"

definition SPECIAL_FOLDERS :: "string list" where
  "SPECIAL_FOLDERS = [''INBOX'', ''Sent'', ''Drafts'', ''Trash'', ''Junk'', ''Archive'']"

definition mailbox_move :: "dovecot \<Rightarrow> string \<Rightarrow> int list \<Rightarrow> string \<Rightarrow> unit imap_op" where
  "mailbox_move srv f us destination = imap_move srv f us destination"

definition mailbox_delete :: "dovecot \<Rightarrow> string \<Rightarrow> int list \<Rightarrow> bool \<Rightarrow> unit imap_op" where
  "mailbox_delete srv f us expunge =
    (if expunge \<or> f = TRASH
     then then_do (store_flags srv f us [DELETED_FLAG] True) (\<lambda>_. imap_expunge srv f us)
     else imap_move srv f us TRASH)"

definition mailbox_empty :: "dovecot \<Rightarrow> string \<Rightarrow> nat imap_op" where
  "mailbox_empty srv f =
    then_do (imap_search srv f ''ALL'') (\<lambda>us.
    then_do (if us \<noteq> [] then then_do (store_flags srv f us [DELETED_FLAG] True) (\<lambda>_. imap_expunge srv f us) else give ()) (\<lambda>_.
      give (length us)))"

section \<open>Folders\<close>

definition refuse_special :: "string \<Rightarrow> mailbox_error option" where
  "refuse_special name =
    (if upper name = ''INBOX'' \<or> name \<in> set SPECIAL_FOLDERS then Some (MailboxError ''is a system folder'') else None)"

definition check_folder_name :: "string \<Rightarrow> mailbox_error option" where
  "check_folder_name name =
    (if strip name = [] \<or> name \<noteq> strip name then Some (MailboxError ''a folder name cannot be empty or padded with spaces'')
     else if 200 < length name then Some (MailboxError ''a folder name can be at most 200 characters'')
     else if \<exists>c \<in> set name. c \<in> {CHR ''*'', CHR ''%''} \<or> (of_char c :: nat) < 32
     then Some (MailboxError ''a folder name cannot contain *, % or control characters'')
     else if starts_with ''/'' name \<or> ends_with ''/'' name \<or> contains ''//'' name
     then Some (MailboxError ''a folder name cannot start or end with / or contain //'')
     else if upper name = ''INBOX'' \<or> name \<in> set SPECIAL_FOLDERS then Some (MailboxError ''already exists'')
     else None)"

definition unless :: "mailbox_error option \<Rightarrow> 'a imap_op \<Rightarrow> 'a imap_op" where
  "unless e m = (case e of Some err \<Rightarrow> fails err | None \<Rightarrow> m)"

definition mailbox_create_folder :: "dovecot \<Rightarrow> string \<Rightarrow> unit imap_op" where
  "mailbox_create_folder srv name = unless (check_folder_name name) (create_folder srv name)"

definition mailbox_rename_folder :: "dovecot \<Rightarrow> string \<Rightarrow> string \<Rightarrow> unit imap_op" where
  "mailbox_rename_folder srv name new_name =
    unless (refuse_special name) (unless (check_folder_name new_name) (rename_folder srv name new_name))"

definition mailbox_delete_folder :: "dovecot \<Rightarrow> string \<Rightarrow> unit imap_op" where
  "mailbox_delete_folder srv name = unless (refuse_special name) (delete_folder srv name)"

section \<open>Operations that remove nothing\<close>

lemma keeping_statuses: "keeps_harmless P \<Longrightarrow> keeping P (statuses srv ns)"
proof (induction ns)
  case Nil
  then show ?case by (simp add: keeping_def valid_def)
next
  case (Cons n ns)
  have one: "keeping P (select_status srv n)"
    unfolding select_status_def Let_def by (intro keeping_then keeping_simple keeping_harmless Cons.prems) simp
  have rest: "keeping P (statuses srv ns)" using Cons by simp
  show ?case
    unfolding keeping_def valid_def
    by (auto split: prod.splits sum.splits dest: keeping_runs [OF one] keeping_runs [OF rest])
qed

lemma keeping_if_give: "(b \<Longrightarrow> keeping P m) \<Longrightarrow> keeping P (if b then m else give x)"
  by (simp add: keeping_simple)

lemma keeping_unless: "keeping P m \<Longrightarrow> keeping P (unless e m)"
  by (cases e) (simp_all add: unless_def keeping_simple)

lemma keeping_requests:
  assumes P: "keeps_harmless P"
  shows "keeping P (mailbox_folders srv)" "keeping P (imap_search srv f crit)" "keeping P (fetch_summaries srv ml f us)"
    "keeping P (imap_thread srv f crit)" "keeping P (mailbox_raw srv f uid)" "keeping P (mailbox_append srv f raw flags)"
    "keeping P (mailbox_mark srv f us fc)" "keeping P (mailbox_create_folder srv n)" "keeping P (mailbox_rename_folder srv n n')"
proof -
  note K = keeping_then keeping_simple keeping_uids keeping_if keeping_unless keeping_select [OF P] keeping_store [OF P]
    keeping_statuses [OF P] keeping_harmless [OF P]
  show s: "keeping P (imap_search srv f crit)" unfolding imap_search_def by (intro K; simp)
  show "keeping P (mailbox_folders srv)" unfolding mailbox_folders_def list_folders_def Let_def by (intro K; simp)
  show "keeping P (fetch_summaries srv ml f us)" unfolding fetch_summaries_def by (intro K; simp)
  show "keeping P (imap_thread srv f crit)" unfolding imap_thread_def by (intro K s; simp)
  show "keeping P (mailbox_raw srv f uid)" unfolding mailbox_raw_def fetch_raw_def by (intro K; simp)
  show "keeping P (mailbox_append srv f raw flags)" unfolding mailbox_append_def imap_append_def by (intro K; simp)
  show "keeping P (mailbox_mark srv f us fc)" unfolding mailbox_mark_def by (intro K; simp)
  show "keeping P (mailbox_create_folder srv n)" unfolding mailbox_create_folder_def create_folder_def by (intro K; simp)
  show "keeping P (mailbox_rename_folder srv n n')" unfolding mailbox_rename_folder_def rename_folder_def by (intro K; simp)
qed

lemma keeping_reads:
  assumes P: "keeps_harmless P"
  shows "keeping P (mailbox_list srv ml f n off crit)" "keeping P (mailbox_threads srv ml f n off crit)"
    "keeping P (mailbox_get srv ml f uid)" "keeping P (mailbox_attachment srv ml f uid i)"
proof -
  note K = keeping_then keeping_simple keeping_if keeping_requests [OF P]
  show "keeping P (mailbox_list srv ml f n off crit)" unfolding mailbox_list_def Let_def by (intro K)
  show "keeping P (mailbox_threads srv ml f n off crit)" unfolding mailbox_threads_def Let_def by (intro K)
  show "keeping P (mailbox_get srv ml f uid)" unfolding mailbox_get_def by (intro K)
  show "keeping P (mailbox_attachment srv ml f uid i)"
    unfolding mailbox_attachment_def by (intro K) (simp add: keeping_simple split: sum.splits)
qed

text \<open>Moving to Trash copies before it removes.\<close>

lemma careful_delete: "\<not> expunge \<Longrightarrow> f \<noteq> TRASH \<Longrightarrow> keeping (careful srv) (mailbox_delete srv f us expunge)"
  by (simp add: mailbox_delete_def careful_move)

section \<open>Newest first\<close>

lemma position_in_nth: "distinct w \<Longrightarrow> i < length w \<Longrightarrow> position_in w (w ! i) = i"
proof -
  assume d: "distinct w" and i: "i < length w"
  have "distinct (map fst (rev (zip w [0..<length w])))" using d by (simp flip: rev_map)
  moreover have "(w ! i, i) \<in> set (rev (zip w [0..<length w]))" using i by (auto simp: set_zip)
  ultimately show ?thesis by (simp add: position_in_def map_of_eq_Some_iff)
qed

text \<open>Whatever order the server answers in, messages sorted by their place are the window.\<close>

lemma sorted_by_place:
  assumes "distinct w" "mset (map k xs) = mset w"
  shows "map k (sort_key (\<lambda>x. position_in w (k x)) xs) = w"
proof -
  let ?p = "position_in w" and ?ys = "map k (sort_key (\<lambda>x. position_in w (k x)) xs)"
  have m: "mset ?ys = mset w" using assms(2) by (simp add: mset_map)
  have p: "map ?p w = [0..<length w]" using position_in_nth [OF assms(1)] by (intro nth_equalityI) simp_all
  have i: "inj_on ?p (set w)" using p by (metis distinct_map distinct_upt)
  have "sort_key ?p ?ys = ?ys"
    using i m sorted_sort_key [of "\<lambda>x. ?p (k x)" xs] by (intro sort_key_inj_key_eq) (simp_all add: comp_def flip: set_mset_mset)
  moreover have "sort_key ?p ?ys = w"
    using i m p by (intro sort_key_inj_key_eq) (simp_all flip: set_mset_mset)
  ultimately show ?thesis by simp
qed

end
