(* ===== verification/Mailbox_Api.thy ===== *)
theory Mailbox_Api
  imports Mailbox Filters Smtp_Safety
begin

text \<open>
  \<open>src/src/lightr/api/mailbox.py\<close>: the \<open>/v1/mailbox\<close> requests. Each opens one connection to Dovecot as the master user of
  the key's own account and closes it again; the answer comes with the list of the commands sent.
  Sending hands the message to the submission handler of the theory \<open>Smtp\<close>; forwarding writes an alias.
  The \<open>email\<close> package and the pages of a query are parameters. A response that is an error is a left
  result, as an exception is.
\<close>

section \<open>Opening a mailbox\<close>

type_synonym 'a api_op = "imap_conn \<Rightarrow> (api_error + 'a) \<times> imap_conn"

definition api_give :: "'a \<Rightarrow> 'a api_op" where "api_give x c = (Inr x, c)"

definition api_then :: "'a api_op \<Rightarrow> ('a \<Rightarrow> 'b api_op) \<Rightarrow> 'b api_op" where
  "api_then m f c = (case m c of (Inl e, c') \<Rightarrow> (Inl e, c') | (Inr x, c') \<Rightarrow> f x c')"

text \<open>\<open>_mailbox_call\<close>, a handler that catches only a missing message, and one that catches nothing.\<close>

definition mailbox_call :: "'a imap_op \<Rightarrow> 'a api_op" where
  "mailbox_call m c =
    (case m c of
       (Inl (MessageNotFound _ _), c') \<Rightarrow> (Inl (AuthError 404), c')
     | (Inl (MailboxError _), c') \<Rightarrow> (Inl (AuthError 400), c')
     | (Inr x, c') \<Rightarrow> (Inr x, c'))"

definition found :: "'a imap_op \<Rightarrow> 'a api_op" where
  "found m c =
    (case m c of
       (Inl (MessageNotFound _ _), c') \<Rightarrow> (Inl (AuthError 404), c')
     | (Inl (MailboxError _), c') \<Rightarrow> (Inl Unhandled, c')
     | (Inr x, c') \<Rightarrow> (Inr x, c'))"

definition uncaught :: "'a imap_op \<Rightarrow> 'a api_op" where
  "uncaught m c = (case m c of (Inl _, c') \<Rightarrow> (Inl Unhandled, c') | (Inr x, c') \<Rightarrow> (Inr x, c'))"

definition master_login :: "string \<Rightarrow> string \<Rightarrow> string" where
  "master_login addr master_user = addr @ ''*'' @ master_user"

text \<open>\<open>_connect\<close>: the master user and password of the configuration, when there are any.\<close>

definition imap_connect :: "dovecot \<Rightarrow> (string \<times> string) option \<Rightarrow> string \<Rightarrow> unit imap_op" where
  "imap_connect srv master addr =
    (case master of
       None \<Rightarrow> fails (MailboxError ''reading mailboxes needs a Dovecot master user'')
     | Some (user, password) \<Rightarrow> login srv (master_login addr user) password)"

definition open_mailbox ::
  "dovecot \<Rightarrow> (string \<times> string) option \<Rightarrow> api_key \<Rightarrow> database \<Rightarrow> (account \<Rightarrow> 'a api_op) \<Rightarrow> (api_error + 'a) \<times> wire list" where
  "open_mailbox srv master k db body =
    (case account_for k db of
       Inl e \<Rightarrow> (Inl e, [])
     | Inr a \<Rightarrow>
       (case email a of
          None \<Rightarrow> (Inl (AuthError 500), [])
        | Some addr \<Rightarrow>
          (case imap_connect srv master addr fresh_conn of
             (Inl _, c) \<Rightarrow> (Inl Unhandled, ic_sent c)
           | (Inr _, c) \<Rightarrow> (case body a c of (r, c') \<Rightarrow> (r, ic_sent (snd (logout srv c')))))))"

section \<open>Parameters of a request\<close>

type_synonym query = "(string, string) dict"

definition folder_param :: "query \<Rightarrow> string" where
  "folder_param q = (case map_of q ''folder'' of None \<Rightarrow> ''INBOX'' | Some f \<Rightarrow> f)"

definition yes :: "string option \<Rightarrow> bool" where
  "yes v \<longleftrightarrow> (case v of None \<Rightarrow> False | Some s \<Rightarrow> s \<in> {''1'', ''true'', ''yes''})"

definition uid_param :: "string \<Rightarrow> api_error + int" where
  "uid_param s = (case int_base10 s of None \<Rightarrow> Inl (AuthError 400) | Some n \<Rightarrow> Inr n)"

text \<open>\<open>_int\<close>: a number that is none reads as the default, unbounded.\<close>

definition int_param :: "string option \<Rightarrow> nat \<Rightarrow> nat option \<Rightarrow> nat" where
  "int_param raw dflt maximum =
    (case raw of
       None \<Rightarrow> (case maximum of None \<Rightarrow> dflt | Some m \<Rightarrow> min dflt m)
     | Some s \<Rightarrow>
       (case int_base10 s of
          None \<Rightarrow> dflt
        | Some n \<Rightarrow> (case maximum of None \<Rightarrow> nat n | Some m \<Rightarrow> min (nat n) m)))"

definition search_params :: "query \<Rightarrow> search_filter" where
  "search_params q = \<lparr>sf_unread = yes (map_of q ''unread''), sf_flagged = yes (map_of q ''flagged''), sf_sender = map_of q ''from'',
     sf_recipient = map_of q ''to'', sf_subject = map_of q ''subject'', sf_since = map_of q ''since'', sf_before = map_of q ''before'',
     sf_text = map_of q ''text''\<rparr>"

section \<open>Reading\<close>

definition get_mailbox :: "dovecot \<Rightarrow> (string \<times> string) option \<Rightarrow> api_key \<Rightarrow> database \<Rightarrow> (api_error + account \<times> nat \<times> nat \<times> nat) \<times> wire list" where
  "get_mailbox srv master k db =
    open_mailbox srv master k db (\<lambda>a. api_then (uncaught (mailbox_folders srv)) (\<lambda>fs.
      api_give (case filter is_inbox fs of
          [] \<Rightarrow> (a, length fs, 0, 0) | f # _ \<Rightarrow> (a, length fs, fo_messages f, fo_unseen f))))"

definition list_mail_folders :: "dovecot \<Rightarrow> (string \<times> string) option \<Rightarrow> api_key \<Rightarrow> database \<Rightarrow> (api_error + mail_folder list) \<times> wire list" where
  "list_mail_folders srv master k db = open_mailbox srv master k db (\<lambda>_. uncaught (mailbox_folders srv))"

definition list_messages ::
  "dovecot \<Rightarrow> mail_reader \<Rightarrow> (string \<times> string) option \<Rightarrow> api_key \<Rightarrow> query \<Rightarrow> database \<Rightarrow> (api_error + summary list) \<times> wire list" where
  "list_messages srv ml master k q db =
    (case build_search_criteria (search_params q) of
       Inl _ \<Rightarrow> (Inl Unhandled, [])
     | Inr criteria \<Rightarrow>
       open_mailbox srv master k db (\<lambda>_. uncaught (mailbox_list srv ml (folder_param q)
         (int_param (map_of q ''limit'') 50 (Some 200)) (int_param (map_of q ''offset'') 0 None) criteria)))"

definition list_threads ::
  "dovecot \<Rightarrow> mail_reader \<Rightarrow> (string \<times> string) option \<Rightarrow> api_key \<Rightarrow> query \<Rightarrow> database \<Rightarrow> (api_error + conversation list) \<times> wire list" where
  "list_threads srv ml master k q db =
    (case build_search_criteria (search_params q) of
       Inl _ \<Rightarrow> (Inl Unhandled, [])
     | Inr criteria \<Rightarrow>
       open_mailbox srv master k db (\<lambda>_. uncaught (mailbox_threads srv ml (folder_param q)
         (int_param (map_of q ''limit'') 50 (Some 100)) (int_param (map_of q ''offset'') 0 None) criteria)))"

definition get_message ::
  "dovecot \<Rightarrow> mail_reader \<Rightarrow> (string \<times> string) option \<Rightarrow> api_key \<Rightarrow> query \<Rightarrow> string \<Rightarrow> database \<Rightarrow> (api_error + message_detail) \<times> wire list" where
  "get_message srv ml master k q uid_text db =
    (case uid_param uid_text of
       Inl e \<Rightarrow> (Inl e, [])
     | Inr uid \<Rightarrow> open_mailbox srv master k db (\<lambda>_. found (mailbox_get srv ml (folder_param q) uid)))"

text \<open>The file name in the header loses quotes and line breaks.\<close>

definition get_attachment ::
  "dovecot \<Rightarrow> mail_reader \<Rightarrow> (string \<times> string) option \<Rightarrow> api_key \<Rightarrow> query \<Rightarrow> string \<Rightarrow> string \<Rightarrow> database \<Rightarrow>
   (api_error + string \<times> string \<times> string) \<times> wire list" where
  "get_attachment srv ml master k q uid_text index_text db =
    (case bind_res (uid_param uid_text) (\<lambda>uid. bind_res (uid_param index_text) (\<lambda>i. Inr (uid, i))) of
       Inl e \<Rightarrow> (Inl e, [])
     | Inr (uid, i) \<Rightarrow>
       open_mailbox srv master k db (\<lambda>_. api_then (found (mailbox_attachment srv ml (folder_param q) uid i)) (\<lambda>(name, ty, data).
         api_give (''attachment; filename='' @ [QUOTE] @
           replace_char LF [] (replace_char CHR 0x0D [] (replace_char QUOTE [] name)) @ [QUOTE], ty, data))))"

section \<open>Changing messages\<close>

definition MAX_BULK :: nat where "MAX_BULK = 1000"
definition EMPTYABLE :: "string list" where "EMPTYABLE = [''Trash'', ''Junk'']"

text \<open>The first of the keys that the body has; null counts as absent.\<close>

definition flag_value :: "string list \<Rightarrow> json_object \<Rightarrow> api_error + bool option" where
  "flag_value keys body =
    (case filter (\<lambda>k. map_of body k \<noteq> None) keys of
       [] \<Rightarrow> Inr None
     | k # _ \<Rightarrow> (case json_get k body of JNull \<Rightarrow> Inr None | JBool b \<Rightarrow> Inr (Some b) | _ \<Rightarrow> Inl (AuthError 400)))"

definition flags_of_body :: "json_object \<Rightarrow> api_error + flag_change" where
  "flags_of_body body =
    bind_res (flag_value [''read'', ''seen''] body) (\<lambda>s. bind_res (flag_value [''flagged''] body) (\<lambda>f.
    bind_res (flag_value [''answered''] body) (\<lambda>a. bind_res (flag_value [''draft''] body) (\<lambda>d.
      Inr \<lparr>fc_seen = s, fc_flagged = f, fc_answered = a, fc_draft = d\<rparr>))))"

definition no_flags :: "flag_change \<Rightarrow> bool" where
  "no_flags fc \<longleftrightarrow> fc_seen fc = None \<and> fc_flagged fc = None \<and> fc_answered fc = None \<and> fc_draft fc = None"

definition mark_and_move :: "dovecot \<Rightarrow> (json \<Rightarrow> string) \<Rightarrow> string \<Rightarrow> int \<Rightarrow> flag_change \<Rightarrow> json \<Rightarrow> unit api_op" where
  "mark_and_move srv shown f uid fc move_to =
    api_then (mailbox_call (mailbox_mark srv f [uid] fc)) (\<lambda>_.
      if json_truthy move_to then mailbox_call (mailbox_move srv f [uid] (json_text shown move_to)) else api_give ())"

definition mark_message ::
  "dovecot \<Rightarrow> (json \<Rightarrow> string) \<Rightarrow> (string \<times> string) option \<Rightarrow> api_key \<Rightarrow> query \<Rightarrow> string \<Rightarrow> json_object option \<Rightarrow> database \<Rightarrow>
   (api_error + unit) \<times> wire list" where
  "mark_message srv shown master k q uid_text body db =
    (case bind_res (uid_param uid_text) (\<lambda>uid. bind_res (parse_body body) (\<lambda>d. bind_res (flags_of_body d) (\<lambda>fc.
       if no_flags fc \<and> json_get ''folder'' d = JNull then Inl (AuthError 400) else Inr (uid, fc, json_get ''folder'' d)))) of
       Inl e \<Rightarrow> (Inl e, [])
     | Inr (uid, fc, move_to) \<Rightarrow>
       open_mailbox srv master k db (\<lambda>_. mark_and_move srv shown (folder_param q) uid fc move_to))"

text \<open>The body of a bulk request: folder, messages, flags, where to, whether to delete, whether for good.\<close>

record bulk =
  bk_folder :: string
  bk_uids :: "int list"
  bk_flags :: flag_change
  bk_move_to :: json
  bk_delete :: bool
  bk_purge :: bool

definition bulk_uids :: "json \<Rightarrow> api_error + int list" where
  "bulk_uids v =
    (case v of
       JList xs \<Rightarrow>
         if xs = [] then Inl (AuthError 400)
         else bind_res (map_res (\<lambda>x. case x of JInt n \<Rightarrow> if n > 0 then Inr n else Inl (AuthError 400) | _ \<Rightarrow> Inl (AuthError 400)) xs) (\<lambda>us.
           if length us > MAX_BULK then Inl (AuthError 400) else Inr us)
     | _ \<Rightarrow> Inl (AuthError 400))"

definition opt_flag :: "string \<Rightarrow> json_object \<Rightarrow> api_error + bool" where
  "opt_flag k body = (case json_get k body of JNull \<Rightarrow> Inr False | JBool b \<Rightarrow> Inr b | _ \<Rightarrow> Inl (AuthError 400))"

definition bulk_body :: "(json \<Rightarrow> string) \<Rightarrow> json_object \<Rightarrow> api_error + bulk" where
  "bulk_body shown d =
    bind_res (bulk_uids (json_get ''uids'' d)) (\<lambda>us. bind_res (flags_of_body d) (\<lambda>fc.
    bind_res (opt_flag ''delete'' d) (\<lambda>del. bind_res (opt_flag ''purge'' d) (\<lambda>purge.
      let move_to = json_get ''move_to'' d
      in if json_truthy move_to \<and> (del \<or> purge) then Inl (AuthError 400)
         else if no_flags fc \<and> \<not> (json_truthy move_to \<or> del \<or> purge) then Inl (AuthError 400)
         else Inr \<lparr>bk_folder = json_text shown (json_or (json_get ''folder'' d) (JStr ''INBOX'')), bk_uids = us, bk_flags = fc,
                bk_move_to = move_to, bk_delete = del, bk_purge = purge\<rparr>))))"

definition bulk_run :: "dovecot \<Rightarrow> (json \<Rightarrow> string) \<Rightarrow> bulk \<Rightarrow> unit api_op" where
  "bulk_run srv shown b =
    api_then (mailbox_call (mailbox_mark srv (bk_folder b) (bk_uids b) (bk_flags b))) (\<lambda>_.
      if json_truthy (bk_move_to b) then mailbox_call (mailbox_move srv (bk_folder b) (bk_uids b) (json_text shown (bk_move_to b)))
      else if bk_delete b \<or> bk_purge b then mailbox_call (mailbox_delete srv (bk_folder b) (bk_uids b) (bk_purge b))
      else api_give ())"

definition bulk_messages ::
  "dovecot \<Rightarrow> (json \<Rightarrow> string) \<Rightarrow> (string \<times> string) option \<Rightarrow> api_key \<Rightarrow> json_object option \<Rightarrow> database \<Rightarrow> (api_error + unit) \<times> wire list" where
  "bulk_messages srv shown master k body db =
    (case bind_res (parse_body body) (bulk_body shown) of
       Inl e \<Rightarrow> (Inl e, [])
     | Inr b \<Rightarrow> open_mailbox srv master k db (\<lambda>_. bulk_run srv shown b))"

definition delete_message ::
  "dovecot \<Rightarrow> (string \<times> string) option \<Rightarrow> api_key \<Rightarrow> query \<Rightarrow> string \<Rightarrow> database \<Rightarrow> (api_error + unit) \<times> wire list" where
  "delete_message srv master k q uid_text db =
    (case uid_param uid_text of
       Inl e \<Rightarrow> (Inl e, [])
     | Inr uid \<Rightarrow> open_mailbox srv master k db (\<lambda>_. uncaught (mailbox_delete srv (folder_param q) [uid] (yes (map_of q ''purge'')))))"

section \<open>Folders\<close>

definition name_of_body :: "json_object option \<Rightarrow> api_error + string" where
  "name_of_body body = bind_res (parse_body body) (\<lambda>d. case json_get ''name'' d of JStr n \<Rightarrow> Inr n | _ \<Rightarrow> Inl (AuthError 400))"

definition create_mail_folder :: "dovecot \<Rightarrow> (string \<times> string) option \<Rightarrow> api_key \<Rightarrow> json_object option \<Rightarrow> database \<Rightarrow> (api_error + unit) \<times> wire list" where
  "create_mail_folder srv master k body db =
    (case name_of_body body of
       Inl e \<Rightarrow> (Inl e, [])
     | Inr name \<Rightarrow> open_mailbox srv master k db (\<lambda>_. mailbox_call (mailbox_create_folder srv name)))"

definition rename_mail_folder ::
  "dovecot \<Rightarrow> (string \<times> string) option \<Rightarrow> api_key \<Rightarrow> string \<Rightarrow> json_object option \<Rightarrow> database \<Rightarrow> (api_error + unit) \<times> wire list" where
  "rename_mail_folder srv master k name body db =
    (case name_of_body body of
       Inl e \<Rightarrow> (Inl e, [])
     | Inr new_name \<Rightarrow> open_mailbox srv master k db (\<lambda>_. mailbox_call (mailbox_rename_folder srv name new_name)))"

definition delete_mail_folder :: "dovecot \<Rightarrow> (string \<times> string) option \<Rightarrow> api_key \<Rightarrow> string \<Rightarrow> database \<Rightarrow> (api_error + unit) \<times> wire list" where
  "delete_mail_folder srv master k name db = open_mailbox srv master k db (\<lambda>_. mailbox_call (mailbox_delete_folder srv name))"

definition empty_folder :: "dovecot \<Rightarrow> (string \<times> string) option \<Rightarrow> api_key \<Rightarrow> string \<Rightarrow> database \<Rightarrow> (api_error + nat) \<times> wire list" where
  "empty_folder srv master k name db =
    (if name \<notin> set EMPTYABLE then (Inl (AuthError 400), [])
     else open_mailbox srv master k db (\<lambda>_. mailbox_call (mailbox_empty srv name)))"

section \<open>Writing a message\<close>

definition DRAFTS :: string where "DRAFTS = ''Drafts''"
definition SENT :: string where "SENT = ''Sent''"
definition MAX_RECIPIENTS :: nat where "MAX_RECIPIENTS = 100"
definition MAX_MESSAGE_BYTES :: nat where "MAX_MESSAGE_BYTES = 25 * 1024 * 1024"

text \<open>
  What \<open>EmailMessage\<close> and \<open>email.utils\<close> do: the exception a field raises when it is set, if any, the
  date and the message id, the bytes of the finished message, the addresses of some fields.
\<close>

record composer =
  cm_refuses :: "string \<Rightarrow> string \<Rightarrow> api_error option"
  cm_formataddr :: "string \<Rightarrow> string \<Rightarrow> api_error + string"
  cm_date :: string
  cm_msgid :: "string \<Rightarrow> string"
  cm_bytes :: "header_fields \<Rightarrow> string \<Rightarrow> string option \<Rightarrow> api_error + string"
  cm_addresses :: "string list \<Rightarrow> string list"

definition put_header :: "composer \<Rightarrow> string \<Rightarrow> string \<Rightarrow> header_fields \<Rightarrow> api_error + header_fields" where
  "put_header cm name v fs = (case cm_refuses cm name v of Some e \<Rightarrow> Inl e | None \<Rightarrow> Inr (add_field name v fs))"

text \<open>The UTF-8 form of a text whose characters are below 256.\<close>

definition utf8_bytes :: "string \<Rightarrow> string" where
  "utf8_bytes s = concat (map (\<lambda>c. let n = (of_char c :: nat)
     in if n < 128 then [c] else [char_of (192 + n div 64), char_of (128 + n mod 64)]) s)"

definition single_address :: "string \<Rightarrow> bool" where
  "single_address a \<longleftrightarrow> CHR ''@'' \<in> set a \<and> (\<forall>c \<in> set a. c \<notin> {CHR 0x0D, LF, CHR '','', CHR '';''})"

definition addresses_of :: "json \<Rightarrow> api_error + string list" where
  "addresses_of v =
    (case v of
       JNull \<Rightarrow> Inr []
     | _ \<Rightarrow>
       bind_res (case v of
           JStr s \<Rightarrow> Inr [s]
         | JList xs \<Rightarrow> map_res (\<lambda>x. case x of JStr a \<Rightarrow> Inr a | _ \<Rightarrow> Inl (AuthError 400)) xs
         | _ \<Rightarrow> Inl (AuthError 400)) (\<lambda>items.
         let cleaned = filter (\<lambda>a. a \<noteq> []) (map strip items)
         in if list_all single_address cleaned then Inr cleaned else Inl (AuthError 400)))"

definition text_of_json :: "json \<Rightarrow> api_error + string" where
  "text_of_json v = (case v of JStr s \<Rightarrow> Inr s | _ \<Rightarrow> Inl (AuthError 400))"

definition sender_of :: "account \<Rightarrow> json_object \<Rightarrow> api_error + string" where
  "sender_of a body = text_of_json (json_or (json_get ''from'' body) (JStr (or_else (email a) [])))"

text \<open>A field of addresses, left out when there are none; the addresses so far are counted.\<close>

definition put_addresses :: "composer \<Rightarrow> string \<Rightarrow> string \<Rightarrow> json_object \<Rightarrow> header_fields \<times> nat \<Rightarrow> api_error + header_fields \<times> nat" where
  "put_addresses cm k name body st =
    (case st of (fs, n) \<Rightarrow>
      bind_res (addresses_of (json_get k body)) (\<lambda>as.
        if as = [] then Inr (fs, n) else bind_res (put_header cm name (join '', '' as) fs) (\<lambda>fs'. Inr (fs', n + length as))))"

text \<open>A field that is only written when the body gives it.\<close>

definition put_optional :: "composer \<Rightarrow> string \<Rightarrow> string \<Rightarrow> json_object \<Rightarrow> header_fields \<Rightarrow> api_error + header_fields" where
  "put_optional cm k name body fs =
    (if json_truthy (json_get k body) then bind_res (text_of_json (json_get k body)) (\<lambda>v. put_header cm name v fs) else Inr fs)"

definition body_text :: "string \<Rightarrow> json_object \<Rightarrow> api_error + string option" where
  "body_text k body = (case json_get k body of JNull \<Rightarrow> Inr None | JStr s \<Rightarrow> Inr (Some s) | _ \<Rightarrow> Inl (AuthError 400))"

definition composed_fields :: "composer \<Rightarrow> account \<Rightarrow> json_object \<Rightarrow> bool \<Rightarrow> api_error + header_fields" where
  "composed_fields cm a body require_recipients =
    bind_res (sender_of a body) (\<lambda>sender.
    bind_res (if truthy (a_display_name a) \<and> Some sender = email a
              then cm_formataddr cm (the (a_display_name a)) sender else Inr sender) (\<lambda>shown.
    bind_res (put_header cm ''From'' shown []) (\<lambda>f1.
    bind_res (put_addresses cm ''to'' ''To'' body (f1, 0)) (\<lambda>f2.
    bind_res (put_addresses cm ''cc'' ''Cc'' body f2) (\<lambda>f3.
    bind_res (put_addresses cm ''bcc'' ''Bcc'' body f3) (\<lambda>(f4, n).
      if require_recipients \<and> n = 0 then Inl (AuthError 400)
      else bind_res (text_of_json (json_or (json_get ''subject'' body) (JStr []))) (\<lambda>subject.
    bind_res (put_header cm ''Subject'' subject f4) (\<lambda>f5.
    bind_res (put_header cm ''Date'' (cm_date cm) f5) (\<lambda>f6.
    bind_res (put_header cm ''Message-ID'' (cm_msgid cm (after_last CHR ''@'' (or_else (email a) ''localhost''))) f6) (\<lambda>f7.
    bind_res (put_optional cm ''in_reply_to'' ''In-Reply-To'' body f7) (\<lambda>f8.
    put_optional cm ''references'' ''References'' body f8)))))))))))"

definition sized :: "string \<Rightarrow> api_error + string" where
  "sized data = (if MAX_MESSAGE_BYTES < length data then Inl (AuthError 413) else Inr data)"

definition compose :: "composer \<Rightarrow> account \<Rightarrow> json_object \<Rightarrow> bool \<Rightarrow> api_error + string" where
  "compose cm a body require_recipients =
    (if json_truthy (json_get ''raw'' body)
     then bind_res (text_of_json (json_get ''raw'' body)) (\<lambda>raw. sized (utf8_bytes raw))
     else bind_res (composed_fields cm a body require_recipients) (\<lambda>fs.
          bind_res (body_text ''text'' body) (\<lambda>text.
          bind_res (body_text ''html'' body) (\<lambda>html.
          bind_res (cm_bytes cm fs (or_else text []) (if truthy html then html else None)) sized))))"

section \<open>Drafts\<close>

definition replaced_uid :: "json_object \<Rightarrow> api_error + int option" where
  "replaced_uid body = (case json_get ''replace'' body of JNull \<Rightarrow> Inr None | JInt n \<Rightarrow> Inr (Some n) | _ \<Rightarrow> Inl (AuthError 400))"

definition store_draft :: "dovecot \<Rightarrow> composer \<Rightarrow> json_object \<Rightarrow> int option \<Rightarrow> account \<Rightarrow> unit api_op" where
  "store_draft srv cm body old a =
    (case compose cm a body False of
       Inl e \<Rightarrow> (\<lambda>c. (Inl e, c))
     | Inr raw \<Rightarrow>
       api_then (mailbox_call (mailbox_append srv DRAFTS raw [FLAG_DRAFT, FLAG_SEEN])) (\<lambda>_.
         case old of None \<Rightarrow> api_give () | Some uid \<Rightarrow> mailbox_call (mailbox_delete srv DRAFTS [uid] True)))"

definition save_draft ::
  "dovecot \<Rightarrow> composer \<Rightarrow> (string \<times> string) option \<Rightarrow> api_key \<Rightarrow> json_object option \<Rightarrow> database \<Rightarrow> (api_error + unit) \<times> wire list" where
  "save_draft srv cm master k body db =
    (case bind_res (parse_body body) (\<lambda>d. bind_res (replaced_uid d) (\<lambda>old. Inr (d, old))) of
       Inl e \<Rightarrow> (Inl e, [])
     | Inr (d, old) \<Rightarrow> open_mailbox srv master k db (store_draft srv cm d old))"

section \<open>Sending\<close>

text \<open>\<open>reply_to\<close>: the folder and the UID of the message that is answered. To Python \<open>true\<close> is a number too.\<close>

definition reply_of :: "json_object \<Rightarrow> api_error + (string \<times> json) option" where
  "reply_of body =
    (case json_get ''reply_to'' body of
       JNull \<Rightarrow> Inr None
     | JObj d \<Rightarrow>
       (case (json_get ''uid'' d, case map_of d ''folder'' of None \<Rightarrow> JStr ''INBOX'' | Some f \<Rightarrow> f) of
          (JInt n, JStr f) \<Rightarrow> Inr (Some (f, JInt n))
        | (JBool b, JStr f) \<Rightarrow> Inr (Some (f, JBool b))
        | _ \<Rightarrow> Inl (AuthError 400))
     | _ \<Rightarrow> Inl (AuthError 400))"

definition mark_answered :: "dovecot \<Rightarrow> string \<Rightarrow> json \<Rightarrow> unit imap_op" where
  "mark_answered srv f uid =
    (case uid of
       JBool b \<Rightarrow>
         then_do (ensure_selected srv f) (\<lambda>_.
         then_do (demand srv (STORE_FLAGS (if b then ''True'' else ''False'') ''+FLAGS'' (''('' @ FLAG_ANSWERED @ '')''))
           ''could not update flags'') (\<lambda>_. give ()))
     | JInt n \<Rightarrow> mailbox_mark srv f [n] \<lparr>fc_seen = None, fc_flagged = None, fc_answered = Some True, fc_draft = None\<rparr>
     | _ \<Rightarrow> give ())"

text \<open>Who the message goes to: for a whole message as listed, or from its own fields.\<close>

definition listed_recipients :: "composer \<Rightarrow> json_object \<Rightarrow> mime \<Rightarrow> api_error + string list" where
  "listed_recipients cm body m =
    (if json_truthy (json_get ''raw'' body)
     then bind_res (addresses_of (json_get ''recipients'' body)) (\<lambda>as.
       if as \<noteq> [] then Inr as
       else let fs = mime_fields m
            in Inr (filter (\<lambda>a. a \<noteq> []) (cm_addresses cm (get_all_fields ''To'' fs @ get_all_fields ''Cc'' fs @ get_all_fields ''Bcc'' fs))))
     else bind_res (addresses_of (json_get ''to'' body)) (\<lambda>to.
          bind_res (addresses_of (json_get ''cc'' body)) (\<lambda>cc.
          bind_res (addresses_of (json_get ''bcc'' body)) (\<lambda>bcc. Inr (to @ cc @ bcc)))))"

definition recipients_of :: "composer \<Rightarrow> json_object \<Rightarrow> mime \<Rightarrow> api_error + string list" where
  "recipients_of cm body m =
    bind_res (listed_recipients cm body m) (\<lambda>listed.
      let rs = fromkeys (map lower listed)
      in if rs = [] then Inl (AuthError 400) else if MAX_RECIPIENTS < length rs then Inl (AuthError 400) else Inr rs)"

text \<open>What goes out: the message without its blind copies.\<close>

definition outgoing :: "smtp_env \<Rightarrow> string \<Rightarrow> string" where
  "outgoing env raw =
    (let m = sx_parse env raw
     in if get_all_fields ''Bcc'' (mime_fields m) = [] then raw else sx_as_bytes env (map_fields (del_field ''Bcc'') m))"

record submitted =
  sb_from :: string
  sb_recipients :: "string list"
  sb_raw :: string
  sb_reply :: "(string \<times> json) option"

text \<open>The checks before the hand-over.\<close>

definition prepare :: "smtp_env \<Rightarrow> composer \<Rightarrow> account \<Rightarrow> json_object \<Rightarrow> api_error + submitted" where
  "prepare env cm a body =
    (if email a = None then Inl (AuthError 500)
     else bind_res (reply_of body) (\<lambda>answered.
          bind_res (compose cm a body (\<not> json_truthy (json_get ''raw'' body))) (\<lambda>raw.
          bind_res (recipients_of cm body (sx_parse env raw)) (\<lambda>rs.
          bind_res (sender_of a body) (\<lambda>mail_from.
            Inr \<lparr>sb_from = mail_from, sb_recipients = rs, sb_raw = raw, sb_reply = answered\<rparr>)))))"

text \<open>The copy in Sent and the replied mark; a failure is only reported.\<close>

definition file_copy :: "dovecot \<Rightarrow> (string \<times> string) option \<Rightarrow> string \<Rightarrow> submitted \<Rightarrow> bool \<times> wire list" where
  "file_copy srv master addr b =
    (case imap_connect srv master addr fresh_conn of
       (Inl _, c) \<Rightarrow> (False, ic_sent c)
     | (Inr _, c) \<Rightarrow>
       (case then_do (mailbox_append srv SENT (sb_raw b) [FLAG_SEEN]) (\<lambda>_.
           case sb_reply b of None \<Rightarrow> give () | Some (f, uid) \<Rightarrow> mark_answered srv f uid) c of
          (r, c') \<Rightarrow> (\<not> isl r, ic_sent (snd (logout srv c')))))"

record sent_reply =
  sr_message_id :: string
  sr_outcome :: delivery_outcome
  sr_saved :: bool

text \<open>The answer to an outcome that is an error, if it is one.\<close>

definition send_fault :: "delivery_outcome \<Rightarrow> api_error option" where
  "send_fault v =
    (if truthy (dv_error v) then Some (AuthError (if dv_permanent v then 403 else 503))
     else if dv_delivered v = [] \<and> dv_forwarded v = [] \<and> dv_accepted v = [] then Some (AuthError 422)
     else None)"

definition send_message ::
  "smtp_env \<Rightarrow> dovecot \<Rightarrow> composer \<Rightarrow> (string \<times> string) option \<Rightarrow> api_key \<Rightarrow> json_object option \<Rightarrow> instant \<Rightarrow> smtp_state \<Rightarrow>
   ((api_error + sent_reply) \<times> wire list) \<times> smtp_state" where
  "send_message env srv cm master k body now s =
    (case bind_res (parse_body body) (\<lambda>d. bind_res (account_for k (sm_db s)) (\<lambda>a.
        bind_res (prepare env cm a d) (\<lambda>b. Inr (the (email a), b)))) of
       Inl e \<Rightarrow> ((Inl e, []), s)
     | Inr (addr, b) \<Rightarrow>
       (case smtp_deliver env now (sb_from b) (sb_recipients b) (outgoing env (sb_raw b)) ''api'' [] (Some addr) s of
          (s', Inl _) \<Rightarrow> ((Inl Unhandled, []), s')
        | (s', Inr v) \<Rightarrow>
          (case send_fault v of
             Some e \<Rightarrow> ((Inl e, []), s')
           | None \<Rightarrow>
             (case file_copy srv master addr b of (saved, cmds) \<Rightarrow>
               ((Inr \<lparr>sr_message_id = or_else (mime_get ''Message-ID'' (sx_parse env (sb_raw b))) [], sr_outcome = v, sr_saved = saved\<rparr>,
                 cmds), s')))))"

section \<open>Forwarding\<close>

definition MAX_FORWARD_DESTINATIONS :: nat where "MAX_FORWARD_DESTINATIONS = 10"

text \<open>The alias with the mailbox's own address; any failure but a missing one is an error.\<close>

definition own_alias :: "account \<Rightarrow> database \<Rightarrow> api_error + mail_alias option" where
  "own_alias a db =
    (case alias_resolve (a_local_part a) (Some (a_domain_id a)) db of
       Inr l \<Rightarrow> Inr (Some l)
     | Inl (NotFoundError _ _) \<Rightarrow> Inr None
     | Inl e \<Rightarrow> Inl (RepoError e))"

definition forwarding_view :: "mail_alias option \<Rightarrow> bool \<times> string list" where
  "forwarding_view l =
    (case l of
       None \<Rightarrow> (False, [])
     | Some al \<Rightarrow> if al_is_active al \<and> al_type al = BRIDGE then (True, al_destinations al) else (False, []))"

definition get_forwarding :: "api_key \<Rightarrow> database \<Rightarrow> api_error + bool \<times> string list" where
  "get_forwarding k db =
    bind_res (account_for k db) (\<lambda>a. bind_res (own_alias a db) (\<lambda>l. Inr (forwarding_view l)))"

definition set_forwarding ::
  "api_key \<Rightarrow> json_object option \<Rightarrow> uuid \<Rightarrow> instant \<Rightarrow> database \<Rightarrow> api_error + (bool \<times> string list) \<times> database" where
  "set_forwarding k body fresh now db =
    bind_res (account_for k db) (\<lambda>a.
    bind_res (parse_body body) (\<lambda>d.
      if json_unknown [''destinations''] d \<noteq> [] then Inl (AuthError 400)
      else bind_res (destinations_of (json_get ''destinations'' d)) (\<lambda>ds.
        if MAX_FORWARD_DESTINATIONS < length ds then Inl (AuthError 400)
        else if truthy (email a) \<and> lower (the (email a)) \<in> set ds then Inl (AuthError 400)
        else bind_res (own_alias a db) (\<lambda>own.
          case own of
            None \<Rightarrow>
              bind_res (bad (normalise_source (a_local_part a))) (\<lambda>src.
                let l = \<lparr>al_id = fresh, al_domain_id = a_domain_id a, al_source = src, al_destinations = ds, al_type = BRIDGE,
                         al_is_active = True, al_created_at = now, al_updated_at = now\<rparr>
                in bind_res (lift_repo (alias_create l db)) (\<lambda>db'. Inr (forwarding_view (Some l), db')))
          | Some l \<Rightarrow>
              let l' = l\<lparr>al_destinations := ds, al_type := BRIDGE, al_is_active := True\<rparr>
              in bind_res (lift_repo (alias_update l' now db)) (\<lambda>db'. Inr (forwarding_view (Some l'), db'))))))"

definition stop_forwarding :: "api_key \<Rightarrow> database \<Rightarrow> api_error + database" where
  "stop_forwarding k db =
    bind_res (account_for k db) (\<lambda>a. bind_res (own_alias a db) (\<lambda>own.
      Inr (case own of None \<Rightarrow> db | Some l \<Rightarrow> alias_delete (al_id l) db)))"

section \<open>Removing mail\<close>

text \<open>The requests that only need a mailbox, and the commands one sends.\<close>

datatype mailbox_request =
    GetMailbox
  | ListFolders
  | ListMessages query
  | ListThreads query
  | GetMessage query string
  | GetAttachment query string string
  | MarkMessage query string "json_object option"
  | BulkMessages "json_object option"
  | DeleteMessage query string
  | CreateFolder "json_object option"
  | RenameFolder string "json_object option"
  | DeleteFolder string
  | EmptyFolder string
  | SaveDraft "json_object option"

fun commands ::
  "dovecot \<Rightarrow> mail_reader \<Rightarrow> composer \<Rightarrow> (json \<Rightarrow> string) \<Rightarrow> (string \<times> string) option \<Rightarrow> api_key \<Rightarrow> database \<Rightarrow> mailbox_request \<Rightarrow> wire list" where
  "commands srv ml cm shown master k db GetMailbox = snd (get_mailbox srv master k db)"
| "commands srv ml cm shown master k db ListFolders = snd (list_mail_folders srv master k db)"
| "commands srv ml cm shown master k db (ListMessages q) = snd (list_messages srv ml master k q db)"
| "commands srv ml cm shown master k db (ListThreads q) = snd (list_threads srv ml master k q db)"
| "commands srv ml cm shown master k db (GetMessage q u) = snd (get_message srv ml master k q u db)"
| "commands srv ml cm shown master k db (GetAttachment q u i) = snd (get_attachment srv ml master k q u i db)"
| "commands srv ml cm shown master k db (MarkMessage q u b) = snd (mark_message srv shown master k q u b db)"
| "commands srv ml cm shown master k db (BulkMessages b) = snd (bulk_messages srv shown master k b db)"
| "commands srv ml cm shown master k db (DeleteMessage q u) = snd (delete_message srv master k q u db)"
| "commands srv ml cm shown master k db (CreateFolder b) = snd (create_mail_folder srv master k b db)"
| "commands srv ml cm shown master k db (RenameFolder n b) = snd (rename_mail_folder srv master k n b db)"
| "commands srv ml cm shown master k db (DeleteFolder n) = snd (delete_mail_folder srv master k n db)"
| "commands srv ml cm shown master k db (EmptyFolder n) = snd (empty_folder srv master k n db)"
| "commands srv ml cm shown master k db (SaveDraft b) = snd (save_draft srv cm master k b db)"



definition api_keeping :: "(wire list \<Rightarrow> bool) \<Rightarrow> 'a api_op \<Rightarrow> bool" where
  "api_keeping P m \<longleftrightarrow> (\<forall>c. P (ic_sent c) \<longrightarrow> P (ic_sent (snd (m c))))"

lemma api_keeping_then: "api_keeping P m \<Longrightarrow> (\<And>x. api_keeping P (f x)) \<Longrightarrow> api_keeping P (api_then m f)"
  by (fastforce simp: api_keeping_def api_then_def split: prod.splits sum.splits)

lemma api_keeping_simple: "api_keeping P (api_give x)" "api_keeping P (\<lambda>c. (Inl e, c))"
  by (simp_all add: api_keeping_def api_give_def)

lemma api_keeping_call:
  assumes "keeping P m"
  shows "api_keeping P (mailbox_call m)" "api_keeping P (found m)" "api_keeping P (uncaught m)"
proof -
  have run: "P (ic_sent c')" if "m c = (r, c')" "P (ic_sent c)" for c r c'
    using keeping_runs [OF assms that] .
  show "api_keeping P (mailbox_call m)" "api_keeping P (found m)" "api_keeping P (uncaught m)"
    by (auto simp: api_keeping_def mailbox_call_def found_def uncaught_def dest: run split: prod.splits sum.splits mailbox_error.splits)
qed

lemma keeping_ends: "keeps_harmless P \<Longrightarrow> keeping P (logout srv)" "keeps_harmless P \<Longrightarrow> keeping P (imap_connect srv master addr)"
  unfolding logout_def imap_connect_def login_def
  by (auto intro!: keeping_then keeping_simple keeping_harmless split: option.splits)

lemma open_mailbox_keeps:
  assumes P: "keeps_harmless P" "P []" and body: "\<And>a. api_keeping P (body a)"
  shows "P (snd (open_mailbox srv master k db body))"
proof -
  have out: "P (ic_sent (snd (m c)))" if "keeping P m" "P (ic_sent c)" for m :: "unit imap_op" and c
    using keeping_runs [OF that(1) _ that(2)] by (cases "m c") simp
  have start: "P (ic_sent (snd (imap_connect srv master addr fresh_conn)))" for addr
    using out [OF keeping_ends(2) [OF P(1)]] P(2) by (simp add: fresh_conn_def)
  have "P (ic_sent (snd (logout srv (snd (body a c)))))" if "P (ic_sent c)" for a c
    using out [OF keeping_ends(1) [OF P(1)]] body that by (simp add: api_keeping_def)
  then show ?thesis
    using start P(2)
    by (auto simp: open_mailbox_def split: sum.splits option.splits prod.splits) (metis snd_conv)+
qed



lemma keeping_new_draft: "keeps_harmless P \<Longrightarrow> api_keeping P (store_draft srv cm d None a)"
  unfolding store_draft_def
  by (auto intro!: api_keeping_then api_keeping_call api_keeping_simple keeping_requests split: sum.splits)



section \<open>A server without MOVE\<close>

definition sample_server :: dovecot where
  "sample_server sent w =
    (case w of
       MOVE us f \<Rightarrow> \<lparr>wr_ok = False, wr_lines = []\<rparr>
     | SEARCH crit \<Rightarrow> \<lparr>wr_ok = True, wr_lines = [(False, ''1 2 3'')]\<rparr>
     | FETCH_SUMMARIES us \<Rightarrow> \<lparr>wr_ok = True, wr_lines = [(False, ''2 FETCH (UID 2 RFC822.SIZE 90)''), (False, ''3 FETCH (UID 3)'')]\<rparr>
     | _ \<Rightarrow> \<lparr>wr_ok = True, wr_lines = []\<rparr>)"

definition sample_reader :: mail_reader where
  "sample_reader = \<lparr>il_headers = (\<lambda>_. []), il_decode = (\<lambda>s. s), il_date = (\<lambda>_. None), il_internaldate = (\<lambda>_. None),
     mr_parse = (\<lambda>_. sample_mail), mr_bytes = (\<lambda>_. []), mr_text = (\<lambda>_. [])\<rparr>"

definition sample_composer :: composer where
  "sample_composer = \<lparr>cm_refuses = (\<lambda>_ _. None), cm_formataddr = (\<lambda>n a. Inr a), cm_date = ''today'', cm_msgid = (\<lambda>d. ''<1@'' @ d @ ''>''),
     cm_bytes = (\<lambda>fs t h. Inr t), cm_addresses = (\<lambda>as. as)\<rparr>"

definition sample_master :: "(string \<times> string) option" where
  "sample_master = Some (''lightr'', ''pw'')"



text \<open>
  Without that it does not hold: a value of a query is quoted, but a line break in it is sent as it is, and
  what follows it is a line of its own for the server.
\<close>

lemma queries_break_lines:
  "\<not> list_all unbroken (commands sample_server sample_reader sample_composer (\<lambda>_. []) sample_master mailbox_key sample_db
     (ListMessages [(''from'', ''x'' @ [CHR 0x0D, CHR 0x0A] @ ''a1 UID EXPUNGE 7'')]))"
  by code_simp

section \<open>A page of a listing\<close>

text \<open>
  A listing is newest first: when the server answers a fetch with one summary for each message asked
  for, in whatever order, the summaries returned are those of the asked page of the search result
  read backwards, in that order.
\<close>
theorem pages_are_newest_first:
  assumes "imap_search srv f crit c = (Inr us, c1)" "distinct us"
    and "window_of n off (rev us) \<noteq> [] \<Longrightarrow> fetch_summaries srv ml f (window_of n off (rev us)) c1 = (Inr ss, c2) \<and>
      mset (map su_uid ss) = mset (window_of n off (rev us))"
  shows "\<exists>ms c'. mailbox_list srv ml f n off crit c = (Inr ms, c') \<and> map su_uid ms = take n (drop off (rev us))"
proof (cases "window_of n off (rev us) = []")
  case True
  then show ?thesis using assms(1) by (simp add: mailbox_list_def then_do_def give_def window_of_def)
next
  case False
  have d: "distinct (window_of n off (rev us))" using assms(2) by (simp add: window_of_def)
  show ?thesis
    using False assms(1) assms(3) [OF False] sorted_by_place [OF d, of su_uid ss]
    by (simp add: mailbox_list_def then_do_def give_def window_of_def Let_def)
qed

lemma sample_search:
  "imap_search sample_server ''INBOX'' ''ALL'' fresh_conn =
    (Inr [1, 2, 3], \<lparr>ic_selected = Some ''INBOX'', ic_sent = [SELECT (imap_quote ''INBOX''), STATUS (imap_quote ''INBOX''), SEARCH ''ALL'']\<rparr>)"
  by code_simp

definition searched :: imap_conn where
  "searched = \<lparr>ic_selected = Some ''INBOX'', ic_sent = [SELECT (imap_quote ''INBOX''), STATUS (imap_quote ''INBOX''), SEARCH ''ALL'']\<rparr>"

lemma sample_fetch:
  "case fetch_summaries sample_server sample_reader ''INBOX'' (window_of 2 0 (rev [1, 2, 3])) searched of
     (Inl _, _) \<Rightarrow> False | (Inr ss, _) \<Rightarrow> map su_uid ss = [2, 3]"
  by code_simp

theorem pages_are_newest_first_witness:
  "\<exists>ms c'. mailbox_list sample_server sample_reader ''INBOX'' 2 0 ''ALL'' fresh_conn = (Inr ms, c') \<and> map su_uid ms = [3, 2]"
proof -
  obtain ss c' where f: "fetch_summaries sample_server sample_reader ''INBOX'' (window_of 2 0 (rev [1, 2, 3])) searched = (Inr ss, c')"
    and ss: "map su_uid ss = [2, 3]" using sample_fetch by (auto split: prod.splits sum.splits)
  have "fetch_summaries sample_server sample_reader ''INBOX'' (window_of 2 0 (rev [1, 2, 3])) searched = (Inr ss, c') \<and>
      mset (map su_uid ss) = mset (window_of 2 0 (rev [1, 2, 3]))"
    using f unfolding ss by (simp add: window_of_def)
  from pages_are_newest_first [OF sample_search [folded searched_def] _ this] show ?thesis by simp
qed

section \<open>A draft that replaces another\<close>

text \<open>Before a message is expunged a new one has been stored in Drafts, and the server took it.\<close>

definition draft_stored :: "dovecot \<Rightarrow> wire list \<Rightarrow> bool" where
  "draft_stored srv sent \<longleftrightarrow> (\<exists>i < length sent. \<exists>raw fl. sent ! i = APPEND (imap_quote DRAFTS) raw fl \<and> wr_ok (srv (take i sent) (sent ! i)))"

definition drafts_safe :: "dovecot \<Rightarrow> wire list \<Rightarrow> bool" where
  "drafts_safe srv sent \<longleftrightarrow> (\<forall>i < length sent. \<forall>us. sent ! i = EXPUNGE us \<longrightarrow> draft_stored srv (take i sent))"

lemma drafts_safe_snoc: "drafts_safe srv (l @ [w]) \<longleftrightarrow> drafts_safe srv l \<and> (\<forall>us. w = EXPUNGE us \<longrightarrow> draft_stored srv l)"
  unfolding drafts_safe_def by (auto simp: nth_append less_Suc_eq)

lemma draft_stored_more: "draft_stored srv l \<Longrightarrow> draft_stored srv (l @ [w])"
  unfolding draft_stored_def by (metis (no_types, lifting) butlast_snoc le_eq_less_or_eq length_append_singleton less_Suc_eq nth_append take_butlast)

lemma draft_stored_now: "wr_ok (srv l (APPEND (imap_quote DRAFTS) raw fl)) \<Longrightarrow> draft_stored srv (l @ [APPEND (imap_quote DRAFTS) raw fl])"
  unfolding draft_stored_def by (intro exI [of _ "length l"]) auto

lemma drafts_safe_harmless: "keeps_harmless (drafts_safe srv)" "drafts_safe srv []"
  by (auto simp: keeps_harmless_def drafts_safe_snoc) (simp add: drafts_safe_def)

lemma append_stores:
  "valid (drafts_safe srv) (mailbox_append srv DRAFTS raw fl) (\<lambda>_ l. drafts_safe srv l \<and> draft_stored srv l) (drafts_safe srv)"
proof -
  have "valid (drafts_safe srv) (then_do (demand srv (APPEND (imap_quote DRAFTS) raw fl) m) (\<lambda>_. give ()))
      (\<lambda>_ l. drafts_safe srv l \<and> draft_stored srv l) (drafts_safe srv)" for m
    by (auto simp: valid_def then_do_def demand_def send_def give_def fails_def drafts_safe_snoc draft_stored_now)
  note stored = this
  have "keeping (drafts_safe srv) (then_do (send srv (CREATE g)) (\<lambda>_. give ()))" for g
    by (intro keeping_then keeping_simple keeping_harmless drafts_safe_harmless) simp
  then have "keeping (drafts_safe srv) (if upper DRAFTS \<noteq> ''INBOX'' then then_do (send srv (CREATE (imap_quote DRAFTS))) (\<lambda>_. give ()) else give ())"
    by (intro keeping_if keeping_simple)
  then show ?thesis
    unfolding mailbox_append_def imap_append_def keeping_def by (rule valid_then [OF _ stored])
qed

text \<open>After that anything may be sent.\<close>

lemma stored_keeps: "keeping (\<lambda>l. drafts_safe srv l \<and> draft_stored srv l) (mailbox_delete srv f us True)"
proof -
  let ?P = "\<lambda>l. drafts_safe srv l \<and> draft_stored srv l"
  have P: "keeps_harmless ?P" by (auto simp: keeps_harmless_def drafts_safe_snoc draft_stored_more)
  have e: "keeping ?P (demand srv w m)" for w m
    using keeping_send [of ?P w srv m] by (auto simp: drafts_safe_snoc draft_stored_more)
  show ?thesis
    unfolding mailbox_delete_def imap_expunge_def
    by (simp, intro keeping_then keeping_store [OF P] keeping_select [OF P] keeping_uids keeping_simple e)
qed

lemma store_draft_safe: "api_keeping (drafts_safe srv) (store_draft srv cm d old a)"
proof (cases "compose cm a d False")
  case (Inl e)
  then show ?thesis by (simp add: store_draft_def api_keeping_def)
next
  case raw: (Inr raw)
  show ?thesis
  proof (cases old)
    case None
    then show ?thesis using keeping_new_draft [OF drafts_safe_harmless(1)] by simp
  next
    case (Some uid)
    let ?put = "mailbox_append srv DRAFTS raw [FLAG_DRAFT, FLAG_SEEN]"
    have go: "store_draft srv cm d old a c =
        api_then (mailbox_call ?put) (\<lambda>_. mailbox_call (mailbox_delete srv DRAFTS [uid] True)) c" for c
      by (simp add: store_draft_def raw Some)
    have "drafts_safe srv (ic_sent (snd (store_draft srv cm d old a c)))" if c: "drafts_safe srv (ic_sent c)" for c
    proof (cases "?put c")
      case (Pair r c1)
      show ?thesis
      proof (cases r)
        case (Inl e)
        then have "drafts_safe srv (ic_sent c1)" using append_stores [of srv raw "[FLAG_DRAFT, FLAG_SEEN]"] c Pair by (auto simp: valid_def)
        then show ?thesis using Pair Inl by (cases e) (simp_all add: go api_then_def mailbox_call_def)
      next
        case (Inr u)
        then have "drafts_safe srv (ic_sent c1) \<and> draft_stored srv (ic_sent c1)"
          using append_stores [of srv raw "[FLAG_DRAFT, FLAG_SEEN]"] c Pair by (auto simp: valid_def)
        then show ?thesis
          using Pair Inr api_keeping_call(1) [OF stored_keeps, of srv DRAFTS "[uid]"]
          by (simp add: go api_then_def mailbox_call_def [of ?put] api_keeping_def)
      qed
    qed
    then show ?thesis by (simp add: api_keeping_def)
  qed
qed

text \<open>
  Replacing a draft never leaves the mailbox without one: whatever the server answers, the old copy
  is expunged only after the new one was stored in Drafts and the server accepted it.
\<close>
theorem old_draft_goes_last:
  "drafts_safe srv (commands srv ml cm shown master k db (SaveDraft body))"
proof -
  have "drafts_safe srv (snd (open_mailbox srv master k db (store_draft srv cm d old)))" for d old
    by (rule open_mailbox_keeps [OF drafts_safe_harmless store_draft_safe])
  then show ?thesis using drafts_safe_harmless(2) by (auto simp: save_draft_def split: sum.splits)
qed

section \<open>Forwarding is one's own\<close>

definition at_address :: "account \<Rightarrow> mail_alias \<Rightarrow> bool" where
  "at_address a l \<longleftrightarrow> al_domain_id l = a_domain_id a \<and> al_source l = a_local_part a"

text \<open>What a mailbox may forward with: at most ten other addresses, kept as a bridge.\<close>

definition own_forward :: "account \<Rightarrow> mail_alias \<Rightarrow> bool" where
  "own_forward a l \<longleftrightarrow> at_address a l \<and> al_is_active l \<and> al_type l = BRIDGE \<and>
     length (al_destinations l) \<le> MAX_FORWARD_DESTINATIONS \<and> lower (or_else (email a) []) \<notin> set (al_destinations l)"

lemma account_for_row:
  assumes "account_for k db = Inr a"
  obtains r d where "r \<in> set (accounts db)" "d \<in> set (domains db)" "d_id d = a_domain_id r" "a = with_domain r d"
  using assms by (auto simp: account_for_def res_simps split: option.splits sum.splits elim: account_resolve_row)

lemma account_for_canonical:
  assumes "db_ok db" "account_for k db = Inr a"
  shows "canonical_local_part (a_local_part a)" "truthy (email a)"
proof -
  obtain r d where r: "r \<in> set (accounts db)" "a = with_domain r d" by (rule account_for_row [OF assms(2)])
  show "canonical_local_part (a_local_part a)" using db_okD(10) [OF assms(1) r(1)] r(2) by (simp add: with_domain_def)
  show "truthy (email a)" using r(2) by (simp add: with_domain_def email_def truthy_def)
qed

lemma unique_same_key: "unique_by key rows \<Longrightarrow> \<forall>r \<in> set rows. key r = c \<Longrightarrow> length rows \<le> 1"
  by (cases rows rule: remdups_adj.cases) auto

lemma no_at_takeWhile: "c \<notin> set s \<Longrightarrow> takeWhile (\<lambda>x. x \<noteq> c) s = s"
  by (induction s) auto

lemma own_alias_plain:
  assumes "db_ok db" "account_for k db = Inr a" "as_uuid (a_local_part a) = None"
  shows "own_alias a db = Inr (first_row (filter (at_address a) (aliases db)))" "length (filter (at_address a) (aliases db)) \<le> 1"
proof -
  let ?own = "filter (at_address a) (aliases db)"
  have "unique_by alias_key ?own" using db_okD(7) [OF assms(1)] by (rule unique_by_filter)
  then have one: "length ?own \<le> 1" by (rule unique_same_key [where c = "account_key a"]) (simp add: at_address_def)
  then show "length ?own \<le> 1" .
  note C = canonical_local_partD [OF account_for_canonical(1) [OF assms(1,2)]]
  have "fst (split_first CHR ''@'' (lower (strip (a_local_part a)))) = a_local_part a"
    using C no_at_takeWhile [OF C(2)] by (simp add: split_first_def)
  then have "alias_resolve (a_local_part a) (Some (a_domain_id a)) db =
      (case ?own of [] \<Rightarrow> Inl (NotFoundError ''alias'' (a_local_part a)) | [l] \<Rightarrow> Inr l
        | ls \<Rightarrow> Inl (AmbiguousReferenceError ''alias'' (a_local_part a) (map (uuid_str \<circ> al_id) ls)))"
    by (simp add: alias_resolve_def assms(3) Let_def at_address_def [abs_def] conj_commute)
  then show "own_alias a db = Inr (first_row ?own)"
    using one by (cases ?own rule: list.exhaust [case_names Nil Cons])
      (auto simp: own_alias_def le_Suc_eq split: list.splits)
qed

lemma own_row:
  assumes "db_ok db" "filter p (aliases db) = [l]"
  shows "filter p (update_where (\<lambda>x. al_id x = al_id l) f (aliases db)) = (if p (f l) then [f l] else [])"
    "filter (\<lambda>x. \<not> p x) (update_where (\<lambda>x. al_id x = al_id l) f (aliases db)) =
      (if p (f l) then filter (\<lambda>x. \<not> p x) (aliases db) else filter (\<lambda>x. \<not> p x) (update_where (\<lambda>x. al_id x = al_id l) f (aliases db)))"
    "delete_where (\<lambda>x. al_id x = al_id l) (aliases db) = filter (\<lambda>x. \<not> p x) (aliases db)"
proof -
  obtain us vs where u: "aliases db = us @ l # vs" "p l" "\<forall>x \<in> set us. \<not> p x" "\<forall>x \<in> set vs. \<not> p x"
    using assms(2) by (auto simp: filter_eq_Cons_iff filter_empty_conv eq_commute [of "[]"])
  have "unique_by al_id (us @ l # vs)" using db_okD(6) [OF assms(1)] u(1) by simp
  then have n: "\<forall>x \<in> set us. al_id x \<noteq> al_id l" "\<forall>x \<in> set vs. al_id x \<noteq> al_id l"
    by (auto simp: image_iff)
  have up: "update_where (\<lambda>x. al_id x = al_id l) f (aliases db) = us @ f l # vs"
    using n by (simp add: u(1) update_where_def map_idI)
  show "filter p (update_where (\<lambda>x. al_id x = al_id l) f (aliases db)) = (if p (f l) then [f l] else [])"
    "filter (\<lambda>x. \<not> p x) (update_where (\<lambda>x. al_id x = al_id l) f (aliases db)) =
      (if p (f l) then filter (\<lambda>x. \<not> p x) (aliases db) else filter (\<lambda>x. \<not> p x) (update_where (\<lambda>x. al_id x = al_id l) f (aliases db)))"
    unfolding up using u by (simp_all add: filter_empty_conv)
  show "delete_where (\<lambda>x. al_id x = al_id l) (aliases db) = filter (\<lambda>x. \<not> p x) (aliases db)"
    using u n by (simp add: delete_where_def)
qed

lemma set_forwarding_steps:
  assumes "set_forwarding k body fresh now db = Inr (v, db')" "account_for k db = Inr a"
  obtains d ds own where "body = Some d" "destinations_of (json_get ''destinations'' d) = Inr ds" "v = (True, ds)" "length ds \<le> MAX_FORWARD_DESTINATIONS" "truthy (email a) \<Longrightarrow> lower (the (email a)) \<notin> set ds" "own_alias a db = Inr own"
    "own = None \<Longrightarrow> \<exists>src. normalise_source (a_local_part a) = Inr src \<and>
       alias_create \<lparr>al_id = fresh, al_domain_id = a_domain_id a, al_source = src, al_destinations = ds, al_type = BRIDGE,
         al_is_active = True, al_created_at = now, al_updated_at = now\<rparr> db = Inr db'"
    "\<And>l. own = Some l \<Longrightarrow> alias_update (l\<lparr>al_destinations := ds, al_type := BRIDGE, al_is_active := True\<rparr>) now db = Inr db'"
  using assms by (auto simp: set_forwarding_def forwarding_view_def parse_body_def res_simps Let_def not_less split: if_splits option.splits sum.splits)

lemma own_alias_cases:
  assumes "db_ok db" "account_for k db = Inr a" "as_uuid (a_local_part a) = None"
  shows "filter (at_address a) (aliases db) = [] \<or> (\<exists>l. filter (at_address a) (aliases db) = [l])"
  using own_alias_plain(2) [OF assms] by (cases "filter (at_address a) (aliases db)") auto

lemma stop_forwarding_own:
  assumes ok: "db_ok db" and acc: "account_for k db = Inr a" and plain: "as_uuid (a_local_part a) = None"
  shows "stop_forwarding k db = Inr (db\<lparr>aliases := filter (\<lambda>l. \<not> at_address a l) (aliases db)\<rparr>)"
  using own_alias_cases [OF assms]
proof
  assume n: "filter (at_address a) (aliases db) = []"
  then have "filter (\<lambda>l. \<not> at_address a l) (aliases db) = aliases db" by (simp add: filter_empty_conv)
  then show ?thesis using n own_alias_plain(1) [OF assms] acc by (simp add: stop_forwarding_def)
next
  assume "\<exists>l. filter (at_address a) (aliases db) = [l]"
  then obtain l where l: "filter (at_address a) (aliases db) = [l]" by blast
  then show ?thesis
    using own_row(3) [OF ok l] own_alias_plain(1) [OF assms] acc by (simp add: stop_forwarding_def alias_delete_def)
qed

lemma set_forwarding_own:
  assumes ok: "db_ok db" and acc: "account_for k db = Inr a" and plain: "as_uuid (a_local_part a) = None"
    and set: "set_forwarding k body fresh now db = Inr (v, db')"
  shows "\<exists>l. filter (at_address a) (aliases db') = [l] \<and> own_forward a l \<and> v = (True, al_destinations l) \<and>
      filter (\<lambda>l. \<not> at_address a l) (aliases db') = filter (\<lambda>l. \<not> at_address a l) (aliases db) \<and> db'\<lparr>aliases := aliases db\<rparr> = db"
proof -
  let ?own = "filter (at_address a) (aliases db)"
  note own = own_alias_plain [OF ok acc plain]
  have mail: "truthy (email a)" "canonical_local_part (a_local_part a)" using account_for_canonical [OF ok acc] by simp_all
  have e: "lower (or_else (email a) []) = lower (the (email a))" using mail(1) by (auto simp: or_else_def truthy_def split: option.splits)
  have src: "normalise_source (a_local_part a) = Inr src \<Longrightarrow> src = a_local_part a" for src
    using canonical_local_partD [OF mail(2)] no_at_takeWhile [of "CHR ''@''" "a_local_part a"]
    by (simp add: normalise_source_def split_first_def)
  obtain ds where v: "v = (True, ds)" and ds: "length ds \<le> MAX_FORWARD_DESTINATIONS" "lower (the (email a)) \<notin> set ds"
    and create: "?own = [] \<Longrightarrow> \<exists>src. normalise_source (a_local_part a) = Inr src \<and>
       alias_create \<lparr>al_id = fresh, al_domain_id = a_domain_id a, al_source = src, al_destinations = ds, al_type = BRIDGE,
         al_is_active = True, al_created_at = now, al_updated_at = now\<rparr> db = Inr db'"
    and update: "\<And>l. ?own = [l] \<Longrightarrow> alias_update (l\<lparr>al_destinations := ds, al_type := BRIDGE, al_is_active := True\<rparr>) now db = Inr db'"
    by (rule set_forwarding_steps [OF set acc]) (use mail(1) own(1) in auto)
  show ?thesis
    using own_alias_cases [OF ok acc plain]
  proof
    assume n: "?own = []"
    from create [OF n] src show ?thesis using n ds v by (auto simp: alias_create_def own_forward_def at_address_def e split: if_splits)
  next
    assume "\<exists>l. ?own = [l]"
    then obtain l where l: "?own = [l]" by blast
    have at: "at_address a l" using filter_singletonD [OF l] by simp
    let ?f = "\<lambda>l'. l'\<lparr>al_source := al_source l, al_destinations := ds, al_type := BRIDGE, al_is_active := True, al_updated_at := now\<rparr>"
    have "db' = db\<lparr>aliases := update_where (\<lambda>x. al_id x = al_id l) ?f (aliases db)\<rparr>"
      using update [OF l] by (simp add: alias_update_def split: if_splits)
    moreover have "at_address a (?f l)" using at by (simp add: at_address_def)
    ultimately show ?thesis using own_row(1,2) [OF ok l, of ?f] ds v by (simp add: own_forward_def e)
  qed
qed

text \<open>
  Forwarding reaches only the mailbox's own address: setting it leaves one alias there, an active
  bridge that keeps the local copy, with at most ten destinations, none of them the mailbox itself;
  stopping it removes that alias; no other alias and no other table changes. (A local part that
  reads as a UUID is the exception, below.)
\<close>
theorem forwarding_is_ones_own:
  assumes ok: "db_ok db" and acc: "account_for k db = Inr a" and plain: "as_uuid (a_local_part a) = None"
  shows "(set_forwarding k body fresh now db = Inr (v, db') \<longrightarrow>
      (\<exists>l. filter (at_address a) (aliases db') = [l] \<and> own_forward a l \<and> v = (True, al_destinations l)) \<and>
      filter (\<lambda>l. \<not> at_address a l) (aliases db') = filter (\<lambda>l. \<not> at_address a l) (aliases db) \<and>
      db'\<lparr>aliases := aliases db\<rparr> = db) \<and>
    stop_forwarding k db = Inr (db\<lparr>aliases := filter (\<lambda>l. \<not> at_address a l) (aliases db)\<rparr>)"
  using set_forwarding_own [OF assms, of body fresh now v db'] stop_forwarding_own [OF assms] by blast

lemma sample_mailbox:
  "account_for mailbox_key sample_db = Inr (sample_account 4 2 ''ann''\<lparr>a_domain_name := Some ''acme.org''\<rparr>)" "as_uuid ''ann'' = None"
  by code_simp+

theorem forwarding_is_ones_own_witness:
  "\<exists>db'. stop_forwarding mailbox_key sample_db = Inr db' \<and> map al_id (aliases db') = [6, 8, 9]"
proof -
  have "as_uuid (a_local_part (sample_account 4 2 ''ann''\<lparr>a_domain_name := Some ''acme.org''\<rparr>)) = None"
    using sample_mailbox(2) by (simp add: sample_account_def)
  from forwarding_is_ones_own [OF sample_db_ok sample_mailbox(1) this] show ?thesis
    by (simp add: sample_db_def sample_alias_def sample_account_def at_address_def)
qed

section \<open>A mailbox named like an alias\<close>

lemma own_alias_uuid:
  assumes "as_uuid (a_local_part a) = Some (al_id l)" "l \<in> set (aliases db)" "unique_by al_id (aliases db)"
  shows "own_alias a db = Inr (Some l)"
proof -
  have "first_row (filter (\<lambda>x. al_id x = al_id l) (aliases db)) = Some l"
    by (rule first_row_unique [where key = al_id]) (use assms in auto)
  then show ?thesis using assms(1) by (simp add: own_alias_def alias_resolve_def)
qed

text \<open>
  C32. The alias of a mailbox is looked up by its local part without saying that it is none of the ids:
  a mailbox whose local part is the UUID text of an alias, anyone's, manages that alias. Stopping to
  forward deletes it, and setting a forward makes it an active bridge to just the addresses the request
  names, and changes nothing else.
\<close>
theorem uuid_mailbox_rules_foreign_alias:
  assumes "account_for k db = Inr a" "as_uuid (a_local_part a) = Some (al_id l)" "l \<in> set (aliases db)" "unique_by al_id (aliases db)"
  shows "stop_forwarding k db = Inr (alias_delete (al_id l) db) \<and>
    (set_forwarding k body fresh now db = Inr (v, db') \<longrightarrow>
      (\<exists>d ds. body = Some d \<and> destinations_of (json_get ''destinations'' d) = Inr ds \<and> v = (True, ds) \<and>
        db' = db\<lparr>aliases := update_where (\<lambda>x. al_id x = al_id l)
          (\<lambda>x. x\<lparr>al_source := al_source l, al_destinations := ds, al_type := BRIDGE, al_is_active := True, al_updated_at := now\<rparr>) (aliases db)\<rparr>))"
proof (intro conjI impI)
  note own = own_alias_uuid [OF assms(2-4)]
  show "stop_forwarding k db = Inr (alias_delete (al_id l) db)" using own assms(1) by (simp add: stop_forwarding_def)
  assume set: "set_forwarding k body fresh now db = Inr (v, db')"
  obtain d ds where d: "body = Some d" "destinations_of (json_get ''destinations'' d) = Inr ds" "v = (True, ds)"
    and up: "alias_update (l\<lparr>al_destinations := ds, al_type := BRIDGE, al_is_active := True\<rparr>) now db = Inr db'"
    by (rule set_forwarding_steps [OF set assms(1)]) (use own in auto)
  have "db' = db\<lparr>aliases := update_where (\<lambda>x. al_id x = al_id l)
      (\<lambda>x. x\<lparr>al_source := al_source l, al_destinations := ds, al_type := BRIDGE, al_is_active := True, al_updated_at := now\<rparr>) (aliases db)\<rparr>"
    using up by (simp add: alias_update_def split: if_splits)
  with d show "\<exists>d ds. body = Some d \<and> destinations_of (json_get ''destinations'' d) = Inr ds \<and> v = (True, ds) \<and>
      db' = db\<lparr>aliases := update_where (\<lambda>x. al_id x = al_id l)
        (\<lambda>x. x\<lparr>al_source := al_source l, al_destinations := ds, al_type := BRIDGE, al_is_active := True, al_updated_at := now\<rparr>) (aliases db)\<rparr>"
    by blast
qed

definition crafted_db :: database where
  "crafted_db = sample_db\<lparr>accounts := [sample_account 5 3 (uuid_str 6)]\<rparr>"

definition crafted_key :: api_key where
  "crafted_key = mailbox_key\<lparr>k_account_id := Some 5\<rparr>"

lemma crafted_account:
  "account_for crafted_key crafted_db = Inr (sample_account 5 3 (uuid_str 6)\<lparr>a_domain_name := Some ''b.net''\<rparr>)" "as_uuid (uuid_str 6) = Some 6"
  by code_simp+

definition crafted_body :: json_object where
  "crafted_body = [(''destinations'', JList [JStr ''eve@evil.net''])]"

theorem uuid_mailbox_rules_foreign_alias_witness:
  "(\<exists>db'. stop_forwarding crafted_key crafted_db = Inr db' \<and> 6 \<notin> al_id ` set (aliases db')) \<and>
   (\<exists>db'. set_forwarding crafted_key (Some crafted_body) 99 0 crafted_db = Inr ((True, [''eve@evil.net'']), db') \<and>
      (\<exists>l \<in> set (aliases db'). al_id l = 6 \<and> al_domain_id l = 2 \<and> al_source l = ''sales'' \<and> al_destinations l = [''eve@evil.net'']))"
proof -
  let ?l = "sample_alias 6 2 ''sales'' [''ann@acme.org'', ''out@far.com''] FORWARD"
  have uuid: "as_uuid (a_local_part (sample_account 5 3 (uuid_str 6)\<lparr>a_domain_name := Some ''b.net''\<rparr>)) = Some (al_id ?l)"
    using crafted_account(2) by (simp add: sample_account_def sample_alias_def)
  have l: "?l \<in> set (aliases crafted_db)" by (simp add: crafted_db_def sample_db_def)
  have u: "unique_by al_id (aliases crafted_db)" by (simp add: crafted_db_def sample_db_def sample_alias_def)
  note rules = uuid_mailbox_rules_foreign_alias [OF crafted_account(1) uuid l u]
  have "al_id ?l \<notin> al_id ` set (aliases (alias_delete (al_id ?l) crafted_db))"
    by (auto simp: alias_delete_def table_simps)
  moreover have six: "al_id ?l = 6" by (simp add: sample_alias_def)
  ultimately have stop: "\<exists>db'. stop_forwarding crafted_key crafted_db = Inr db' \<and> 6 \<notin> al_id ` set (aliases db')"
    using rules [THEN conjunct1] by metis
  have ok: "isl (set_forwarding crafted_key (Some crafted_body) 99 0 crafted_db) = False" by code_simp
  then obtain v db' where r: "set_forwarding crafted_key (Some crafted_body) 99 0 crafted_db = Inr (v, db')"
    by (cases "set_forwarding crafted_key (Some crafted_body) 99 0 crafted_db") auto
  have ds: "destinations_of (json_get ''destinations'' crafted_body) = Inr [''eve@evil.net'']" by code_simp
  from rules [THEN conjunct2, rule_format, OF r] ds have v: "v = (True, [''eve@evil.net''])"
    and db': "aliases db' = update_where (\<lambda>x. al_id x = al_id ?l)
      (\<lambda>x. x\<lparr>al_source := al_source ?l, al_destinations := [''eve@evil.net''], al_type := BRIDGE, al_is_active := True, al_updated_at := 0\<rparr>) (aliases crafted_db)"
    by auto
  have "?l\<lparr>al_source := al_source ?l, al_destinations := [''eve@evil.net''], al_type := BRIDGE, al_is_active := True, al_updated_at := 0\<rparr> \<in> set (aliases db')"
    unfolding db' using l by (auto simp: table_simps intro!: image_eqI [of _ _ ?l])
  then have "\<exists>l \<in> set (aliases db'). al_id l = 6 \<and> al_domain_id l = 2 \<and> al_source l = ''sales'' \<and> al_destinations l = [''eve@evil.net'']"
    by (intro bexI) (simp_all add: sample_alias_def)
  with stop r v show ?thesis by blast
qed

section \<open>Sending is submission\<close>

lemma recipients_of_ok:
  "recipients_of cm body m = Inr rs \<Longrightarrow> rs \<noteq> [] \<and> length rs \<le> MAX_RECIPIENTS \<and> distinct rs"
  by (auto simp: recipients_of_def res_simps Let_def not_less distinct_fromkeys split: if_splits)

lemma prepare_ok:
  assumes "prepare env cm a d = Inr b"
  shows "email a \<noteq> None" "sb_recipients b \<noteq> []" "length (sb_recipients b) \<le> MAX_RECIPIENTS" "distinct (sb_recipients b)"
    "sender_of a d = Inr (sb_from b)"
proof -
  have "email a \<noteq> None \<and> (\<exists>m. recipients_of cm d m = Inr (sb_recipients b)) \<and> sender_of a d = Inr (sb_from b)"
    using assms by (auto simp: prepare_def res_simps split: if_splits)
  then show "email a \<noteq> None" "sb_recipients b \<noteq> []" "length (sb_recipients b) \<le> MAX_RECIPIENTS" "distinct (sb_recipients b)"
    "sender_of a d = Inr (sb_from b)"
    using recipients_of_ok by blast+
qed

text \<open>What the library wrote without a field has none when it is read again.\<close>

definition forgets_bcc :: "smtp_env \<Rightarrow> bool" where
  "forgets_bcc env \<longleftrightarrow>
    (\<forall>m. get_all_fields ''Bcc'' (mime_fields (sx_parse env (sx_as_bytes env (map_fields (del_field ''Bcc'') m)))) = [])"

lemma outgoing_blind: "forgets_bcc env \<Longrightarrow> get_all_fields ''Bcc'' (mime_fields (sx_parse env (outgoing env raw))) = []"
  by (auto simp: outgoing_def forgets_bcc_def Let_def)

text \<open>
  C6. Sending through the API is submission by the key's own mailbox: unless nothing changes, the key's
  account exists and may send, owns the sender address, the message goes through the same delivery
  as one from SMTP under that account's name, to at least one and at most a hundred different
  addresses, and shows no recipient who was copied blindly.
\<close>
theorem sending_is_submission:
  assumes "send_message env srv cm master k body now s = (ans, s')" "forgets_bcc env"
  shows "s' = s \<or>
    (\<exists>d a b addr r. body = Some d \<and> account_for k (sm_db s) = Inr a \<and> prepare env cm a d = Inr b \<and> email a = Some addr \<and>
      smtp_deliver env now (sb_from b) (sb_recipients b) (outgoing env (sb_raw b)) ''api'' [] (Some addr) s = (s', r) \<and>
      (\<exists>x. account_find (norm_addr addr) (sm_db s) = Some x \<and> a_can_send x) \<and>
      owns_sender (norm_addr addr) (norm_addr (sb_from b)) (sm_db s) \<and>
      sb_recipients b \<noteq> [] \<and> length (sb_recipients b) \<le> MAX_RECIPIENTS \<and> distinct (sb_recipients b) \<and>
      get_all_fields ''Bcc'' (mime_fields (sx_parse env (outgoing env (sb_raw b)))) = [])"
proof (cases "bind_res (parse_body body) (\<lambda>d. bind_res (account_for k (sm_db s)) (\<lambda>a.
    bind_res (prepare env cm a d) (\<lambda>b. Inr (the (email a), b))))")
  case (Inl e)
  then show ?thesis using assms(1) by (simp add: send_message_def)
next
  case (Inr ab)
  then obtain d a b where ab: "body = Some d" "account_for k (sm_db s) = Inr a" "prepare env cm a d = Inr b" "ab = (the (email a), b)"
    by (auto simp: res_simps)
  then obtain addr where addr: "email a = Some addr" "ab = (addr, b)" using prepare_ok(1) by fastforce
  obtain s'' r where r: "smtp_deliver env now (sb_from b) (sb_recipients b) (outgoing env (sb_raw b)) ''api'' [] (Some addr) s = (s'', r)"
    by fastforce
  have "s'' = s'"
    using assms(1) Inr r by (simp add: send_message_def addr split: sum.splits option.splits prod.splits)
  then show ?thesis
    using logins_send_as_themselves [OF r] ab addr r prepare_ok [OF ab(3)] outgoing_blind [OF assms(2)] by blast
qed

definition borrowed :: json_object where
  "borrowed = [(''from'', JStr ''bob@b.net''), (''to'', JStr ''x@far.com''), (''bcc'', JList [JStr ''y@far.com'']), (''text'', JStr ''hi'')]"

lemma ann_is_not_bob: "\<not> owns_sender (norm_addr ''ann@acme.org'') (norm_addr ''bob@b.net'') sample_db"
proof -
  have n: "norm_addr ''ann@acme.org'' = ''ann@acme.org''" "norm_addr ''bob@b.net'' = ''bob@b.net''"
    "split_first CHR ''@'' ''bob@b.net'' = (''bob'', ''b.net'')" by code_simp+
  have "al_source al \<noteq> ''bob''" if "al \<in> set (aliases sample_db)" for al
    using that by (auto simp: sample_db_def sample_alias_def)
  then show ?thesis by (auto simp: owns_sender_def n)
qed

theorem sending_is_submission_witness:
  "snd (send_message (sample_env sample_mail []) sample_server sample_composer sample_master mailbox_key (Some borrowed) 0 sample_smtp) = sample_smtp"
proof -
  let ?env = "sample_env sample_mail []" and ?a = "sample_account 4 2 ''ann''\<lparr>a_domain_name := Some ''acme.org''\<rparr>"
  obtain ans s' where r: "send_message ?env sample_server sample_composer sample_master mailbox_key (Some borrowed) 0 sample_smtp = (ans, s')"
    by fastforce
  have "get_all_fields ''Bcc'' (mime_fields sample_mail) = []" by code_simp
  then have f: "forgets_bcc ?env" by (simp add: forgets_bcc_def sample_env_def)
  have p: "sender_of ?a borrowed = Inr ''bob@b.net''" by code_simp
  have e: "email ?a = Some ''ann@acme.org''" by code_simp
  have db: "sm_db sample_smtp = sample_db" by (simp add: sample_smtp_def)
  have "s' = sample_smtp"
  proof (rule ccontr)
    assume "s' \<noteq> sample_smtp"
    with sending_is_submission [OF r f] obtain d a b addr where
      b: "Some borrowed = Some d" "account_for mailbox_key sample_db = Inr a" "prepare ?env sample_composer a d = Inr b" "email a = Some addr"
        "owns_sender (norm_addr addr) (norm_addr (sb_from b)) sample_db" unfolding db by blast
    then have "a = ?a" "d = borrowed" using sample_mailbox(1) by simp_all
    then have "addr = ''ann@acme.org''" "sb_from b = ''bob@b.net''" using prepare_ok(5) [OF b(3)] b(4) e p by simp_all
    with b(5) ann_is_not_bob show False by metis
  qed
  with r show ?thesis by simp
qed

end
