(* ===== verification/Dns_Records.thy ===== *)
theory Dns_Records
  imports Prelude Py_Text
begin

text \<open>
  \<open>src/src/lightr/mail/dns_records.py\<close> and \<open>src/src/lightr/mail/dkim.py\<close>: the records a domain should publish, the check of
  what it does publish, and the signing of outgoing mail. A DNS lookup is a function from a name and a
  record type to the values, or to the text of what went wrong; RSA and the signature are parameters.
\<close>

section \<open>The records\<close>

definition DEFAULT_DMARC :: string where "DEFAULT_DMARC = ''v=DMARC1; p=quarantine; adkim=s; aspf=s''"

datatype record_kind =
    MX_RECORD | SPF_RECORD | DKIM_RECORD | DMARC_RECORD | PTR_RECORD | AUTOCONFIG_RECORD | AUTODISCOVER_RECORD
  | SRV_IMAP_RECORD | SRV_SUBMISSION_RECORD

definition required_for_verification :: "record_kind \<Rightarrow> bool" where
  "required_for_verification k \<longleftrightarrow> k \<in> {MX_RECORD, SPF_RECORD, DKIM_RECORD, DMARC_RECORD}"

datatype check_state = PUBLISHED | MISSING | MISMATCH | LOOKUP_ERROR

record dns_record =
  dr_kind :: record_kind
  dr_name :: string
  dr_type :: string
  dr_value :: string
  dr_priority :: "nat option"

definition mk_record :: "record_kind \<Rightarrow> string \<Rightarrow> string \<Rightarrow> string \<Rightarrow> dns_record" where
  "mk_record k n t v = \<lparr>dr_kind = k, dr_name = n, dr_type = t, dr_value = v, dr_priority = None\<rparr>"

definition as_zone_line :: "dns_record \<Rightarrow> string" where
  "as_zone_line r =
    dr_name r @ ''. IN '' @ dr_type r @ '' '' @ (case dr_priority r of None \<Rightarrow> [] | Some p \<Rightarrow> dec_str (int p) @ '' '') @
    (if dr_type r = ''TXT'' then [CHR 0x22] @ dr_value r @ [CHR 0x22] else dr_value r)"

record check_result =
  cr_kind :: record_kind
  cr_state :: check_state
  cr_expected :: string
  cr_found :: "string list"
  cr_detail :: string

definition check_ok :: "check_result \<Rightarrow> bool" where "check_ok c \<longleftrightarrow> cr_state c = PUBLISHED"

record verification =
  vf_domain :: string
  vf_checks :: "check_result list"

definition verified :: "verification \<Rightarrow> bool" where
  "verified v \<longleftrightarrow> list_all (\<lambda>c. required_for_verification (cr_kind c) \<longrightarrow> check_ok c) (vf_checks v)"

definition failures :: "verification \<Rightarrow> check_result list" where
  "failures v = filter (\<lambda>c. \<not> check_ok c) (vf_checks v)"

definition dkim_name :: "string \<Rightarrow> string \<Rightarrow> string" where
  "dkim_name selector domain = selector @ ''._domainkey.'' @ domain"

definition dkim_value :: "string \<Rightarrow> string" where
  "dkim_value key = ''v=DKIM1; k=rsa; p='' @ key"

definition optional_records :: "string \<Rightarrow> string \<Rightarrow> dns_record list" where
  "optional_records domain host =
    [mk_record AUTOCONFIG_RECORD (''autoconfig.'' @ domain) ''CNAME'' (host @ ''.''),
     mk_record AUTODISCOVER_RECORD (''autodiscover.'' @ domain) ''CNAME'' (host @ ''.''),
     mk_record SRV_IMAP_RECORD (''_imaps._tcp.'' @ domain) ''SRV'' (''0 1 993 '' @ host @ ''.''),
     mk_record SRV_SUBMISSION_RECORD (''_submission._tcp.'' @ domain) ''SRV'' (''0 1 587 '' @ host @ ''.'')]"

text \<open>\<open>records_for\<close>; a DKIM key that is empty counts as none.\<close>

definition records_for :: "string \<Rightarrow> string \<Rightarrow> string \<Rightarrow> string option \<Rightarrow> string \<Rightarrow> bool \<Rightarrow> dns_record list" where
  "records_for domain mail_hostname selector key dmarc include_optional =
    (let host = (if mail_hostname = [] then domain else mail_hostname)
     in [(mk_record MX_RECORD domain ''MX'' (host @ ''.''))\<lparr>dr_priority := Some 10\<rparr>,
         mk_record SPF_RECORD domain ''TXT'' (''v=spf1 mx a:'' @ host @ '' ~all'')] @
        (if truthy key then [mk_record DKIM_RECORD (dkim_name selector domain) ''TXT'' (dkim_value (the key))] else []) @
        [mk_record DMARC_RECORD (''_dmarc.'' @ domain) ''TXT'' dmarc] @
        (if include_optional then optional_records domain host else []))"

section \<open>Checking what is published\<close>

type_synonym dns = "string \<Rightarrow> string \<Rightarrow> string + string list"

text \<open>\<open>s.split(p, 1)[-1]\<close>.\<close>

fun after_first :: "string \<Rightarrow> string \<Rightarrow> string option" where
  "after_first p [] = (if p = [] then Some [] else None)"
| "after_first p (c # s) = (if starts_with p (c # s) then Some (drop (length p) (c # s)) else after_first p s)"

definition no_spaces :: "string \<Rightarrow> string" where "no_spaces = replace_char CHR '' '' []"

definition dotless :: "string \<Rightarrow> string" where "dotless s = lower (rstrip_chars ''.'' s)"

definition matches_record :: "dns_record \<Rightarrow> string list \<Rightarrow> bool" where
  "matches_record r found =
    (case dr_kind r of
       MX_RECORD \<Rightarrow> \<exists>v \<in> set found. contains (dotless (dr_value r)) (lower v)
     | SPF_RECORD \<Rightarrow> \<exists>v \<in> set found. starts_with ''v=spf1'' (lower v)
     | DKIM_RECORD \<Rightarrow>
         (let key = strip (case after_first ''p='' (dr_value r) of None \<Rightarrow> dr_value r | Some s \<Rightarrow> s)
          in \<exists>v \<in> set found. key \<noteq> [] \<and> contains key (no_spaces v))
     | DMARC_RECORD \<Rightarrow> \<exists>v \<in> set found. starts_with ''v=dmarc1'' (lower v)
     | PTR_RECORD \<Rightarrow> found \<noteq> []
     | AUTOCONFIG_RECORD \<Rightarrow> \<exists>v \<in> set found. dotless (dr_value r) = dotless v
     | AUTODISCOVER_RECORD \<Rightarrow> \<exists>v \<in> set found. dotless (dr_value r) = dotless v
     | _ \<Rightarrow>
         (let port_and_host = snd (snd (partition_char CHR '' '' (dr_value r)));
              wanted = dotless (snd (snd (partition_char CHR '' '' port_and_host)))
          in \<exists>v \<in> set found. contains wanted (dotless v)))"

definition check_record :: "dns \<Rightarrow> dns_record \<Rightarrow> check_result" where
  "check_record ask r =
    (case ask (dr_name r) (dr_type r) of
       Inl e \<Rightarrow> \<lparr>cr_kind = dr_kind r,
         cr_state = (if contains ''NXDOMAIN'' e \<or> contains ''no answer'' (lower e) then MISSING else LOOKUP_ERROR),
         cr_expected = dr_value r, cr_found = [], cr_detail = e\<rparr>
     | Inr found \<Rightarrow>
         if found = [] then \<lparr>cr_kind = dr_kind r, cr_state = MISSING, cr_expected = dr_value r, cr_found = [], cr_detail = []\<rparr>
         else if matches_record r found
         then \<lparr>cr_kind = dr_kind r, cr_state = PUBLISHED, cr_expected = dr_value r, cr_found = found, cr_detail = []\<rparr>
         else \<lparr>cr_kind = dr_kind r, cr_state = MISMATCH, cr_expected = dr_value r, cr_found = found,
            cr_detail = ''published, but not what Lightr expects''\<rparr>)"

definition verify_domain :: "dns \<Rightarrow> string \<Rightarrow> string \<Rightarrow> string \<Rightarrow> string option \<Rightarrow> verification" where
  "verify_domain ask domain mail_hostname selector key =
    \<lparr>vf_domain = domain,
     vf_checks = map (check_record ask) (records_for domain mail_hostname selector key DEFAULT_DMARC False @
       (if key = None then [mk_record DKIM_RECORD (dkim_name selector domain) ''TXT'' ''(no DKIM key generated yet)''] else []))\<rparr>"

section \<open>A domain is verified exactly when it publishes\<close>

text \<open>The lookup answered, and one of the values is as wanted.\<close>

definition published :: "dns \<Rightarrow> string \<Rightarrow> string \<Rightarrow> (string \<Rightarrow> bool) \<Rightarrow> bool" where
  "published ask name ty wanted \<longleftrightarrow> (case ask name ty of Inl e \<Rightarrow> False | Inr vs \<Rightarrow> \<exists>v \<in> set vs. wanted v)"

lemma check_record_ok: "check_ok (check_record ask r) \<longleftrightarrow> (\<exists>vs. ask (dr_name r) (dr_type r) = Inr vs \<and> vs \<noteq> [] \<and> matches_record r vs)"
  by (auto simp: check_ok_def check_record_def split: sum.splits)

lemma check_record_kind [simp]: "cr_kind (check_record ask r) = dr_kind r"
  by (auto simp: check_record_def split: sum.splits)

lemma check_published:
  assumes "\<And>vs. matches_record r vs \<longleftrightarrow> (\<exists>v \<in> set vs. p v)"
  shows "check_ok (check_record ask r) \<longleftrightarrow> published ask (dr_name r) (dr_type r) p"
  unfolding check_record_ok published_def assms by (auto split: sum.splits)

lemma contains_set: "contains p s \<Longrightarrow> set p \<subseteq> set s"
  by (auto simp: contains_iff)

lemma no_spaces_set: "CHR '' '' \<notin> set (no_spaces v)"
  by (auto simp: no_spaces_def replace_char_def split: if_splits)

lemma no_spaces_absent: "CHR '' '' \<notin> set s \<Longrightarrow> no_spaces s = s"
  by (induction s) (auto simp: no_spaces_def replace_char_def)

lemma after_key: "after_first ''p='' (dkim_value key) = Some key"
  by (simp add: dkim_value_def starts_with_def)

text \<open>What the DKIM check looks for.\<close>

definition names_key :: "string \<Rightarrow> string \<Rightarrow> bool" where
  "names_key key v \<longleftrightarrow> strip key \<noteq> [] \<and> contains (strip key) (no_spaces v)"

definition dkim_record :: "string \<Rightarrow> string \<Rightarrow> string \<Rightarrow> dns_record" where
  "dkim_record selector domain v = mk_record DKIM_RECORD (dkim_name selector domain) ''TXT'' v"

definition no_key :: string where "no_key = ''(no DKIM key generated yet)''"

lemma no_key_is_none: "\<not> check_ok (check_record ask (dkim_record selector domain no_key))"
proof -
  have k: "strip no_key = no_key" "after_first ''p='' no_key = None" "CHR '' '' \<in> set no_key" by code_simp+
  then have "\<not> contains no_key (no_spaces v)" for v using contains_set no_spaces_set [of v] by blast
  then have "\<not> matches_record (dkim_record selector domain no_key) vs" for vs
    by (simp only: dkim_record_def matches_record_def mk_record_def dns_record.simps record_kind.simps k option.case Let_def) blast
  then show ?thesis unfolding check_record_ok by blast
qed

lemma dkim_check:
  "check_ok (check_record ask (dkim_record selector domain (dkim_value k))) \<longleftrightarrow>
    published ask (dkim_name selector domain) ''TXT'' (names_key k)"
  by (subst check_published [where p = "names_key k"])
    (simp_all add: dkim_record_def mk_record_def matches_record_def names_key_def after_key Let_def)

lemma other_checks:
  "check_ok (check_record ask (mk_record MX_RECORD domain ty v\<lparr>dr_priority := pri\<rparr>)) \<longleftrightarrow>
    published ask domain ty (\<lambda>x. contains (dotless v) (lower x))"
  "check_ok (check_record ask (mk_record SPF_RECORD domain ty v)) \<longleftrightarrow> published ask domain ty (\<lambda>x. starts_with ''v=spf1'' (lower x))"
  "check_ok (check_record ask (mk_record DMARC_RECORD domain ty v)) \<longleftrightarrow> published ask domain ty (\<lambda>x. starts_with ''v=dmarc1'' (lower x))"
  by ((subst check_published, rule matches_record_def [THEN trans]), simp add: mk_record_def, simp add: mk_record_def)+

lemma kinds_required:
  "required_for_verification (dr_kind (mk_record MX_RECORD domain ty v))"
  "required_for_verification (dr_kind (mk_record SPF_RECORD domain ty v))" "required_for_verification (dr_kind (mk_record DMARC_RECORD domain ty v))"
  "required_for_verification (dr_kind (dkim_record selector domain v))"
  by (simp_all add: required_for_verification_def mk_record_def dkim_record_def)

text \<open>
  C19. What marks a domain as verified, exactly: a lookup of its MX answered with some value in which the host
  name occurs, wherever it occurs; lookups at the domain and at \<open>_dmarc\<close> answered with a text that begins
  \<open>v=spf1\<close> and one that begins \<open>v=DMARC1\<close>, in either case; and the DKIM record of its selector names the key. A
  lookup that failed verifies nothing, and a domain without a key is never verified, but one whose key is
  the empty text needs no DKIM record at all. The first and the last are less than what the
  repository's own guide promises.
\<close>

theorem verified_iff_published:
  "verified (verify_domain ask domain mail_hostname selector key) \<longleftrightarrow>
    published ask domain ''MX'' (\<lambda>v. contains (dotless ((if mail_hostname = [] then domain else mail_hostname) @ ''.'')) (lower v)) \<and>
    published ask domain ''TXT'' (\<lambda>v. starts_with ''v=spf1'' (lower v)) \<and>
    published ask (''_dmarc.'' @ domain) ''TXT'' (\<lambda>v. starts_with ''v=dmarc1'' (lower v)) \<and>
    key \<noteq> None \<and> (key = Some [] \<or> published ask (dkim_name selector domain) ''TXT'' (names_key (the key)))"
proof -
  define host where "host = (if mail_hostname = [] then domain else mail_hostname)"
  have checks: "vf_checks (verify_domain ask domain mail_hostname selector key) = map (check_record ask)
      ([mk_record MX_RECORD domain ''MX'' (host @ ''.'')\<lparr>dr_priority := Some 10\<rparr>,
        mk_record SPF_RECORD domain ''TXT'' (''v=spf1 mx a:'' @ host @ '' ~all'')] @
       (if truthy key then [dkim_record selector domain (dkim_value (the key))] else []) @
       [mk_record DMARC_RECORD (''_dmarc.'' @ domain) ''TXT'' DEFAULT_DMARC] @
       (if key = None then [dkim_record selector domain no_key] else []))"
    by (simp only: verify_domain_def records_for_def Let_def host_def [symmetric] no_key_def dkim_record_def verification.simps
        append_assoc append_Nil if_False append.simps)
  show ?thesis
    unfolding verified_def checks host_def [symmetric]
    using no_key_is_none [of ask selector domain]
    by (cases key) (simp_all add: truthy_def kinds_required other_checks dkim_check conj_ac)
qed

section \<open>Keys and signatures\<close>

definition SIGNED_HEADERS :: "string list" where
  "SIGNED_HEADERS = [''From'', ''To'', ''Subject'', ''Date'', ''Message-ID'', ''MIME-Version'', ''Content-Type'']"

record dkim_key =
  dk_selector :: string
  dk_private :: string
  dk_public :: string
  dk_bits :: nat

definition dns_name :: "dkim_key \<Rightarrow> string \<Rightarrow> string" where "dns_name k domain = dkim_name (dk_selector k) domain"

definition dns_value :: "dkim_key \<Rightarrow> string" where "dns_value k = ''v=DKIM1; k=rsa; p='' @ dk_public k"

definition dns_record_text :: "dkim_key \<Rightarrow> string \<Rightarrow> string" where
  "dns_record_text k domain = dns_name k domain @ ''. IN TXT '' @ [CHR 0x22] @ dns_value k @ [CHR 0x22]"

text \<open>The RSA pair of a size: the private and the public key as text.\<close>

definition generate_key :: "(nat \<Rightarrow> string \<times> string) \<Rightarrow> string \<Rightarrow> nat \<Rightarrow> dkim_key option" where
  "generate_key rsa selector bits =
    (if bits < 1024 then None
     else Some \<lparr>dk_selector = selector, dk_private = fst (rsa bits), dk_public = snd (rsa bits), dk_bits = bits\<rparr>)"

fun header_in :: "string \<Rightarrow> string list \<Rightarrow> bool" where
  "header_in needle [] = False"
| "header_in needle (line # ls) =
    (if strip line = [] then False else if starts_with needle (lower line) then True else header_in needle ls)"

definition has_header :: "string \<Rightarrow> string \<Rightarrow> bool" where
  "has_header message header = header_in (lower header @ '':'') (split_char CHR 0x0A message)"

text \<open>The signature of a message over some headers, unless the library fails.\<close>

type_synonym signer = "string \<Rightarrow> string \<Rightarrow> string \<Rightarrow> string list \<Rightarrow> string \<Rightarrow> string option"

definition dkim_sign :: "signer \<Rightarrow> string \<Rightarrow> string \<Rightarrow> string \<Rightarrow> string \<Rightarrow> string option" where
  "dkim_sign lib message domain selector pem =
    (if pem = [] then None
     else map_option (\<lambda>signature. signature @ message) (lib domain selector pem (filter (has_header message) SIGNED_HEADERS) message))"

definition sign_or_warn :: "signer \<Rightarrow> string \<Rightarrow> string \<Rightarrow> string \<Rightarrow> string \<Rightarrow> string" where
  "sign_or_warn lib message domain selector pem =
    (case dkim_sign lib message domain selector pem of None \<Rightarrow> message | Some m \<Rightarrow> m)"

lemma signing_adds_in_front: "\<exists>signature. sign_or_warn lib message domain selector pem = signature @ message"
  by (auto simp: sign_or_warn_def dkim_sign_def split: option.splits intro: exI [of _ "[]"])

text \<open>
  What key generation says to publish is what verification looks for: once the record of a generated
  key is in DNS as printed, the DKIM check of the domain passes.
\<close>
theorem printed_key_verifies:
  assumes "generate_key rsa selector bits = Some k" "dk_public k \<noteq> []" "\<forall>c \<in> set (dk_public k). \<not> is_space c"
    and "ask (dns_name k domain) ''TXT'' = Inr vs" "dns_value k \<in> set vs"
  shows "published ask (dkim_name selector domain) ''TXT'' (names_key (dk_public k))"
proof -
  have space: "is_space CHR '' ''" by code_simp
  have s: "strip (dk_public k) = dk_public k" using assms(3) by (rule strip_absent)
  have n: "no_spaces (dk_public k) = dk_public k" using assms(3) space by (intro no_spaces_absent) blast
  have "no_spaces (dns_value k) = ''v=DKIM1;k=rsa;p='' @ dk_public k"
    using n by (simp add: dns_value_def no_spaces_def replace_char_def)
  moreover have "contains (dk_public k) (''v=DKIM1;k=rsa;p='' @ dk_public k @ [])" unfolding contains_iff by (intro exI) (rule refl)
  ultimately have "names_key (dk_public k) (dns_value k)" using assms(2) by (simp only: names_key_def s append_Nil2) simp
  moreover have "dns_name k domain = dkim_name selector domain"
    using assms(1) by (auto simp: generate_key_def dns_name_def split: if_splits)
  ultimately show ?thesis using assms(4,5) by (auto simp: published_def)
qed

text \<open>A domain as it looks when everything is right, but for one thing: its mail goes elsewhere.\<close>

definition sample_dns :: dns where
  "sample_dns name ty =
    (if ty = ''MX'' then Inr [''10 mail.acme.org.evil.net'']
     else if name = ''acme.org'' then Inr [''v=spf1 +all'']
     else if name = ''_dmarc.acme.org'' then Inr [''v=DMARC1; p=none'']
     else Inr [''v=DKIM1; k=rsa; p=MIGf''])"

text \<open>An MX host that only contains the right name passes, so mail for a verified domain may go to somebody else.\<close>

lemma look_alike_mx_verifies:
  "verified (verify_domain sample_dns ''acme.org'' ''mail.acme.org'' ''default'' (Some ''MIGf''))"
  by code_simp

theorem printed_key_verifies_witness:
  "published sample_dns ''default._domainkey.acme.org'' ''TXT'' (names_key ''MIGf'')"
proof -
  let ?k = "\<lparr>dk_selector = ''default'', dk_private = ''pem'', dk_public = ''MIGf'', dk_bits = 2048\<rparr>"
  have "generate_key (\<lambda>_. (''pem'', ''MIGf'')) ''default'' 2048 = Some ?k" by (simp add: generate_key_def)
  moreover have "\<forall>c \<in> set (dk_public ?k). \<not> is_space c" by code_simp
  moreover have "sample_dns (dns_name ?k ''acme.org'') ''TXT'' = Inr [''v=DKIM1; k=rsa; p=MIGf'']" by code_simp
  moreover have "dns_value ?k \<in> set [''v=DKIM1; k=rsa; p=MIGf'']" by code_simp
  moreover have "dkim_name ''default'' ''acme.org'' = ''default._domainkey.acme.org''" by code_simp
  ultimately show ?thesis using printed_key_verifies [of "\<lambda>_. (''pem'', ''MIGf'')" "''default''" 2048 ?k sample_dns "''acme.org''"] by simp
qed

end
