(* ===== verification/Events.thy ===== *)
theory Events
  imports Mailbox_Api
begin

text \<open>
  \<open>src/src/lightr/api/events.py\<close>: the socket that reports what happens in a mailbox. Who may open one and how many,
  what a client may say, and what an update tells: the difference between two looks at the newest
  messages of a folder. The sockets of one mailbox are a step relation, since the event loop may run
  another one at every \<open>await\<close>.
\<close>

definition MAX_SOCKETS_PER_ACCOUNT :: nat where "MAX_SOCKETS_PER_ACCOUNT = 5"
definition WINDOW :: nat where "WINDOW = 50"
definition CLOSE_UNAUTHORIZED :: int where "CLOSE_UNAUTHORIZED = 4401"
definition CLOSE_FORBIDDEN :: int where "CLOSE_FORBIDDEN = 4403"
definition CLOSE_TOO_MANY :: int where "CLOSE_TOO_MANY = 4429"
definition CLOSE_MAILBOX_GONE :: int where "CLOSE_MAILBOX_GONE = 4404"

section \<open>Who opens a socket\<close>

text \<open>Header names in lower case; an empty \<open>X-API-Key\<close> is as good as none.\<close>

definition token_from_headers :: "(string, string) dict \<Rightarrow> string option" where
  "token_from_headers hs =
    (if truthy (map_of hs ''x-api-key'') then Some (strip (the (map_of hs ''x-api-key'')))
     else case partition_char CHR '' '' (case map_of hs ''authorization'' of None \<Rightarrow> [] | Some v \<Rightarrow> v) of
            (scheme, _, v) \<Rightarrow> if lower scheme = ''bearer'' \<and> strip v \<noteq> [] then Some (strip v) else None)"

text \<open>The first message, or none in time, or none that is JSON.\<close>

definition token_from_first_message :: "json option \<Rightarrow> string option" where
  "token_from_first_message m =
    (case m of
       Some (JObj d) \<Rightarrow> (case json_get ''token'' d of JStr t \<Rightarrow> if strip t \<noteq> [] then Some (strip t) else None | _ \<Rightarrow> None)
     | _ \<Rightarrow> None)"

datatype socket_answer =
    Closed int
  | Watches account

definition resolve_socket :: "(string \<Rightarrow> string) \<Rightarrow> string \<Rightarrow> string option \<Rightarrow> instant \<Rightarrow> api_key list \<Rightarrow> database \<Rightarrow> socket_answer" where
  "resolve_socket sha token ip now keys db =
    (case verify sha token ip now keys of
       None \<Rightarrow> Closed CLOSE_UNAUTHORIZED
     | Some k \<Rightarrow>
       (case k_account_id k of
          None \<Rightarrow> Closed CLOSE_FORBIDDEN
        | Some i \<Rightarrow>
          if \<not> allows k MAILBOX then Closed CLOSE_FORBIDDEN
          else case account_resolve (uuid_str i) db of Inl _ \<Rightarrow> Closed CLOSE_MAILBOX_GONE | Inr a \<Rightarrow> Watches a))"

section \<open>What a client may say\<close>

text \<open>A message in a frame, \<open>_summary\<close> of \<open>api/mailbox.py\<close>: of its flags there are three.\<close>

record summary_json =
  sj_uid :: int
  sj_folder :: string
  sj_subject :: string
  sj_from :: string
  sj_to :: string
  sj_date :: "instant option"
  sj_size :: nat
  sj_seen :: bool
  sj_flagged :: bool
  sj_answered :: bool

definition message_summary :: "summary \<Rightarrow> summary_json" where
  "message_summary m =
    \<lparr>sj_uid = su_uid m, sj_folder = su_folder m, sj_subject = su_subject m, sj_from = su_from m, sj_to = su_to m,
     sj_date = su_date m, sj_size = su_size m, sj_seen = seen m, sj_flagged = flagged m, sj_answered = answered m\<rparr>"

datatype frame =
    Pong
  | ErrorFrame
  | Ready string string "mail_folder list"
  | Update string "summary_json list" "summary_json list" "int list" "mail_folder option"

text \<open>The text of a message and what JSON makes of it: the answer, and the folder to watch.\<close>

definition handle_message :: "(string \<Rightarrow> json option) \<Rightarrow> string option \<Rightarrow> string \<Rightarrow> frame option \<times> string option" where
  "handle_message parse raw f =
    (if \<not> truthy raw then (None, None)
     else case parse (the raw) of
            Some (JObj body) \<Rightarrow>
              (let kind = json_get ''type'' body
               in if kind = JStr ''ping'' then (Some Pong, None)
                  else if kind = JStr ''watch''
                  then (case json_get ''folder'' body of
                          JStr w \<Rightarrow> if strip w = [] then (Some ErrorFrame, None) else (None, Some (strip w))
                        | _ \<Rightarrow> (Some ErrorFrame, None))
                  else if kind = JStr ''refresh'' then (None, Some f)
                  else (Some ErrorFrame, None))
          | _ \<Rightarrow> (Some ErrorFrame, None))"

section \<open>What an update tells\<close>

text \<open>\<open>{m.uid: m.flags}\<close>, later ones winning; flags are sets.\<close>

type_synonym view = "(int, string list) dict"

definition view_of :: "summary list \<Rightarrow> view" where
  "view_of ss = foldl (\<lambda>v m. AList.update (su_uid m) (su_flags m) v) [] ss"

definition view_floor :: "view \<Rightarrow> int" where
  "view_floor v = (if WINDOW \<le> length v then Min (set (map fst v)) else 0)"

definition arrived :: "view \<Rightarrow> summary list \<Rightarrow> summary list" where
  "arrived before ss = filter (\<lambda>m. map_of before (su_uid m) = None) ss"

definition changed :: "view \<Rightarrow> summary list \<Rightarrow> summary list" where
  "changed before ss =
    filter (\<lambda>m. case map_of before (su_uid m) of None \<Rightarrow> False | Some fl \<Rightarrow> set fl \<noteq> set (su_flags m)) ss"

definition removed :: "view \<Rightarrow> view \<Rightarrow> int list" where
  "removed before after = sort (filter (\<lambda>u. map_of after u = None \<and> view_floor after \<le> u) (map fst before))"

definition snapshot :: "dovecot \<Rightarrow> mail_reader \<Rightarrow> string \<Rightarrow> view imap_op" where
  "snapshot srv ml f = then_do (mailbox_list srv ml f WINDOW 0 ''ALL'') (\<lambda>ss. give (view_of ss))"

definition emit :: "dovecot \<Rightarrow> mail_reader \<Rightarrow> string \<Rightarrow> view \<Rightarrow> (view \<times> frame option) imap_op" where
  "emit srv ml f before =
    then_do (mailbox_list srv ml f WINDOW 0 ''ALL'') (\<lambda>ss.
      let after = view_of ss; new = arrived before ss; changes = changed before ss; gone = removed before after
      in if new = [] \<and> changes = [] \<and> gone = [] then give (after, None)
         else then_do (mailbox_folders srv) (\<lambda>fs.
              give (after, Some (Update f (map message_summary new) (map message_summary changes) gone (first_row (filter (\<lambda>x. fo_name x = f) fs))))))"

text \<open>A client message in the loop: the frames it causes, the folder and the view that are watched after it.\<close>

definition on_message ::
  "dovecot \<Rightarrow> mail_reader \<Rightarrow> string \<Rightarrow> (string \<Rightarrow> json option) \<Rightarrow> string option \<Rightarrow> string \<times> view \<Rightarrow> (frame list \<times> string \<times> view) imap_op" where
  "on_message srv ml addr parse raw st =
    (case st of (f, v) \<Rightarrow>
       case handle_message parse raw f of (answer, wanted) \<Rightarrow>
         let frames = (case answer of None \<Rightarrow> [] | Some x \<Rightarrow> [x])
         in case wanted of
              None \<Rightarrow> give (frames, f, v)
            | Some w \<Rightarrow>
              if w = f then give (frames, f, v)
              else then_do (snapshot srv ml w) (\<lambda>v'.
                   then_do (mailbox_folders srv) (\<lambda>fs. give (frames @ [Ready addr w fs], w, v'))))"

section \<open>A client that follows the updates\<close>







lemma map_of_fold_update:
  "map_of (foldl (\<lambda>v m. AList.update (k m) (f m) v) v0 ss) = map_of v0 ++ map_of (rev (map (\<lambda>m. (k m, f m)) ss))"
  by (induction ss arbitrary: v0) (auto simp: update_conv map_add_def split: option.splits)




lemma in_view: "map_of (view_of ss) u = None \<longleftrightarrow> u \<notin> su_uid ` set ss"
  by (auto simp: view_of_def map_of_fold_update map_of_eq_None_iff image_image)



text \<open>
  Deleting the newest message of a folder that has more than the window shows brings the next older
  one into view, and that old message is announced as new.
\<close>
theorem old_mail_is_announced:
  assumes "distinct (map su_uid ss)" "WINDOW < length ss"
  shows "arrived (view_of (take WINDOW ss)) (take WINDOW (tl ss)) = [ss ! WINDOW]"
proof -
  obtain n where w: "WINDOW = Suc n" by (simp add: WINDOW_def)
  obtain x xs where ss: "ss = x # xs" using assms(2) by (cases ss) auto
  have tl: "take WINDOW (tl ss) = take n xs @ [ss ! WINDOW]" using assms(2) by (simp add: w ss take_Suc_conv_app_nth)
  have "su_uid (ss ! WINDOW) \<notin> su_uid ` set (take WINDOW ss)"
    using assms by (auto simp: in_set_conv_nth distinct_conv_nth)
  then show ?thesis
    unfolding tl by (auto simp: arrived_def in_view w ss filter_empty_conv)
qed

text \<open>The protocol says that \<open>refresh\<close> asks for the current state; it asks for nothing, and nothing is answered.\<close>

lemma refresh_answers_nothing:
  assumes "parse s = Some (JObj [(''type'', JStr ''refresh'')])" "s \<noteq> []"
  shows "on_message srv ml addr parse (Some s) (f, v) c = (Inr ([], f, v), c)"
  using assms by (simp add: on_message_def handle_message_def truthy_def json_get_def give_def)

section \<open>How many sockets a mailbox has\<close>

text \<open>
  Where a socket of one mailbox is: it has not been counted yet, it has passed the check and waits for
  \<open>accept\<close> (only when its token came in a header), it is counted, it is over.
\<close>

datatype socket =
    Waiting bool        \<comment> \<open>whether the token came in a header\<close>
  | Accepting
  | Open
  | Over

type_synonym sockets = "nat \<times> socket list"     \<comment> \<open>\<open>counts[email]\<close> and the sockets\<close>

inductive socket_step :: "sockets \<Rightarrow> sockets \<Rightarrow> bool" where
  Arrive: "socket_step (n, ss) (n, ss @ [Waiting header])"
| Refuse: "i < length ss \<Longrightarrow> ss ! i = Waiting header \<Longrightarrow> MAX_SOCKETS_PER_ACCOUNT \<le> n \<Longrightarrow> socket_step (n, ss) (n, ss[i := Over])"
| Admit: "i < length ss \<Longrightarrow> ss ! i = Waiting True \<Longrightarrow> n < MAX_SOCKETS_PER_ACCOUNT \<Longrightarrow> socket_step (n, ss) (n, ss[i := Accepting])"
| Accept: "i < length ss \<Longrightarrow> ss ! i = Accepting \<Longrightarrow> socket_step (n, ss) (n + 1, ss[i := Open])"
| Fail: "i < length ss \<Longrightarrow> ss ! i = Accepting \<Longrightarrow> socket_step (n, ss) (n, ss[i := Over])"
| Count: "i < length ss \<Longrightarrow> ss ! i = Waiting False \<Longrightarrow> n < MAX_SOCKETS_PER_ACCOUNT \<Longrightarrow> socket_step (n, ss) (n + 1, ss[i := Open])"
| Leave: "i < length ss \<Longrightarrow> ss ! i = Open \<Longrightarrow> socket_step (n, ss) (n - 1, ss[i := Over])"

inductive sockets_reachable :: "sockets \<Rightarrow> bool" where
  Start: "sockets_reachable (0, [])"
| Step: "sockets_reachable s \<Longrightarrow> socket_step s s' \<Longrightarrow> sockets_reachable s'"

definition open_sockets :: "socket list \<Rightarrow> nat" where
  "open_sockets ss = length (filter (\<lambda>x. x = Open) ss)"

lemma open_sockets_update:
  assumes "i < length ss"
  shows "x \<noteq> Open \<Longrightarrow> ss ! i \<noteq> Open \<Longrightarrow> open_sockets (ss[i := x]) = open_sockets ss"
    "ss ! i \<noteq> Open \<Longrightarrow> open_sockets (ss[i := Open]) = Suc (open_sockets ss)"
    "x \<noteq> Open \<Longrightarrow> ss ! i = Open \<Longrightarrow> open_sockets (ss[i := x]) = open_sockets ss - 1"
proof -
  obtain us vs where ss: "ss = us @ ss ! i # vs" "length us = i"
    using id_take_nth_drop [OF assms] assms by (metis length_take min.absorb4)
  then have "ss[i := y] = us @ y # vs" for y by (metis list_update_length)
  then show "x \<noteq> Open \<Longrightarrow> ss ! i \<noteq> Open \<Longrightarrow> open_sockets (ss[i := x]) = open_sockets ss"
    "ss ! i \<noteq> Open \<Longrightarrow> open_sockets (ss[i := Open]) = Suc (open_sockets ss)"
    "x \<noteq> Open \<Longrightarrow> ss ! i = Open \<Longrightarrow> open_sockets (ss[i := x]) = open_sockets ss - 1"
    by (subst (2) ss(1), simp add: open_sockets_def)+
qed

text \<open>The counter always says how many sockets are open, however they come, fail and go.\<close>

theorem socket_count_is_true:
  assumes "sockets_reachable (n, ss)"
  shows "open_sockets ss = n"
proof -
  have "open_sockets (snd s) = fst s" if "sockets_reachable s" for s
    using that
  proof induction
    case Start
    then show ?case by (simp add: open_sockets_def)
  next
    case (Step s s')
    from Step(2,3) show ?case
      by cases (simp_all add: open_sockets_update, simp add: open_sockets_def)
  qed
  from this [OF assms] show ?thesis by simp
qed

text \<open>
  The limit does not hold: a socket with its token in a header is counted only after it was accepted,
  so any number of them can pass the check before the first is counted.
\<close>
theorem socket_limit_is_passed:
  "\<exists>ss. sockets_reachable (m, ss) \<and> open_sockets ss = m"
proof -
  have waiting: "sockets_reachable (0, replicate m Accepting)" for m
  proof (induction m)
    case 0
    then show ?case by (simp add: Start)
  next
    case (Suc m)
    have "sockets_reachable (0, replicate m Accepting @ [Waiting True])" by (rule Step [OF Suc Arrive])
    from Step [OF this Admit [of m]] show ?case by (simp add: nth_append list_update_append MAX_SOCKETS_PER_ACCOUNT_def replicate_append_same)
  qed
  have "sockets_reachable (k, replicate k Open @ replicate (m - k) Accepting)" if "k \<le> m" for k
    using that
  proof (induction k)
    case 0
    then show ?case using waiting by simp
  next
    case (Suc k)
    then have r: "sockets_reachable (k, replicate k Open @ Accepting # replicate (m - Suc k) Accepting)" by (simp add: Suc_diff_Suc flip: replicate_Suc)
    from Step [OF this Accept [of k]] show ?case by (simp add: nth_append list_update_append replicate_app_Cons_same)
  qed
  from this [of m] show ?thesis by (intro exI [of _ "replicate m Open"]) (simp add: open_sockets_def)
qed

section \<open>Witnesses\<close>

definition plain_summary :: "int \<Rightarrow> summary" where
  "plain_summary u = \<lparr>su_uid = u, su_folder = ''INBOX'', su_subject = [], su_from = [], su_to = [], su_date = None, su_size = 0, su_flags = []\<rparr>"


theorem old_mail_is_announced_witness:
  "arrived (view_of (map plain_summary (rev [2..51]))) (map plain_summary (rev [1..50])) = [plain_summary 1]"
proof -
  let ?ss = "map plain_summary (rev [1..51])"
  have d: "distinct (map su_uid ?ss)" by (simp add: comp_def plain_summary_def)
  have w: "WINDOW < length ?ss" by (simp add: WINDOW_def)
  have t: "take WINDOW ?ss = map plain_summary (rev [2..51])" "take WINDOW (tl ?ss) = map plain_summary (rev [1..50])"
    "?ss ! WINDOW = plain_summary 1" by code_simp+
  show ?thesis using old_mail_is_announced [OF d w] unfolding t .
qed

theorem socket_count_is_true_witness: "open_sockets [Open] = 1"
proof -
  have "sockets_reachable (0, [] @ [Waiting False])" by (rule Step [OF Start Arrive])
  from Step [OF this Count [of 0]] have "sockets_reachable (1, [Open])" by (simp add: MAX_SOCKETS_PER_ACCOUNT_def)
  then show ?thesis by (rule socket_count_is_true)
qed

end
