(* ===== verification/Checkpassword.thy ===== *)
theory Checkpassword
  imports Auth
begin

text \<open>
  The program of \<open>src/src/lightr/dovecot/checkpassword.py\<close>, which Dovecot runs for each login, together with the
  endpoint it asks (the theory \<open>Auth\<close>). Dovecot knows the verdict by the exit code: 1 is a wrong password, 111
  is a check that could not be made, and no exit at all, but the next program with an answer in its
  environment, is a login. The connection to the endpoint and \<open>execv\<close> are parameters.
\<close>

definition EXIT_AUTH_FAILED :: nat where "EXIT_AUTH_FAILED = 1"
definition EXIT_INTERNAL :: nat where "EXIT_INTERNAL = 111"

datatype verdict =
    Exits nat
  | Execs "string list" "(string, string) dict"     \<comment> \<open>the arguments, what is set in the environment\<close>

text \<open>An answer of the endpoint: an error status, a JSON body, or anything else that goes wrong.\<close>

datatype http_reply =
    HttpError int
  | HttpBody json
  | HttpFailed

text \<open>\<open>user\0password\0\<close> on descriptor 3; \<open>None\<close> when it cannot be read.\<close>

definition read_credentials :: "string option \<Rightarrow> (string \<times> string) option" where
  "read_credentials raw =
    (case raw of
       None \<Rightarrow> None
     | Some s \<Rightarrow> (case split_char CHR 0x00 s of user # password # _ \<Rightarrow> Some (user, password) | _ \<Rightarrow> None))"

definition ask_body :: "string \<Rightarrow> string \<Rightarrow> json_object" where
  "ask_body username password = [(''username'', JStr username), (''password'', JStr password)]"

text \<open>The body of an answer, or the exit code.\<close>

definition ask_lightr :: "(json_object \<Rightarrow> http_reply) \<Rightarrow> string \<Rightarrow> string \<Rightarrow> nat + json" where
  "ask_lightr post username password =
    (case post (ask_body username password) of
       HttpBody v \<Rightarrow> Inr v
     | HttpError code \<Rightarrow> Inl (if code = 401 then EXIT_AUTH_FAILED else EXIT_INTERNAL)
     | HttpFailed \<Rightarrow> Inl EXIT_INTERNAL)"

text \<open>An exception nobody catches ends Python with status 1 too.\<close>

definition checkpassword ::
  "(json \<Rightarrow> string) \<Rightarrow> (json_object \<Rightarrow> http_reply) \<Rightarrow> (string list \<Rightarrow> bool) \<Rightarrow> string list \<Rightarrow> string option \<Rightarrow> verdict" where
  "checkpassword shown post can_exec args raw =
    (if args = [] then Exits EXIT_INTERNAL
     else case read_credentials raw of
       None \<Rightarrow> Exits EXIT_INTERNAL
     | Some (username, password) \<Rightarrow>
       if username = [] \<or> password = [] then Exits EXIT_AUTH_FAILED
       else case ask_lightr post username password of
              Inl code \<Rightarrow> Exits code
            | Inr (JObj d) \<Rightarrow>
                if json_text shown (case map_of d ''status'' of None \<Rightarrow> JStr [] | Some v \<Rightarrow> v) \<noteq> ''ok'' then Exits EXIT_AUTH_FAILED
                else let user = json_text shown (json_or (json_get ''user'' d) (JStr username)); home = json_get ''home'' d;
                         env = (''USER'', user) # (if json_truthy home
                           then [(''HOME'', json_text shown home), (''userdb_home'', json_text shown home)] else [])
                     in if can_exec args then Execs args env else Exits EXIT_INTERNAL
            | Inr _ \<Rightarrow> Exits 1)"

section \<open>Asking the real endpoint\<close>

definition opt_json :: "string option \<Rightarrow> json" where
  "opt_json v = (case v of None \<Rightarrow> JNull | Some s \<Rightarrow> JStr s)"

text \<open>What goes over the wire: a refusal is its status, an exception a 500.\<close>

definition over_http :: "provider_error + internal_answer \<Rightarrow> http_reply" where
  "over_http r =
    (case r of
       Inl _ \<Rightarrow> HttpError 500
     | Inr (InternalRefusal code _) \<Rightarrow> HttpError code
     | Inr (PassdbOk user home) \<Rightarrow> HttpBody (JObj [(''status'', JStr ''ok''), (''user'', opt_json user), (''home'', opt_json home)])
     | Inr (UserdbOk user home mail quota) \<Rightarrow> HttpBody (JObj [(''status'', JStr ''ok''), (''user'', JStr user), (''home'', JStr home)]))"

definition dovecot_login ::
  "(json \<Rightarrow> string) \<Rightarrow> auth_world \<Rightarrow> string \<Rightarrow> (string list \<Rightarrow> bool) \<Rightarrow> string list \<Rightarrow> string option \<Rightarrow> verdict" where
  "dovecot_login shown w secret = checkpassword shown (\<lambda>body. over_http (passdb shown w secret secret body))"

lemma read_credentials_pair:
  assumes "CHR 0x00 \<notin> set username" "CHR 0x00 \<notin> set password"
  shows "read_credentials (Some (username @ CHR 0x00 # password @ [CHR 0x00])) = Some (username, password)"
proof -
  have s: "split_char c (x @ c # y) = x # split_char c y" if "c \<notin> set x" for c x y
    using that by (induction x) auto
  show ?thesis using assms by (simp add: read_credentials_def s)
qed

text \<open>
  C21. Only a wrong password is called one: for credentials as Dovecot writes them, the program ends with
  1 exactly when the authenticator answered and its failure is not a temporary one, with 111 exactly
  when it could not answer, or only for now, or the name is blank, and Dovecot goes on exactly when the
  login is right. An outage of a provider, a wrong secret or a crash never looks like a wrong password.
\<close>
theorem only_wrong_passwords_are_wrong:
  assumes "username \<noteq> []" "password \<noteq> []" "CHR 0x00 \<notin> set username" "CHR 0x00 \<notin> set password" "args \<noteq> []" "can_exec args"
    and v: "dovecot_login shown w secret can_exec args (Some (username @ CHR 0x00 # password @ [CHR 0x00])) = v"
  shows "(v = Exits EXIT_AUTH_FAILED \<longleftrightarrow> secret \<noteq> [] \<and> strip username \<noteq> [] \<and>
      (\<exists>r. authenticate w (strip username) password = Inr r \<and> \<not> ar_ok r \<and> \<not> auth_temporary r)) \<and>
    ((\<exists>env. v = Execs args env) \<longleftrightarrow> secret \<noteq> [] \<and> strip username \<noteq> [] \<and>
      (\<exists>r. authenticate w (strip username) password = Inr r \<and> ar_ok r)) \<and>
    (v = Exits EXIT_AUTH_FAILED \<or> v = Exits EXIT_INTERNAL \<or> (\<exists>env. v = Execs args env))"
proof -
  let ?a = "authenticate w (strip username) password"
  have go: "v = checkpassword shown (\<lambda>body. over_http (passdb shown w secret secret body)) can_exec args
      (Some (username @ CHR 0x00 # password @ [CHR 0x00]))"
    using v by (simp add: dovecot_login_def)
  have body: "body_text shown ''username'' (ask_body username password) = username"
    "body_text shown ''password'' (ask_body username password) = password"
    by (simp_all add: body_text_def ask_body_def json_text_def)
  have e: "EXIT_INTERNAL \<noteq> EXIT_AUTH_FAILED" by (simp add: EXIT_INTERNAL_def EXIT_AUTH_FAILED_def)
  note defs = go checkpassword_def read_credentials_pair [OF assms(3,4)] ask_lightr_def passdb_def check_internal_secret_def body Let_def over_http_def
  show ?thesis
  proof (cases "secret = [] \<or> strip username = []")
    case True
    then show ?thesis using assms(1,2,5,6) e by (auto simp: defs)
  next
    case False
    show ?thesis
    proof (cases ?a)
      case (Inl x)
      then show ?thesis using False assms(1,2,5,6) e by (simp add: defs)
    next
      case (Inr r)
      then show ?thesis
        using False assms(1,2,5,6) e by (cases "ar_ok r") (simp_all add: defs json_text_def json_get_def)
    qed
  qed
qed

theorem only_wrong_passwords_are_wrong_witness:
  "dovecot_login (\<lambda>_. []) (sample_world Refuses) ''key'' (\<lambda>_. True) [''/bin/next''] (Some (''bob@b.net'' @ CHR 0x00 # ''bad'' @ [CHR 0x00])) = Exits 1"
proof -
  have b: "case authenticate (sample_world Refuses) (strip ''bob@b.net'') ''bad'' of Inl _ \<Rightarrow> False | Inr r \<Rightarrow> \<not> ar_ok r \<and> ar_failure r = Some BAD_PASSWORD"
    by code_simp
  then obtain r where r: "authenticate (sample_world Refuses) (strip ''bob@b.net'') ''bad'' = Inr r" "\<not> ar_ok r" "ar_failure r = Some BAD_PASSWORD"
    by (auto split: sum.splits)
  have "\<not> auth_temporary r" using r(3) by (simp add: auth_temporary_def TEMPORARY_FAILURES_def)
  moreover have "strip ''bob@b.net'' \<noteq> []" by code_simp
  ultimately show ?thesis
    using only_wrong_passwords_are_wrong [OF _ _ _ _ _ _ refl, of "''bob@b.net''" "''bad''" "[''/bin/next'']" "\<lambda>_. True" "\<lambda>_. []" "sample_world Refuses" "''key''"] r(1,2)
    by (simp add: EXIT_AUTH_FAILED_def)
qed

end
