(* ===== verification/Manage.thy ===== *)
theory Manage
  imports Sieve Maildir Lmtp
begin

text \<open>
  \<open>src/src/lightr/dovecot/manage.py\<close>: writing Dovecot's configuration, checking it, and taking it back. The files on
  disk are a function from paths; what the machine allows, and what \<open>doveconf\<close>, \<open>doveadm\<close> and \<open>sievec\<close>
  say, is a record. The text of the generated files comes from the templates of \<open>dovecot/config.py\<close> and
  is an argument: everything here holds for whatever is generated.
\<close>

section \<open>Files\<close>

record disk_file =
  df_text :: string
  df_mode :: nat
  df_group :: "string option"

type_synonym disk = "path \<Rightarrow> disk_file option"

record generated_file =
  gf_path :: path
  gf_text :: string
  gf_mode :: nat
  gf_group :: "string option"

text \<open>
  Whether a backup, the new file and its mode can be written, and what the programs answer. Copying a backup
  over its file works, or raises and leaves there whatever \<open>mc_torn\<close> says.
\<close>

record machine =
  mc_stamp :: string
  mc_copies :: "path \<Rightarrow> bool"
  mc_writes :: "path \<Rightarrow> bool"
  mc_chmods :: "path \<Rightarrow> bool"
  mc_unlinks :: "path \<Rightarrow> bool"
  mc_torn :: "path \<Rightarrow> disk_file option option"
  mc_groups :: "string \<Rightarrow> bool"
  mc_readable :: "path \<Rightarrow> bool"
  mc_doveadm :: bool
  mc_pw :: "string \<Rightarrow> string option"
  mc_doveconf :: "disk \<Rightarrow> string option"      \<comment> \<open>the problem, if any\<close>
  mc_sievec :: "disk \<Rightarrow> string option"        \<comment> \<open>the warning, if any\<close>
  mc_reload :: "string option"                \<comment> \<open>the failure, if any\<close>

datatype change_action = WRITTEN | UNCHANGED | REMOVED

record change =
  ch_path :: path
  ch_action :: change_action
  ch_backup :: "path option"

datatype install_error =
    FileFailed path
  | ManagementError string
  | RollbackFailed path

record install_report =
  ir_changes :: "change list"
  ir_reloaded :: bool
  ir_warnings :: "string list"
  ir_generated :: "string list"

definition report_changed :: "install_report \<Rightarrow> bool" where
  "report_changed r \<longleftrightarrow> (\<exists>c \<in> set (ir_changes r). ch_action c = WRITTEN)"

definition backup_of :: "machine \<Rightarrow> path \<Rightarrow> path" where
  "backup_of m p = butlast p @ [last p @ ''.lightr-'' @ mc_stamp m @ ''.bak'']"

text \<open>The new content is put in place with the mode of a temporary file, then gets its own (384 and 416 are the modes 600 and 640).\<close>

definition put_in_place :: "machine \<Rightarrow> generated_file \<Rightarrow> path option \<Rightarrow> disk \<Rightarrow> (install_error + change) \<times> disk" where
  "put_in_place m g backup d =
    (let p = gf_path g
     in if \<not> mc_writes m p then (Inl (FileFailed p), d)
        else if \<not> mc_chmods m p then (Inl (FileFailed p), d(p \<mapsto> \<lparr>df_text = gf_text g, df_mode = 384, df_group = None\<rparr>))
        else (Inr \<lparr>ch_path = p, ch_action = WRITTEN, ch_backup = backup\<rparr>,
              d(p \<mapsto> \<lparr>df_text = gf_text g, df_mode = gf_mode g,
                     df_group = (case gf_group g of Some x \<Rightarrow> if mc_groups m x then Some x else None | None \<Rightarrow> None)\<rparr>)))"

definition write_atomic :: "machine \<Rightarrow> generated_file \<Rightarrow> disk \<Rightarrow> (install_error + change) \<times> disk" where
  "write_atomic m g d =
    (let p = gf_path g
     in case d p of
          None \<Rightarrow> put_in_place m g None d
        | Some f \<Rightarrow>
          if df_text f = gf_text g then (Inr \<lparr>ch_path = p, ch_action = UNCHANGED, ch_backup = None\<rparr>, d)
          else if \<not> mc_copies m (backup_of m p) then (Inl (FileFailed p), d)
          else put_in_place m g (Some (backup_of m p)) (d(backup_of m p \<mapsto> f\<lparr>df_group := None\<rparr>)))"

text \<open>
  Copying a backup over the file keeps the file's group; a file that was new goes. Whatever raises here ends
  the rollback, so the changes made before that one stay.
\<close>

definition restore :: "machine \<Rightarrow> change \<Rightarrow> disk \<Rightarrow> install_error option \<times> disk" where
  "restore m c d =
    (let p = ch_path c
     in if ch_action c \<noteq> WRITTEN then (None, d)
        else case Option.bind (ch_backup c) d of
               Some f \<Rightarrow>
                 (case mc_torn m p of
                    Some left \<Rightarrow> (Some (RollbackFailed p), d(p := left))
                  | None \<Rightarrow> (None, d(p \<mapsto> f\<lparr>df_group := (case d p of None \<Rightarrow> None | Some g \<Rightarrow> df_group g)\<rparr>)))
             | None \<Rightarrow>
                 if d p \<noteq> None \<and> \<not> mc_unlinks m p then (Some (RollbackFailed p), d) else (None, d(p := None)))"

fun restore_all :: "machine \<Rightarrow> change list \<Rightarrow> disk \<Rightarrow> install_error option \<times> disk" where
  "restore_all m [] d = (None, d)"
| "restore_all m (c # cs) d =
    (case restore m c d of (Some e, d') \<Rightarrow> (Some e, d') | (None, d') \<Rightarrow> restore_all m cs d')"

definition rollback :: "machine \<Rightarrow> change list \<Rightarrow> disk \<Rightarrow> install_error option \<times> disk" where
  "rollback m cs d = restore_all m (rev cs) d"

text \<open>What the caller sees: the error of the rollback takes the place of the one it answers.\<close>

definition taken_back :: "machine \<Rightarrow> change list \<Rightarrow> install_error \<Rightarrow> disk \<Rightarrow> (install_error + 'r) \<times> disk" where
  "taken_back m cs e d =
    (case rollback m cs d of (Some e', d') \<Rightarrow> (Inl e', d') | (None, d') \<Rightarrow> (Inl e, d'))"

section \<open>The stock include of PAM\<close>

definition blank :: "char \<Rightarrow> bool" where "blank c \<longleftrightarrow> c = CHR '' '' \<or> c = CHR 0x09"

text \<open>\<open>SYSTEM_AUTH_INCLUDE\<close> on one line: the indent and the rest.\<close>

definition system_auth_line :: "string \<Rightarrow> (string \<times> string) option" where
  "system_auth_line line =
    (let indent = takeWhile blank line; rest = dropWhile blank line
     in if \<not> starts_with ''!include'' rest then None
        else let r = drop 8 rest; r = (if starts_with ''_try'' r then drop 4 r else r); name = dropWhile blank r
             in if name \<noteq> r \<and> starts_with ''auth-system.conf.ext'' name \<and> list_all blank (drop 20 name)
                then Some (indent, rest) else None)"

definition system_auth_included :: "string \<Rightarrow> bool" where
  "system_auth_included text \<longleftrightarrow> (\<exists>l \<in> set (split_char LF text). system_auth_line l \<noteq> None)"

definition disable_line :: "string \<Rightarrow> string" where
  "disable_line l =
    (case system_auth_line l of
       None \<Rightarrow> l
     | Some (indent, rest) \<Rightarrow>
         indent @ ''# Disabled by Lightr, which authenticates every login itself.'' @ [LF] @
         indent @ ''# PAM was being tried first on each one. See docs/DEPLOY.md.'' @ [LF] @
         indent @ ''#'' @ rest)"

definition without_system_auth :: "string \<Rightarrow> string" where
  "without_system_auth text = join [LF] (map disable_line (split_char LF text))"

section \<open>Installing\<close>

record dovecot_settings =
  ds_internal_key :: string
  ds_master_user :: string
  ds_master_password :: string

definition has_master_user :: "dovecot_settings \<Rightarrow> bool" where
  "has_master_user s \<longleftrightarrow> ds_master_user s \<noteq> [] \<and> ds_master_password s \<noteq> []"

definition DOVECOT_CONF_DIR :: path where "DOVECOT_CONF_DIR = [''etc'', ''dovecot'']"
definition AUTH_CONF :: path where "AUTH_CONF = [''conf.d'', ''10-auth.conf'']"
definition RETIRED :: "string list" where "RETIRED = [''lightr-auth.lua'']"
definition DEFAULT_MASTER_USER :: string where "DEFAULT_MASTER_USER = ''lightr-master''"
definition DOVECOT_GROUP :: string where "DOVECOT_GROUP = ''dovecot''"

definition retarget :: "path \<Rightarrow> path \<Rightarrow> path" where
  "retarget dir p =
    (if dir = DOVECOT_CONF_DIR then p
     else dir @ (if take (length DOVECOT_CONF_DIR) p = DOVECOT_CONF_DIR then drop (length DOVECOT_CONF_DIR) p else [last p]))"

text \<open>What an installation does step by step: the changes so far and the files, or what went wrong.\<close>

type_synonym staged = "change list \<times> disk"

definition write_one :: "machine \<Rightarrow> generated_file \<Rightarrow> staged \<Rightarrow> install_error option \<times> staged" where
  "write_one m g st =
    (case st of (cs, d) \<Rightarrow> (case write_atomic m g d of (Inl e, d') \<Rightarrow> (Some e, cs, d') | (Inr c, d') \<Rightarrow> (None, cs @ [c], d')))"

fun write_files :: "machine \<Rightarrow> generated_file list \<Rightarrow> staged \<Rightarrow> install_error option \<times> staged" where
  "write_files m [] st = (None, st)"
| "write_files m (g # gs) st =
    (case write_one m g st of (Some e, st') \<Rightarrow> (Some e, st') | (None, st') \<Rightarrow> write_files m gs st')"

definition master_users_file :: "path \<Rightarrow> dovecot_settings \<Rightarrow> string \<Rightarrow> generated_file" where
  "master_users_file dir s digest =
    \<lparr>gf_path = dir @ [''master-users''], gf_text = ds_master_user s @ '':'' @ digest @ [LF], gf_mode = 416, gf_group = Some DOVECOT_GROUP\<rparr>"

definition write_master_user :: "machine \<Rightarrow> path \<Rightarrow> dovecot_settings \<Rightarrow> staged \<Rightarrow> install_error option \<times> staged" where
  "write_master_user m dir s st =
    (if \<not> has_master_user s then (None, st)
     else case mc_pw m (ds_master_password s) of
            None \<Rightarrow> (Some (ManagementError ''could not hash the master password''), st)
          | Some digest \<Rightarrow> write_one m (master_users_file dir s digest) st)"

definition remove_one :: "machine \<Rightarrow> path \<Rightarrow> staged \<Rightarrow> staged" where
  "remove_one m p st =
    (case st of (cs, d) \<Rightarrow>
       if d p = None \<or> \<not> mc_unlinks m p then st
       else (cs @ [\<lparr>ch_path = p, ch_action = REMOVED, ch_backup = None\<rparr>], d(p := None)))"

definition remove_retired :: "machine \<Rightarrow> path \<Rightarrow> staged \<Rightarrow> staged" where
  "remove_retired m dir st = foldl (\<lambda>st n. remove_one m (dir @ [n]) st) st RETIRED"

definition disable_system_auth :: "machine \<Rightarrow> path \<Rightarrow> staged \<Rightarrow> install_error option \<times> staged" where
  "disable_system_auth m dir st =
    (case snd st (dir @ AUTH_CONF) of
       None \<Rightarrow> (None, st)
     | Some f \<Rightarrow>
       if \<not> system_auth_included (df_text f) then (None, st)
       else write_one m \<lparr>gf_path = dir @ AUTH_CONF, gf_text = without_system_auth (df_text f), gf_mode = df_mode f, gf_group = None\<rparr> st)"

definition stage :: "machine \<Rightarrow> path \<Rightarrow> dovecot_settings \<Rightarrow> generated_file list \<Rightarrow> staged \<Rightarrow> install_error option \<times> staged" where
  "stage m dir s gs st =
    (case write_files m (map (\<lambda>g. g\<lparr>gf_path := retarget dir (gf_path g)\<rparr>) gs) st of
       (Some e, st') \<Rightarrow> (Some e, st')
     | (None, st') \<Rightarrow>
       (case write_master_user m dir s st' of
          (Some e, st') \<Rightarrow> (Some e, st')
        | (None, st') \<Rightarrow> disable_system_auth m dir (remove_retired m dir st')))"

definition install_dovecot ::
  "machine \<Rightarrow> path \<Rightarrow> dovecot_settings \<Rightarrow> generated_file list \<Rightarrow> bool \<Rightarrow> install_report \<Rightarrow> disk \<Rightarrow> (install_error + install_report) \<times> disk" where
  "install_dovecot m dir s gs reload report d =
    (case stage m dir s gs (ir_changes report, d) of
       (Some e, cs, d') \<Rightarrow> taken_back m cs e d'
     | (None, cs, d') \<Rightarrow>
       let report = report\<lparr>ir_changes := cs\<rparr>
       in if \<not> report_changed report then (Inr report, d')
          else case mc_doveconf m d' of
                 Some problem \<Rightarrow> taken_back m cs (ManagementError problem) d'
               | None \<Rightarrow>
                 let report = report\<lparr>ir_warnings := ir_warnings report @ (case mc_sievec m d' of None \<Rightarrow> [] | Some w \<Rightarrow> [w])\<rparr>
                 in (Inr (if \<not> reload then report
                          else case mc_reload m of
                                 None \<Rightarrow> report\<lparr>ir_reloaded := True\<rparr>
                               | Some w \<Rightarrow> report\<lparr>ir_warnings := ir_warnings report @ [w]\<rparr>), d'))"

section \<open>Converging and reporting\<close>

text \<open>The secrets that are missing, made up; the names of what was.\<close>

definition fill_in_gaps :: "string \<Rightarrow> string \<Rightarrow> dovecot_settings \<Rightarrow> dovecot_settings \<times> string list" where
  "fill_in_gaps fresh_key fresh_password s =
    (let s1 = (if ds_internal_key s = [] then s\<lparr>ds_internal_key := fresh_key\<rparr> else s);
         s2 = (if has_master_user s1 then s1 else s1\<lparr>ds_master_user := DEFAULT_MASTER_USER, ds_master_password := fresh_password\<rparr>)
     in (s2, (if ds_internal_key s = [] then [''internal auth key''] else []) @ (if has_master_user s1 then [] else [''master user''])))"

text \<open>
  \<open>reconcile\<close>: with whether the settings are to be saved and whether that works. A failed installation is
  a warning; what it wrote has been taken back, but its changes stay in the report.
\<close>

definition reconcile ::
  "machine \<Rightarrow> path \<Rightarrow> (dovecot_settings \<Rightarrow> generated_file list) \<Rightarrow> string \<Rightarrow> string \<Rightarrow> bool option \<Rightarrow> dovecot_settings \<Rightarrow> disk \<Rightarrow>
   install_report \<times> dovecot_settings \<times> disk" where
  "reconcile m dir generate fresh_key fresh_password saving s d =
    (case fill_in_gaps fresh_key fresh_password s of (s', missing) \<Rightarrow>
       let report0 = \<lparr>ir_changes = [], ir_reloaded = False, ir_warnings = [], ir_generated = []\<rparr>;
           report = (if missing = [] \<or> saving = None then report0
             else if saving = Some True then report0\<lparr>ir_generated := missing\<rparr>
             else report0\<lparr>ir_warnings := [''generated secrets but could not save them'']\<rparr>)
       in if \<not> mc_doveadm m then (report\<lparr>ir_warnings := ir_warnings report @ [''doveadm was not found'']\<rparr>, s', d)
          else case install_dovecot m dir s' (generate s') True report d of
                 (Inr r, d') \<Rightarrow> (r, s', d')
               | (Inl e, d') \<Rightarrow>
                 (report\<lparr>ir_changes := fst (snd (stage m dir s' (generate s') (ir_changes report, d))),
                    ir_warnings := ir_warnings report @ [''could not configure Dovecot'']\<rparr>, s', d'))"

record drift =
  dr_stale :: "string list"
  dr_unverifiable :: "string list"

definition drift_of :: "machine \<Rightarrow> path \<Rightarrow> generated_file list option \<Rightarrow> disk \<Rightarrow> drift" where
  "drift_of m dir generated d =
    (case generated of
       None \<Rightarrow> \<lparr>dr_stale = [''(Dovecot has never been configured)''], dr_unverifiable = []\<rparr>
     | Some gs \<Rightarrow>
       (let targets = map (\<lambda>g. (retarget dir (gf_path g), gf_text g)) gs
        in \<lparr>dr_stale = map (\<lambda>(p, _). last p) (filter (\<lambda>(p, t). case d p of None \<Rightarrow> True
               | Some f \<Rightarrow> mc_readable m p \<and> df_text f \<noteq> t) targets),
            dr_unverifiable = map (\<lambda>(p, _). last p) (filter (\<lambda>(p, _). d p \<noteq> None \<and> \<not> mc_readable m p) targets)\<rparr>))"

section \<open>Taking an installation back\<close>

text \<open>The same content with the same mode.\<close>

definition same_file :: "disk_file option \<Rightarrow> disk_file option \<Rightarrow> bool" where
  "same_file f g \<longleftrightarrow> map_option (\<lambda>x. (df_text x, df_mode x)) f = map_option (\<lambda>x. (df_text x, df_mode x)) g"

definition written_paths :: "change list \<Rightarrow> path set" where
  "written_paths cs = ch_path ` {c \<in> set cs. ch_action c = WRITTEN}"

definition backup_paths :: "machine \<Rightarrow> path set" where
  "backup_paths m = {backup_of m p |p. p \<noteq> []}"

lemma same_file_refl [simp]: "same_file f f"
  by (simp add: same_file_def)

lemma same_file_None [simp]: "same_file None f \<longleftrightarrow> f = None" "same_file f None \<longleftrightarrow> f = None"
  by (auto simp: same_file_def)

lemma same_file_group [simp]: "same_file (Some (f\<lparr>df_group := x\<rparr>)) v \<longleftrightarrow> same_file (Some f) v"
  by (simp add: same_file_def)

lemma backup_inj:
  assumes "p \<noteq> []" and "q \<noteq> []" and "backup_of m p = backup_of m q"
  shows "p = q"
proof -
  have "butlast p = butlast q" "last p = last q" using assms(3) by (simp_all add: backup_of_def)
  then show ?thesis using assms(1,2) append_butlast_last_id [of p] append_butlast_last_id [of q] by metis
qed

lemma written_paths_simps [simp]:
  "written_paths [] = {}"
  "written_paths (c # cs) = (if ch_action c = WRITTEN then insert (ch_path c) (written_paths cs) else written_paths cs)"
  "written_paths (cs @ cs') = written_paths cs \<union> written_paths cs'"
  by (auto simp: written_paths_def)

lemma restore_all_append:
  "restore_all m (cs @ cs') d =
    (case restore_all m cs d of (Some e, d') \<Rightarrow> (Some e, d') | (None, d') \<Rightarrow> restore_all m cs' d')"
  by (induction cs arbitrary: d) (auto split: prod.splits option.splits)

lemma rollback_Nil [simp]: "rollback m [] d = (None, d)"
  by (simp add: rollback_def)

lemma rollback_Cons:
  "rollback m (c # cs) d = (case rollback m cs d of (Some e, d') \<Rightarrow> (Some e, d') | (None, d') \<Rightarrow> restore m c d')"
  by (auto simp: rollback_def restore_all_append split: prod.splits option.splits)

lemma rollback_ConsE:
  assumes "rollback m (c # cs) d = (None, d')"
  obtains d1 where "rollback m cs d = (None, d1)" "restore m c d1 = (None, d')"
  using assms by (auto simp: rollback_Cons split: prod.splits option.splits)

lemma restore_elsewhere: "restore m c d = (None, d') \<Longrightarrow> q \<notin> written_paths [c] \<Longrightarrow> d' q = d q"
  by (auto simp: restore_def Let_def split: option.splits if_splits)

lemma rollback_elsewhere: "rollback m cs d = (None, d') \<Longrightarrow> q \<notin> written_paths cs \<Longrightarrow> d' q = d q"
proof (induction cs arbitrary: d')
  case (Cons c cs)
  from Cons.prems(1) obtain d1 where d1: "rollback m cs d = (None, d1)" "restore m c d1 = (None, d')" by (rule rollback_ConsE)
  have "q \<notin> written_paths cs" "q \<notin> written_paths [c]" using Cons.prems(2) by (auto split: if_splits)
  with restore_elsewhere [OF d1(2)] Cons.IH [OF d1(1)] show ?case by simp
qed simp

text \<open>What the rollback puts at a path, when what it copies from is not itself rewritten.\<close>

lemma rollback_value:
  assumes "rollback m cs d = (None, d')"
    and "\<forall>c \<in> set cs. ch_action c = WRITTEN \<longrightarrow> ch_path c = q \<longrightarrow>
      (case ch_backup c of None \<Rightarrow> v = None | Some b \<Rightarrow> d b \<noteq> None \<and> same_file (d b) v)"
    and "\<forall>c \<in> set cs. \<forall>b. ch_backup c = Some b \<longrightarrow> b \<notin> written_paths cs"
    and "q \<notin> written_paths cs \<Longrightarrow> same_file (d q) v"
  shows "same_file (d' q) v"
  using assms
proof (induction cs arbitrary: d')
  case (Cons c cs)
  from Cons.prems(1) obtain d1 where d1: "rollback m cs d = (None, d1)" "restore m c d1 = (None, d')" by (rule rollback_ConsE)
  have later: "\<forall>c \<in> set cs. \<forall>b. ch_backup c = Some b \<longrightarrow> b \<notin> written_paths cs"
    using Cons.prems(3) by (auto split: if_splits)
  show ?case
  proof (cases "ch_action c = WRITTEN \<and> ch_path c = q")
    case True
    show ?thesis
    proof (cases "ch_backup c")
      case None
      then have "v = None" using True Cons.prems(2) by simp
      then show ?thesis using None True d1(2) by (auto simp: restore_def Let_def split: if_splits)
    next
      case (Some b)
      then have "d1 b = d b"
        using Cons.prems(3) by (intro rollback_elsewhere [OF d1(1)]) (auto split: if_splits)
      moreover obtain f where "d b = Some f" "same_file (Some f) v" using Cons.prems(2) True Some by auto
      ultimately show ?thesis using True Some d1(2) by (auto simp: restore_def Let_def split: option.splits)
    qed
  next
    case False
    then have "d' q = d1 q" by (intro restore_elsewhere [OF d1(2)]) auto
    moreover have "same_file (d1 q) v"
      using Cons.IH [OF d1(1)] later Cons.prems(2,4) False by auto
    ultimately show ?thesis by simp
  qed
qed simp

lemma taken_back_Inr [simp]: "taken_back m cs e d \<noteq> (Inr r, d')" "(Inr r, d') \<noteq> taken_back m cs e d"
  by (auto simp: taken_back_def split: prod.splits option.splits)

lemma taken_back_Inl:
  assumes "taken_back m cs e d = (Inl e', d')" and "\<forall>p. e' \<noteq> RollbackFailed p"
  shows "rollback m cs d = (None, d')"
  using assms
proof (cases "rollback m cs d")
  case (Pair x d1)
  have "\<exists>p. x = Some (RollbackFailed p)" if "x \<noteq> None"
  proof -
    have "restore_all m cs' d2 = (Some y, d3) \<Longrightarrow> \<exists>p. y = RollbackFailed p" for cs' d2 y d3
      by (induction cs' arbitrary: d2) (auto simp: restore_def Let_def split: prod.splits option.splits if_splits)
    with Pair that show ?thesis by (auto simp: rollback_def)
  qed
  with Pair assms show ?thesis by (auto simp: taken_back_def split: option.splits)
qed

text \<open>
  What holds between the steps of an installation that began with \<open>d0\<close>: what was written can be put
  back from its backup, and nothing else is different but backups and the retired files \<open>R\<close>.
\<close>

definition restorable :: "machine \<Rightarrow> disk \<Rightarrow> disk \<Rightarrow> change \<Rightarrow> bool" where
  "restorable m d0 d c \<longleftrightarrow>
    (if ch_action c \<noteq> WRITTEN then ch_backup c = None
     else ch_path c \<noteq> [] \<and>
       (case ch_backup c of
          None \<Rightarrow> d0 (ch_path c) = None
        | Some b \<Rightarrow> b = backup_of m (ch_path c) \<and> d b \<noteq> None \<and> same_file (d b) (d0 (ch_path c))))"

definition undoable :: "machine \<Rightarrow> path set \<Rightarrow> disk \<Rightarrow> path set \<Rightarrow> staged \<Rightarrow> bool" where
  "undoable m R d0 W st \<longleftrightarrow>
    written_paths (fst st) \<subseteq> W \<and> W \<inter> backup_paths m = {} \<and>
    (\<forall>c \<in> set (fst st). restorable m d0 (snd st) c) \<and>
    (\<forall>q. q \<notin> backup_paths m \<and> q \<notin> R \<and> q \<notin> written_paths (fst st) \<longrightarrow> snd st q = d0 q)"

lemma undoable_start: "W \<inter> backup_paths m = {} \<Longrightarrow> undoable m R d W ([], d)"
  by (simp add: undoable_def)

lemma restorable_backup: "restorable m d0 d c \<Longrightarrow> ch_backup c = Some b \<Longrightarrow> b \<in> backup_paths m"
  by (auto simp: restorable_def backup_paths_def split: if_splits)

lemma restorable_elsewhere:
  "ch_action c = WRITTEN \<Longrightarrow> backup_of m (ch_path c) \<noteq> q \<Longrightarrow> restorable m d0 (d(q := x)) c = restorable m d0 d c"
  by (auto simp: restorable_def split: option.splits)

lemma restorable_unwritten: "ch_action c \<noteq> WRITTEN \<Longrightarrow> restorable m d0 d c \<longleftrightarrow> ch_backup c = None"
  by (simp add: restorable_def)

lemma undoable_rollback:
  assumes "undoable m R d0 W (cs, d)" and "q \<notin> backup_paths m" and "q \<notin> R" and "rollback m cs d = (None, d')"
  shows "same_file (d' q) (d0 q)"
proof (rule rollback_value [OF assms(4)])
  have ok: "\<forall>c \<in> set cs. restorable m d0 d c" using assms(1) by (simp add: undoable_def)
  then show "\<forall>c \<in> set cs. ch_action c = WRITTEN \<longrightarrow> ch_path c = q \<longrightarrow>
      (case ch_backup c of None \<Rightarrow> d0 q = None | Some b \<Rightarrow> d b \<noteq> None \<and> same_file (d b) (d0 q))"
  proof (intro ballI impI)
    fix c assume "c \<in> set cs" "ch_action c = WRITTEN" "ch_path c = q"
    moreover then have "restorable m d0 d c" using ok by simp
    ultimately show "case ch_backup c of None \<Rightarrow> d0 q = None | Some b \<Rightarrow> d b \<noteq> None \<and> same_file (d b) (d0 q)"
      by (simp add: restorable_def split: option.splits)
  qed
  have "written_paths cs \<inter> backup_paths m = {}" using assms(1) by (auto simp: undoable_def)
  then show "\<forall>c \<in> set cs. \<forall>b. ch_backup c = Some b \<longrightarrow> b \<notin> written_paths cs"
    using ok restorable_backup by blast
  show "q \<notin> written_paths cs \<Longrightarrow> same_file (d q) (d0 q)"
    using assms by (simp add: undoable_def)
qed

lemma restorable_update:
  assumes "restorable m d0 d c" and "ch_action c = WRITTEN \<Longrightarrow> backup_of m (ch_path c) \<noteq> q"
  shows "restorable m d0 (d(q := x)) c"
  using assms by (cases "ch_action c = WRITTEN") (simp_all add: restorable_elsewhere restorable_unwritten)

text \<open>One more file, at a path not written before.\<close>

lemma undoable_backed_up:
  assumes "undoable m R d0 W (cs, d)" and "p \<noteq> []" and "p \<notin> W"
  shows "undoable m R d0 W (cs, d(backup_of m p := x))"
proof -
  have "restorable m d0 (d(backup_of m p := x)) c" if c: "c \<in> set cs" for c
  proof (rule restorable_update)
    show ok: "restorable m d0 d c" using assms(1) c by (simp add: undoable_def)
    assume w: "ch_action c = WRITTEN"
    then have "ch_path c \<noteq> p" using assms(1,3) c by (auto simp: undoable_def written_paths_def)
    moreover have "ch_path c \<noteq> []" using ok w by (simp add: restorable_def)
    ultimately show "backup_of m (ch_path c) \<noteq> backup_of m p" using backup_inj assms(2) by blast
  qed
  moreover have "backup_of m p \<in> backup_paths m" using assms(2) by (auto simp: backup_paths_def)
  ultimately show ?thesis using assms(1) by (auto simp: undoable_def)
qed

lemma undoable_put:
  assumes "undoable m R d0 W (cs, d)" and "p \<noteq> []" and "p \<notin> backup_paths m"
    and c: "ch_path c = p" "ch_action c = WRITTEN" and "restorable m d0 d c"
  shows "undoable m R d0 (insert p W) (cs @ [c], d(p := x))"
proof -
  have "restorable m d0 (d(p := x)) c'" if "restorable m d0 d c'" for c'
    using that assms(3) by (intro restorable_update) (auto simp: restorable_def backup_paths_def)
  then show ?thesis using assms by (auto simp: undoable_def)
qed


lemma put_in_place_chmods:
  assumes "\<forall>p. mc_chmods m p"
  shows "put_in_place m g b d = (Inl e, d') \<Longrightarrow> d' = d"
    "put_in_place m g b d = (Inr c, d') \<Longrightarrow> c = \<lparr>ch_path = gf_path g, ch_action = WRITTEN, ch_backup = b\<rparr> \<and>
       (\<exists>x. d' = d(gf_path g \<mapsto> x) \<and> df_text x = gf_text g)"
  using assms by (auto simp: put_in_place_def Let_def split: if_splits)

lemma undoable_write:
  assumes chmods: "\<forall>p. mc_chmods m p" and u: "undoable m R d0 W (cs, d)"
    and p: "gf_path g \<noteq> []" "gf_path g \<notin> W" "gf_path g \<notin> backup_paths m" "gf_path g \<notin> R"
    and w: "write_one m g (cs, d) = (e, st)"
  shows "undoable m R d0 (insert (gf_path g) W) st"
proof -
  let ?p = "gf_path g"
  let ?W = "insert ?p W"
  have d0: "d ?p = d0 ?p" using u p by (auto simp: undoable_def)
  have wider: "undoable m R d0 ?W (cs, d)" if "undoable m R d0 W (cs, d)" for d
    using that p(3) by (auto simp: undoable_def)
  have put: "undoable m R d0 ?W (case r of (Inl e, d') \<Rightarrow> (cs, d') | (Inr c, d') \<Rightarrow> (cs @ [c], d'))"
    if r: "r = put_in_place m g b d1" and u1: "undoable m R d0 W (cs, d1)"
      and b: "restorable m d0 d1 \<lparr>ch_path = ?p, ch_action = WRITTEN, ch_backup = b\<rparr>" for r b d1
  proof -
    obtain a d2 where a: "put_in_place m g b d1 = (a, d2)" by (cases "put_in_place m g b d1")
    show ?thesis
    proof (cases a)
      case (Inl e)
      then show ?thesis using put_in_place_chmods(1) [OF chmods, of g b d1] a r wider [OF u1] by simp
    next
      case (Inr c)
      then show ?thesis using put_in_place_chmods(2) [OF chmods, of g b d1] a r undoable_put [OF u1 p(1,3) _ _ b] by auto
    qed
  qed
  show ?thesis
  proof (cases "d ?p")
    case None
    then show ?thesis using w put [OF refl u, of None] d0 p(1)
      by (auto simp: write_one_def write_atomic_def Let_def restorable_def split: prod.splits sum.splits)
  next
    case (Some f)
    let ?d = "d(backup_of m ?p \<mapsto> f\<lparr>df_group := None\<rparr>)"
    have u1: "undoable m R d0 W (cs, ?d)" using undoable_backed_up [OF u p(1,2)] .
    have unchanged: "undoable m R d0 ?W (cs @ [\<lparr>ch_path = ?p, ch_action = UNCHANGED, ch_backup = None\<rparr>], d)"
      using wider [OF u] by (auto simp: undoable_def restorable_def)
    show ?thesis using Some w put [OF refl u1, of "Some (backup_of m ?p)"] d0 p(1) unchanged wider [OF u]
      by (auto simp: write_one_def write_atomic_def Let_def restorable_def split: prod.splits sum.splits if_splits)
  qed
qed

lemma undoable_files:
  assumes "\<forall>p. mc_chmods m p" and "undoable m R d0 W st"
    and "distinct (map gf_path gs)" and "set (map gf_path gs) \<inter> (W \<union> backup_paths m \<union> R \<union> {[]}) = {}"
    and "write_files m gs st = (e, st')"
  shows "undoable m R d0 (set (map gf_path gs) \<union> W) st'"
  using assms(2-)
proof (induction gs arbitrary: st W)
  case (Cons g gs)
  obtain e1 st1 where w: "write_one m g st = (e1, st1)" by (cases "write_one m g st")
  have u1: "undoable m R d0 (insert (gf_path g) W) st1"
    using undoable_write [OF assms(1), of R d0 W "fst st" "snd st" g e1 st1] Cons.prems w by auto
  show ?case
  proof (cases e1)
    case None
    then show ?thesis using Cons.IH [OF u1] Cons.prems w by auto
  next
    case (Some e)
    have "set (map gf_path (g # gs)) \<inter> backup_paths m = {}" using Cons.prems(3) by auto
    then show ?thesis using Some Cons.prems(4) w u1 by (auto simp: undoable_def)
  qed
qed simp


definition retired_paths :: "path \<Rightarrow> path set" where
  "retired_paths dir = (\<lambda>n. dir @ [n]) ` set RETIRED"

text \<open>Where the files of an installation go: each to a place of its own, and none to a backup's.\<close>

definition own_places :: "machine \<Rightarrow> path \<Rightarrow> generated_file list \<Rightarrow> bool" where
  "own_places m dir gs \<longleftrightarrow>
    (let targets = map (\<lambda>g. retarget dir (gf_path g)) gs
     in distinct targets \<and> list_all (\<lambda>p. p \<noteq> [] \<and> p \<noteq> dir @ [''master-users''] \<and> p \<noteq> dir @ AUTH_CONF \<and>
          p \<notin> retired_paths dir \<and> \<not> ends_with (''.lightr-'' @ mc_stamp m @ ''.bak'') (last p)) targets)"

lemma backup_paths_last: "p \<in> backup_paths m \<Longrightarrow> last (last p) = CHR ''k'' \<and> ends_with (''.lightr-'' @ mc_stamp m @ ''.bak'') (last p)"
  by (auto simp: backup_paths_def backup_of_def ends_with_iff)

lemma undoable_remove:
  assumes "undoable m R d0 W st" and "p \<in> R" and "p \<notin> backup_paths m"
  shows "undoable m R d0 W (remove_one m p st)"
proof -
  have "restorable m d0 ((snd st)(p := None)) c" if "c \<in> set (fst st)" for c
  proof (rule restorable_update)
    show ok: "restorable m d0 (snd st) c" using assms(1) that by (simp add: undoable_def)
    show "ch_action c = WRITTEN \<Longrightarrow> backup_of m (ch_path c) \<noteq> p"
      using ok assms(3) by (auto simp: restorable_def backup_paths_def)
  qed
  then show ?thesis using assms
    by (cases st) (auto simp: undoable_def remove_one_def restorable_unwritten)
qed

lemma undoable_stage:
  assumes chmods: "\<forall>p. mc_chmods m p" and places: "own_places m dir gs"
    and s: "stage m dir s gs ([], d) = (e, cs, d')"
  shows "\<exists>W. undoable m (retired_paths dir) d W (cs, d')"
proof -
  let ?R = "retired_paths dir"
  let ?gs = "map (\<lambda>g. g\<lparr>gf_path := retarget dir (gf_path g)\<rparr>) gs"
  let ?W = "set (map gf_path ?gs)"
  let ?M = "dir @ [''master-users'']" and ?A = "dir @ AUTH_CONF"
  have R: "?R \<inter> backup_paths m = {}"
    using backup_paths_last by (fastforce simp: retired_paths_def RETIRED_def)
  have M: "?M \<notin> backup_paths m" "?M \<notin> ?R" "?A \<notin> backup_paths m" "?A \<notin> ?R" "?M \<noteq> ?A"
    using backup_paths_last [of ?M m] backup_paths_last [of ?A m] by (auto simp: retired_paths_def RETIRED_def AUTH_CONF_def)
  have W: "distinct (map gf_path ?gs)" "?W \<inter> ({} \<union> backup_paths m \<union> ?R \<union> {[]}) = {}" "?M \<notin> ?W" "?A \<notin> ?W"
    using places backup_paths_last by (fastforce simp: own_places_def Let_def list_all_iff comp_def)+
  obtain e1 st1 where f: "write_files m ?gs ([], d) = (e1, st1)" by (cases "write_files m ?gs ([], d)")
  have u1: "undoable m ?R d ?W st1"
    using undoable_files [OF chmods undoable_start W(1,2) f] by simp
  show ?thesis
  proof (cases e1)
    case (Some e1')
    then show ?thesis using f s u1 by (auto simp: stage_def)
  next
    case None
    obtain e2 st2 where g: "write_master_user m dir s st1 = (e2, st2)" by (cases "write_master_user m dir s st1")
    have u2: "undoable m ?R d (insert ?M ?W) st2"
    proof (cases "st2 = st1")
      case True
      then show ?thesis using u1 M by (auto simp: undoable_def)
    next
      case False
      then obtain digest where "write_one m (master_users_file dir s digest) (fst st1, snd st1) = (e2, st2)"
        using g by (auto simp: write_master_user_def split: if_splits option.splits)
      from undoable_write [OF chmods _ _ _ _ _ this, of ?R d ?W] u1 M(1,2) W(3)
      show ?thesis by (simp add: master_users_file_def)
    qed
    have u3: "undoable m ?R d (insert ?M ?W) (remove_retired m dir st2)"
      using undoable_remove [OF u2] R by (auto simp: remove_retired_def RETIRED_def retired_paths_def)
    obtain e4 st4 where h: "disable_system_auth m dir (remove_retired m dir st2) = (e4, st4)"
      by (cases "disable_system_auth m dir (remove_retired m dir st2)")
    have u4: "\<exists>W. undoable m ?R d W st4"
    proof (cases "st4 = remove_retired m dir st2")
      case False
      then obtain t md where
        "write_one m \<lparr>gf_path = ?A, gf_text = t, gf_mode = md, gf_group = None\<rparr>
           (fst (remove_retired m dir st2), snd (remove_retired m dir st2)) = (e4, st4)"
        using h by (auto simp: disable_system_auth_def split: if_splits option.splits)
      from undoable_write [OF chmods _ _ _ _ _ this, of ?R d "insert ?M ?W"] u3 M(3,4,5) W(4)
      show ?thesis by (auto simp: AUTH_CONF_def)
    qed (use u3 in blast)
    then show ?thesis using s f g h None u2 by (cases e2) (auto simp: stage_def)
  qed
qed


definition demo_machine :: machine where
  "demo_machine =
    \<lparr>mc_stamp = ''20250101000000'', mc_copies = (\<lambda>p. True), mc_writes = (\<lambda>p. True), mc_chmods = (\<lambda>p. True), mc_unlinks = (\<lambda>p. True), mc_torn = (\<lambda>p. None),
     mc_groups = (\<lambda>g. True), mc_readable = (\<lambda>p. True), mc_doveadm = True, mc_pw = (\<lambda>p. Some p), mc_doveconf = (\<lambda>d. Some ''bad''),
     mc_sievec = (\<lambda>d. None), mc_reload = None\<rparr>"

definition demo_generated :: "generated_file list" where
  "demo_generated = [\<lparr>gf_path = [''etc'', ''dovecot'', ''x''], gf_text = ''new'', gf_mode = 420, gf_group = None\<rparr>]"

definition demo_disk :: disk where
  "demo_disk = [[''etc'', ''dovecot'', ''x''] \<mapsto> \<lparr>df_text = ''old'', df_mode = 384, df_group = None\<rparr>]"

definition demo_settings :: dovecot_settings where
  "demo_settings = \<lparr>ds_internal_key = ''k'', ds_master_user = [], ds_master_password = []\<rparr>"

definition empty_report :: install_report where
  "empty_report = \<lparr>ir_changes = [], ir_reloaded = False, ir_warnings = [], ir_generated = []\<rparr>"

lemma demo_places: "own_places (demo_machine\<lparr>mc_doveconf := c\<rparr>) DOVECOT_CONF_DIR demo_generated"
  by (simp add: own_places_def demo_generated_def demo_machine_def retarget_def retired_paths_def RETIRED_def
      DOVECOT_CONF_DIR_def AUTH_CONF_def ends_with_def starts_with_def)

text \<open>
  C9. A failed installation is undone: every file but the backups and the retired script has its content and
  mode again, whatever went wrong, unless the rollback itself failed, which is an error of its own.
\<close>

theorem failed_install_is_undone:
  assumes "\<forall>p. mc_chmods m p" and "own_places m dir gs" and "ir_changes report = []"
    and "install_dovecot m dir s gs reload report d = (Inl e, d')" and "\<forall>p. e \<noteq> RollbackFailed p"
    and "q \<notin> backup_paths m" and "q \<notin> retired_paths dir"
  shows "same_file (d' q) (d q)"
proof -
  obtain e1 cs d1 where s: "stage m dir s gs ([], d) = (e1, cs, d1)" by (cases "stage m dir s gs ([], d)")
  obtain W where u: "undoable m (retired_paths dir) d W (cs, d1)" using undoable_stage [OF assms(1,2) s] by blast
  obtain e2 where "taken_back m cs e2 d1 = ((Inl e, d') :: (install_error + install_report) \<times> disk)"
    using assms(3,4) s by (auto simp: install_dovecot_def Let_def split: option.splits if_splits)
  from taken_back_Inl [OF this assms(5)] show ?thesis by (rule undoable_rollback [OF u assms(6,7)])
qed


theorem failed_install_is_undone_witness:
  "same_file (snd (install_dovecot demo_machine DOVECOT_CONF_DIR demo_settings demo_generated True empty_report demo_disk)
      [''etc'', ''dovecot'', ''x'']) (Some \<lparr>df_text = ''old'', df_mode = 384, df_group = None\<rparr>)"
proof -
  let ?q = "[''etc'', ''dovecot'', ''x'']"
  let ?i = "install_dovecot demo_machine DOVECOT_CONF_DIR demo_settings demo_generated True empty_report demo_disk"
  have "fst ?i = Inl (ManagementError ''bad'')"
    by code_simp
  then have i: "?i = (Inl (ManagementError ''bad''), snd ?i)" by (metis prod.collapse)
  have places: "own_places demo_machine DOVECOT_CONF_DIR demo_generated"
    using demo_places [of "mc_doveconf demo_machine"] by simp
  have "?q \<notin> backup_paths demo_machine" using backup_paths_last [of ?q demo_machine] by auto
  moreover have "?q \<notin> retired_paths DOVECOT_CONF_DIR"
    by (simp add: retired_paths_def RETIRED_def DOVECOT_CONF_DIR_def)
  moreover have "demo_disk ?q = Some \<lparr>df_text = ''old'', df_mode = 384, df_group = None\<rparr>" by (simp add: demo_disk_def)
  ultimately show ?thesis
    using failed_install_is_undone [OF _ places _ i _, of ?q] by (simp add: demo_machine_def empty_report_def)
qed

text \<open>
  The premises are needed. The retired script is gone after a rejected installation, and a file whose
  mode could not be set keeps the new text: it is no change of the report yet, so nothing restores it.
\<close>

lemma retired_script_is_lost:
  "snd (install_dovecot demo_machine DOVECOT_CONF_DIR demo_settings demo_generated True empty_report
      (demo_disk([''etc'', ''dovecot'', ''lightr-auth.lua''] \<mapsto> \<lparr>df_text = ''k'', df_mode = 416, df_group = None\<rparr>)))
     [''etc'', ''dovecot'', ''lightr-auth.lua''] = None"
  by code_simp

lemma unset_mode_is_not_undone:
  "snd (install_dovecot (demo_machine\<lparr>mc_chmods := \<lambda>p. False\<rparr>) DOVECOT_CONF_DIR demo_settings demo_generated True empty_report
      demo_disk) [''etc'', ''dovecot'', ''x''] = Some \<lparr>df_text = ''new'', df_mode = 384, df_group = None\<rparr>"
  by code_simp

text \<open>
  A rollback that cannot put one file back stops there: the files written before that one keep the rejected
  text, and the error of the copy is reported in place of what Dovecot said.
\<close>

lemma rollback_stops_at_a_failure:
  "install_dovecot (demo_machine\<lparr>mc_torn := (\<lambda>p. if last p = ''y'' then Some None else None)\<rparr>) DOVECOT_CONF_DIR demo_settings
      (demo_generated @ [\<lparr>gf_path = [''etc'', ''dovecot'', ''y''], gf_text = ''new'', gf_mode = 420, gf_group = None\<rparr>]) True empty_report
      (demo_disk([''etc'', ''dovecot'', ''y''] \<mapsto> \<lparr>df_text = ''old'', df_mode = 384, df_group = None\<rparr>)) = (i, d') \<Longrightarrow>
    i = Inl (RollbackFailed [''etc'', ''dovecot'', ''y'']) \<and> d' [''etc'', ''dovecot'', ''y''] = None \<and>
    d' [''etc'', ''dovecot'', ''x''] = Some \<lparr>df_text = ''new'', df_mode = 420, df_group = None\<rparr>"
proof -
  let ?i = "install_dovecot (demo_machine\<lparr>mc_torn := (\<lambda>p. if last p = ''y'' then Some None else None)\<rparr>) DOVECOT_CONF_DIR demo_settings
      (demo_generated @ [\<lparr>gf_path = [''etc'', ''dovecot'', ''y''], gf_text = ''new'', gf_mode = 420, gf_group = None\<rparr>]) True empty_report
      (demo_disk([''etc'', ''dovecot'', ''y''] \<mapsto> \<lparr>df_text = ''old'', df_mode = 384, df_group = None\<rparr>))"
  have "fst ?i = Inl (RollbackFailed [''etc'', ''dovecot'', ''y''])" by code_simp
  moreover have "snd ?i [''etc'', ''dovecot'', ''y''] = None" by code_simp
  moreover have "snd ?i [''etc'', ''dovecot'', ''x''] = Some \<lparr>df_text = ''new'', df_mode = 420, df_group = None\<rparr>" by code_simp
  moreover assume "?i = (i, d')"
  ultimately show ?thesis by simp
qed

section \<open>What an installation leaves\<close>

definition current :: "disk \<Rightarrow> generated_file \<Rightarrow> bool" where
  "current d g \<longleftrightarrow> (case d (gf_path g) of None \<Rightarrow> False | Some f \<Rightarrow> df_text f = gf_text g)"

lemma write_one_ok:
  assumes "write_one m g st = (None, st')" and "gf_path g \<noteq> []"
  shows "current (snd st') g" and "q \<noteq> gf_path g \<Longrightarrow> q \<notin> backup_paths m \<Longrightarrow> snd st' q = snd st q"
proof -
  have "backup_of m (gf_path g) \<in> backup_paths m" using assms(2) by (auto simp: backup_paths_def)
  then show "q \<noteq> gf_path g \<Longrightarrow> q \<notin> backup_paths m \<Longrightarrow> snd st' q = snd st q"
    using assms(1)
    by (auto simp: write_one_def write_atomic_def put_in_place_def Let_def split: prod.splits sum.splits option.splits if_splits)
  show "current (snd st') g"
    using assms(1)
    by (auto simp: current_def write_one_def write_atomic_def put_in_place_def Let_def split: prod.splits sum.splits option.splits if_splits)
qed

lemma write_files_ok:
  assumes "write_files m gs st = (None, st')" and "distinct (map gf_path gs)" and "[] \<notin> gf_path ` set gs"
    and "gf_path ` set gs \<inter> backup_paths m = {}"
  shows "(\<forall>g \<in> set gs. current (snd st') g) \<and> (\<forall>q. q \<notin> gf_path ` set gs \<union> backup_paths m \<longrightarrow> snd st' q = snd st q)"
  using assms
proof (induction gs arbitrary: st)
  case (Cons g gs)
  obtain st1 where w: "write_one m g st = (None, st1)" and r: "write_files m gs st1 = (None, st')"
    using Cons.prems(1) by (auto split: prod.splits option.splits)
  have p: "gf_path g \<noteq> []" "gf_path g \<notin> gf_path ` set gs \<union> backup_paths m" using Cons.prems by auto
  have later: "(\<forall>g \<in> set gs. current (snd st') g) \<and> (\<forall>q. q \<notin> gf_path ` set gs \<union> backup_paths m \<longrightarrow> snd st' q = snd st1 q)"
    using Cons.IH [OF r] Cons.prems by auto
  then have "current (snd st') g" using write_one_ok(1) [OF w p(1)] p(2) by (simp add: current_def)
  then show ?case using later write_one_ok(2) [OF w p(1)] by auto
qed simp

lemma later_steps_elsewhere:
  assumes "write_master_user m dir s st = (None, st2)" and "disable_system_auth m dir (remove_retired m dir st2) = (None, st3)"
    and "q \<noteq> dir @ [''master-users'']" "q \<noteq> dir @ AUTH_CONF" "q \<notin> retired_paths dir" "q \<notin> backup_paths m"
  shows "snd st3 q = snd st q"
proof -
  have "snd st2 q = snd st q"
    using assms write_one_ok(2) [of m "master_users_file dir s _" st st2 q]
    by (auto simp: write_master_user_def master_users_file_def split: if_splits option.splits)
  moreover have "snd (remove_retired m dir st2) q = snd st2 q"
    using assms(5) by (cases st2) (auto simp: remove_retired_def remove_one_def RETIRED_def retired_paths_def split: option.splits)
  moreover have "snd st3 q = snd (remove_retired m dir st2) q"
  proof (cases "st3 = remove_retired m dir st2")
    case False
    then obtain g where "write_one m g (remove_retired m dir st2) = (None, st3)" "gf_path g = dir @ AUTH_CONF"
      using assms(2) by (auto simp: disable_system_auth_def split: if_splits option.splits)
    then show ?thesis using write_one_ok(2) [of m g _ st3 q] assms(4,6) by (auto simp: AUTH_CONF_def)
  qed simp
  ultimately show ?thesis by simp
qed

lemma installed_files:
  assumes places: "own_places m dir gs" and ok: "install_dovecot m dir s gs reload report d = (Inr r, d')"
  shows "\<forall>g \<in> set gs. \<exists>f. d' (retarget dir (gf_path g)) = Some f \<and> df_text f = gf_text g"
    and "dr_stale (drift_of m dir (Some gs) d') = []"
    and "q \<notin> (\<lambda>g. retarget dir (gf_path g)) ` set gs \<union> backup_paths m \<union> retired_paths dir \<union>
      {dir @ [''master-users''], dir @ AUTH_CONF} \<Longrightarrow> d' q = d q"
proof -
  let ?gs = "map (\<lambda>g. g\<lparr>gf_path := retarget dir (gf_path g)\<rparr>) gs"
  obtain st1 st2 cs where f: "write_files m ?gs (ir_changes report, d) = (None, st1)"
    and g: "write_master_user m dir s st1 = (None, st2)"
    and h: "disable_system_auth m dir (remove_retired m dir st2) = (None, cs, d')"
    using ok by (auto simp: install_dovecot_def stage_def Let_def split: prod.splits option.splits if_splits)
  have W: "distinct (map gf_path ?gs)" "[] \<notin> gf_path ` set ?gs" "gf_path ` set ?gs \<inter> backup_paths m = {}"
    using places backup_paths_last by (fastforce simp: own_places_def Let_def list_all_iff comp_def)+
  note written = write_files_ok [OF f W]
  have "current d' g" if "g \<in> set ?gs" for g
  proof -
    have "gf_path g \<notin> backup_paths m" using W(3) that by auto
    then have "d' (gf_path g) = snd st1 (gf_path g)"
      using later_steps_elsewhere [OF g h, of "gf_path g"] that places
      by (auto simp: own_places_def Let_def list_all_iff)
    moreover have "current (snd st1) g" using written that by blast
    ultimately show ?thesis by (simp only: current_def)
  qed
  then show texts: "\<forall>g \<in> set gs. \<exists>f. d' (retarget dir (gf_path g)) = Some f \<and> df_text f = gf_text g"
    by (fastforce simp: current_def split: option.splits)
  then show "dr_stale (drift_of m dir (Some gs) d') = []"
    by (auto simp: drift_of_def Let_def filter_empty_conv)
  assume q: "q \<notin> (\<lambda>g. retarget dir (gf_path g)) ` set gs \<union> backup_paths m \<union> retired_paths dir \<union>
    {dir @ [''master-users''], dir @ AUTH_CONF}"
  then have "d' q = snd st1 q" using later_steps_elsewhere [OF g h, of q] by simp
  also have "\<dots> = d q" using written q by (simp add: image_image)
  finally show "d' q = d q" .
qed

text \<open>
  C17. An installation that succeeded put every generated file in its place with its text, so none is reported
  as having drifted, and left every other file alone but the backups, the retired script, the master
  user's file and the stock authentication file.
\<close>

theorem installed_files_are_current:
  assumes "own_places m dir gs" and "install_dovecot m dir s gs reload report d = (Inr r, d')"
  shows "list_all (\<lambda>g. \<exists>f. d' (retarget dir (gf_path g)) = Some f \<and> df_text f = gf_text g) gs \<and>
    dr_stale (drift_of m dir (Some gs) d') = [] \<and>
    (\<forall>q. q \<notin> (\<lambda>g. retarget dir (gf_path g)) ` set gs \<union> backup_paths m \<union> retired_paths dir \<union>
      {dir @ [''master-users''], dir @ AUTH_CONF} \<longrightarrow> d' q = d q)"
  unfolding list_all_iff by (intro conjI allI impI; rule installed_files [OF assms]; assumption?)


theorem installed_files_are_current_witness:
  "dr_stale (drift_of demo_machine DOVECOT_CONF_DIR (Some demo_generated) demo_disk) = [''x''] \<and>
   dr_stale (drift_of (demo_machine\<lparr>mc_doveconf := \<lambda>d. None\<rparr>) DOVECOT_CONF_DIR (Some demo_generated)
     (snd (install_dovecot (demo_machine\<lparr>mc_doveconf := \<lambda>d. None\<rparr>) DOVECOT_CONF_DIR demo_settings demo_generated True
        empty_report demo_disk))) = []"
proof -
  let ?m = "demo_machine\<lparr>mc_doveconf := \<lambda>d. None\<rparr>"
  let ?i = "install_dovecot ?m DOVECOT_CONF_DIR demo_settings demo_generated True empty_report demo_disk"
  have "isl (fst ?i) = False"
    by code_simp
  then obtain r where i: "?i = (Inr r, snd ?i)" by (cases "fst ?i") (auto simp: prod_eq_iff)
  have "dr_stale (drift_of demo_machine DOVECOT_CONF_DIR (Some demo_generated) demo_disk) = [''x'']"
    by (simp add: drift_of_def demo_machine_def demo_generated_def demo_disk_def retarget_def)
  then show ?thesis
    using installed_files_are_current [OF demo_places [of "\<lambda>d. None"] i] by simp
qed

text \<open>The stock include is gone after it was commented out, so a second installation finds nothing to do there.\<close>

lemma split_char_append: "split_char c (a @ c # b) = split_char c a @ split_char c b"
  by (induction c a rule: split_char.induct) (auto split: list.splits)

lemma split_char_single: "c \<notin> set s \<Longrightarrow> split_char c s = [s]"
  by (induction c s rule: split_char.induct) (auto split: list.splits)

lemma split_char_lines: "xs \<noteq> [] \<Longrightarrow> split_char c (join [c] xs) = concat (map (split_char c) xs)"
proof (induction xs)
  case (Cons x xs)
  then show ?case by (cases xs) (simp_all add: split_char_append)
qed simp

lemma commented_line: "list_all blank i \<Longrightarrow> system_auth_line (i @ CHR ''#'' # x) = None"
proof -
  assume i: "list_all blank i"
  have "\<not> blank CHR ''#''" by (simp add: blank_def)
  then have "dropWhile blank (i @ CHR ''#'' # x) = CHR ''#'' # x" using i by (simp add: dropWhile_append list_all_iff)
  then show ?thesis by (simp add: system_auth_line_def Let_def starts_with_def)
qed

lemma no_line_included:
  assumes "LF \<notin> set l" and "l' \<in> set (split_char LF (disable_line l))"
  shows "system_auth_line l' = None"
proof (cases "system_auth_line l")
  case None
  then show ?thesis using assms by (simp add: split_char_single disable_line_def)
next
  case (Some ir)
  obtain i r where ir: "ir = (i, r)" by (cases ir)
  then have "i = takeWhile blank l" "r = dropWhile blank l"
    using Some by (auto simp: system_auth_line_def Let_def split: if_splits)
  then have i: "list_all blank i" "LF \<notin> set i" "LF \<notin> set r"
    using assms(1) by (auto simp: list_all_iff dest: set_takeWhileD set_dropWhileD)
  let ?a = "i @ ''# Disabled by Lightr, which authenticates every login itself.''"
  let ?b = "i @ ''# PAM was being tried first on each one. See docs/DEPLOY.md.''"
  let ?c = "i @ CHR ''#'' # r"
  have no: "LF \<notin> set ?a" "LF \<notin> set ?b" "LF \<notin> set ?c" using i by auto
  have "l' \<in> set (split_char LF (?a @ LF # ?b @ LF # ?c))" using assms(2) Some ir by (simp add: disable_line_def)
  then have "l' = ?a \<or> l' = ?b \<or> l' = ?c"
    unfolding split_char_append split_char_single [OF no(1)] split_char_single [OF no(2)] split_char_single [OF no(3)] by simp
  then show ?thesis using commented_line [OF i(1)] by auto
qed

text \<open>Commenting out the stock PAM include removes it: whatever the file holds, the result does not include it again.\<close>

theorem include_is_commented_out: "\<not> system_auth_included (without_system_auth t)"
proof -
  have "system_auth_line l' = None" if "l \<in> set (split_char LF t)" "l' \<in> set (split_char LF (disable_line l))" for l l'
    using no_line_included [OF _ that(2)] split_char_no_sep [OF that(1)] by auto
  moreover have "map disable_line (split_char LF t) \<noteq> []" by simp
  ultimately show ?thesis
    by (auto simp: system_auth_included_def without_system_auth_def split_char_lines)
qed

end
