(* ===== verification/Spec2Isabelle.thy ===== *)
theory Spec2Isabelle
  imports Sender Queue_Steps Api_Admin Maildir Smtp_Session Sessions Mailbox_Api Dns_Records Events
    Checkpassword Manage
begin

text \<open>
  Lightr is a mail server in Python that speaks SMTP and HTTP to the world and leaves mailboxes to
  Dovecot. This library models \<open>src/src/lightr/\<close>; a path below is relative to it.

  \<^bold>\<open>How the parts work together.\<close> A message comes in through the SMTP listeners (\<open>mail/smtp.py\<close>): one
  receives mail for our domains, one takes submissions from people who logged in. Each message is
  checked (\<open>mail/authentication.py\<close>, \<open>mail/reputation.py\<close>, \<open>mail/spam.py\<close>), stamped (\<open>mail/headers.py\<close>),
  and each recipient routed (\<open>mail/routing.py\<close>) over the directory (\<open>models.py\<close>, \<open>repo.py\<close>). What is
  local goes to Dovecot (\<open>dovecot/lmtp.py\<close>); what is not goes to the outbound queue (\<open>mail/queue.py\<close>), from
  which the sender (\<open>mail/sender.py\<close>) delivers it, directly or through a smarthost (\<open>mail/relay.py\<close>), signed
  (\<open>mail/dkim.py\<close>). Aliases that forward keep the two sides apart (\<open>mail/replies.py\<close>). Bounces
  (\<open>mail/bounce.py\<close>) fill the suppression list that routing reads. The HTTP API (\<open>api/\<close>) administers the
  directory with keys (\<open>apikeys.py\<close>) and opens mailboxes over IMAP (\<open>dovecot/aioimap.py\<close>,
  \<open>dovecot/mailbox.py\<close>); people's logins, there and in Dovecot, are decided in \<open>auth.py\<close>. Filter rules
  become Sieve scripts (\<open>dovecot/sieve.py\<close>). Events go to webhooks (\<open>webhooks/\<close>). Dovecot's own configuration
  is written by \<open>dovecot/manage.py\<close>.

  \<^bold>\<open>Which theory models what.\<close>
  \<^item> \<open>Prelude\<close>, \<open>Py_Text\<close>, \<open>Numbers\<close>, \<open>Json\<close>, \<open>Mime\<close>, \<open>Ip\<close>: what the program uses of Python, as far as it
    uses it: exceptions as the left of a sum, dictionaries, SQL statements on tables of rows, the methods of
    \<open>str\<close>, floats as rationals, JSON, parsed messages, \<open>ipaddress\<close>.
  \<^item> \<open>Models\<close>, \<open>Repo\<close>: the records with their validators, the four repositories and the constraints of
    \<open>db/schema.py\<close>. \<open>db_ok\<close> is the invariant of the directory: unique ids, names and addresses,
    domains in stored organizations, accounts in stored domains, normalised names. Aliases may outlive their domain.
  \<^item> \<open>Retry\<close>, \<open>Queue\<close>, \<open>Queue_Steps\<close>, \<open>Sender\<close>, \<open>Relay\<close>: the queue, its concurrent use as a step relation (one SQL
    statement a step), one attempt and one drain, the smarthost.
  \<^item> \<open>Routing\<close>, \<open>Replies\<close>, \<open>Forwarding\<close>, \<open>Bounce\<close>: the decision for one recipient, the expansion of aliases, reply
    tokens, the copy that leaves and the reply that comes back, delivery reports and the suppression list.
  \<^item> \<open>Mail_Auth\<close>, \<open>Reputation\<close>, \<open>Spam\<close>, \<open>Headers\<close>: the checks, the score, the stamped fields.
  \<^item> \<open>Smtp\<close>, \<open>Smtp_Safety\<close>, \<open>Smtp_Session\<close>, \<open>Lmtp\<close>: delivery of one message as one function, what it can cause,
    the sessions (every handler of the listener, reachable states by an inductive relation), LMTP.
  \<^item> \<open>Ratelimit\<close>, \<open>Apikeys\<close>, \<open>Ssrf\<close>, \<open>Webhooks\<close>: token buckets, keys, the guard of webhook addresses, signed events.
  \<^item> \<open>Auth\<close>, \<open>Providers\<close>, \<open>Checkpassword\<close>: passwords, external providers, the endpoints Dovecot asks and the
    program it asks them with.
  \<^item> \<open>Api_Scope\<close>, \<open>Api_Directory\<close>, \<open>Api_Admin\<close>: \<open>api/auth.py\<close> and the handlers of \<open>api/app.py\<close> with their middleware.
  \<^item> \<open>Maildir\<close>, \<open>Sieve\<close>, \<open>Filters\<close>, \<open>Manage\<close>: where mail lies, the Sieve compiler, the stored rules with their requests
    and the script they become, Dovecot's configuration put in place and taken back.
  \<^item> \<open>Imap\<close>, \<open>Mailbox\<close>, \<open>Mailbox_Api\<close>, \<open>Sessions\<close>, \<open>Events\<close>: the IMAP client, the mailbox over it, the \<open>/v1/mailbox\<close>
    requests, signing in, and the socket that reports changes.
  \<^item> \<open>Dns_Records\<close>: the records a domain should publish, their check, DKIM keys and signing.

  Names are the source's. A constant of Python is the constant of the same name; \<open>Class.method\<close> is
  a function named after the class and the method (\<open>AliasRepo.resolve\<close> is \<open>alias_resolve\<close>) or, where
  no other has it, after the method. State is passed and returned: the database is a record of its tables, a
  request that raises returns the left summand and its transaction leaves the tables as they were. What a
  process keeps in memory (limiters, sessions) is a value threaded in the same way.

  \<^bold>\<open>Interfaces.\<close> \<open>retry_schedule\<close> (Retry) is the back-off contract and is interpreted by the queue and by the
  webhook log; \<open>token_gate\<close> (Ratelimit) is what a limiter relies on of its buckets, interpreted on the
  code's bucket; \<open>suppression_store\<close> (Bounce) is what recording a report relies on of the suppression table.

  \<^bold>\<open>What the lemmas show.\<close> Each component theory has the rules of its operations on every branch (mostly
  \<open>simp\<close> rules and elimination rules), its invariant with a preservation lemma per operation, and the
  properties marked C\<open>n\<close>. In this order: no open relay, submission by owners only, guarded sessions, loops
  that end; mail that is copied before it is removed; filters that mean what they say and are installed
  whole; installations that are complete when they succeed and undone when they fail, unless the undoing fails; a queue that delivers once and fails boundedly;
  routing as reachability; a directory that stays well formed; keys, scopes and sessions that open what they name and
  nothing else; limiters, addresses and tokens. Some properties state a fault the code has, as it has it:
  \<open>full_mailbox_is_final\<close>, \<open>uuid_mailbox_rules_foreign_alias\<close>, \<open>rule_names_become_code\<close>,
  \<open>refused_filters_go_live\<close>, \<open>guesses_are_not_bounded\<close>; \<open>verified_iff_published\<close> and \<open>updates_keep_up\<close> say where the code
  does less than the repository's documents. \<open>mail_is_copied_before_removal\<close> holds for commands without line breaks
  in their arguments, which the code does not ensure (\<open>queries_break_lines\<close>). This theory itself holds what
  spans components: from a recorded bounce to a refused recipient.

  \<^bold>\<open>Parameters.\<close> Code outside \<open>src/\<close> is an argument: the SMTP client, DNS, DKIM, SPF and rspamd (\<open>outside\<close>,
  \<open>smtp_env\<close>), Dovecot's IMAP server (\<open>dovecot\<close>, any function from the commands so far to an answer), the server that runs
  Sieve scripts (\<open>sieve_engine\<close>, with laws of RFC 5228 as hypotheses and a small instance that keeps them), bcrypt,
  SHA-256, HMAC, the \<open>email\<close> package's parsing and writing (\<open>mail_reader\<close>, \<open>mail_lib\<close>), LDAP and HTTP
  (\<open>outside_auth\<close>), the machine on which Sieve scripts and configuration are installed. The clock, fresh ids and
  random secrets are arguments. A property that needs something of one of them says so.

  \<^bold>\<open>Bounds.\<close> Every function is total, without fuel. Expanding aliases recurses to \<open>MAX_ALIAS_DEPTH\<close>, a limit of the code, and
  \<open>expand_fails_iff_loop\<close> says when it is met; \<open>MAX_HOPS\<close> is the code's bound on forwarding. Loops over
  tables and lines are structural. The endless loops of the program are step relations, or their body is modelled.

  \<^bold>\<open>Not modelled.\<close>
  \<^item> \<open>config.py\<close>, \<open>configtemplate.py\<close>, \<open>preflight.py\<close>: a settings file read by Pydantic and TOML, and checks of the
    machine. The settings that matter to a component are arguments of it.
  \<^item> \<open>server.py\<close>, \<open>backup.py\<close>, \<open>mailtransfer.py\<close>: starting tasks, and archives and processes on disk.
  \<^item> \<open>db/engine.py\<close>, \<open>db/migrate.py\<close>, \<open>db/provision.py\<close>: calls of SQLAlchemy and Alembic.
  \<^item> \<open>cli/\<close>: presentation over the repositories; what it does to the queue is a step of \<open>Queue_Steps\<close>.
  \<^item> \<open>dovecot/config.py\<close>, \<open>dovecot/userdb.py\<close>, \<open>dovecot/doveadm.py\<close>, \<open>api/autoconfig.py\<close>: texts filled into templates and
    commands run; installing them is modelled for any text.
  \<^item> Time limits, heartbeats, IDLE, background tasks and logs; two requests of one process interleave only where
    a theory says so (\<open>Queue_Steps\<close>, \<open>Events\<close>).
  \<^item> Characters above U+00FF; rounding of floats.
\<close>

section \<open>From a bounce to a refusal\<close>

lemma routed_reason:
  "ro_reason (route_account r a l d acc db) \<noteq> Some SUPPRESSED"
  "ro_reason (route_alias r a l d db) \<noteq> Some SUPPRESSED"
  by (auto simp: route_defs Let_def split: option.splits sum.splits)

lemma reason_suppressed_iff:
  assumes "CHR ''@'' \<in> set recipient"
  shows "ro_reason (route_to now rdb recipient) = Some SUPPRESSED \<longleftrightarrow>
    is_suppressed (norm_addr recipient) (rt_suppressed rdb)"
proof -
  have "CHR ''@'' \<in> set (norm_addr recipient)" using assms by (simp add: at_in_norm_addr)
  then show ?thesis
    by (auto simp: route_to_def Let_def split_beta routed_reason reject_def plain_route_def split: sum.splits option.splits)
qed

text \<open>
  C24. A bounce stops mail: once the failures of a report are recorded, an address is refused as
  suppressed exactly when it was on the list before or the report says it failed for good or
  complained, in whatever spelling either is written and whatever the rest of the directory says.
\<close>

theorem hard_bounce_stops_mail:
  assumes "CHR ''@'' \<in> set recipient"
  shows "ro_reason (route_to now (rdb\<lparr>rt_suppressed := bd_suppressed (record_all bs org_id domain_id noted db)\<rparr>) recipient)
      = Some SUPPRESSED \<longleftrightarrow>
    suppressed_now recipient db \<or>
    (\<exists>(i, b) \<in> set bs. b_type b \<in> {HARD, COMPLAINT} \<and> norm_addr recipient = norm_addr (b_recipient b))"
proof -
  have "is_suppressed (norm_addr recipient) (bd_suppressed d) \<longleftrightarrow> suppressed_now recipient d" for d
    by (simp add: is_suppressed_def suppressed_now_def norm_addr_def strip_lower)
  then show ?thesis by (simp add: reason_suppressed_iff [OF assms] suppressed_now_record_all)
qed

definition unknown_user :: bounce where
  "unknown_user = \<lparr>b_recipient = '' Eve@Else.org'', b_type = HARD, b_status = Some ''5.1.1'', b_diagnostic = None,
     b_remote_mta = None, b_original_message_id = None\<rparr>"

lemma hard_bounce_stops_mail_witness:
  "ro_reason (route_to 0 (sample_rdb\<lparr>rt_suppressed :=
     bd_suppressed (record_all [(9, unknown_user)] 1 2 0 \<lparr>bd_bounces = [], bd_suppressed = []\<rparr>)\<rparr>) ''eve@else.org'') = Some SUPPRESSED"
proof -
  have "CHR ''@'' \<in> set ''eve@else.org''" by simp
  moreover have "norm_addr ''eve@else.org'' = norm_addr (b_recipient unknown_user)" by code_simp
  moreover have "b_type unknown_user = HARD" by (simp add: unknown_user_def)
  ultimately show ?thesis by (subst hard_bounce_stops_mail) simp_all
qed

end
